(* ===== verification/Prelude.thy ===== *)
theory Prelude imports Main "HOL-Library.Word" "HOL-Library.Monad_Syntax" "HOL-Library.Multiset" begin

section \<open>Prelude: machine types, faults, semaphores, reachable states\<close>

text \<open>
  What every component of the development shares.
  \<^item> Types: unsigned C integers as words, addresses and semaphore counters as naturals.
  \<^item> Faults: an operation that dereferences an unmapped address, traps, or writes outside an
    allocation yields \<open>None\<close>. Operations are composed with the option monad.
  \<^item> POSIX semaphores: \<open>sem_wait\<close> is enabled only when the counter is positive.
  \<^item> State machines: the closure of a step relation from its initial states, and the locale
    \<open>safe_machine\<close> that turns a one-step preservation lemma into an invariant of every
    reachable state.
  \<^item> The theorem collections \<open>model_defs\<close> (definitions unfolded to evaluate the model)
    and \<open>seq_simps\<close> (facts on lists and paths used by the simplifier).
\<close>

named_theorems model_defs
named_theorems seq_simps

type_synonym u8 = "8 word"
type_synonym u16 = "16 word"
type_synonym u32 = "32 word"
type_synonym u64 = "64 word"
type_synonym addr = nat

abbreviation (input) NULL :: addr where "NULL \<equiv> 0"

subsection \<open>Semaphores\<close>

definition sem_wait :: "nat \<Rightarrow> nat option" where
  "sem_wait n = (if 0 < n then Some (n - 1) else None)"

definition sem_post :: "nat \<Rightarrow> nat" where
  "sem_post n = Suc n"

lemma sem_wait_Some_iff: "sem_wait n = Some m \<longleftrightarrow> n = Suc m"
  by (auto simp: sem_wait_def)

lemma sem_wait_None_iff [simp]: "sem_wait n = None \<longleftrightarrow> n = 0"
  by (simp add: sem_wait_def)

lemma sem_wait_0 [simp]: "sem_wait 0 = None"
  by (simp add: sem_wait_def)

lemma sem_wait_Suc [simp]: "sem_wait (Suc n) = Some n"
  by (simp add: sem_wait_def)

subsection \<open>Outcomes of a call\<close>

text \<open>
  A call of a C function returns, waits on a semaphore whose counter is zero, or has undefined
  behaviour (out of bounds access, signed overflow).
\<close>

datatype 'a run = Done 'a | Blocked | Fault

fun bind_run :: "'a run \<Rightarrow> ('a \<Rightarrow> 'b run) \<Rightarrow> 'b run" where
  "bind_run (Done a) f = f a"
| "bind_run Blocked f = Blocked"
| "bind_run Fault f = Fault"

definition run_of :: "'a option \<Rightarrow> 'a run" where
  "run_of x = (case x of Some a \<Rightarrow> Done a | None \<Rightarrow> Fault)"

lemma run_of_simps [simp]: "run_of (Some a) = Done a" "run_of None = Fault"
  by (simp_all add: run_of_def)

lemma bind_run_Done_iff: "bind_run m f = Done b \<longleftrightarrow> (\<exists>a. m = Done a \<and> f a = Done b)"
  by (cases m) auto

text \<open>A signed 32-bit \<open>int\<close>: a result outside the range is undefined behaviour.\<close>

definition c_int :: "int \<Rightarrow> int option" where
  "c_int i = (if - (2 ^ 31) \<le> i \<and> i < 2 ^ 31 then Some i else None)"

lemma c_int_in [simp]: "- 2147483648 \<le> i \<Longrightarrow> i < 2147483648 \<Longrightarrow> c_int i = Some i"
  by (simp add: c_int_def)

text \<open>Array elements by \<open>int\<close> index, inside the allocation only.\<close>

definition arr_get :: "'a list \<Rightarrow> int \<Rightarrow> 'a option" where
  "arr_get xs i = (if 0 \<le> i \<and> i < int (length xs) then Some (xs ! nat i) else None)"

definition arr_set :: "'a list \<Rightarrow> int \<Rightarrow> 'a \<Rightarrow> 'a list option" where
  "arr_set xs i v = (if 0 \<le> i \<and> i < int (length xs) then Some (xs[nat i := v]) else None)"

lemma arr_get_nat [simp]: "i < length xs \<Longrightarrow> arr_get xs (int i) = Some (xs ! i)"
  by (simp add: arr_get_def)

lemma arr_set_nat [simp]: "i < length xs \<Longrightarrow> arr_set xs (int i) v = Some (xs[i := v])"
  by (simp add: arr_set_def)

lemma arr_get_None_iff: "arr_get xs i = None \<longleftrightarrow> i < 0 \<or> int (length xs) \<le> i"
  by (auto simp: arr_get_def)

lemma arr_set_None_iff: "arr_set xs i v = None \<longleftrightarrow> i < 0 \<or> int (length xs) \<le> i"
  by (auto simp: arr_set_def)

subsection \<open>Allocation\<close>

text \<open>
  Where ownership matters, the heap is the list of live blocks and the next fresh block number.
  Freeing NULL does nothing, freeing a block that is not live is the fault \<open>None\<close>.
\<close>

record mem =
  mem_live :: "addr list"
  mem_next :: addr

definition mem_alloc :: "mem \<Rightarrow> addr \<times> mem" where
  "mem_alloc m = (mem_next m, m\<lparr>mem_live := mem_next m # mem_live m, mem_next := Suc (mem_next m)\<rparr>)"

definition mem_free :: "addr \<Rightarrow> mem \<Rightarrow> mem option" where
  "mem_free a m = (if a = NULL then Some m
     else if a \<in> set (mem_live m) then Some (m\<lparr>mem_live := removeAll a (mem_live m)\<rparr>) else None)"

definition mem_ok :: "mem \<Rightarrow> bool" where
  "mem_ok m \<longleftrightarrow> 0 < mem_next m \<and> (\<forall>a \<in> set (mem_live m). 0 < a \<and> a < mem_next m)"

fun mem_free_all :: "addr list \<Rightarrow> mem \<Rightarrow> mem option" where
  "mem_free_all [] m = Some m"
| "mem_free_all (a # as) m = Option.bind (mem_free a m) (mem_free_all as)"

lemma mem_alloc_ok: "mem_ok m \<Longrightarrow> mem_alloc m = (a, m') \<Longrightarrow>
    mem_ok m' \<and> 0 < a \<and> a \<notin> set (mem_live m) \<and> mem_live m' = a # mem_live m"
  by (auto simp: mem_alloc_def mem_ok_def less_Suc_eq)

lemma mem_free_ok: "mem_ok m \<Longrightarrow> mem_free a m = Some m' \<Longrightarrow> mem_ok m'"
  by (auto simp: mem_free_def mem_ok_def split: if_splits)

lemma mem_free_live: "mem_free a m = Some m' \<Longrightarrow> set (mem_live m') = set (mem_live m) - {a} \<or> a = NULL \<and> m' = m"
  by (auto simp: mem_free_def split: if_splits)

lemma mem_free_twice: "a \<noteq> NULL \<Longrightarrow> mem_free a m = Some m' \<Longrightarrow> a \<notin> set (mem_live m')"
  by (auto simp: mem_free_def split: if_splits)

lemma mem_free_dead: "a \<noteq> NULL \<Longrightarrow> a \<notin> set (mem_live m) \<Longrightarrow> mem_free a m = None"
  by (simp add: mem_free_def)

lemma mem_free_all_live: "mem_free_all as m = Some m' \<Longrightarrow> set (mem_live m') \<subseteq> set (mem_live m)"
  by (induction as arbitrary: m) (auto simp: mem_free_def split: if_splits, fastforce+)

subsection \<open>Lists\<close>

lemma list_update_mset_swap:
  assumes "i < length xs"
  shows "add_mset (xs ! i) (mset (xs[i := x])) = add_mset x (mset xs)"
  using assms
proof (induction xs arbitrary: i)
  case Nil
  then show ?case by simp
next
  case (Cons y ys)
  then show ?case by (cases i) (auto simp: add_mset_commute)
qed

lemma rotate_take_drop_nth:
  assumes "i < length xs"
  shows "drop i xs = xs ! i # drop (Suc i) xs"
  using assms by (rule Cons_nth_drop_Suc [symmetric])

lemma nat_one_plus [simp]: "nat (1 + int k) = Suc k"
  by (simp add: nat_add_distrib)

subsection \<open>Option monad\<close>

lemma bind_Some_iff [simp]: "(Option.bind m f = Some b) \<longleftrightarrow> (\<exists>a. m = Some a \<and> f a = Some b)"
  by (cases m) auto

lemma bind_neq_None_iff: "(Option.bind m f \<noteq> None) \<longleftrightarrow> (\<exists>a. m = Some a \<and> f a \<noteq> None)"
  by (cases m) auto

fun iterate_opt :: "nat \<Rightarrow> ('s \<Rightarrow> 's option) \<Rightarrow> 's \<Rightarrow> 's option" where
  "iterate_opt 0 f s = Some s"
| "iterate_opt (Suc n) f s = Option.bind (f s) (iterate_opt n f)"

subsection \<open>Reachable states of a step relation\<close>

inductive reach :: "('s \<Rightarrow> bool) \<Rightarrow> ('s \<Rightarrow> 's \<Rightarrow> bool) \<Rightarrow> 's \<Rightarrow> bool" for init step where
  reach_init: "init s \<Longrightarrow> reach init step s"
| reach_step: "reach init step s \<Longrightarrow> step s t \<Longrightarrow> reach init step t"

lemma reach_rtranclp: "reach init step s \<Longrightarrow> step\<^sup>*\<^sup>* s t \<Longrightarrow> reach init step t"
  by (rotate_tac, induction rule: rtranclp_induct) (auto intro: reach_step)

locale safe_machine =
  fixes init :: "'s \<Rightarrow> bool" and step :: "'s \<Rightarrow> 's \<Rightarrow> bool" and inv :: "'s \<Rightarrow> bool"
  assumes inv_init: "init s \<Longrightarrow> inv s"
    and inv_step: "inv s \<Longrightarrow> step s t \<Longrightarrow> inv t"
begin

lemma reach_inv: "reach init step s \<Longrightarrow> inv s"
  by (induction rule: reach.induct) (auto intro: inv_init inv_step)

lemma steps_inv: "step\<^sup>*\<^sup>* s t \<Longrightarrow> inv s \<Longrightarrow> inv t"
  by (induction rule: rtranclp_induct) (auto intro: inv_step)

end

end
