(* ===== verification/C_String.thy ===== *)
theory C_String imports Prelude begin

section \<open>C strings, numbers in text and bytes in memory\<close>

text \<open>
  The parts of the C library the program uses on strings, as functions on \<open>string\<close> (the
  characters before the terminating NUL): case-insensitive comparison and search, the number
  conversions \<open>%d\<close>, \<open>%zd\<close>, \<open>%zu\<close>, \<open>%lx\<close> in both directions, and the little endian bytes of the
  integers of a struct. The lemmas are the round trips the components need.
\<close>

unbundle bit_operations_syntax

subsection \<open>Comparison and search\<close>

definition to_lower :: "char \<Rightarrow> char" where
  "to_lower c = (let n = of_char c :: nat in if 65 \<le> n \<and> n \<le> 90 then char_of (n + 32) else c)"

lemma to_lower_Char [simp, code]: "to_lower (Char b0 b1 b2 b3 b4 b5 b6 b7) =
    (if \<not> b7 \<and> b6 \<and> \<not> b5 \<and> (b0 \<or> b1 \<or> b2 \<or> b3 \<or> b4) \<and> \<not> (b4 \<and> b3 \<and> (b2 \<or> b1 \<and> b0))
     then Char b0 b1 b2 b3 b4 True b6 b7 else Char b0 b1 b2 b3 b4 b5 b6 b7)"
  by (cases b0; cases b1; cases b2; cases b3; cases b4; cases b5; cases b6; cases b7;
      simp add: to_lower_def of_char_def char_of_def Let_def bit_Suc_0_iff)

definition str_case_eq :: "string \<Rightarrow> string \<Rightarrow> bool" where
  "str_case_eq a b \<longleftrightarrow> map to_lower a = map to_lower b"

fun strcasestr :: "string \<Rightarrow> string \<Rightarrow> string option" where
  "strcasestr h n = (if take (length n) (map to_lower h) = map to_lower n then Some h
     else case h of [] \<Rightarrow> None | _ # t \<Rightarrow> strcasestr t n)"

fun strchr :: "string \<Rightarrow> char \<Rightarrow> string option" where
  "strchr [] c = None"
| "strchr (x # xs) c = (if x = c then Some (x # xs) else strchr xs c)"

declare strcasestr.simps [simp del]

lemma strcasestr_Nil: "n \<noteq> [] \<Longrightarrow> strcasestr [] n = None"
  by (simp add: strcasestr.simps)

lemma strcasestr_Cons: "strcasestr (c # t) n =
    (if take (length n) (map to_lower (c # t)) = map to_lower n then Some (c # t) else strcasestr t n)"
  by (subst strcasestr.simps) simp

lemmas strcasestr_eval = strcasestr_Cons strcasestr_Nil

lemma strcasestr_code [code]:
  "strcasestr [] n = (if n = [] then Some [] else None)"
  "strcasestr (c # t) n =
    (if take (length n) (map to_lower (c # t)) = map to_lower n then Some (c # t) else strcasestr t n)"
  by (simp_all add: strcasestr.simps [of "[]"] strcasestr_Cons)

text \<open>The search finds exactly the texts with an occurrence, up to case.\<close>

lemma strcasestr_iff: "strcasestr h n \<noteq> None \<longleftrightarrow>
    (\<exists>a b c. h = a @ b @ c \<and> str_case_eq b n)"
proof (induction h)
  case Nil
  then show ?case
    by (auto simp: strcasestr.simps [of "[]"] str_case_eq_def)
next
  case (Cons x h)
  show ?case
  proof (cases "take (length n) (map to_lower (x # h)) = map to_lower n")
    case True
    then have "x # h = [] @ take (length n) (x # h) @ drop (length n) (x # h)"
        "str_case_eq (take (length n) (x # h)) n"
      by (simp_all add: str_case_eq_def take_map [symmetric] del: list.map)
    with True show ?thesis
      by (subst strcasestr_Cons) (metis option.distinct(1))
  next
    case False
    have "(\<exists>a b c. x # h = a @ b @ c \<and> str_case_eq b n) \<longleftrightarrow> (\<exists>a b c. h = a @ b @ c \<and> str_case_eq b n)"
    proof
      assume "\<exists>a b c. x # h = a @ b @ c \<and> str_case_eq b n"
      then obtain a b c where e: "x # h = a @ b @ c" "str_case_eq b n"
        by blast
      moreover have "a \<noteq> []"
      proof
        assume "a = []"
        with e have "take (length n) (map to_lower (x # h)) = map to_lower n"
          by (metis append_Nil str_case_eq_def length_map map_append append_eq_conv_conj)
        with False show False by blast
      qed
      ultimately show "\<exists>a b c. h = a @ b @ c \<and> str_case_eq b n"
        by (cases a) auto
    next
      assume "\<exists>a b c. h = a @ b @ c \<and> str_case_eq b n"
      then show "\<exists>a b c. x # h = a @ b @ c \<and> str_case_eq b n"
        by (metis append_Cons)
    qed
    with False Cons.IH show ?thesis
      by (subst strcasestr_Cons) simp
  qed
qed

subsection \<open>Numbers in text\<close>

definition digit_char :: "nat \<Rightarrow> char" where
  "digit_char d = char_of (if d < 10 then 48 + d else 87 + d)"

definition digit_val :: "nat \<Rightarrow> char \<Rightarrow> nat option" where
  "digit_val b c = (let n = of_char c :: nat;
     v = (if 48 \<le> n \<and> n \<le> 57 then n - 48 else if 97 \<le> n \<and> n \<le> 122 then n - 87
          else if 65 \<le> n \<and> n \<le> 90 then n - 55 else b)
     in if v < b then Some v else None)"

function show_base :: "nat \<Rightarrow> nat \<Rightarrow> string" where
  "show_base b n = (if b < 2 \<or> n < b then [digit_char n]
     else show_base b (n div b) @ [digit_char (n mod b)])"
  by pat_completeness auto
termination by (relation "measure snd") auto

declare show_base.simps [simp del]

text \<open>\<open>strtoul\<close> without its prefix: the longest run of digits, and the rest of the text.\<close>

fun scan_digits :: "nat \<Rightarrow> nat \<Rightarrow> string \<Rightarrow> nat \<times> string" where
  "scan_digits b acc [] = (acc, [])"
| "scan_digits b acc (c # cs) = (case digit_val b c of
     None \<Rightarrow> (acc, c # cs) | Some v \<Rightarrow> scan_digits b (acc * b + v) cs)"

definition show_int :: "int \<Rightarrow> string" where
  "show_int i = (if i < 0 then CHR ''-'' # show_base 10 (nat (- i)) else show_base 10 (nat i))"

text \<open>The conversions \<open>%d\<close> and \<open>%zd\<close> of \<open>sscanf\<close>: no match leaves the target alone (\<open>None\<close>).\<close>

definition is_space :: "char \<Rightarrow> bool" where
  "is_space c \<longleftrightarrow> (of_char c :: nat) \<in> {9, 10, 11, 12, 13, 32}"

definition scan_int :: "string \<Rightarrow> int option" where
  "scan_int s = (case dropWhile is_space s of
     [] \<Rightarrow> None
   | c # cs \<Rightarrow>
      (let neg = (c = CHR ''-''); body = (if c = CHR ''-'' \<or> c = CHR ''+'' then cs else c # cs)
       in case body of [] \<Rightarrow> None
          | d # ds \<Rightarrow> if digit_val 10 d = None then None
              else let v = int (fst (scan_digits 10 0 body)) in Some (if neg then - v else v)))"

lemma digit_val_char [simp]: "d < b \<Longrightarrow> b \<le> 36 \<Longrightarrow> digit_val b (digit_char d) = Some d"
  by (auto simp: digit_val_def digit_char_def Let_def take_bit_nat_eq_self)

lemma scan_digits_append: "scan_digits b acc (xs @ ys) =
    (if snd (scan_digits b acc xs) = [] then scan_digits b (fst (scan_digits b acc xs)) ys
     else (fst (scan_digits b acc xs), snd (scan_digits b acc xs) @ ys))"
  by (induction xs arbitrary: acc) (auto split: option.splits)

lemma show_base_nonempty: "show_base b n \<noteq> []"
  by (subst show_base.simps) simp

lemma scan_show_base: "2 \<le> b \<Longrightarrow> b \<le> 36 \<Longrightarrow> scan_digits b 0 (show_base b n) = (n, [])"
proof (induction b n rule: show_base.induct)
  case (1 b n)
  show ?case
  proof (cases "n < b")
    case True
    with 1 show ?thesis by (subst show_base.simps) simp
  next
    case False
    with 1 have "scan_digits b 0 (show_base b (n div b)) = (n div b, [])" by simp
    with False 1 show ?thesis
      by (subst show_base.simps) (simp add: scan_digits_append)
  qed
qed

lemma show_base_hd: "2 \<le> b \<Longrightarrow> b \<le> 36 \<Longrightarrow> \<exists>d. d < b \<and> hd (show_base b n) = digit_char d"
proof (induction b n rule: show_base.induct)
  case (1 b n)
  then show ?case
    by (subst show_base.simps) (auto simp: show_base_nonempty)
qed

lemma scan_show_base_rest:
  assumes "2 \<le> b" "b \<le> 36" "rest = [] \<or> digit_val b (hd rest) = None"
  shows "scan_digits b 0 (show_base b n @ rest) = (n, rest)"
  using assms scan_show_base [OF assms(1,2), of n] by (cases rest) (auto simp: scan_digits_append)

lemma of_char_digit: "d < 10 \<Longrightarrow> of_char (digit_char d) = 48 + d"
  by (simp add: digit_char_def take_bit_nat_eq_self)

lemma digit_char_10:
  assumes "d < 10"
  shows "\<not> is_space (digit_char d)" "digit_char d \<noteq> CHR ''-''" "digit_char d \<noteq> CHR ''+''"
proof -
  show "\<not> is_space (digit_char d)"
    using assms by (simp add: is_space_def of_char_digit)
  have "of_char (digit_char d) \<noteq> (45 :: nat)" "of_char (digit_char d) \<noteq> (43 :: nat)"
    using assms by (simp_all add: of_char_digit)
  then show "digit_char d \<noteq> CHR ''-''" "digit_char d \<noteq> CHR ''+''"
    by auto
qed

lemma scan_show_int: "scan_int (show_int i) = Some i"
proof -
  obtain c cs where s: "show_base 10 (nat \<bar>i\<bar>) = c # cs"
    using show_base_nonempty by (meson list.exhaust)
  obtain d where d: "d < 10" "c = digit_char d"
    using show_base_hd [of 10 "nat \<bar>i\<bar>"] s by auto
  have v: "scan_digits 10 0 (c # cs) = (nat \<bar>i\<bar>, [])"
    using scan_show_base [of 10 "nat \<bar>i\<bar>"] s by simp
  show ?thesis
  proof (cases "i < 0")
    case True
    then have "show_int i = CHR ''-'' # c # cs"
      using s by (simp add: show_int_def)
    moreover have "\<not> is_space CHR ''-''"
      by (simp add: is_space_def)
    ultimately show ?thesis
      using True d v by (simp add: scan_int_def Let_def del: scan_digits.simps)
  next
    case False
    then have "show_int i = c # cs"
      using s by (simp add: show_int_def)
    then show ?thesis
      using False d v digit_char_10 [OF d(1)] by (simp add: scan_int_def Let_def del: scan_digits.simps)
  qed
qed

lemma show_base_length: "2 \<le> b \<Longrightarrow> n < b ^ Suc k \<Longrightarrow> length (show_base b n) \<le> Suc k"
proof (induction k arbitrary: n)
  case 0
  then show ?case by (subst show_base.simps) simp
next
  case (Suc k)
  then have "n div b < b ^ Suc k"
    by (simp add: less_mult_imp_div_less mult.commute)
  from Suc.IH [OF Suc.prems(1) this] show ?case
    by (subst show_base.simps) simp
qed

subsection \<open>Integers as little endian bytes\<close>

fun le_bytes :: "nat \<Rightarrow> u64 \<Rightarrow> u8 list" where
  "le_bytes 0 w = []"
| "le_bytes (Suc n) w = ucast w # le_bytes n (drop_bit 8 w)"

fun of_le :: "u8 list \<Rightarrow> u64" where
  "of_le [] = 0"
| "of_le (b # bs) = ucast b OR push_bit 8 (of_le bs)"

lemma le_bytes_length [simp]: "length (le_bytes n w) = n"
  by (induction n arbitrary: w) auto

lemma of_le_bytes: "of_le (le_bytes n w) = take_bit (8 * n) w"
proof (induction n arbitrary: w)
  case (Suc n)
  show ?case
    by (rule bit_eqI) (auto simp: Suc bit_simps)
qed simp

end
