(* ===== verification/C_Buffer.thy ===== *)
theory C_Buffer imports C_String begin

section \<open>Character arrays\<close>

text \<open>
  A \<open>char\<close> array of a struct is the list of its bytes, as long as the array. The functions of
  \<open>string.h\<close> that read up to a terminating NUL are faults (\<open>None\<close>) when the array holds none, and
  those that write are faults when they leave the array. A text is the list of characters before the
  NUL.
\<close>

definition NUL :: char where "NUL = CHR 0x00"
definition NL :: char where "NL = CHR 0x0A"

definition cstr :: "string \<Rightarrow> string option" where
  "cstr a = (if NUL \<in> set a then Some (takeWhile (\<lambda>c. c \<noteq> NUL) a) else None)"

text \<open>\<open>a[off..] = s\<close>, without a terminator (\<open>memcpy\<close>, \<open>read\<close>).\<close>

definition buf_put :: "nat \<Rightarrow> string \<Rightarrow> string \<Rightarrow> string option" where
  "buf_put off s a = (if off + length s \<le> length a then Some (take off a @ s @ drop (off + length s) a) else None)"

definition strcpy_to :: "nat \<Rightarrow> string \<Rightarrow> string \<Rightarrow> string option" where
  "strcpy_to off s a = buf_put off (s @ [NUL]) a"

text \<open>\<open>strncpy(a, s, n)\<close>: pads with NUL, and writes no terminator when \<open>s\<close> is too long.\<close>

definition strncpy :: "nat \<Rightarrow> string \<Rightarrow> string \<Rightarrow> string option" where
  "strncpy n s a = buf_put 0 (take n (s @ replicate (n - length s) NUL)) a"

definition strcat :: "string \<Rightarrow> string \<Rightarrow> string option" where
  "strcat a s = Option.bind (cstr a) (\<lambda>t. strcpy_to (length t) s a)"

definition memchr :: "string \<Rightarrow> char \<Rightarrow> nat \<Rightarrow> nat option" where
  "memchr a c n = (if c \<in> set (take n a) then Some (length (takeWhile (\<lambda>x. x \<noteq> c) a)) else None)"

text \<open>\<open>memmove(a, a + k, length - k)\<close>: the tail of the array keeps its old bytes.\<close>

definition shift_down :: "nat \<Rightarrow> string \<Rightarrow> string" where
  "shift_down k a = drop k a @ drop (length a - k) a"

fun strrchr :: "string \<Rightarrow> char \<Rightarrow> nat option" where
  "strrchr [] c = None"
| "strrchr (x # xs) c = (case strrchr xs c of Some i \<Rightarrow> Some (Suc i) | None \<Rightarrow> if x = c then Some 0 else None)"

text \<open>A descriptor outside the set of \<open>select\<close> is written and read out of bounds.\<close>

definition FD_SETSIZE :: int where "FD_SETSIZE = 1024"

definition fd_in_set :: "int \<Rightarrow> bool" where
  "fd_in_set fd \<longleftrightarrow> 0 \<le> fd \<and> fd < FD_SETSIZE"

lemma NUL_NL [simp]: "NUL \<noteq> NL" "NL \<noteq> NUL"
  by (simp_all add: NUL_def NL_def)

lemma cstr_append_NUL [simp]: "NUL \<notin> set s \<Longrightarrow> cstr (s @ NUL # r) = Some s"
  by (induction s) (auto simp: cstr_def)

lemma cstr_no_NUL: "cstr a = Some s \<Longrightarrow> NUL \<notin> set s"
  by (auto simp: cstr_def split: if_splits dest: set_takeWhileD)

lemma cstr_split: "cstr a = Some s \<longleftrightarrow> NUL \<notin> set s \<and> (\<exists>r. a = s @ NUL # r)"
proof
  assume c: "cstr a = Some s"
  have "\<exists>r. a = takeWhile (\<lambda>c. c \<noteq> NUL) a @ NUL # r" if "NUL \<in> set a"
    using that by (induction a) auto
  with c show "NUL \<notin> set s \<and> (\<exists>r. a = s @ NUL # r)"
    using cstr_no_NUL [OF c] by (auto simp: cstr_def split: if_splits)
qed auto

lemma cstr_None_iff: "cstr a = None \<longleftrightarrow> NUL \<notin> set a"
  by (simp add: cstr_def)

lemma buf_put_length: "buf_put off s a = Some b \<Longrightarrow> length b = length a"
  by (auto simp: buf_put_def split: if_splits)

lemma strcpy_to_0: "length s < length a \<Longrightarrow> strcpy_to 0 s a = Some (s @ NUL # drop (Suc (length s)) a)"
  by (simp add: strcpy_to_def buf_put_def)

lemma strcpy_to_0_None: "length a \<le> length s \<Longrightarrow> strcpy_to 0 s a = None"
  by (simp add: strcpy_to_def buf_put_def)

lemma strncpy_whole: "length a = n \<Longrightarrow> strncpy n s a = Some (take n (s @ replicate (n - length s) NUL))"
  by (simp add: strncpy_def buf_put_def)

lemma cstr_strncpy:
  assumes "length a = n" "length s < n" "NUL \<notin> set s"
  shows "\<exists>b. strncpy n s a = Some b \<and> cstr b = Some s \<and> length b = n"
proof -
  obtain k where k: "n = length s + Suc k"
    using assms(2) less_imp_Suc_add by force
  then show ?thesis
    using assms by (simp add: strncpy_whole)
qed

lemma memchr_split:
  assumes "memchr a c n = Some i"
  shows "i < n" "i < length a" "a ! i = c" "c \<notin> set (take i a)" "a = take i a @ c # drop (Suc i) a"
proof -
  have i: "i = length (takeWhile (\<lambda>x. x \<noteq> c) a)" "c \<in> set (take n a)"
    using assms by (auto simp: memchr_def split: if_splits)
  have "\<exists>r. a = takeWhile (\<lambda>x. x \<noteq> c) a @ c # r" if "c \<in> set a" for a :: string
    using that by (induction a) auto
  with i(2) obtain r where r: "a = takeWhile (\<lambda>x. x \<noteq> c) a @ c # r"
    by (meson in_set_takeD)
  have t: "c \<notin> set (takeWhile (\<lambda>x. x \<noteq> c) a)"
    by (auto dest: set_takeWhileD)
  have l: "take i a = takeWhile (\<lambda>x. x \<noteq> c) a"
    using r i(1) by (metis append_eq_conv_conj)
  have "length a = i + Suc (length r)"
    using r i(1) by (metis length_append length_Cons)
  then show "i < length a" by simp
  show "a ! i = c"
    using r i(1) by (metis nth_append_length)
  show "c \<notin> set (take i a)"
    using t l by simp
  show "i < n"
  proof (rule ccontr)
    assume "\<not> i < n"
    then have "take n a = take n (take i a)"
      by (simp add: min_absorb1)
    with i(2) t l show False
      by (metis in_set_takeD)
  qed
  show "a = take i a @ c # drop (Suc i) a"
    using \<open>i < length a\<close> \<open>a ! i = c\<close> by (metis id_take_nth_drop)
qed

lemma memchr_append:
  assumes "c \<notin> set s" "length s < n"
  shows "memchr (s @ c # r) c n = Some (length s)"
proof -
  have "takeWhile (\<lambda>x. x \<noteq> c) (s @ c # r) = s"
    using assms(1) by (induction s) auto
  moreover have "c \<in> set (take n (s @ c # r))"
    using assms(2) by (auto simp: take_Cons' )
  ultimately show ?thesis
    by (simp add: memchr_def)
qed

lemma memchr_None_iff: "memchr a c n = None \<longleftrightarrow> c \<notin> set (take n a)"
  by (simp add: memchr_def)

lemma shift_down_length [simp]: "k \<le> length a \<Longrightarrow> length (shift_down k a) = length a"
  by (simp add: shift_down_def)

lemma shift_down_take: "n + k \<le> length a \<Longrightarrow> take n (shift_down k a) = take n (drop k a)"
  by (simp add: shift_down_def)

lemma strrchr_append: "c \<notin> set t \<Longrightarrow> strrchr (s @ c # t) c = Some (length s)"
proof -
  have "strrchr t c = None" if "c \<notin> set t" for t
    using that by (induction t) auto
  then show "c \<notin> set t \<Longrightarrow> strrchr (s @ c # t) c = Some (length s)"
    by (induction s) auto
qed

lemma strrchr_None: "c \<notin> set t \<Longrightarrow> strrchr t c = None"
  by (induction t) auto

text \<open>A number in text has no terminator.\<close>

lemma digit_char_not_NUL: "d < 36 \<Longrightarrow> digit_char d \<noteq> NUL"
proof
  assume d: "d < 36" "digit_char d = NUL"
  then have "(of_char (digit_char d) :: nat) = 0"
    by (simp add: NUL_def)
  moreover have "(of_char (digit_char d) :: nat) = (if d < 10 then 48 + d else 87 + d)"
    using d(1) by (simp add: digit_char_def)
  ultimately show False by (simp split: if_splits)
qed

lemma show_base_no_NUL: "2 \<le> b \<Longrightarrow> b \<le> 36 \<Longrightarrow> NUL \<notin> set (show_base b n)"
proof (induction b n rule: show_base.induct)
  case (1 b n)
  have "n mod b < 36"
    using 1(2,3) by (metis le_trans linorder_not_le mod_less_divisor not_le not_numeral_le_zero zero_less_iff_neq_zero)
  then show ?case
    using 1 digit_char_not_NUL [of n] digit_char_not_NUL [of "n mod b"]
    by (subst show_base.simps) (auto split: if_splits)
qed

end
