(* ===== verification/Collector_Description.thy ===== *)
theory Collector_Description imports C_Buffer begin

section \<open>Descriptions of sources and collectors (collector/src/*_description.c)\<close>

text \<open>
  A description is a block of memory that the create functions fill in part: \<open>mem\<close> is what \<open>malloc\<close> answers, a block
  with the bytes it held before or NULL (\<open>None\<close>). A block the caller passes is used as it is. The texts
  are \<open>char\<close> arrays. The printing functions give the text they print, and fault on an array
  without a terminator.
\<close>

datatype source_type = STYPE_UNKNOWN | STYPE_FILE | STYPE_UDP | STYPE_TCP

definition type_no :: "source_type \<Rightarrow> int" where
  "type_no t = (case t of STYPE_UNKNOWN \<Rightarrow> - 1 | STYPE_FILE \<Rightarrow> 0 | STYPE_UDP \<Rightarrow> 1 | STYPE_TCP \<Rightarrow> 2)"

record source_desc =
  sd_type :: source_type
  sd_sid_string :: string
  sd_addr :: string
  sd_port :: string
  sd_header_len :: u64
  sd_data_len :: u64
  sd_width :: u64
  sd_height :: u64
  sd_channels :: u64
  sd_output_path :: string

definition source_block :: "source_desc \<Rightarrow> bool" where
  "source_block s \<longleftrightarrow> length (sd_sid_string s) = 256 \<and> length (sd_addr s) = 16 \<and> length (sd_port s) = 8
     \<and> length (sd_output_path s) = 1024"

definition create_tcp_source_description :: "source_desc option \<Rightarrow> string \<Rightarrow> string \<Rightarrow> source_desc option \<Rightarrow> source_desc option" where
  "create_tcp_source_description mem host port p = do {
     sdesc \<leftarrow> (case p of Some s \<Rightarrow> Some s | None \<Rightarrow> mem);
     sid \<leftarrow> buf_put 0 [NUL] (sd_sid_string sdesc);
     addr \<leftarrow> strcpy_to 0 host (sd_addr sdesc);
     port \<leftarrow> strcpy_to 0 port (sd_port sdesc);
     path \<leftarrow> strcpy_to 0 ''/tmp/tmk/data'' (sd_output_path sdesc);
     Some (sdesc\<lparr>sd_type := STYPE_TCP, sd_sid_string := sid, sd_addr := addr, sd_port := port, sd_header_len := 12,
       sd_width := 960, sd_height := 1920, sd_channels := 3, sd_data_len := 960 * 1920 * 3, sd_output_path := path\<rparr>) }"

text \<open>The address, the port and the length of the header of a camera stay what the memory held.\<close>

definition create_gige_source_description :: "source_desc option \<Rightarrow> string \<Rightarrow> source_desc option \<Rightarrow> source_desc option" where
  "create_gige_source_description mem iface p = do {
     sdesc \<leftarrow> (case p of Some s \<Rightarrow> Some s | None \<Rightarrow> mem);
     sid \<leftarrow> strcpy_to 0 iface (sd_sid_string sdesc);
     path \<leftarrow> strcpy_to 0 ''/tmp/tmk/data'' (sd_output_path sdesc);
     Some (sdesc\<lparr>sd_type := STYPE_UDP, sd_sid_string := sid,
       sd_width := 2448, sd_height := 2048, sd_channels := 1, sd_data_len := 2448 * 2048 * 1, sd_output_path := path\<rparr>) }"

definition show_zd :: "u64 \<Rightarrow> string" where
  "show_zd w = show_int (sint w)"

definition TAB :: char where "TAB = CHR 0x09"

definition out_source_description :: "source_desc \<Rightarrow> string option" where
  "out_source_description s = do {
     c \<leftarrow> arr_get (sd_sid_string s) 0;
     head \<leftarrow> (if c = NUL then do {
         addr \<leftarrow> cstr (sd_addr s);
         port \<leftarrow> cstr (sd_port s);
         Some (TAB # ''Source description for ip='' @ addr @ '' port='' @ port @ '' [type='' @ show_int (type_no (sd_type s)) @ '']:'' @ [NL]
           @ [TAB, TAB] @ ''header_len = '' @ show_zd (sd_header_len s) @ [NL]) }
       else do {
         sid \<leftarrow> cstr (sd_sid_string s);
         Some (TAB # ''Source description for '' @ sid @ '' [type='' @ show_int (type_no (sd_type s)) @ '']:'' @ [NL]) });
     path \<leftarrow> cstr (sd_output_path s);
     Some (head @ [TAB, TAB] @ ''width = '' @ show_zd (sd_width s) @ '' height = '' @ show_zd (sd_height s)
       @ '' channels = '' @ show_zd (sd_channels s) @ [NL] @ [TAB, TAB] @ ''output_path = '' @ path @ [NL]) }"

text \<open>\<open>p\<close> is the pointer to the pointer, \<open>None\<close> when it is NULL; the result is the pointer after the call.\<close>

definition source_description_destroy :: "source_desc option option \<Rightarrow> source_desc option option" where
  "source_description_destroy p = (case p of None \<Rightarrow> None | Some None \<Rightarrow> Some None | Some (Some s) \<Rightarrow> Some None)"

subsection \<open>Collectors\<close>

text \<open>\<open>sdescs\<close> is NULL or the array of pointers to the descriptions of the sources.\<close>

record collector_desc =
  cd_sources_cnt :: int
  cd_sdescs :: "source_desc option list option"
  cd_use_boost_shmem :: int
  cd_boost_path :: string
  cd_boost_size :: u64

definition MAX_SHMEM_NAME_LEN :: nat where "MAX_SHMEM_NAME_LEN = 256"

text \<open>The first product is one of \<open>int\<close>, the others are of \<open>size_t\<close>.\<close>

definition calculate_boostmem_size :: "int \<Rightarrow> u64 \<Rightarrow> int \<Rightarrow> u64 option" where
  "calculate_boostmem_size max_sources max_frame_size max_frames = do {
     base \<leftarrow> c_int (0x100000 * max_sources);
     Some (word_of_int base + word_of_int max_sources * max_frame_size * word_of_int max_frames) }"

definition zero_collector_desc :: collector_desc where
  "zero_collector_desc = \<lparr>cd_sources_cnt = 0, cd_sdescs = None, cd_use_boost_shmem = 0,
     cd_boost_path = replicate MAX_SHMEM_NAME_LEN NUL, cd_boost_size = 0\<rparr>"

text \<open>\<open>alloc\<close> says whether the caller passed a block or \<open>malloc\<close> gave one; \<open>memset\<close> then writes all of it.\<close>

definition create_default_collector_description :: "bool \<Rightarrow> collector_desc option" where
  "create_default_collector_description alloc = (if alloc then Some zero_collector_desc else None)"

text \<open>The port of source \<open>i\<close> is printed into eight bytes.\<close>

definition test_source :: "(nat \<Rightarrow> source_desc option) \<Rightarrow> nat \<Rightarrow> source_desc option" where
  "test_source mem i = do {
     k \<leftarrow> c_int (int i * 10);
     no \<leftarrow> c_int (9000 + k);
     port \<leftarrow> strcpy_to 0 (show_int no) (replicate 8 NUL);
     create_tcp_source_description (mem i) ''localhost'' (takeWhile (\<lambda>c. c \<noteq> NUL) port) None }"

text \<open>A negative count is an impossible size for \<open>malloc\<close>, and \<open>memset\<close> writes through NULL.\<close>

definition create_test_collector_description :: "bool \<Rightarrow> (nat \<Rightarrow> source_desc option) \<Rightarrow> int \<Rightarrow> collector_desc option" where
  "create_test_collector_description alloc mem sources_cnt =
     (if \<not> alloc \<or> sources_cnt < 0 then None
      else do {
        sdescs \<leftarrow> those (map (test_source mem) [0..<nat sources_cnt]);
        path \<leftarrow> strcpy_to 0 ''boostsegment'' (cd_boost_path zero_collector_desc);
        size \<leftarrow> calculate_boostmem_size sources_cnt (2048 * 2448 * 1) 1000;
        Some (zero_collector_desc\<lparr>cd_sources_cnt := sources_cnt, cd_sdescs := Some (map Some sdescs),
          cd_use_boost_shmem := 1, cd_boost_path := path, cd_boost_size := size\<rparr>) })"

text \<open>The array has one entry, and the second description is created through the entry behind it.\<close>

definition create_demo_collector_description :: "bool \<Rightarrow> (nat \<Rightarrow> source_desc option) \<Rightarrow> collector_desc option" where
  "create_demo_collector_description alloc mem =
     (if \<not> alloc then None
      else do {
        let sdescs = replicate 1 None;
        a \<leftarrow> create_gige_source_description (mem 0) ''10.0.0.2'' (sdescs ! 0);
        sdescs \<leftarrow> arr_set sdescs 0 (Some a);
        q \<leftarrow> arr_get sdescs 1;
        b \<leftarrow> create_gige_source_description (mem 1) ''10.0.0.3'' q;
        sdescs \<leftarrow> arr_set sdescs 1 (Some b);
        path \<leftarrow> strcpy_to 0 ''boostsegment'' (cd_boost_path zero_collector_desc);
        Some (zero_collector_desc\<lparr>cd_sources_cnt := 1, cd_sdescs := Some sdescs,
          cd_use_boost_shmem := 1, cd_boost_path := path, cd_boost_size := 30000000000\<rparr>) })"

definition source_texts :: "collector_desc \<Rightarrow> string list option" where
  "source_texts d = those (map (\<lambda>i. do { as \<leftarrow> cd_sdescs d; p \<leftarrow> arr_get as (int i); s \<leftarrow> p; out_source_description s })
     [0..<nat (cd_sources_cnt d)])"

definition out_collector_description :: "collector_desc \<Rightarrow> string option" where
  "out_collector_description d = do {
     texts \<leftarrow> source_texts d;
     tail \<leftarrow> (if cd_use_boost_shmem d \<noteq> 0 then do {
         path \<leftarrow> cstr (cd_boost_path d);
         Some (''Use boost shared memory:'' @ TAB # ''YES'' @ [NL] @ TAB # ''boost region path = '' @ CHR 0x22 # path @ [CHR 0x22, NL]
           @ TAB # ''boost region size = '' @ CHR 0x22 # show_zd (cd_boost_size d) @ [CHR 0x22, NL]) }
       else Some (''Use boost shared memory:'' @ TAB # ''NO'' @ [NL]));
     Some (''Collector description:'' @ [NL] @ TAB # ''number of sources = '' @ show_int (cd_sources_cnt d) @ [NL]
       @ concat texts @ tail) }"

text \<open>The result is the pointer after the call and the descriptions of sources that nobody points to any more.\<close>

definition collector_description_destroy :: "collector_desc option option \<Rightarrow> collector_desc option option \<times> source_desc list" where
  "collector_description_destroy p = (case p of None \<Rightarrow> (None, []) | Some None \<Rightarrow> (Some None, [])
     | Some (Some d) \<Rightarrow> (Some None, case cd_sdescs d of None \<Rightarrow> [] | Some as \<Rightarrow> map the (filter (\<lambda>a. a \<noteq> None) as)))"

subsection \<open>What the descriptions hold\<close>

lemma takeWhile_text: "NUL \<notin> set s \<Longrightarrow> takeWhile (\<lambda>c. c \<noteq> NUL) (s @ NUL # r) = s"
  by (induction s) auto

text \<open>The texts of a description made for a TCP source are terminated, and its numbers are those of the frames.\<close>

definition tcp_source :: "string \<Rightarrow> string \<Rightarrow> source_desc \<Rightarrow> bool" where
  "tcp_source host port s \<longleftrightarrow> sd_type s = STYPE_TCP \<and> cstr (sd_sid_string s) = Some [] \<and> cstr (sd_addr s) = Some host
     \<and> cstr (sd_port s) = Some port \<and> sd_header_len s = 12 \<and> sd_data_len s = sd_width s * sd_height s * sd_channels s
     \<and> sd_data_len s = 5529600 \<and> cstr (sd_output_path s) = Some ''/tmp/tmk/data'' \<and> source_block s"

lemma buf_put_NUL: "length a = Suc n \<Longrightarrow> buf_put 0 [NUL] a = Some (NUL # tl a)"
  by (cases a) (simp_all add: buf_put_def)

lemma create_tcp_source:
  assumes "source_block m" "length host < 16" "length port < 8" "NUL \<notin> set host" "NUL \<notin> set port"
  shows "\<exists>s. create_tcp_source_description (Some m) host port None = Some s \<and> tcp_source host port s"
proof -
  have l: "length (sd_sid_string m) = Suc 255" "length host < length (sd_addr m)" "length port < length (sd_port m)"
    "length ''/tmp/tmk/data'' < length (sd_output_path m)"
    using assms by (simp_all add: source_block_def)
  have n: "cstr (NUL # r) = Some []" "NUL \<notin> set ''/tmp/tmk/data''" for r
    by (simp_all add: cstr_def NUL_def)
  show ?thesis
    using assms(1) cstr_append_NUL [OF assms(4)] cstr_append_NUL [OF assms(5)] cstr_append_NUL [OF n(2)] n(1)
      buf_put_NUL [OF l(1)] strcpy_to_0 [OF l(2)] strcpy_to_0 [OF l(3)] strcpy_to_0 [OF l(4)] l
    by (simp add: create_tcp_source_description_def tcp_source_def source_block_def)
qed

lemma source_text: "tcp_source host port s \<Longrightarrow> out_source_description s \<noteq> None"
proof -
  assume s: "tcp_source host port s"
  then have "0 < length (sd_sid_string s)" "sd_sid_string s ! 0 = NUL"
    by (auto simp: tcp_source_def source_block_def cstr_split)
  then show ?thesis
    using s by (simp add: tcp_source_def out_source_description_def arr_get_def)
qed

lemma test_source_ok:
  assumes "i < 100000" "mem i = Some m" "source_block m"
  shows "\<exists>s. test_source mem i = Some s \<and> tcp_source ''localhost'' (show_int (9000 + int i * 10)) s"
proof -
  define port where "port = show_int (9000 + int i * 10)"
  have "nat (9000 + int i * 10) < 10 ^ Suc 6"
    using assms(1) by simp
  from show_base_length [OF _ this] have "length port \<le> 7"
    by (simp add: port_def show_int_def)
  moreover have n: "NUL \<notin> set port"
    by (simp add: port_def show_int_def show_base_no_NUL)
  ultimately have "strcpy_to 0 port (replicate 8 NUL) = Some (port @ NUL # drop (Suc (length port)) (replicate 8 NUL))"
    by (intro strcpy_to_0) simp
  moreover have "NUL \<notin> set ''localhost''"
    by (simp add: NUL_def)
  ultimately show ?thesis
    using create_tcp_source [OF assms(3), of "''localhost''" port] \<open>length port \<le> 7\<close> n assms(1,2) takeWhile_text [OF n]
    by (simp add: test_source_def port_def)
qed

lemma those_map: "(\<And>x. x \<in> set xs \<Longrightarrow> \<exists>y. f x = Some y \<and> P x y) \<Longrightarrow>
    \<exists>ys. those (map f xs) = Some ys \<and> list_all2 P xs ys"
proof (induction xs)
  case (Cons x xs)
  obtain y where "f x = Some y" "P x y"
    using Cons.prems by auto
  moreover obtain ys where "those (map f xs) = Some ys" "list_all2 P xs ys"
    using Cons by auto
  ultimately show ?case
    by auto
qed simp

lemma boostmem_size:
  assumes "0 \<le> n" "n < 2048"
  shows "calculate_boostmem_size n 5013504 1000 = Some (word_of_int (n * 5014552576))"
  using assms by (simp add: calculate_boostmem_size_def algebra_simps)

lemma demo_overruns: "create_demo_collector_description alloc mem = None"
proof -
  have "arr_set [None :: source_desc option] 0 (Some a) = Some [Some a]" "arr_get [Some a] 1 = None" for a
    by (simp_all add: arr_set_def arr_get_def)
  then show ?thesis
    by (cases "create_gige_source_description (mem 0) ''10.0.0.2'' None")
      (simp_all add: create_demo_collector_description_def)
qed

text \<open>
  The description for a test has the sources it was asked for, each a TCP source on its own port, and the exact
  size of the shared memory. From 2048 sources on the size overflows an \<open>int\<close>.
\<close>

theorem test_collector_sources:
  assumes "\<forall>i. \<exists>m. mem i = Some m \<and> source_block m"
  shows "case create_test_collector_description True mem n of
      None \<Rightarrow> n < 0 \<or> 2048 \<le> n
    | Some d \<Rightarrow> 0 \<le> n \<and> n < 2048 \<and> cd_sources_cnt d = n \<and> uint (cd_boost_size d) = n * 5014552576
        \<and> (\<exists>ss. cd_sdescs d = Some (map Some ss)
            \<and> list_all2 (\<lambda>i s. tcp_source ''localhost'' (show_int (9000 + int i * 10)) s) [0..<nat n] ss)"
proof (cases "0 \<le> n \<and> n < 2048")
  case True
  have "\<exists>s. test_source mem i = Some s \<and> tcp_source ''localhost'' (show_int (9000 + int i * 10)) s"
    if "i \<in> set [0..<nat n]" for i
  proof -
    obtain m where "mem i = Some m" "source_block m"
      using assms by blast
    moreover have "i < 100000"
      using that True by auto
    ultimately show ?thesis
      by (intro test_source_ok)
  qed
  note one = this
  obtain ss where ss: "those (map (test_source mem) [0..<nat n]) = Some ss"
      "list_all2 (\<lambda>i s. tcp_source ''localhost'' (show_int (9000 + int i * 10)) s) [0..<nat n] ss"
    using those_map [of "[0..<nat n]" "test_source mem"
        "\<lambda>i s. tcp_source ''localhost'' (show_int (9000 + int i * 10)) s"] one by blast
  obtain path where "strcpy_to 0 ''boostsegment'' (cd_boost_path zero_collector_desc) = Some path"
    using strcpy_to_0 [of "''boostsegment''"] by (simp add: zero_collector_desc_def MAX_SHMEM_NAME_LEN_def)
  moreover have "uint (word_of_int (n * 5014552576) :: u64) = n * 5014552576"
  proof -
    have "0 \<le> n * 5014552576" "n * 5014552576 < 2 ^ LENGTH(64)"
      using True by simp_all
    then show ?thesis
      by (simp only: uint_word_of_int_eq take_bit_int_eq_self)
  qed
  ultimately show ?thesis
    using True ss boostmem_size by (auto simp: create_test_collector_description_def)
next
  case False
  then have "calculate_boostmem_size n f m = None \<or> n < 0" for f m
    by (auto simp: calculate_boostmem_size_def c_int_def)
  then show ?thesis
    using False by (cases "those (map (test_source mem) [0..<nat n])")
      (auto simp: create_test_collector_description_def split: option.splits)
qed

definition blank_source :: source_desc where
  "blank_source = \<lparr>sd_type = STYPE_UNKNOWN, sd_sid_string = replicate 256 NUL, sd_addr = replicate 16 NUL, sd_port = replicate 8 NUL,
     sd_header_len = 0, sd_data_len = 0, sd_width = 0, sd_height = 0, sd_channels = 0, sd_output_path = replicate 1024 NUL\<rparr>"

lemma blank_source_block: "source_block blank_source"
  by (simp add: blank_source_def source_block_def)

theorem test_collector_sources_witness:
  "(case create_test_collector_description True (\<lambda>_. Some blank_source) 2 of None \<Rightarrow> False
    | Some d \<Rightarrow> cd_sources_cnt d = 2 \<and> uint (cd_boost_size d) = 10029105152)
   \<and> create_test_collector_description True (\<lambda>_. Some blank_source) 2048 = None"
  using test_collector_sources [of "\<lambda>_. Some blank_source" 2] test_collector_sources [of "\<lambda>_. Some blank_source" 2048]
    blank_source_block by (auto split: option.splits)

end
