(* ===== verification/Tcp_Source.thy ===== *)
theory Tcp_Source imports Collector_Description begin

section \<open>Frames over a TCP connection (collector/src/source.c)\<close>

text \<open>
  \<open>source_data_thread_tcp\<close> reads a header, which holds the size of what follows and the number of the frame, and then the
  frame. The memory of the packet is two arrays of bytes. One turn of its loop is a function of what
  \<open>read\<close> answers; a read behind the end of an array is a fault.
\<close>

record data_packet =
  dp_header :: "u8 list"
  dp_header_len :: u64
  dp_data :: "u8 list"
  dp_data_len :: u64

record tcp_reader =
  tr_packet :: data_packet
  tr_recieved :: u64
  tr_remaining :: u64
  tr_header_ok :: bool
  tr_data_size :: u64
  tr_frame_id :: int

definition tcp_reader_start :: "data_packet \<Rightarrow> tcp_reader" where
  "tcp_reader_start p = \<lparr>tr_packet = p, tr_recieved = 0, tr_remaining = dp_header_len p, tr_header_ok = False,
     tr_data_size = 0, tr_frame_id = - 1\<rparr>"

datatype tcp_outcome = Again | Frame int | Broken

definition bytes_put :: "u64 \<Rightarrow> u8 list \<Rightarrow> u8 list \<Rightarrow> u8 list option" where
  "bytes_put off bs a = (if unat off + length bs \<le> length a
     then Some (take (unat off) a @ bs @ drop (unat off + length bs) a) else None)"

definition bytes_get :: "nat \<Rightarrow> nat \<Rightarrow> u8 list \<Rightarrow> u64 option" where
  "bytes_get off n a = (if off + n \<le> length a then Some (of_le (take n (drop off a))) else None)"

definition store_bytes :: "u8 list \<Rightarrow> tcp_reader \<Rightarrow> tcp_reader option" where
  "store_bytes bs r = (let p = tr_packet r in do {
     p \<leftarrow> (if \<not> tr_header_ok r
           then do { h \<leftarrow> bytes_put (tr_recieved r) bs (dp_header p); Some (p\<lparr>dp_header := h\<rparr>) }
           else do { d \<leftarrow> bytes_put (tr_recieved r) bs (dp_data p); Some (p\<lparr>dp_data := d\<rparr>) });
     Some (r\<lparr>tr_packet := p, tr_recieved := tr_recieved r + of_nat (length bs)\<rparr>) })"

text \<open>The size in a header is only compared with the expected one, and a difference only printed.\<close>

definition check_header :: "u8 list \<Rightarrow> tcp_reader \<Rightarrow> tcp_reader option" where
  "check_header bs r = (let p = tr_packet r;
     r = (if \<not> tr_header_ok r \<and> tr_recieved r < dp_header_len p
          then r\<lparr>tr_remaining := tr_remaining r - of_nat (length bs)\<rparr> else r)
     in if \<not> tr_header_ok r \<and> tr_recieved r = dp_header_len p then do {
          size \<leftarrow> bytes_get 0 8 (dp_header p);
          no \<leftarrow> bytes_get 8 4 (dp_header p);
          Some (r\<lparr>tr_data_size := size, tr_frame_id := sint (ucast no :: u32), tr_recieved := 0, tr_remaining := size,
            tr_header_ok := True\<rparr>) }
        else Some r)"

definition check_data :: "u8 list \<Rightarrow> tcp_reader \<Rightarrow> tcp_outcome \<times> tcp_reader" where
  "check_data bs r = (let p = tr_packet r;
     r = (if tr_header_ok r \<and> tr_recieved r < dp_data_len p
          then r\<lparr>tr_remaining := tr_remaining r - of_nat (length bs)\<rparr> else r)
     in if tr_header_ok r \<and> tr_recieved r = dp_data_len p
        then (Frame (tr_frame_id r), r\<lparr>tr_remaining := dp_header_len p, tr_recieved := 0, tr_header_ok := False\<rparr>)
        else (Again, r))"

text \<open>\<open>rd\<close> is what \<open>read\<close> answers: \<open>None\<close> an error, or the bytes, at most as many as remain. Without anything that remains
  nothing is read.\<close>

definition tcp_turn :: "u8 list option \<Rightarrow> tcp_reader \<Rightarrow> (tcp_outcome \<times> tcp_reader) option" where
  "tcp_turn rd r =
     (if tr_remaining r = 0 then Some (Again, r\<lparr>tr_remaining := dp_header_len (tr_packet r)\<rparr>)
      else case rd of
        None \<Rightarrow> Some (Broken, r)
      | Some [] \<Rightarrow> Some (Again, r)
      | Some bs \<Rightarrow> do { r \<leftarrow> store_bytes bs r; r \<leftarrow> check_header bs r; Some (check_data bs r) })"

text \<open>
  Turns on a stream of bytes: \<open>k\<close> is how many bytes have arrived when the turn reads. The result has the
  rest of the stream, the reader and the frames that were completed, with their numbers.
\<close>

fun tcp_run :: "nat list \<Rightarrow> u8 list \<times> tcp_reader \<times> (int \<times> u8 list) list \<Rightarrow> (u8 list \<times> tcp_reader \<times> (int \<times> u8 list) list) option" where
  "tcp_run [] st = Some st"
| "tcp_run (k # ks) (s, r, out) =
     (let n = (if tr_remaining r = 0 then 0 else min k (min (unat (tr_remaining r)) (length s)))
      in case tcp_turn (Some (take n s)) r of
        None \<Rightarrow> None
      | Some (c, r) \<Rightarrow> tcp_run ks (drop n s, r, case c of Frame i \<Rightarrow> out @ [(i, dp_data (tr_packet r))] | _ \<Rightarrow> out))"

subsection \<open>A stream of frames\<close>

text \<open>The size of a header counts the header as well; the data has the length \<open>d\<close> of the description.\<close>

type_synonym tcp_frame = "u32 \<times> u8 list"

definition frame_header :: "nat \<Rightarrow> tcp_frame \<Rightarrow> u8 list" where
  "frame_header d f = le_bytes 8 (of_nat (d + 12)) @ le_bytes 4 (ucast (fst f))"

definition frame_stream :: "nat \<Rightarrow> tcp_frame list \<Rightarrow> u8 list" where
  "frame_stream d fs = concat (map (\<lambda>f. frame_header d f @ snd f) fs)"

definition packet_for :: "nat \<Rightarrow> data_packet \<Rightarrow> bool" where
  "packet_for d p \<longleftrightarrow> length (dp_header p) = 12 \<and> dp_header_len p = 12 \<and> length (dp_data p) = d \<and> dp_data_len p = of_nat d"

definition at_header :: "nat \<Rightarrow> tcp_reader \<Rightarrow> bool" where
  "at_header d r \<longleftrightarrow> packet_for d (tr_packet r) \<and> \<not> tr_header_ok r \<and> tr_recieved r = 0 \<and> tr_remaining r = 12"

text \<open>\<open>j\<close> bytes of the frame have been read.\<close>

definition at_data :: "nat \<Rightarrow> tcp_frame \<Rightarrow> nat \<Rightarrow> tcp_reader \<Rightarrow> bool" where
  "at_data d f j r \<longleftrightarrow> packet_for d (tr_packet r) \<and> tr_header_ok r \<and> tr_frame_id r = sint (fst f) \<and> j < d
     \<and> tr_recieved r = of_nat j \<and> tr_remaining r = of_nat (d - j) \<and> take j (dp_data (tr_packet r)) = take j (snd f)"

definition reader_at :: "nat \<Rightarrow> tcp_frame list \<Rightarrow> u8 list \<Rightarrow> tcp_reader \<Rightarrow> bool" where
  "reader_at d fs s r \<longleftrightarrow> at_header d r \<and> s = frame_stream d fs
     \<or> (\<exists>f gs j. fs = f # gs \<and> at_data d f j r \<and> s = drop j (snd f) @ frame_stream d gs)"

lemma frame_header_length [simp]: "length (frame_header d f) = 12"
  by (simp add: frame_header_def)

lemma take_bit_64 [simp]: "take_bit 64 (w :: u64) = w"
  by (rule bit_eqI) (auto simp: bit_take_bit_iff dest: bit_imp_le_length)

lemma ucast_32_64 [simp]: "ucast (ucast (w :: u32) :: u64) = w"
  by (rule bit_eqI) (auto simp: bit_simps)

lemma unat_u64: "i < 2 ^ 64 \<Longrightarrow> unat (of_nat i :: u64) = i"
  by (simp add: unat_of_nat take_bit_nat_eq_self)

lemma frame_header_nonempty [simp]: "frame_header d f \<noteq> []"
  using frame_header_length [of d f] by (metis list.size(3) zero_neq_numeral)

lemma frame_header_fields:
  "bytes_get 0 8 (frame_header d f) = Some (of_nat (d + 12))"
  "bytes_get 8 4 (frame_header d f) = Some (ucast (fst f))"
proof -
  show "bytes_get 0 8 (frame_header d f) = Some (of_nat (d + 12))"
    by (simp add: bytes_get_def frame_header_def of_le_bytes)
  have "take_bit 32 (ucast (fst f) :: u64) = ucast (fst f)"
    by (rule bit_eqI) (auto simp: bit_simps dest: bit_imp_le_length)
  then show "bytes_get 8 4 (frame_header d f) = Some (ucast (fst f))"
    by (simp add: bytes_get_def frame_header_def of_le_bytes)
qed

lemma bytes_put_take:
  "unat off + length bs \<le> length a \<Longrightarrow> \<exists>b. bytes_put off bs a = Some b \<and> length b = length a
    \<and> take (unat off + length bs) b = take (unat off) a @ bs"
  by (auto simp: bytes_put_def)

lemma tcp_turn_bytes:
  "bs \<noteq> [] \<Longrightarrow> tr_remaining r \<noteq> 0 \<Longrightarrow>
    tcp_turn (Some bs) r = Option.bind (store_bytes bs r) (\<lambda>r. Option.bind (check_header bs r) (\<lambda>r. Some (check_data bs r)))"
  by (cases bs) (simp_all add: tcp_turn_def)

lemma header_turn:
  assumes "at_header d r" "0 < d" "d < 2 ^ 31"
  shows "\<exists>r'. tcp_turn (Some (frame_header d f)) r = Some (Again, r') \<and> at_data d f 0 r'"
proof -
  note ne = frame_header_nonempty [of d f]
  have h: "length (dp_header (tr_packet r)) = 12" "dp_header_len (tr_packet r) = 12" "\<not> tr_header_ok r" "tr_recieved r = 0"
    "tr_remaining r = 12" "dp_data_len (tr_packet r) = of_nat d" "length (dp_data (tr_packet r)) = d"
    using assms(1) by (simp_all add: at_header_def packet_for_def)
  have "bytes_put 0 (frame_header d f) (dp_header (tr_packet r)) = Some (frame_header d f)"
    using h by (simp add: bytes_put_def)
  then have st: "store_bytes (frame_header d f) r = Some (r\<lparr>tr_packet := (tr_packet r)\<lparr>dp_header := frame_header d f\<rparr>,
      tr_recieved := 12\<rparr>)" (is "_ = Some ?r")
    using h by (simp add: store_bytes_def)
  have "check_header (frame_header d f) ?r = Some (?r\<lparr>tr_data_size := of_nat (d + 12), tr_frame_id := sint (fst f), tr_recieved := 0,
      tr_remaining := of_nat (d + 12), tr_header_ok := True\<rparr>)" (is "_ = Some ?r2")
    using h by (simp add: check_header_def frame_header_fields)
  moreover have "(0 :: u64) < of_nat d"
    using assms(2,3) by (simp add: word_less_nat_alt unat_u64)
  then have "check_data (frame_header d f) ?r2 = (Again, ?r2\<lparr>tr_remaining := of_nat d\<rparr>)"
    using h by (simp add: check_data_def Let_def less_imp_neq)
  ultimately have "tcp_turn (Some (frame_header d f)) r = Some (Again, ?r2\<lparr>tr_remaining := of_nat d\<rparr>)"
    using ne h st by (auto simp: tcp_turn_def split: list.split)
  then show ?thesis
    using h assms by (auto simp: at_data_def packet_for_def)
qed

lemma data_turn:
  assumes "at_data d f j r" "d < 2 ^ 31" "length (snd f) = d" "0 < n" "n \<le> d - j"
  shows "\<exists>c r'. tcp_turn (Some (take n (drop j (snd f)))) r = Some (c, r')
    \<and> (if j + n < d then c = Again \<and> at_data d f (j + n) r'
       else c = Frame (sint (fst f)) \<and> at_header d r' \<and> dp_data (tr_packet r') = snd f)"
proof -
  define bs where "bs = take n (drop j (snd f))"
  have bs: "length bs = n" "bs \<noteq> []" "take j (snd f) @ bs = take (j + n) (snd f)"
    using assms by (auto simp: bs_def at_data_def take_add)
  have h: "length (dp_header (tr_packet r)) = 12" "dp_header_len (tr_packet r) = 12" "tr_header_ok r" "tr_recieved r = of_nat j"
    "tr_remaining r = of_nat (d - j)" "dp_data_len (tr_packet r) = of_nat d" "length (dp_data (tr_packet r)) = d" "j < d"
    "take j (dp_data (tr_packet r)) = take j (snd f)" "tr_frame_id r = sint (fst f)"
    using assms(1) by (simp_all add: at_data_def packet_for_def)
  have u: "unat (of_nat i :: u64) = i" if "i \<le> d" for i
    using that assms(2) by (intro unat_u64) simp
  have "unat (tr_recieved r) + length bs \<le> length (dp_data (tr_packet r))"
    using h assms(5) bs(1) u [of j] by simp
  from bytes_put_take [OF this] obtain b where b: "bytes_put (tr_recieved r) bs (dp_data (tr_packet r)) = Some b"
    "length b = d" "take (j + n) b = take (j + n) (snd f)"
    using h bs u [of j] by auto
  have nz: "of_nat (d - j) \<noteq> (0 :: u64)"
    using u [of "d - j"] h(8) by (metis diff_le_self unat_0 zero_less_diff less_irrefl)
  have st: "store_bytes bs r = Some (r\<lparr>tr_packet := (tr_packet r)\<lparr>dp_data := b\<rparr>, tr_recieved := of_nat (j + n)\<rparr>)" (is "_ = Some ?r")
    using h b bs by (simp add: store_bytes_def)
  have ch: "check_header bs ?r = Some ?r"
    using h by (simp add: check_header_def)
  have t: "tcp_turn (Some bs) r = Some (check_data bs ?r)"
    using h nz bs(2) st ch by (auto simp: tcp_turn_def split: list.split)
  show ?thesis
  proof (cases "j + n < d")
    case True
    then have "(of_nat (j + n) :: u64) < of_nat d"
      using u [of "j + n"] u [of d] by (simp add: word_less_nat_alt)
    moreover have "of_nat (d - j) - of_nat n = (of_nat (d - (j + n)) :: u64)"
      using True by (simp add: of_nat_diff)
    moreover have "(of_nat (j + n) :: u64) \<noteq> of_nat d"
      using True u [of "j + n"] u [of d] by (metis less_irrefl order_refl less_imp_le_nat)
    ultimately have "check_data bs ?r = (Again, ?r\<lparr>tr_remaining := of_nat (d - (j + n))\<rparr>)"
      using h bs(1) by (simp add: check_data_def Let_def)
    then show ?thesis
      using True t h b by (auto simp: bs_def at_data_def packet_for_def)
  next
    case False
    then have "j + n = d"
      using assms(5) h(8) by simp
    then have "check_data bs ?r = (Frame (sint (fst f)), ?r\<lparr>tr_remaining := 12, tr_recieved := 0, tr_header_ok := False\<rparr>)"
      using h by (simp add: check_data_def Let_def)
    then show ?thesis
      using False t h b \<open>j + n = d\<close> assms(3) by (auto simp: bs_def at_header_def packet_for_def)
  qed
qed

lemma reader_at_empty:
  assumes "reader_at d fs [] r" "\<forall>f \<in> set fs. length (snd f) = d"
  shows "fs = []"
  using assms by (cases fs) (auto simp: reader_at_def frame_stream_def at_data_def)

text \<open>\<open>n\<close> bytes are read by a turn when \<open>k\<close> have arrived.\<close>

definition read_size :: "nat \<Rightarrow> u8 list \<Rightarrow> tcp_reader \<Rightarrow> nat" where
  "read_size k s r = (if tr_remaining r = 0 then 0 else min k (min (unat (tr_remaining r)) (length s)))"

lemma tcp_run_Again:
  "tcp_turn (Some (take n s)) r = Some (Again, r') \<Longrightarrow> read_size k s r = n \<Longrightarrow>
    tcp_run (k # ks) (s, r, out) = tcp_run ks (drop n s, r', out)"
  by (simp add: read_size_def Let_def split: if_splits)

lemma tcp_run_None:
  "tcp_turn (Some (take n s)) r = None \<Longrightarrow> read_size k s r = n \<Longrightarrow> tcp_run (k # ks) (s, r, out) = None"
  by (simp add: read_size_def Let_def split: if_splits)

lemma reader_turn:
  assumes "reader_at d fs s r" "0 < d" "d < 2 ^ 31" "\<forall>f \<in> set fs. length (snd f) = d" "12 \<le> k"
  shows "\<exists>c r' fs'. tcp_turn (Some (take (read_size k s r) s)) r = Some (c, r') \<and> reader_at d fs' (drop (read_size k s r) s) r'
    \<and> (s \<noteq> [] \<longrightarrow> 0 < read_size k s r)
    \<and> (c = Again \<and> fs' = fs \<or> (\<exists>f. fs = f # fs' \<and> c = Frame (sint (fst f)) \<and> dp_data (tr_packet r') = snd f))"
  using assms(1) [unfolded reader_at_def]
proof (elim disjE exE conjE)
  assume h: "at_header d r" and s: "s = frame_stream d fs"
  show ?thesis
  proof (cases fs)
    case Nil
    then show ?thesis
      using h s by (auto simp: frame_stream_def tcp_turn_def reader_at_def at_header_def read_size_def)
  next
    case (Cons f gs)
    then have s': "s = frame_header d f @ snd f @ frame_stream d gs"
      using s by (simp add: frame_stream_def)
    have n: "read_size k s r = 12"
      using h s' assms(5) by (simp add: read_size_def at_header_def)
    from header_turn [OF h assms(2,3), of f] obtain r' where
      r': "tcp_turn (Some (frame_header d f)) r = Some (Again, r')" "at_data d f 0 r'"
      by blast
    then have "reader_at d fs (drop 12 s) r'"
      using s' Cons by (auto simp: reader_at_def)
    then show ?thesis
      using r' n s' by auto
  qed
next
  fix f gs j
  assume fs: "fs = f # gs" and a: "at_data d f j r" and s: "s = drop j (snd f) @ frame_stream d gs"
  define n where "n = read_size k s r"
  have l: "length (snd f) = d" "j < d"
    using assms(4) fs a by (auto simp: at_data_def)
  have u: "unat (tr_remaining r) = d - j"
    using a assms(3) unat_u64 [of "d - j"] by (simp add: at_data_def)
  moreover have "length s = d - j + length (frame_stream d gs)"
    using s l by simp
  moreover have "tr_remaining r \<noteq> 0"
    using u l by (metis unat_0 zero_less_diff less_irrefl)
  ultimately have n: "0 < n" "n \<le> d - j"
    using assms(5) l by (auto simp: n_def read_size_def)
  have t: "take n s = take n (drop j (snd f))" "drop n s = drop (j + n) (snd f) @ frame_stream d gs"
    using s n l by (auto simp: add.commute)
  from data_turn [OF a assms(3) l(1) n] obtain c r' where
    c: "tcp_turn (Some (take n s)) r = Some (c, r')"
      "if j + n < d then c = Again \<and> at_data d f (j + n) r'
       else c = Frame (sint (fst f)) \<and> at_header d r' \<and> dp_data (tr_packet r') = snd f"
    using t(1) by auto
  show ?thesis
  proof (cases "j + n < d")
    case True
    then have "reader_at d fs (drop n s) r'"
      using c t(2) fs by (auto simp: reader_at_def)
    then show ?thesis
      using c True n by (auto simp: n_def)
  next
    case False
    then have "reader_at d gs (drop n s) r'"
      using c t(2) l by (auto simp: reader_at_def)
    then show ?thesis
      using c False n fs by (auto simp: n_def)
  qed
qed

lemma tcp_run_frames:
  assumes "reader_at d fs s r" "0 < d" "d < 2 ^ 31" "\<forall>f \<in> set fs. length (snd f) = d" "\<forall>k \<in> set ks. 12 \<le> k" "length s \<le> length ks"
  shows "\<exists>r'. tcp_run ks (s, r, out) = Some ([], r', out @ map (\<lambda>(i, data). (sint i, data)) fs) \<and> at_header d r'"
  using assms(1,4,5,6)
proof (induction ks arbitrary: fs s r out)
  case Nil
  then have "fs = []"
    using reader_at_empty [of d fs r] by simp
  then show ?case
    using Nil by (auto simp: reader_at_def)
next
  case (Cons k ks)
  from reader_turn [OF Cons.prems(1) assms(2,3) Cons.prems(2), of k] Cons.prems(3) obtain c r' fs' where
    t: "tcp_turn (Some (take (read_size k s r) s)) r = Some (c, r')" "reader_at d fs' (drop (read_size k s r) s) r'"
      "s \<noteq> [] \<longrightarrow> 0 < read_size k s r"
      "c = Again \<and> fs' = fs \<or> (\<exists>f. fs = f # fs' \<and> c = Frame (sint (fst f)) \<and> dp_data (tr_packet r') = snd f)"
    by auto
  have len: "length (drop (read_size k s r) s) \<le> length ks"
    using t(3) Cons.prems(4) by (cases s) auto
  have ok: "\<forall>f \<in> set fs'. length (snd f) = d"
    using t(4) Cons.prems(2) by auto
  define out' where "out' = (case c of Frame i \<Rightarrow> out @ [(i, dp_data (tr_packet r'))] | _ \<Rightarrow> out)"
  have run: "tcp_run (k # ks) (s, r, out) = tcp_run ks (drop (read_size k s r) s, r', out')"
    using t(1) by (simp add: out'_def read_size_def Let_def)
  have out': "out' @ map (\<lambda>(i, data). (sint i, data)) fs' = out @ map (\<lambda>(i, data). (sint i, data)) fs"
    using t(4) by (auto simp: out'_def)
  from Cons.IH [OF t(2) ok _ len, of out'] Cons.prems(3) show ?case
    by (simp add: run out' del: tcp_run.simps)
qed

subsection \<open>Properties\<close>


definition demo_frames :: "tcp_frame list" where
  "demo_frames = [(7, [1, 2]), (- 1, [3, 4])]"

definition demo_packet :: data_packet where
  "demo_packet = \<lparr>dp_header = replicate 12 0, dp_header_len = 12, dp_data = [0, 0], dp_data_len = 2\<rparr>"


text \<open>
  A header that arrives in two pieces breaks the reception: the rest of the header is counted twice, so the
  thread asks for more than the frame has. When the next bytes of the stream are there already, they are
  written behind the memory of the frame.
\<close>

theorem split_header_overruns:
  assumes "packet_for d p" "0 < d" "d < 2 ^ 31" "length (snd f) = d" "0 < a" "a < 12"
    and "fs \<noteq> []" "\<forall>g \<in> set fs. length (snd g) = d" "d + a \<le> k"
  shows "tcp_run (a # 12 # k # ks) (frame_stream d (f # fs), tcp_reader_start p, out) = None"
proof -
  define h where "h = frame_header d f"
  define rest where "rest = snd f @ frame_stream d fs"
  define r0 where "r0 = tcp_reader_start p"
  have s: "frame_stream d (f # fs) = h @ rest" "length h = 12" "h \<noteq> []"
    by (simp_all add: frame_stream_def h_def rest_def)
  have p: "length (dp_header p) = 12" "dp_header_len p = 12" "length (dp_data p) = d" "dp_data_len p = of_nat d"
    using assms(1) by (simp_all add: packet_for_def)
  have u: "unat (of_nat i :: u64) = i" if "i < 2 ^ 32" for i
    using that by (intro unat_u64) simp
  have ua: "(of_nat a :: u64) < 12" "unat (of_nat a :: u64) = a" "(12 - of_nat a :: u64) = of_nat (12 - a)"
    using assms(6) u [of a] by (simp_all add: word_less_nat_alt of_nat_diff)
  have nz: "(of_nat (12 - a) :: u64) \<noteq> 0" "unat (of_nat (12 - a) :: u64) = 12 - a"
    using u [of "12 - a"] assms(6) by (auto simp: unat_eq_0 [symmetric])
  define r1 where "r1 = r0\<lparr>tr_packet := p\<lparr>dp_header := take a h @ drop a (dp_header p)\<rparr>, tr_recieved := of_nat a,
    tr_remaining := of_nat (12 - a)\<rparr>"
  have h1: "take a h \<noteq> []" "length (take a h) = a" "tr_remaining r0 \<noteq> 0"
    using s assms(5,6) p by (simp_all add: r0_def tcp_reader_start_def)
  have "store_bytes (take a h) r0 = Some (r1\<lparr>tr_remaining := 12\<rparr>)"
    using h1 p assms(6) by (simp add: store_bytes_def bytes_put_def r0_def r1_def tcp_reader_start_def)
  moreover have "check_header (take a h) (r1\<lparr>tr_remaining := 12\<rparr>) = Some r1"
    using h1(2) p ua by (simp add: check_header_def r1_def r0_def tcp_reader_start_def Let_def less_imp_neq)
  moreover have "check_data (take a h) r1 = (Again, r1)"
    by (simp add: check_data_def r1_def r0_def tcp_reader_start_def)
  ultimately have "tcp_turn (Some (take a h)) r0 = Some (Again, r1)"
    using h1 by (simp add: tcp_turn_bytes)
  then have one: "tcp_run (a # 12 # k # ks) (h @ rest, r0, out) = tcp_run (12 # k # ks) (drop a h @ rest, r1, out)"
    using s(2) assms(6) p tcp_run_Again [of a "h @ rest" r0 r1 a]
    by (simp add: r0_def tcp_reader_start_def read_size_def min_def del: tcp_run.simps)
  define r2 where "r2 = r1\<lparr>tr_packet := p\<lparr>dp_header := h\<rparr>, tr_recieved := 0, tr_remaining := of_nat (d + a),
    tr_header_ok := True, tr_data_size := of_nat (d + 12), tr_frame_id := sint (fst f)\<rparr>"
  have dpos: "(0 :: u64) < of_nat d"
    using assms(2,3) u [of d] by (simp add: word_less_nat_alt)
  have h2: "drop a h \<noteq> []" "length (drop a h) = 12 - a" "tr_remaining r1 \<noteq> 0"
    using s assms(6) nz(1) by (simp_all add: r1_def)
  have sum: "of_nat a + of_nat (12 - a) = (12 :: u64)"
    using assms(6) by (simp add: of_nat_diff)
  have "store_bytes (drop a h) r1 = Some (r1\<lparr>tr_packet := p\<lparr>dp_header := h\<rparr>, tr_recieved := 12\<rparr>)" (is "_ = Some ?r")
  proof -
    have "bytes_put (of_nat a) (drop a h) (take a h @ drop a (dp_header p)) = Some h"
      using p(1) s(2) ua(2) assms(6) by (simp add: bytes_put_def)
    moreover have "of_nat a + of_nat (length (drop a h)) = (12 :: u64)"
      by (simp only: h2(2) sum)
    moreover have "tr_packet r1 = p\<lparr>dp_header := take a h @ drop a (dp_header p)\<rparr>" "tr_recieved r1 = of_nat a" "\<not> tr_header_ok r1"
      by (simp_all add: r1_def r0_def tcp_reader_start_def)
    ultimately show ?thesis
      by (simp add: store_bytes_def Let_def)
  qed
  moreover have "check_header (drop a h) ?r = Some (r2\<lparr>tr_remaining := of_nat (d + 12)\<rparr>)"
    using p by (simp add: check_header_def r1_def r2_def r0_def tcp_reader_start_def Let_def h_def frame_header_fields)
  moreover have "of_nat (d + 12) - of_nat (12 - a) = (of_nat (d + a) :: u64)"
    using assms(6) by (simp add: of_nat_diff)
  then have "check_data (drop a h) (r2\<lparr>tr_remaining := of_nat (d + 12)\<rparr>) = (Again, r2)"
    using dpos p h2(2) by (simp add: check_data_def r2_def r1_def r0_def Let_def less_imp_neq)
  ultimately have "tcp_turn (Some (drop a h)) r1 = Some (Again, r2)"
    using h2 by (simp add: tcp_turn_bytes)
  then have two: "tcp_run (12 # k # ks) (drop a h @ rest, r1, out) = tcp_run (k # ks) (rest, r2, out)"
  proof -
    have "read_size 12 (drop a h @ rest) r1 = 12 - a"
      using s(2) assms(5,6) nz by (simp add: r1_def read_size_def)
    moreover have "take (12 - a) (drop a h @ rest) = drop a h" "drop (12 - a) (drop a h @ rest) = rest"
      using s(2) assms(6) by simp_all
    ultimately show ?thesis
      using tcp_run_Again [of "12 - a" "drop a h @ rest" r1 r2 12 "k # ks" out] \<open>tcp_turn (Some (drop a h)) r1 = Some (Again, r2)\<close>
      by (simp only: simp_thms refl)
  qed
  have "length rest = d + length (frame_stream d fs)"
    using assms(4) by (simp add: rest_def)
  moreover have "12 \<le> length (frame_stream d fs)"
    using assms(7) by (cases fs) (simp_all add: frame_stream_def)
  moreover have "unat (of_nat (d + a) :: u64) = d + a"
    using u [of "d + a"] assms(3,6) by simp
  moreover have "(of_nat (d + a) :: u64) \<noteq> 0"
    using calculation(3) assms(2) by (metis add_is_0 less_irrefl unat_0)
  moreover have "store_bytes (take (d + a) rest) r2 = None" if "length (take (d + a) rest) = d + a"
    using that p assms(5) by (simp add: store_bytes_def r2_def bytes_put_def)
  moreover have "rest \<noteq> []"
    using calculation(1) assms(2) by auto
  ultimately have "tcp_turn (Some (take (d + a) rest)) r2 = None" "read_size k rest r2 = d + a"
    using assms(2,6,9) tcp_turn_bytes [of "take (d + a) rest" r2] by (auto simp: r2_def read_size_def)
  then have "tcp_run (k # ks) (rest, r2, out) = None"
    by (rule tcp_run_None)
  then show ?thesis
    using one two s(1) by (simp only: r0_def)
qed

theorem split_header_overruns_witness:
  "tcp_run [5, 12, 7] (frame_stream 2 demo_frames, tcp_reader_start demo_packet, []) = None"
proof -
  have "packet_for 2 demo_packet"
    by (simp add: packet_for_def demo_packet_def)
  from split_header_overruns [OF this, of "(7, [1, 2])" 5 "[(- 1, [3, 4])]" 7 "[]" "[]"] show ?thesis
    by (simp add: demo_frames_def del: tcp_run.simps)
qed

end
