(* ===== verification/Gvcp.thy ===== *)
theory Gvcp imports C_Buffer begin

section \<open>The camera control protocol (libcapture: gvcp.h, gvcp.c, gige_camera_ops.c)\<close>

text \<open>
  Packets are built in memory on a little endian machine, with \<open>htons\<close> and \<open>htonl\<close> where the source has them, and
  are sent as their bytes. The camera is a parameter: a function \<open>dev\<close> from its state and the bytes it
  receives to the answers of the system to the calls that wait for the acknowledgement. Requests for memory
  succeed here. Printing is not modelled.
\<close>

subsection \<open>Byte order\<close>

definition htons :: "u16 \<Rightarrow> u16" where
  "htons w = push_bit 8 w OR drop_bit 8 w"

definition htonl :: "u32 \<Rightarrow> u32" where
  "htonl w = push_bit 24 (take_bit 8 w) OR push_bit 16 (take_bit 8 (drop_bit 8 w))
     OR push_bit 8 (take_bit 8 (drop_bit 16 w)) OR drop_bit 24 w"

abbreviation ntohs :: "u16 \<Rightarrow> u16" where "ntohs \<equiv> htons"
abbreviation ntohl :: "u32 \<Rightarrow> u32" where "ntohl \<equiv> htonl"

definition mem16 :: "u16 \<Rightarrow> u8 list" where "mem16 w = le_bytes 2 (ucast w)"
definition mem32 :: "u32 \<Rightarrow> u8 list" where "mem32 w = le_bytes 4 (ucast w)"
definition load16 :: "u8 list \<Rightarrow> u16" where "load16 bs = ucast (of_le (take 2 bs))"
definition load32 :: "u8 list \<Rightarrow> u32" where "load32 bs = ucast (of_le (take 4 bs))"

lemma mem_length [simp]: "length (mem16 w) = 2" "length (mem32 v) = 4"
  by (simp_all add: mem16_def mem32_def)

lemma load_mem [simp]: "load16 (mem16 w @ r) = w" "load32 (mem32 v @ r) = v"
  by (simp_all add: load16_def load32_def mem16_def mem32_def of_le_bytes)
    (rule bit_word_eqI; simp add: bit_simps)+

lemma htons_htons [simp]: "htons (htons w) = w"
  by (rule bit_word_eqI) (auto simp: htons_def bit_simps)

lemma bit_htonl:
  "n < 32 \<Longrightarrow> bit (htonl w) n \<longleftrightarrow> bit w (if n < 8 then n + 24 else if n < 16 then n + 8 else if n < 24 then n - 8 else n - 24)"
proof -
  assume "n < 32"
  then consider "n < 8" | "8 \<le> n" "n < 16" | "16 \<le> n" "n < 24" | "24 \<le> n" "n < 32"
    by fastforce
  then show ?thesis
  proof cases
    case 1
    then show ?thesis by (simp add: htonl_def bit_simps add.commute)
  next
    case 2
    then have "\<not> bit w (n + 24)"
      using bit_imp_le_length [of w "n + 24"] by auto
    moreover have "n - 8 < 8"
      using 2 by simp
    ultimately show ?thesis
      using 2 by (simp add: htonl_def bit_simps add.commute)
  next
    case 3
    then have "\<not> bit w (n + 24)" "n - 16 < 8" "\<not> n - 8 < 8"
      using bit_imp_le_length [of w "n + 24"] by auto
    with 3 show ?thesis
      by (simp add: htonl_def bit_simps add.commute)
  next
    case 4
    then have "\<not> bit w (n + 24)" "n - 24 < 8" "\<not> n - 16 < 8" "\<not> n - 8 < 8"
      using bit_imp_le_length [of w "n + 24"] by auto
    with 4 show ?thesis
      by (simp add: htonl_def bit_simps add.commute)
  qed
qed

lemma htonl_htonl [simp]: "htonl (htonl w) = w"
proof (rule bit_word_eqI)
  fix n assume n: "n < LENGTH(32)"
  define swap where "swap k = (if k < 8 then k + 24 else if k < 16 then k + 8 else if k < 24 then k - 8 else k - 24)" for k :: nat
  have "swap n < 32" "swap (swap n) = n"
    using n by (auto simp: swap_def)
  moreover have "bit (htonl v) k \<longleftrightarrow> bit v (swap k)" if "k < 32" for v k
    using bit_htonl [OF that] by (simp add: swap_def)
  ultimately show "bit (htonl (htonl w)) n = bit w n"
    using n by simp
qed

subsection \<open>Packets\<close>

definition GVCP_PACKET_TYPE_ACK :: u8 where "GVCP_PACKET_TYPE_ACK = 0x00"
definition GVCP_PACKET_TYPE_CMD :: u8 where "GVCP_PACKET_TYPE_CMD = 0x42"
definition GVCP_PACKET_TYPE_ERROR :: u16 where "GVCP_PACKET_TYPE_ERROR = 0x80"
definition ACK_REQUIRED :: u8 where "ACK_REQUIRED = 0x01"
definition DISCOVERY_CMD :: u16 where "DISCOVERY_CMD = 0x0002"
definition DISCOVERY_ACK :: u16 where "DISCOVERY_ACK = 0x0003"
definition READ_REG_CMD :: u16 where "READ_REG_CMD = 0x0080"
definition WRITE_REG_CMD :: u16 where "WRITE_REG_CMD = 0x0082"

text \<open>The header is eight bytes without padding; its fields are as they lie in memory.\<close>

record gvcp_packet =
  gh_packet_type :: u8
  gh_packet_flags :: u8
  gh_command :: u16
  gh_size :: u16
  gh_id :: u16
  gp_data :: "u8 list"

definition packet_bytes :: "gvcp_packet \<Rightarrow> u8 list" where
  "packet_bytes p = [gh_packet_type p, gh_packet_flags p] @ mem16 (gh_command p) @ mem16 (gh_size p) @ mem16 (gh_id p) @ gp_data p"

definition packet_of_bytes :: "u8 list \<Rightarrow> gvcp_packet" where
  "packet_of_bytes bs = \<lparr>gh_packet_type = bs ! 0, gh_packet_flags = bs ! 1, gh_command = load16 (drop 2 bs),
     gh_size = load16 (drop 4 bs), gh_id = load16 (drop 6 bs), gp_data = drop 8 bs\<rparr>"

lemma packet_of_packet_bytes [simp]: "packet_of_bytes (packet_bytes p) = p"
  by (simp add: packet_of_bytes_def packet_bytes_def)

definition gvcp_discovery_packet :: "gvcp_packet \<times> nat" where
  "gvcp_discovery_packet = (\<lparr>gh_packet_type = GVCP_PACKET_TYPE_CMD, gh_packet_flags = ACK_REQUIRED,
     gh_command = htons DISCOVERY_CMD, gh_size = htons 0, gh_id = htons 0xffff, gp_data = []\<rparr>, 8)"

definition gvcp_read_register_packet :: "u32 \<Rightarrow> u32 \<Rightarrow> gvcp_packet \<times> nat" where
  "gvcp_read_register_packet reg_addr packet_id = (\<lparr>gh_packet_type = GVCP_PACKET_TYPE_CMD, gh_packet_flags = ACK_REQUIRED,
     gh_command = htons READ_REG_CMD, gh_size = htons 4, gh_id = htons (ucast packet_id),
     gp_data = mem32 (htonl reg_addr)\<rparr>, 12)"

definition gvcp_write_register_packet :: "u32 \<Rightarrow> u32 \<Rightarrow> u32 \<Rightarrow> gvcp_packet \<times> nat" where
  "gvcp_write_register_packet reg_addr reg_value packet_id = (\<lparr>gh_packet_type = GVCP_PACKET_TYPE_CMD,
     gh_packet_flags = ACK_REQUIRED, gh_command = htons WRITE_REG_CMD, gh_size = htons 8,
     gh_id = htons (ucast packet_id), gp_data = mem32 (htonl reg_addr) @ mem32 (htonl reg_value)\<rparr>, 16)"

text \<open>
  The answer to a discovery: four texts at fixed offsets are copied, each up to its NUL, into arrays of the
  caller, and six bytes become the text of the address. \<open>None\<close> is a read behind the packet or a
  write behind an array.
\<close>

record device_texts =
  dt_vendor :: string
  dt_model :: string
  dt_serial :: string
  dt_user_id :: string
  dt_mac :: string

definition chars_of :: "u8 list \<Rightarrow> string" where
  "chars_of bs = map (\<lambda>b. char_of (unat b)) bs"

definition copy_text :: "nat \<Rightarrow> u8 list \<Rightarrow> string \<Rightarrow> string option" where
  "copy_text off data a = Option.bind (cstr (chars_of (drop off data))) (\<lambda>s. strcpy_to 0 s a)"

definition show_hh :: "u8 \<Rightarrow> string" where
  "show_hh b = [digit_char (unat b div 16), digit_char (unat b mod 16)]"

definition mac_text :: "u8 list \<Rightarrow> string" where
  "mac_text bs = concat (map (\<lambda>b. show_hh b @ '':'') (butlast bs)) @ show_hh (last bs)"

definition gvcp_discovery_ack :: "device_texts \<Rightarrow> gvcp_packet option \<Rightarrow> (int \<times> device_texts) option" where
  "gvcp_discovery_ack t p = (case p of
     None \<Rightarrow> Some (- 1, t)
   | Some p \<Rightarrow>
     (let data = gp_data p
      in if ntohs (gh_command p) = DISCOVERY_ACK \<and> ntohs (gh_id p) = 0xffff
         then do {
           vendor \<leftarrow> copy_text 0x48 data (dt_vendor t);
           model \<leftarrow> copy_text 0x68 data (dt_model t);
           serial \<leftarrow> copy_text 0xd8 data (dt_serial t);
           user_id \<leftarrow> copy_text 0xe8 data (dt_user_id t);
           mac \<leftarrow> strcpy_to 0 (mac_text (take 6 (drop (8 + 2) data))) (dt_mac t);
           Some (0, \<lparr>dt_vendor = vendor, dt_model = model, dt_serial = serial, dt_user_id = user_id, dt_mac = mac\<rparr>) }
         else Some (0, t)))"

text \<open>\<open>ntohs\<close> is applied to the one byte of the packet type.\<close>

definition gvcp_register_ack :: "u32 \<Rightarrow> gvcp_packet option \<Rightarrow> int \<times> u32" where
  "gvcp_register_ack value p = (case p of
     None \<Rightarrow> (- 1, value)
   | Some p \<Rightarrow> (0, if ntohs (ucast (gh_packet_type p)) = ucast GVCP_PACKET_TYPE_ACK then ntohl (load32 (gp_data p)) else value))"

subsection \<open>Waiting for the acknowledgement\<close>

text \<open>
  What \<open>epoll_wait\<close> and \<open>recvfrom\<close> answer: an error, no data in the time, or a datagram (\<open>None\<close> an error of the
  socket). A wait that has no further answer runs into its time limit.
\<close>

datatype gv_event = Gv_error | Gv_timeout | Gv_recv "u8 list option"

record ack_answers =
  aa_written :: int
  aa_epoll :: bool
  aa_ctl :: bool
  aa_events :: "gv_event list"

fun ack_loop :: "gv_event list \<Rightarrow> gvcp_packet option" where
  "ack_loop [] = None"
| "ack_loop (Gv_error # es) = None"
| "ack_loop (Gv_timeout # es) = None"
| "ack_loop (Gv_recv None # es) = None"
| "ack_loop (Gv_recv (Some bs) # es) = (if length bs < 12 then ack_loop es else Some (packet_of_bytes (take 12 bs)))"

definition listen_packet_ack_new :: "int \<Rightarrow> ack_answers \<Rightarrow> gvcp_packet option" where
  "listen_packet_ack_new listen_fd a =
     (if \<not> aa_epoll a then None
      else if \<not> aa_ctl a then None
      else if listen_fd = - 1 then None
      else ack_loop (aa_events a))"

text \<open>The packets are counted, but every way out of the loop returns 0.\<close>

fun count_loop :: "int \<Rightarrow> gv_event list \<Rightarrow> int" where
  "count_loop cnt [] = 0"
| "count_loop cnt (Gv_error # es) = 0"
| "count_loop cnt (Gv_timeout # es) = 0"
| "count_loop cnt (Gv_recv None # es) = 0"
| "count_loop cnt (Gv_recv (Some bs) # es) = (if length bs < 12 then count_loop cnt es else count_loop (cnt + 1) es)"

definition listen_all_packets_ack_new :: "int \<Rightarrow> ack_answers \<Rightarrow> int" where
  "listen_all_packets_ack_new listen_fd a =
     (if \<not> aa_epoll a \<or> \<not> aa_ctl a then 0 else if listen_fd = - 1 then 0 else count_loop 0 (aa_events a))"

subsection \<open>Registers\<close>

type_synonym 'd device = "'d \<Rightarrow> u8 list \<Rightarrow> ack_answers \<times> 'd"

record 'd gv_io =
  gi_dev :: 'd
  gi_sent :: "(int \<times> u8 list) list"

definition transact :: "'d device \<Rightarrow> int \<Rightarrow> gvcp_packet \<times> nat \<Rightarrow> 'd gv_io \<Rightarrow> ack_answers \<times> 'd gv_io" where
  "transact dev fd p io =
     (let bytes = take (snd p) (packet_bytes (fst p)); (a, d) = dev (gi_dev io) bytes
      in (a, io\<lparr>gi_dev := d, gi_sent := gi_sent io @ [(fd, bytes)]\<rparr>))"

text \<open>The results are the code of \<open>write\<close> and the value, which keeps what it was without an acknowledgement.\<close>

definition read_register :: "'d device \<Rightarrow> int \<Rightarrow> u32 \<Rightarrow> u32 \<Rightarrow> u32 \<Rightarrow> 'd gv_io \<Rightarrow> int \<times> u32 \<times> 'd gv_io" where
  "read_register dev fd reg_addr value packet_id io =
     (let (a, io) = transact dev fd (gvcp_read_register_packet reg_addr packet_id) io;
          (_, value) = gvcp_register_ack value (listen_packet_ack_new fd a)
      in (aa_written a, value, io))"

definition write_register :: "'d device \<Rightarrow> int \<Rightarrow> u32 \<Rightarrow> u32 \<Rightarrow> u32 \<Rightarrow> 'd gv_io \<Rightarrow> int \<times> 'd gv_io" where
  "write_register dev fd reg_addr value packet_id io =
     (let (a, io) = transact dev fd (gvcp_write_register_packet reg_addr value packet_id) io;
          _ = gvcp_register_ack value (listen_packet_ack_new fd a)
      in (aa_written a, io))"

definition write_watchdog_register :: "'d device \<Rightarrow> int \<Rightarrow> u32 \<Rightarrow> u32 \<Rightarrow> u32 \<Rightarrow> 'd gv_io \<Rightarrow> int \<times> 'd gv_io" where
  "write_watchdog_register dev fd reg_addr value packet_id io =
     (let (a, io) = transact dev fd (gvcp_write_register_packet reg_addr value packet_id) io
      in (listen_all_packets_ack_new fd a, io))"

text \<open>The macro changes its argument: the results are the number and the new counter.\<close>

definition packet_number :: "u32 \<Rightarrow> u32" where
  "packet_number i = 0xf000 OR (i AND 0xfff)"

definition next_packet_id :: "u32 \<Rightarrow> u32 \<times> u32" where
  "next_packet_id i = (packet_number (i + 1), i + 1)"

text \<open>
  The functions that talk to a camera are sequences of reads into \<open>value\<close> and writes, each with the next number.
  A sequence is a program: read, write, write what was read last, write unless a value was read.
\<close>

datatype reg_step = Rd u32 | Wr u32 u32 | Wr_value u32 | Wr_unless u32 u32 u32

fun run_step :: "'d device \<Rightarrow> int \<Rightarrow> reg_step \<Rightarrow> u32 \<times> u32 \<times> 'd gv_io \<Rightarrow> u32 \<times> u32 \<times> 'd gv_io" where
  "run_step dev fd (Rd a) (value, i, io) =
     (let (n, i) = next_packet_id i; (_, value, io) = read_register dev fd a value n io in (value, i, io))"
| "run_step dev fd (Wr a v) (value, i, io) =
     (let (n, i) = next_packet_id i; (_, io) = write_register dev fd a v n io in (value, i, io))"
| "run_step dev fd (Wr_value a) (value, i, io) =
     (let (n, i) = next_packet_id i; (_, io) = write_register dev fd a value n io in (value, i, io))"
| "run_step dev fd (Wr_unless c a v) (value, i, io) =
     (if value = c then (value, i, io)
      else let (n, i) = next_packet_id i; (_, io) = write_register dev fd a v n io in (value, i, io))"

fun run_steps :: "'d device \<Rightarrow> int \<Rightarrow> reg_step list \<Rightarrow> u32 \<times> u32 \<times> 'd gv_io \<Rightarrow> u32 \<times> u32 \<times> 'd gv_io" where
  "run_steps dev fd [] s = s"
| "run_steps dev fd (x # xs) s = run_steps dev fd xs (run_step dev fd x s)"

subsection \<open>Setting up a camera\<close>

definition PRIVILEGE :: u32 where "PRIVILEGE = 0x00000a00"
definition CAPABILITY :: u32 where "CAPABILITY = 0x00000934"
definition N_STREAM_CHANNELS :: u32 where "N_STREAM_CHANNELS = 0x00000904"
definition TICK_FREQUENCY_HIGH :: u32 where "TICK_FREQUENCY_HIGH = 0x0000093c"
definition TICK_FREQUENCY_LOW :: u32 where "TICK_FREQUENCY_LOW = 0x00000940"
definition CHANNEL_0_IP_ADDRESS :: u32 where "CHANNEL_0_IP_ADDRESS = 0x00000d18"
definition CHANNEL_0_PORT :: u32 where "CHANNEL_0_PORT = 0x00000d00"
definition CHANNEL_0_PACKET_SIZE :: u32 where "CHANNEL_0_PACKET_SIZE = 0x00000d04"
definition CHANNEL_SOURCE_PORT :: u32 where "CHANNEL_SOURCE_PORT = 0x00000d1c"

text \<open>
  \<open>name\<close> is the address and port of the socket as \<open>getsockname\<close> stores them; when it fails the two results keep
  the memory's values.
\<close>

definition get_net_parameters_from_socket :: "(u32 \<times> u16) option \<Rightarrow> u32 \<Rightarrow> u32 \<Rightarrow> int \<times> u32 \<times> u32" where
  "get_net_parameters_from_socket name ip port = (case name of
     None \<Rightarrow> (- 1, ip, port)
   | Some (s_addr, sin_port) \<Rightarrow> (0, ntohl s_addr, ucast (ntohs sin_port)))"

definition gvcp_init :: "'d device \<Rightarrow> (u32 \<times> u16) option \<Rightarrow> u32 \<times> u32 \<Rightarrow> int \<Rightarrow> u32 \<Rightarrow> 'd gv_io \<Rightarrow> u32 \<times> 'd gv_io" where
  "gvcp_init dev name mem fd packet_id io =
     (let (_, ip, port) = get_net_parameters_from_socket name (fst mem) (snd mem);
          (_, value, io) = read_register dev fd N_STREAM_CHANNELS (- 1) packet_id io;
          (value, i, io) = run_steps dev fd [Rd CAPABILITY, Wr PRIVILEGE 0x02, Wr CHANNEL_0_IP_ADDRESS ip,
            Wr CHANNEL_0_PORT port] (value, packet_id, io);
          (packet_size, i, io) = run_steps dev fd [Rd CHANNEL_0_PACKET_SIZE] (0, i, io)
      in if 4096 < packet_size
         then (4096, snd (snd (run_steps dev fd [Wr CHANNEL_0_PACKET_SIZE 4096] (packet_size, i, io))))
         else (packet_size, io))"

text \<open>The two words are not initialized before they are read.\<close>

definition gvcp_get_timestamp_tick_frequency :: "'d device \<Rightarrow> u32 \<times> u32 \<Rightarrow> int \<Rightarrow> u32 \<Rightarrow> 'd gv_io \<Rightarrow> u64 \<times> 'd gv_io" where
  "gvcp_get_timestamp_tick_frequency dev mem fd packet_id io =
     (let (high, i, io) = run_steps dev fd [Rd TICK_FREQUENCY_HIGH] (fst mem, packet_id, io);
          (low, i, io) = run_steps dev fd [Rd TICK_FREQUENCY_LOW] (snd mem, i, io)
      in (push_bit 32 (ucast high) OR ucast low, io))"

definition gvcp_get_packet_size :: "'d device \<Rightarrow> u32 \<Rightarrow> int \<Rightarrow> u32 \<Rightarrow> 'd gv_io \<Rightarrow> u32 \<times> 'd gv_io" where
  "gvcp_get_packet_size dev mem fd packet_id io =
     (let (packet_size, _, io) = run_steps dev fd [Rd CHANNEL_0_PACKET_SIZE] (mem, packet_id, io) in (packet_size, io))"

subsection \<open>The operations of the camera types (gige_camera_ops.c)\<close>

definition gvcp_watchdog_no :: "reg_step list" where "gvcp_watchdog_no = []"
definition gvcp_start_no :: "reg_step list" where "gvcp_start_no = []"
definition gvcp_stop_no :: "reg_step list" where "gvcp_stop_no = []"

definition gvcp_watchdog_arvfake :: "reg_step list" where
  "gvcp_watchdog_arvfake = [Rd PRIVILEGE, Wr_unless 0x02 PRIVILEGE 0x02]"
definition gvcp_start_arvfake :: "reg_step list" where
  "gvcp_start_arvfake = [Wr PRIVILEGE 0x02, Wr 0x00000124 0x01]"
definition gvcp_stop_arvfake :: "reg_step list" where
  "gvcp_stop_arvfake = [Wr PRIVILEGE 0x02, Wr 0x00000124 0x00]"

definition gvcp_watchdog_flir_color :: "reg_step list" where
  "gvcp_watchdog_flir_color = [Rd PRIVILEGE, Wr_unless 0x02 PRIVILEGE 0x02, Wr 0xF0F04030 0x80000000, Rd CHANNEL_SOURCE_PORT]"
definition gvcp_start_flir_color :: "reg_step list" where
  "gvcp_start_flir_color = [Wr PRIVILEGE 0x02, Wr 0xF0F00A08 0x00000000, Rd 0xF0F00A0C, Wr_value 0xF0F00A0C,
     Wr 0xF0F00A08 0x00000000, Rd 0xF0F00960, Rd 0xF0F00964, Rd 0xF0F00530, Rd 0xF0F00830, Wr 0xF0F00830 0x80000000,
     Rd 0xF0F0083C, Wr_value 0xF0F0083C, Rd 0xF0F0053C, Rd 0xF0F0083C, Wr 0xF0F0083C 0xC2000610,
     Wr 0xF0F00968 0x41200000, Rd 0xF0F05410, Rd 0xF0F04050, Rd 0xF0F04054,
     Rd CHANNEL_0_PORT, Rd CHANNEL_SOURCE_PORT, Wr 0xF0F04030 0x80000000]"
definition gvcp_stop_flir_color :: "reg_step list" where
  "gvcp_stop_flir_color = [Wr PRIVILEGE 0x02, Rd 0xF0F00614, Wr 0xF0F00614 0x00000000]"

definition gvcp_watchdog_flir_color2 :: "reg_step list" where
  "gvcp_watchdog_flir_color2 = [Wr PRIVILEGE 0x02]"
definition gvcp_start_flir_color2 :: "reg_step list" where
  "gvcp_start_flir_color2 = [Wr PRIVILEGE 0x02, Wr 0x00081044 0x00000000, Wr 0x00081024 0x00000000,
     Rd 0x00081084, Rd 0x00081084, Wr 0x00081044 0x00000000, Wr 0x00081024 0x00000000,
     Rd 0x000C1108, Rd 0x000C1148, Rd 0x000C8C40, Rd 0x000C8C20, Rd 0x000C8C00, Wr 0x000C8424 0x00000000,
     Wr 0x000C1124 0x00000001, Rd 0x20002008, Rd CHANNEL_0_PORT, Rd CHANNEL_SOURCE_PORT,
     Wr PRIVILEGE 0x02, Wr 0x000C0004 0x00000001]"
definition gvcp_stop_flir_color2 :: "reg_step list" where
  "gvcp_stop_flir_color2 = [Wr PRIVILEGE 0x02, Rd 0x000C0004, Wr 0x000C0024 0x00000001]"

definition gvcp_watchdog_lucid_polar :: "reg_step list" where
  "gvcp_watchdog_lucid_polar = [Wr PRIVILEGE 0x02]"
definition gvcp_start_lucid_polar :: "reg_step list" where
  "gvcp_start_lucid_polar = [Wr PRIVILEGE 0x02, Wr 0x10300004 0x01]"
definition gvcp_stop_lucid_polar :: "reg_step list" where
  "gvcp_stop_lucid_polar = [Rd PRIVILEGE, Wr 0x10300004 0x00]"

definition gvcp_watchdog_flir_polar :: "reg_step list" where
  "gvcp_watchdog_flir_polar = [Rd PRIVILEGE]"
definition gvcp_start_flir_polar :: "reg_step list" where
  "gvcp_start_flir_polar = [Wr PRIVILEGE 0x02, Wr 0x00081044 0x00, Wr 0x00081024 0x00, Wr 0x00081084 0xc8,
     Wr 0x00081064 0xc8, Wr PRIVILEGE 0x02, Rd CHANNEL_SOURCE_PORT, Rd CHANNEL_0_PACKET_SIZE,
     Wr 0x00004050 0, Wr 0x00004054 0, Wr PRIVILEGE 0x02, Wr 0xc00c8 0x00, Wr 0xc1104 0x01, Wr 0xc0004 0x01]"
definition gvcp_stop_flir_polar :: "reg_step list" where
  "gvcp_stop_flir_polar = [Wr PRIVILEGE 0x02, Wr 0xc1124 0x00]"

record gige_camera_ops =
  op_watchdog :: "reg_step list"
  op_start :: "reg_step list"
  op_stop :: "reg_step list"

definition gige_camera_ops_no :: gige_camera_ops where
  "gige_camera_ops_no = \<lparr>op_watchdog = gvcp_watchdog_no, op_start = gvcp_start_no, op_stop = gvcp_stop_no\<rparr>"
definition gige_camera_ops_arvfake :: gige_camera_ops where
  "gige_camera_ops_arvfake = \<lparr>op_watchdog = gvcp_watchdog_arvfake, op_start = gvcp_start_arvfake, op_stop = gvcp_stop_arvfake\<rparr>"
definition gige_camera_ops_flir_color :: gige_camera_ops where
  "gige_camera_ops_flir_color = \<lparr>op_watchdog = gvcp_watchdog_flir_color, op_start = gvcp_start_flir_color, op_stop = gvcp_stop_flir_color\<rparr>"
definition gige_camera_ops_flir_color2 :: gige_camera_ops where
  "gige_camera_ops_flir_color2 = \<lparr>op_watchdog = gvcp_watchdog_flir_color2, op_start = gvcp_start_flir_color2, op_stop = gvcp_stop_flir_color2\<rparr>"
definition gige_camera_ops_flir_polar :: gige_camera_ops where
  "gige_camera_ops_flir_polar = \<lparr>op_watchdog = gvcp_watchdog_flir_polar, op_start = gvcp_start_flir_polar, op_stop = gvcp_stop_flir_polar\<rparr>"
definition gige_camera_ops_lucid_polar :: gige_camera_ops where
  "gige_camera_ops_lucid_polar = \<lparr>op_watchdog = gvcp_watchdog_lucid_polar, op_start = gvcp_start_lucid_polar, op_stop = gvcp_stop_lucid_polar\<rparr>"

text \<open>An operation runs its steps with the value -1 and the number it is given.\<close>

definition run_op :: "'d device \<Rightarrow> int \<Rightarrow> reg_step list \<Rightarrow> u32 \<Rightarrow> 'd gv_io \<Rightarrow> 'd gv_io" where
  "run_op dev fd steps packet_id io = snd (snd (run_steps dev fd steps (- 1, packet_id, io)))"

subsection \<open>Cameras that answer\<close>

text \<open>
  A camera of the standard holds registers: it acknowledges a request for a register with its value and a write
  after it has stored the value. \<open>regs\<close> reads the registers off the state of the camera.
\<close>

definition acknowledges :: "ack_answers \<Rightarrow> u32 \<Rightarrow> bool" where
  "acknowledges a v \<longleftrightarrow> aa_epoll a \<and> aa_ctl a \<and> (\<exists>bs es. aa_events a = Gv_recv (Some bs) # es \<and> 12 \<le> length bs
     \<and> bs ! 0 = 0 \<and> take 4 (drop 8 bs) = mem32 (htonl v))"

definition register_device :: "'d device \<Rightarrow> ('d \<Rightarrow> u32 \<Rightarrow> u32) \<Rightarrow> bool" where
  "register_device dev regs \<longleftrightarrow> (\<forall>d a v i.
     (case dev d (packet_bytes (fst (gvcp_read_register_packet a i))) of (ans, d') \<Rightarrow> acknowledges ans (regs d a) \<and> regs d' = regs d)
     \<and> (case dev d (packet_bytes (fst (gvcp_write_register_packet a v i))) of (ans, d') \<Rightarrow> regs d' = (regs d)(a := v)))"

lemma packet_lengths [simp]:
  "length (packet_bytes (fst (gvcp_read_register_packet a i))) = snd (gvcp_read_register_packet a i)"
  "length (packet_bytes (fst (gvcp_write_register_packet a v i))) = snd (gvcp_write_register_packet a v i)"
  by (simp_all add: packet_bytes_def gvcp_read_register_packet_def gvcp_write_register_packet_def)

lemma ack_value:
  assumes "acknowledges a v" "fd \<noteq> - 1"
  shows "gvcp_register_ack w (listen_packet_ack_new fd a) = (0, v)"
proof -
  obtain bs es where bs: "aa_events a = Gv_recv (Some bs) # es" "12 \<le> length bs" "bs ! 0 = 0" "take 4 (drop 8 bs) = mem32 (htonl v)"
    using assms(1) by (auto simp: acknowledges_def)
  have "gp_data (packet_of_bytes (take 12 bs)) = mem32 (htonl v)"
    using bs(4) by (simp add: packet_of_bytes_def drop_take)
  moreover have "gh_packet_type (packet_of_bytes (take 12 bs)) = 0"
    using bs(2,3) by (simp add: packet_of_bytes_def)
  moreover have "load32 (mem32 (htonl v)) = htonl v"
    using load_mem(2) [of "htonl v" "[]"] by simp
  ultimately show ?thesis
    using assms bs(1,2) by (simp add: listen_packet_ack_new_def acknowledges_def gvcp_register_ack_def htons_def GVCP_PACKET_TYPE_ACK_def)
qed

lemma read_register_device:
  assumes "register_device dev regs" "fd \<noteq> - 1"
  shows "\<exists>rc io'. read_register dev fd a w i io = (rc, regs (gi_dev io) a, io') \<and> regs (gi_dev io') = regs (gi_dev io)
    \<and> gi_sent io' = gi_sent io @ [(fd, packet_bytes (fst (gvcp_read_register_packet a i)))]"
proof -
  obtain ans d' where d: "dev (gi_dev io) (packet_bytes (fst (gvcp_read_register_packet a i))) = (ans, d')"
    by fastforce
  with assms(1) have "acknowledges ans (regs (gi_dev io) a)" "regs d' = regs (gi_dev io)"
    unfolding register_device_def by (metis (mono_tags, lifting) case_prod_conv)+
  with d ack_value [OF this(1) assms(2), of w] show ?thesis
    by (simp add: read_register_def transact_def)
qed

lemma write_register_device:
  assumes "register_device dev regs"
  shows "\<exists>rc io'. write_register dev fd a v i io = (rc, io') \<and> regs (gi_dev io') = (regs (gi_dev io))(a := v)
    \<and> gi_sent io' = gi_sent io @ [(fd, packet_bytes (fst (gvcp_write_register_packet a v i)))]"
proof -
  obtain ans d' where d: "dev (gi_dev io) (packet_bytes (fst (gvcp_write_register_packet a v i))) = (ans, d')"
    by fastforce
  with assms(1) have "regs d' = (regs (gi_dev io))(a := v)"
    unfolding register_device_def by (metis (mono_tags, lifting) case_prod_conv)
  with d show ?thesis
    by (simp add: write_register_def transact_def)
qed

text \<open>What a sequence of steps does to the registers and to the value, and the packets it sends, as a reference.\<close>

fun steps_effect :: "reg_step list \<Rightarrow> u32 \<times> (u32 \<Rightarrow> u32) \<Rightarrow> u32 \<times> (u32 \<Rightarrow> u32)" where
  "steps_effect [] s = s"
| "steps_effect (Rd a # xs) (v, r) = steps_effect xs (r a, r)"
| "steps_effect (Wr a w # xs) (v, r) = steps_effect xs (v, r(a := w))"
| "steps_effect (Wr_value a # xs) (v, r) = steps_effect xs (v, r(a := v))"
| "steps_effect (Wr_unless c a w # xs) (v, r) = steps_effect xs (v, if v = c then r else r(a := w))"

fun steps_packets :: "reg_step list \<Rightarrow> u32 \<times> (u32 \<Rightarrow> u32) \<Rightarrow> u32 \<Rightarrow> gvcp_packet list" where
  "steps_packets [] s i = []"
| "steps_packets (Rd a # xs) (v, r) i = fst (gvcp_read_register_packet a (packet_number (i + 1))) # steps_packets xs (r a, r) (i + 1)"
| "steps_packets (Wr a w # xs) (v, r) i = fst (gvcp_write_register_packet a w (packet_number (i + 1))) # steps_packets xs (v, r(a := w)) (i + 1)"
| "steps_packets (Wr_value a # xs) (v, r) i = fst (gvcp_write_register_packet a v (packet_number (i + 1))) # steps_packets xs (v, r(a := v)) (i + 1)"
| "steps_packets (Wr_unless c a w # xs) (v, r) i =
     (if v = c then steps_packets xs (v, r) i
      else fst (gvcp_write_register_packet a w (packet_number (i + 1))) # steps_packets xs (v, r(a := w)) (i + 1))"

lemma run_steps_device:
  assumes "register_device dev regs" "fd \<noteq> - 1"
  shows "\<exists>i' io'. run_steps dev fd xs (v, i, io) = (fst (steps_effect xs (v, regs (gi_dev io))), i', io')
    \<and> regs (gi_dev io') = snd (steps_effect xs (v, regs (gi_dev io)))
    \<and> gi_sent io' = gi_sent io @ map (\<lambda>p. (fd, packet_bytes p)) (steps_packets xs (v, regs (gi_dev io)) i)"
proof (induction xs arbitrary: v i io)
  case (Cons x xs)
  show ?case
  proof (cases x)
    case (Rd a)
    obtain rc io1 where "read_register dev fd a v (packet_number (i + 1)) io = (rc, regs (gi_dev io) a, io1)"
      "regs (gi_dev io1) = regs (gi_dev io)"
      "gi_sent io1 = gi_sent io @ [(fd, packet_bytes (fst (gvcp_read_register_packet a (packet_number (i + 1)))))]"
      using read_register_device [OF assms] by blast
    with Rd Cons.IH [of "regs (gi_dev io) a" "i + 1" io1] show ?thesis
      by (auto simp: next_packet_id_def fun_upd_def)
  next
    case (Wr a w)
    obtain rc io1 where "write_register dev fd a w (packet_number (i + 1)) io = (rc, io1)"
      "regs (gi_dev io1) = (regs (gi_dev io))(a := w)"
      "gi_sent io1 = gi_sent io @ [(fd, packet_bytes (fst (gvcp_write_register_packet a w (packet_number (i + 1)))))]"
      using write_register_device [OF assms(1)] by blast
    with Wr Cons.IH [of v "i + 1" io1] show ?thesis
      by (auto simp: next_packet_id_def fun_upd_def)
  next
    case (Wr_value a)
    obtain rc io1 where "write_register dev fd a v (packet_number (i + 1)) io = (rc, io1)"
      "regs (gi_dev io1) = (regs (gi_dev io))(a := v)"
      "gi_sent io1 = gi_sent io @ [(fd, packet_bytes (fst (gvcp_write_register_packet a v (packet_number (i + 1)))))]"
      using write_register_device [OF assms(1)] by blast
    with Wr_value Cons.IH [of v "i + 1" io1] show ?thesis
      by (auto simp: next_packet_id_def fun_upd_def)
  next
    case (Wr_unless c a w)
    obtain rc io1 where "write_register dev fd a w (packet_number (i + 1)) io = (rc, io1)"
      "regs (gi_dev io1) = (regs (gi_dev io))(a := w)"
      "gi_sent io1 = gi_sent io @ [(fd, packet_bytes (fst (gvcp_write_register_packet a w (packet_number (i + 1)))))]"
      using write_register_device [OF assms(1)] by blast
    with Wr_unless Cons.IH [of v i io] Cons.IH [of v "i + 1" io1] show ?thesis
      by (auto simp: next_packet_id_def fun_upd_def)
  qed
qed simp

text \<open>On the wire the numbers are in network order.\<close>

lemma mem32_bytes: "mem32 w = [ucast w, ucast (drop_bit 8 w), ucast (drop_bit 16 w), ucast (drop_bit 24 w)]"
  by (simp add: mem32_def numeral_eq_Suc) (intro conjI bit_word_eqI; simp add: bit_simps)

lemma mem16_bytes: "mem16 w = [ucast w, ucast (drop_bit 8 w)]"
  by (simp add: mem16_def numeral_eq_Suc) (intro conjI bit_word_eqI; simp add: bit_simps)

lemma mem32_htonl: "mem32 (htonl w) = rev (mem32 w)"
proof -
  have b: "bit (ucast (drop_bit k (htonl w)) :: u8) n = bit (ucast (drop_bit (24 - k) w) :: u8) n"
    if "n < 8" "k = 0 \<or> k = 8 \<or> k = 16 \<or> k = 24" for k n
    using that bit_htonl [of "k + n" w] by (auto simp: bit_simps add.commute)
  have "ucast (drop_bit k (htonl w)) = (ucast (drop_bit (24 - k) w) :: u8)" if "k = 0 \<or> k = 8 \<or> k = 16 \<or> k = 24" for k
    by (rule bit_word_eqI) (use b that in auto)
  from this [of 0] this [of 8] this [of 16] this [of 24] show ?thesis
    by (simp add: mem32_bytes)
qed

lemma mem16_htons: "mem16 (htons w) = rev (mem16 w)"
proof -
  have "ucast (htons w) = (ucast (drop_bit 8 w) :: u8)" "ucast (drop_bit 8 (htons w)) = (ucast w :: u8)"
    by (rule bit_word_eqI; auto simp: htons_def bit_simps)+
  then show ?thesis
    by (simp add: mem16_bytes)
qed

lemma wire_read: "packet_bytes (fst (gvcp_read_register_packet a i)) = [0x42, 1, 0, 0x80, 0, 4] @ rev (mem16 (ucast i)) @ rev (mem32 a)"
  by (simp add: packet_bytes_def gvcp_read_register_packet_def mem16_htons mem32_htonl GVCP_PACKET_TYPE_CMD_def ACK_REQUIRED_def
      READ_REG_CMD_def) (simp add: mem16_bytes)

lemma wire_write: "packet_bytes (fst (gvcp_write_register_packet a v i)) =
    [0x42, 1, 0, 0x82, 0, 8] @ rev (mem16 (ucast i)) @ rev (mem32 a) @ rev (mem32 v)"
  by (simp add: packet_bytes_def gvcp_write_register_packet_def mem16_htons mem32_htonl GVCP_PACKET_TYPE_CMD_def ACK_REQUIRED_def
      WRITE_REG_CMD_def) (simp add: mem16_bytes)

subsection \<open>Properties\<close>

text \<open>
  Claim C14. What is written to a register of a camera that answers is read back, whatever else it holds; the two
  requests on the wire are well formed, all numbers in network order, and no other register changes.
\<close>

theorem register_write_read:
  assumes "register_device dev regs" "fd \<noteq> - 1"
  shows "\<exists>rc rc' io1 io2. write_register dev fd a v i io = (rc, io1) \<and> read_register dev fd a w j io1 = (rc', v, io2)
    \<and> regs (gi_dev io2) = (regs (gi_dev io))(a := v)
    \<and> gi_sent io2 = gi_sent io
      @ [(fd, [0x42, 1, 0, 0x82, 0, 8] @ rev (mem16 (ucast i)) @ rev (mem32 a) @ rev (mem32 v)),
         (fd, [0x42, 1, 0, 0x80, 0, 4] @ rev (mem16 (ucast j)) @ rev (mem32 a))]"
proof -
  obtain rc io1 where w: "write_register dev fd a v i io = (rc, io1)" "regs (gi_dev io1) = (regs (gi_dev io))(a := v)"
    "gi_sent io1 = gi_sent io @ [(fd, packet_bytes (fst (gvcp_write_register_packet a v i)))]"
    using write_register_device [OF assms(1)] by blast
  obtain rc' io2 where r: "read_register dev fd a w j io1 = (rc', regs (gi_dev io1) a, io2)" "regs (gi_dev io2) = regs (gi_dev io1)"
    "gi_sent io2 = gi_sent io1 @ [(fd, packet_bytes (fst (gvcp_read_register_packet a j)))]"
    using read_register_device [OF assms] by blast
  from r w show ?thesis
    by (simp add: wire_read wire_write)
qed

text \<open>A camera with every register in a function, which reads its requests off the bytes.\<close>

definition demo_camera :: "(u32 \<Rightarrow> u32) device" where
  "demo_camera r bs =
     (let addr = ntohl (load32 (drop 8 bs)); value = ntohl (load32 (drop 12 bs));
          ack = (\<lambda>v. \<lparr>aa_written = int (length bs), aa_epoll = True, aa_ctl = True,
             aa_events = [Gv_recv (Some ([0, 0, 0, 0, 0, 4, 0, 0] @ mem32 (htonl v)))]\<rparr>)
      in if bs ! 3 = 0x80 then (ack (r addr), r) else (ack value, r(addr := value)))"

lemma demo_camera_device: "register_device demo_camera (\<lambda>r. r)"
proof -
  have h: "htonl (load32 (mem32 (htonl w) @ x)) = w" "htonl (load32 (mem32 (htonl w))) = w" for w x
    using load_mem(2) [of "htonl w" "[]"] by simp_all
  have "drop 8 (packet_bytes (fst (gvcp_read_register_packet a i))) = mem32 (htonl a)"
    "drop 8 (packet_bytes (fst (gvcp_write_register_packet a v i))) = mem32 (htonl a) @ mem32 (htonl v)"
    "drop 12 (packet_bytes (fst (gvcp_write_register_packet a v i))) = mem32 (htonl v)" for a v i
    by (simp_all add: packet_bytes_def gvcp_read_register_packet_def gvcp_write_register_packet_def)
  moreover have "packet_bytes (fst (gvcp_read_register_packet a i)) ! 3 = 0x80"
    "packet_bytes (fst (gvcp_write_register_packet a v i)) ! 3 = 0x82" for a v i
    by (simp_all add: wire_read wire_write)
  ultimately show ?thesis
    by (simp add: register_device_def demo_camera_def Let_def h acknowledges_def)
qed

theorem register_write_read_witness:
  "\<exists>rc rc' io1 io2. write_register demo_camera 3 0xd18 7 1 \<lparr>gi_dev = \<lambda>_. 0, gi_sent = []\<rparr> = (rc, io1)
     \<and> read_register demo_camera 3 0xd18 9 2 io1 = (rc', 7, io2)"
  using register_write_read [OF demo_camera_device, of 3 "0xd18" 7 1 "\<lparr>gi_dev = \<lambda>_. 0, gi_sent = []\<rparr>" 9 2] by auto



end
