(* ===== verification/Gvsp.thy ===== *)
theory Gvsp imports Gvcp begin

section \<open>Stream packets (libcapture: gvsp.h)\<close>

text \<open>
  A stream packet is the memory it was received into, as a list of bytes; a read outside of it is the fault \<open>None\<close>.
  The structures are packed: two bytes of packet type, then either the header (frame id, packet information,
  data from byte 8 on) or the extended header (flags, packet information, frame id, packet id, data from
  byte 20 on). A set bit 7 in byte 4 tells the second form.
\<close>

definition rd8 :: "nat \<Rightarrow> u8 list \<Rightarrow> u8 option" where
  "rd8 off bs = (if off < length bs then Some (bs ! off) else None)"
definition rd16 :: "nat \<Rightarrow> u8 list \<Rightarrow> u16 option" where
  "rd16 off bs = (if off + 2 \<le> length bs then Some (load16 (drop off bs)) else None)"
definition rd32 :: "nat \<Rightarrow> u8 list \<Rightarrow> u32 option" where
  "rd32 off bs = (if off + 4 \<le> length bs then Some (load32 (drop off bs)) else None)"
definition rd64 :: "nat \<Rightarrow> u8 list \<Rightarrow> u64 option" where
  "rd64 off bs = (if off + 8 \<le> length bs then Some (of_le (take 8 (drop off bs))) else None)"

definition EXTENDED_ID_MODE_MASK :: u8 where "EXTENDED_ID_MODE_MASK = 0x80"
definition PACKET_ID_MASK :: u32 where "PACKET_ID_MASK = 0x00ffffff"
definition CONTENT_TYPE_MASK :: u32 where "CONTENT_TYPE_MASK = 0x7f000000"

datatype gvsp_content_type = DATA_LEADER | DATA_TRAILER | DATA_BLOCK | ALL_IN | CONTENT_OTHER u32
datatype gvsp_payload_type = PAYLOAD_UNKNOWN | PAYLOAD_IMAGE

definition content_type_of :: "u32 \<Rightarrow> gvsp_content_type" where
  "content_type_of n = (if n = 1 then DATA_LEADER else if n = 2 then DATA_TRAILER else if n = 3 then DATA_BLOCK
     else if n = 4 then ALL_IN else CONTENT_OTHER n)"

definition gvsp_packet_type_is_error :: "u16 \<Rightarrow> bool" where
  "gvsp_packet_type_is_error packet_type \<longleftrightarrow> packet_type = GVCP_PACKET_TYPE_ERROR"

definition gvsp_packet_get_packet_type :: "u8 list \<Rightarrow> u16 option" where
  "gvsp_packet_get_packet_type p = map_option ntohs (rd16 0 p)"

definition gvsp_packet_has_extended_ids :: "u8 list \<Rightarrow> bool option" where
  "gvsp_packet_has_extended_ids p = map_option (\<lambda>b. b AND EXTENDED_ID_MODE_MASK \<noteq> 0) (rd8 (2 + 2) p)"

text \<open>The packet information is at byte 4 in both forms.\<close>

definition gvsp_packet_get_content_type :: "u8 list \<Rightarrow> gvsp_content_type option" where
  "gvsp_packet_get_content_type p = do {
     ext \<leftarrow> gvsp_packet_has_extended_ids p;
     info \<leftarrow> (if ext then rd32 (2 + 2) p else rd32 (2 + 2) p);
     Some (content_type_of (drop_bit 24 (ntohl info AND CONTENT_TYPE_MASK))) }"

definition gvsp_packet_get_packet_id :: "u8 list \<Rightarrow> u32 option" where
  "gvsp_packet_get_packet_id p = do {
     ext \<leftarrow> gvsp_packet_has_extended_ids p;
     if ext then map_option ntohl (rd32 (2 + 14) p)
     else map_option (\<lambda>info. ntohl info AND PACKET_ID_MASK) (rd32 (2 + 2) p) }"

text \<open>The frame id of the extended form is not converted from network order.\<close>

definition gvsp_packet_get_frame_id :: "u8 list \<Rightarrow> u64 option" where
  "gvsp_packet_get_frame_id p = do {
     ext \<leftarrow> gvsp_packet_has_extended_ids p;
     if ext then rd64 (2 + 6) p
     else map_option (\<lambda>i. ucast (ntohs i)) (rd16 2 p) }"

definition gvsp_packet_get_data :: "u8 list \<Rightarrow> nat option" where
  "gvsp_packet_get_data p = map_option (\<lambda>ext. if ext then 2 + 18 else 2 + 6) (gvsp_packet_has_extended_ids p)"

definition gvsp_packet_get_data_size :: "u8 list \<Rightarrow> u64 \<Rightarrow> u64 option" where
  "gvsp_packet_get_data_size p packet_size =
     map_option (\<lambda>ext. if ext then packet_size - 2 - 18 else packet_size - 2 - 6) (gvsp_packet_has_extended_ids p)"

text \<open>The leader: flags, payload type, time (two words), pixel format, width, height, x and y offset.\<close>

definition gvsp_packet_get_payload_type :: "u8 list \<Rightarrow> gvsp_payload_type option" where
  "gvsp_packet_get_payload_type p = do {
     d \<leftarrow> gvsp_packet_get_data p;
     t \<leftarrow> rd16 (d + 2) p;
     Some (if ntohs t = 1 \<or> ntohs t = 3 then PAYLOAD_IMAGE else PAYLOAD_UNKNOWN) }"

definition leader_word :: "nat \<Rightarrow> u8 list \<Rightarrow> u32 option" where
  "leader_word off p = do { d \<leftarrow> gvsp_packet_get_data p; map_option ntohl (rd32 (d + off) p) }"

definition gvsp_packet_get_x_offset :: "u8 list \<Rightarrow> u32 option" where "gvsp_packet_get_x_offset p = leader_word 24 p"
definition gvsp_packet_get_y_offset :: "u8 list \<Rightarrow> u32 option" where "gvsp_packet_get_y_offset p = leader_word 28 p"
definition gvsp_packet_get_width :: "u8 list \<Rightarrow> u32 option" where "gvsp_packet_get_width p = leader_word 16 p"
definition gvsp_packet_get_height :: "u8 list \<Rightarrow> u32 option" where "gvsp_packet_get_height p = leader_word 20 p"
definition gvsp_packet_get_pixel_format :: "u8 list \<Rightarrow> u32 option" where "gvsp_packet_get_pixel_format p = leader_word 12 p"

definition ticks_to_ns :: "u64 \<Rightarrow> u64 \<Rightarrow> u64" where
  "ticks_to_ns timestamp frequency =
     (if frequency < 1 then 0
      else let timestamp_s = timestamp div frequency;
               timestamp_ns = ((timestamp mod frequency) * 1000000000) div frequency
           in timestamp_ns + timestamp_s * 1000000000)"

definition gvsp_packet_get_timestamp :: "u8 list \<Rightarrow> u64 \<Rightarrow> u64 option" where
  "gvsp_packet_get_timestamp p timestamp_tick_frequency = do {
     _ \<leftarrow> gvsp_packet_get_data p;
     if timestamp_tick_frequency < 1 then Some 0
     else do {
       high \<leftarrow> leader_word 4 p;
       low \<leftarrow> leader_word 8 p;
       Some (ticks_to_ns (push_bit 32 (ucast high) OR ucast low) timestamp_tick_frequency) } }"

subsection \<open>Packets as a camera makes them\<close>

text \<open>The reference: packets written field by field in network order.\<close>

record leader =
  ld_payload_type :: u16
  ld_timestamp_high :: u32
  ld_timestamp_low :: u32
  ld_pixel_format :: u32
  ld_width :: u32
  ld_height :: u32
  ld_x_offset :: u32
  ld_y_offset :: u32

definition net16 :: "u16 \<Rightarrow> u8 list" where "net16 w = rev (mem16 w)"
definition net32 :: "u32 \<Rightarrow> u8 list" where "net32 w = rev (mem32 w)"

definition leader_bytes :: "leader \<Rightarrow> u8 list" where
  "leader_bytes l = [0, 0] @ net16 (ld_payload_type l) @ net32 (ld_timestamp_high l) @ net32 (ld_timestamp_low l)
     @ net32 (ld_pixel_format l) @ net32 (ld_width l) @ net32 (ld_height l) @ net32 (ld_x_offset l) @ net32 (ld_y_offset l)"

definition stream_packet :: "u16 \<Rightarrow> u16 \<Rightarrow> u32 \<Rightarrow> u8 list \<Rightarrow> u8 list" where
  "stream_packet packet_type frame_id info data = net16 packet_type @ net16 frame_id @ net32 info @ data"

lemma net_length [simp]: "length (net16 w) = 2" "length (net32 v) = 4"
  by (simp_all add: net16_def net32_def)

lemma ntoh_net [simp]: "ntohs (load16 (net16 w @ r)) = w" "ntohl (load32 (net32 v @ r)) = v"
  by (simp_all add: net16_def net32_def flip: mem16_htons mem32_htonl)

text \<open>Reading the fields of a sequence of written fields, one after the other.\<close>

lemma rd16_skip [simp]:
  "rd16 0 (net16 w @ r) = Some (load16 (net16 w @ r))"
  "2 \<le> n \<Longrightarrow> rd16 n (net16 w @ r) = rd16 (n - 2) r"
  "4 \<le> n \<Longrightarrow> rd16 n (net32 v @ r) = rd16 (n - 4) r"
  "1 \<le> n \<Longrightarrow> rd16 n (b # r) = rd16 (n - 1) r"
  by (auto simp: rd16_def drop_Cons' split: if_splits)

lemma rd32_skip [simp]:
  "rd32 0 (net32 v @ r) = Some (load32 (net32 v @ r))"
  "2 \<le> n \<Longrightarrow> rd32 n (net16 w @ r) = rd32 (n - 2) r"
  "4 \<le> n \<Longrightarrow> rd32 n (net32 v @ r) = rd32 (n - 4) r"
  "1 \<le> n \<Longrightarrow> rd32 n (b # r) = rd32 (n - 1) r"
  by (auto simp: rd32_def drop_Cons' split: if_splits)

lemma load32_net32 [simp]: "ntohl (load32 (net32 v)) = v" "ntohs (load16 (net16 w)) = w"
  using ntoh_net(1) [of w "[]"] ntoh_net(2) [of v "[]"] by simp_all

lemma rd_end [simp]: "rd32 0 (net32 v) = Some (load32 (net32 v))" "rd16 0 (net16 w) = Some (load16 (net16 w))"
  by (simp_all add: rd32_def rd16_def)

lemma byte4: "rd8 4 (stream_packet t f info data) = Some (ucast (drop_bit 24 info))"
  by (simp add: rd8_def stream_packet_def nth_append net32_def mem32_bytes)

lemma mask_bits:
  "bit EXTENDED_ID_MODE_MASK n \<longleftrightarrow> n = 7" "bit CONTENT_TYPE_MASK n \<longleftrightarrow> 24 \<le> n \<and> n < 31"
proof -
  have e: "EXTENDED_ID_MODE_MASK = push_bit 7 1" "CONTENT_TYPE_MASK = push_bit 24 (mask 7)"
    by (simp_all add: EXTENDED_ID_MODE_MASK_def CONTENT_TYPE_MASK_def mask_eq_exp_minus_1 push_bit_eq_mult)
  show "bit EXTENDED_ID_MODE_MASK n \<longleftrightarrow> n = 7"
    unfolding e(1) by (simp only: bit_simps) auto
  show "bit CONTENT_TYPE_MASK n \<longleftrightarrow> 24 \<le> n \<and> n < 31"
    unfolding e(2) by (simp only: bit_simps) auto
qed

lemma ext_bit: "((ucast (drop_bit 24 (info :: u32)) :: u8) AND EXTENDED_ID_MODE_MASK \<noteq> 0) \<longleftrightarrow> bit info 31"
proof -
  have b: "bit ((ucast (drop_bit 24 info) :: u8) AND EXTENDED_ID_MODE_MASK) n \<longleftrightarrow> n = 7 \<and> bit info 31" for n
    by (auto simp: bit_simps mask_bits)
  show ?thesis
  proof
    assume "bit info 31"
    with b [of 7] show "(ucast (drop_bit 24 info) :: u8) AND EXTENDED_ID_MODE_MASK \<noteq> 0"
      by auto
  next
    assume n: "(ucast (drop_bit 24 info) :: u8) AND EXTENDED_ID_MODE_MASK \<noteq> 0"
    show "bit info 31"
    proof (rule ccontr)
      assume "\<not> bit info 31"
      with b have "(ucast (drop_bit 24 info) :: u8) AND EXTENDED_ID_MODE_MASK = 0"
        by (intro bit_word_eqI) simp
      with n show False ..
    qed
  qed
qed

lemma stream_packet_fields:
  assumes "\<not> bit info 31"
  shows "gvsp_packet_has_extended_ids (stream_packet t f info data) = Some False"
    "gvsp_packet_get_packet_type (stream_packet t f info data) = Some t"
    "gvsp_packet_get_frame_id (stream_packet t f info data) = Some (ucast f)"
    "gvsp_packet_get_packet_id (stream_packet t f info data) = Some (info AND PACKET_ID_MASK)"
    "gvsp_packet_get_content_type (stream_packet t f info data) = Some (content_type_of (drop_bit 24 info))"
    "gvsp_packet_get_data (stream_packet t f info data) = Some 8"
proof -
  show e: "gvsp_packet_has_extended_ids (stream_packet t f info data) = Some False"
    using assms ext_bit [of info] byte4 [of t f info data] by (simp add: gvsp_packet_has_extended_ids_def)
  have "bit (drop_bit 24 (info AND CONTENT_TYPE_MASK)) n = bit (drop_bit 24 info) n" if "n < 32" for n
  proof (cases "n < 7")
    case True
    then show ?thesis by (simp add: bit_simps mask_bits)
  next
    case False
    have "\<not> bit info (24 + n)"
      using False assms bit_imp_le_length [of info "24 + n"] by (cases "n = 7") auto
    then show ?thesis by (simp add: bit_simps)
  qed
  then have "drop_bit 24 (info AND CONTENT_TYPE_MASK) = drop_bit 24 info"
    by (intro bit_word_eqI) simp
  then show "gvsp_packet_get_content_type (stream_packet t f info data) = Some (content_type_of (drop_bit 24 info))"
    by (simp add: gvsp_packet_get_content_type_def e) (simp add: stream_packet_def)
  show "gvsp_packet_get_packet_type (stream_packet t f info data) = Some t"
    "gvsp_packet_get_frame_id (stream_packet t f info data) = Some (ucast f)"
    "gvsp_packet_get_packet_id (stream_packet t f info data) = Some (info AND PACKET_ID_MASK)"
    "gvsp_packet_get_data (stream_packet t f info data) = Some 8"
    by (simp_all add: gvsp_packet_get_packet_type_def gvsp_packet_get_frame_id_def gvsp_packet_get_packet_id_def gvsp_packet_get_data_def e)
      (simp_all add: stream_packet_def)
qed

text \<open>The conversion of ticks does not lose precision as long as no product leaves 64 bits.\<close>

lemma div_scale: "0 < F \<Longrightarrow> T * G div F = T div F * G + T mod F * G div (F :: nat)"
proof -
  assume F: "0 < F"
  have "T * G = (T div F * F + T mod F) * G"
    by simp
  also have "\<dots> = T div F * G * F + T mod F * G"
    by (simp only: add_mult_distrib mult.assoc mult.commute [of F G])
  finally show ?thesis
    using F by simp
qed

lemma ticks_exact:
  assumes "0 < unat f" "unat f * 1000000000 < 2 ^ 64" "unat t * 1000000000 div unat f < 2 ^ 64"
  shows "unat (ticks_to_ns t f) = unat t * 1000000000 div unat f"
proof -
  let ?T = "unat t" and ?F = "unat f" and ?G = "1000000000 :: nat"
  have g: "unat (1000000000 :: u64) = ?G"
    by simp
  have "?T mod ?F * ?G < ?F * ?G"
    using assms(1) by simp
  then have r: "?T mod ?F * ?G < 2 ^ 64"
    using assms(2) by simp
  have e: "?T * ?G div ?F = ?T div ?F * ?G + ?T mod ?F * ?G div ?F"
    using assms(1) by (rule div_scale)
  then have s: "?T div ?F * ?G < 2 ^ 64" "?T mod ?F * ?G div ?F + ?T div ?F * ?G < 2 ^ 64"
    using assms(3) by simp_all
  have m: "unat (t mod f * 1000000000) = ?T mod ?F * ?G"
    using r by (simp add: unat_word_ariths(2) unat_mod)
  have d: "unat (t div f * 1000000000) = ?T div ?F * ?G"
    using s(1) by (simp add: unat_word_ariths(2) unat_div)
  have "\<not> f < 1"
    using assms(1) by (simp add: unat_gt_0 word_less_1)
  then have "unat (ticks_to_ns t f) = (unat (t mod f * 1000000000) div ?F + unat (t div f * 1000000000)) mod 2 ^ 64"
    by (simp add: ticks_to_ns_def unat_word_ariths(1) unat_div)
  then show ?thesis
    using s(2) by (simp add: m d e)
qed

subsection \<open>Properties\<close>

text \<open>
  The fields of a leader written in network order are read back, through a header that is not of the
  extended form; so are the packet type, the frame id, the packet id and the type of the content.
\<close>

theorem stream_leader_roundtrip:
  assumes "\<not> bit info 31"
  shows "let p = stream_packet t f info (leader_bytes l @ r) in
    gvsp_packet_get_packet_type p = Some t \<and> gvsp_packet_get_frame_id p = Some (ucast f)
    \<and> gvsp_packet_get_packet_id p = Some (info AND PACKET_ID_MASK)
    \<and> gvsp_packet_get_content_type p = Some (content_type_of (drop_bit 24 info))
    \<and> gvsp_packet_get_payload_type p = Some (if ld_payload_type l \<in> {1, 3} then PAYLOAD_IMAGE else PAYLOAD_UNKNOWN)
    \<and> gvsp_packet_get_pixel_format p = Some (ld_pixel_format l)
    \<and> gvsp_packet_get_width p = Some (ld_width l) \<and> gvsp_packet_get_height p = Some (ld_height l)
    \<and> gvsp_packet_get_x_offset p = Some (ld_x_offset l) \<and> gvsp_packet_get_y_offset p = Some (ld_y_offset l)
    \<and> (0 < freq \<longrightarrow> gvsp_packet_get_timestamp p freq
        = Some (ticks_to_ns (push_bit 32 (ucast (ld_timestamp_high l)) OR ucast (ld_timestamp_low l)) freq))"
proof -
  let ?p = "stream_packet t f info (leader_bytes l @ r)"
  have d: "gvsp_packet_get_data ?p = Some 8"
    using assms by (rule stream_packet_fields)
  have w: "leader_word 12 ?p = Some (ld_pixel_format l)" "leader_word 16 ?p = Some (ld_width l)" "leader_word 20 ?p = Some (ld_height l)"
    "leader_word 24 ?p = Some (ld_x_offset l)" "leader_word 28 ?p = Some (ld_y_offset l)"
    "leader_word 4 ?p = Some (ld_timestamp_high l)" "leader_word 8 ?p = Some (ld_timestamp_low l)"
    "map_option ntohs (rd16 10 ?p) = Some (ld_payload_type l)"
    by (simp_all add: leader_word_def d) (simp_all add: stream_packet_def leader_bytes_def)
  then obtain z where "rd16 10 ?p = Some z" "ntohs z = ld_payload_type l"
    by auto
  then have "gvsp_packet_get_payload_type ?p = Some (if ld_payload_type l \<in> {1, 3} then PAYLOAD_IMAGE else PAYLOAD_UNKNOWN)"
    by (simp add: gvsp_packet_get_payload_type_def d)
  moreover have "\<not> freq < 1" if "0 < freq"
    using that word_less_1 by auto
  ultimately show ?thesis
    using stream_packet_fields [OF assms, of t f "leader_bytes l @ r"] w
    by (simp add: gvsp_packet_get_pixel_format_def gvsp_packet_get_width_def gvsp_packet_get_height_def
        gvsp_packet_get_x_offset_def gvsp_packet_get_y_offset_def gvsp_packet_get_timestamp_def d)
qed

definition demo_leader :: leader where
  "demo_leader = \<lparr>ld_payload_type = 1, ld_timestamp_high = 0, ld_timestamp_low = 5, ld_pixel_format = 0x01080001,
     ld_width = 640, ld_height = 480, ld_x_offset = 0, ld_y_offset = 0\<rparr>"

theorem stream_leader_roundtrip_witness:
  "gvsp_packet_get_width (stream_packet 0 1 0x01000000 (leader_bytes demo_leader)) = Some 640"
proof -
  have "\<not> bit (0x01000000 :: u32) 31"
    by (simp add: bit_iff_odd)
  from stream_leader_roundtrip [OF this, of 0 1 demo_leader "[]" 1] show ?thesis
    by (simp add: Let_def) (simp add: demo_leader_def)
qed

text \<open>
  The time of a frame is the exact number of nanoseconds, rounded down, as long as the frequency is below
  18 GHz and the time itself fits into 64 bits.
\<close>

theorem ticks_to_ns_exact:
  assumes "0 < unat f" "unat f * 1000000000 < 2 ^ 64" "unat t * 1000000000 div unat f < 2 ^ 64"
  shows "unat (ticks_to_ns t f) = unat t * 1000000000 div unat f"
  by (rule ticks_exact [OF assms])

theorem ticks_to_ns_exact_witness: "unat (ticks_to_ns 7000000007 31250000) = 7000000007 * 1000000000 div 31250000"
  using ticks_to_ns_exact [of 31250000 7000000007] by simp

end
