(* ===== verification/Camera_Stream.thy ===== *)
theory Camera_Stream imports Gvsp begin

section \<open>The image stream of a camera (libcapture: gige_camera.c)\<close>

text \<open>
  The thread that receives stream packets collects the blocks of a frame in the buffer of the camera and hands the
  frame over when the first packet with another frame id arrives. What \<open>malloc\<close> leaves in the memory of the packet
  is an argument, and so are the answers of the system, one for each turn of the loop.
  In \<open>struct frame_data\<close> the number of packets is 0 for every frame, so that no packet is
  looked up in \<open>packet_data\<close>; the fields that are only written are left out.
\<close>

definition MAX_FRAME_SIZE :: nat where "MAX_FRAME_SIZE = 120000000"
definition IP_HEADER_SIZE :: u32 where "IP_HEADER_SIZE = 20"
definition UDP_HEADER_SIZE :: u32 where "UDP_HEADER_SIZE = 8"

text \<open>The image of the camera: the first \<open>buffer_size\<close> bytes of the buffer as a list.\<close>

record stream =
  sm_last_frame_id :: u64
  sm_started :: bool
  sm_iframe_id :: u64
  sm_iframe :: "u8 list"
  sm_delivered :: "(u64 \<times> u8 list) list"
  sm_received :: int
  sm_errors :: int
  sm_ignored :: int
  sm_packet :: "u8 list"
  sm_packet_live :: bool

subsection \<open>One packet\<close>

text \<open>\<open>recvfrom\<close> overwrites the beginning of the memory.\<close>

definition recv_into :: "u8 list \<Rightarrow> u8 list \<Rightarrow> u8 list" where
  "recv_into mem bytes = take (length mem) bytes @ drop (length bytes) mem"

text \<open>A frame is handed over, to a camera that has an action, and a new one is begun.\<close>

definition new_frame :: "bool \<Rightarrow> u64 \<Rightarrow> stream \<Rightarrow> stream" where
  "new_frame action frame_id s =
     (if frame_id \<noteq> sm_last_frame_id s
      then let s = (if sm_started s
             then let s = s\<lparr>sm_iframe_id := sm_last_frame_id s\<rparr>
                  in (if action then s\<lparr>sm_delivered := sm_delivered s @ [(sm_iframe_id s, sm_iframe s)]\<rparr> else s)
             else s)
           in s\<lparr>sm_iframe := [], sm_started := True, sm_last_frame_id := frame_id\<rparr>
      else s)"

text \<open>The block is as long as the memory of the packet says, however many bytes were received.\<close>

definition add_block :: "stream \<Rightarrow> stream option" where
  "add_block s = do {
     d \<leftarrow> gvsp_packet_get_data (sm_packet s);
     n \<leftarrow> gvsp_packet_get_data_size (sm_packet s) (of_nat (length (sm_packet s)));
     if length (sm_packet s) < d + unat n \<or> MAX_FRAME_SIZE < length (sm_iframe s) + unat n then None
     else Some (s\<lparr>sm_iframe := sm_iframe s @ take (unat n) (drop d (sm_packet s))\<rparr>) }"

definition show_leader :: "u64 \<Rightarrow> u8 list \<Rightarrow> unit option" where
  "show_leader frequency p = do {
     t \<leftarrow> gvsp_packet_get_payload_type p;
     if t = PAYLOAD_IMAGE then do {
       _ \<leftarrow> gvsp_packet_get_timestamp p frequency;
       _ \<leftarrow> gvsp_packet_get_width p; _ \<leftarrow> gvsp_packet_get_height p;
       _ \<leftarrow> gvsp_packet_get_x_offset p; _ \<leftarrow> gvsp_packet_get_y_offset p;
       _ \<leftarrow> gvsp_packet_get_pixel_format p;
       Some () }
     else Some () }"

definition handle_content :: "u64 \<Rightarrow> stream \<Rightarrow> stream option" where
  "handle_content frequency s = do {
     packet_type \<leftarrow> gvsp_packet_get_packet_type (sm_packet s);
     if gvsp_packet_type_is_error packet_type
     then do { n \<leftarrow> c_int (sm_errors s + 1); Some (s\<lparr>sm_errors := n\<rparr>) }
     else do {
       content \<leftarrow> gvsp_packet_get_content_type (sm_packet s);
       case content of
         DATA_LEADER \<Rightarrow> do { _ \<leftarrow> show_leader frequency (sm_packet s); Some s }
       | DATA_BLOCK \<Rightarrow> add_block s
       | DATA_TRAILER \<Rightarrow> Some s
       | _ \<Rightarrow> do { n \<leftarrow> c_int (sm_ignored s + 1); Some (s\<lparr>sm_ignored := n\<rparr>) } } }"

definition handle_packet :: "bool \<Rightarrow> u64 \<Rightarrow> u8 list \<Rightarrow> stream \<Rightarrow> stream option" where
  "handle_packet action frequency bytes s = do {
     let s = s\<lparr>sm_packet := recv_into (sm_packet s) bytes\<rparr>;
     n \<leftarrow> c_int (sm_received s + 1);
     let s = s\<lparr>sm_received := n\<rparr>;
     ext \<leftarrow> gvsp_packet_has_extended_ids (sm_packet s);
     frame_id \<leftarrow> gvsp_packet_get_frame_id (sm_packet s);
     packet_id \<leftarrow> gvsp_packet_get_packet_id (sm_packet s);
     let s = new_frame action frame_id s;
     if sm_started s then handle_content frequency s
     else do { n \<leftarrow> c_int (sm_ignored s + 1); Some (s\<lparr>sm_ignored := n\<rparr>) } }"

subsection \<open>The thread\<close>

text \<open>After a receive that is to be repeated the memory of the packet has been freed.\<close>

datatype stream_event = Sv_again | Sv_error | Sv_none | Sv_recv_again | Sv_recv_error | Sv_recv "u8 list"

datatype stream_end = Exits | Fails stream | Stops stream | Streams stream

fun stream_turns :: "bool \<Rightarrow> u64 \<Rightarrow> (bool \<times> stream_event) list \<Rightarrow> stream \<Rightarrow> stream_end option" where
  "stream_turns action frequency [] s = Some (Streams s)"
| "stream_turns action frequency ((live, e) # ts) s =
     (if \<not> live then (if sm_packet_live s then Some (Stops (s\<lparr>sm_packet_live := False\<rparr>)) else None)
      else case e of
          Sv_again \<Rightarrow> stream_turns action frequency ts s
        | Sv_none \<Rightarrow> stream_turns action frequency ts s
        | Sv_error \<Rightarrow> Some (Fails s)
        | Sv_recv_again \<Rightarrow> if sm_packet_live s then stream_turns action frequency ts (s\<lparr>sm_packet_live := False\<rparr>) else None
        | Sv_recv_error \<Rightarrow> if sm_packet_live s then Some (Fails (s\<lparr>sm_packet_live := False\<rparr>)) else None
        | Sv_recv bytes \<Rightarrow> if sm_packet_live s
            then Option.bind (handle_packet action frequency bytes s) (stream_turns action frequency ts) else None)"

definition stream_start :: "u8 list \<Rightarrow> u8 list \<Rightarrow> stream" where
  "stream_start iframe mem = \<lparr>sm_last_frame_id = 0, sm_started = False, sm_iframe_id = 0, sm_iframe = iframe, sm_delivered = [],
     sm_received = 0, sm_errors = 0, sm_ignored = 0, sm_packet = mem, sm_packet_live = True\<rparr>"

definition packet_memory :: "u32 \<Rightarrow> nat" where
  "packet_memory packet_size = unat (packet_size - IP_HEADER_SIZE - UDP_HEADER_SIZE)"

definition camera_gvsp_thread :: "bool \<Rightarrow> bool \<Rightarrow> u8 list \<Rightarrow> u8 list \<Rightarrow> bool \<Rightarrow> u64 \<Rightarrow> (bool \<times> stream_event) list \<Rightarrow> stream_end option" where
  "camera_gvsp_thread epoll_ok ctl_ok iframe mem action frequency ts =
     (if \<not> epoll_ok then Some Exits
      else if \<not> ctl_ok then Some (Fails (stream_start iframe mem))
      else stream_turns action frequency ts (stream_start iframe mem))"

subsection \<open>A stream of frames\<close>

text \<open>
  The packets of a frame: type, information and data. Blocks fill the memory of a packet, other packets are at
  most as long.
\<close>

type_synonym frame_packet = "u16 \<times> u32 \<times> u8 list"

definition is_block :: "frame_packet \<Rightarrow> bool" where
  "is_block = (\<lambda>(t, info, data). content_type_of (drop_bit 24 info) = DATA_BLOCK)"

definition good_packet :: "nat \<Rightarrow> frame_packet \<Rightarrow> bool" where
  "good_packet n p = (case p of (t, info, data) \<Rightarrow> t \<noteq> GVCP_PACKET_TYPE_ERROR \<and> \<not> bit info 31 \<and> length data + 8 \<le> n
     \<and> (is_block p \<longrightarrow> length data + 8 = n))"

definition payload :: "frame_packet list \<Rightarrow> u8 list" where
  "payload ps = concat (map (\<lambda>(t, info, data). data) (filter is_block ps))"

definition packet_of :: "u16 \<Rightarrow> frame_packet \<Rightarrow> u8 list" where
  "packet_of f = (\<lambda>(t, info, data). stream_packet t f info data)"

text \<open>What holds of the state between packets: \<open>n\<close> the size of the memory, \<open>k\<close> the packets so far.\<close>

definition stream_at :: "nat \<Rightarrow> nat \<Rightarrow> stream \<Rightarrow> bool" where
  "stream_at n k s \<longleftrightarrow> length (sm_packet s) = n \<and> sm_packet_live s \<and> sm_received s = int k \<and> 0 \<le> sm_ignored s \<and> sm_ignored s \<le> int k"

lemma recv_stream_packet:
  assumes "length data + 8 \<le> length mem"
  shows "recv_into mem (stream_packet t f info data) = stream_packet t f info (data @ drop (length data + 8) mem)"
  using assms by (simp add: recv_into_def stream_packet_def add.commute)

lemma stream_packet_length [simp]: "length (stream_packet t f info data) = length data + 8"
  by (simp add: stream_packet_def)

lemma show_leader_ok:
  assumes "\<not> bit info 31" "40 \<le> length data + 8"
  shows "show_leader frequency (stream_packet t f info data) = Some ()"
proof -
  let ?p = "stream_packet t f info data"
  have d: "gvsp_packet_get_data ?p = Some 8"
    using assms(1) by (rule stream_packet_fields)
  obtain y where y: "rd16 10 ?p = Some y"
    using assms(2) by (simp add: rd16_def)
  define w where "w off = the (leader_word off ?p)" for off
  have w: "leader_word off ?p = Some (w off)" if "off \<le> 28" for off
    using that assms(2) d by (simp add: w_def leader_word_def rd32_def)
  show ?thesis
    using y by (simp add: show_leader_def gvsp_packet_get_payload_type_def d gvsp_packet_get_timestamp_def gvsp_packet_get_width_def
        gvsp_packet_get_height_def gvsp_packet_get_x_offset_def gvsp_packet_get_y_offset_def gvsp_packet_get_pixel_format_def w)
qed

lemma add_block_ok:
  assumes "\<not> bit info 31" "sm_packet s = stream_packet t f info data" "length data + 8 < 2 ^ 32"
    and "length (sm_iframe s) + length data \<le> MAX_FRAME_SIZE"
  shows "add_block s = Some (s\<lparr>sm_iframe := sm_iframe s @ data\<rparr>)"
proof -
  have "gvsp_packet_get_data_size (sm_packet s) (of_nat (length (sm_packet s))) = Some (of_nat (length data))"
    using stream_packet_fields(1) [OF assms(1), of t f data] assms(2) by (simp add: gvsp_packet_get_data_size_def)
  moreover have "unat (of_nat (length data) :: u64) = length data"
    using assms(3) by (simp add: unat_of_nat)
  moreover have "gvsp_packet_get_data (sm_packet s) = Some 8"
    using assms(1,2) by (simp add: stream_packet_fields(6))
  moreover have "drop 8 (stream_packet t f info data) = data"
    by (simp add: stream_packet_def)
  ultimately show ?thesis
    using assms(2,4) by (simp add: add_block_def)
qed

text \<open>One good packet: the frame changes when its id does, and a block is added.\<close>

lemma content_step:
  assumes "good_packet n (t, info, data)" "sm_packet s = stream_packet t f info (data @ z)" "length data + 8 + length z = n"
    and "40 \<le> n" "n < 2 ^ 32" "stream_at n k s" "k < 2 ^ 31 - 1" "sm_ignored s < int k"
    and "length (sm_iframe s) + n \<le> MAX_FRAME_SIZE"
  shows "\<exists>s'. handle_content frequency s = Some s' \<and> stream_at n k s'
    \<and> sm_iframe s' = sm_iframe s @ payload [(t, info, data)] \<and> sm_last_frame_id s' = sm_last_frame_id s
    \<and> sm_started s' = sm_started s \<and> sm_delivered s' = sm_delivered s"
proof -
  have info: "\<not> bit info 31" "t \<noteq> GVCP_PACKET_TYPE_ERROR"
    using assms(1) by (simp_all add: good_packet_def)
  note f = stream_packet_fields [OF info(1), of t f "data @ z", folded assms(2)]
  have ign: "c_int (sm_ignored s + 1) = Some (sm_ignored s + 1)"
    using assms(6,7,8) by (auto simp: stream_at_def)
  show ?thesis
  proof (cases "is_block (t, info, data)")
    case True
    then have z: "z = []" "length data + 8 = n"
      using assms(1,3) by (auto simp: good_packet_def)
    then have "add_block s = Some (s\<lparr>sm_iframe := sm_iframe s @ data\<rparr>)"
      using add_block_ok [OF info(1), of s t f data] assms(2,5,9) by simp
    then show ?thesis
      using True assms(6) info(2) by (simp add: handle_content_def f gvsp_packet_type_is_error_def is_block_def stream_at_def payload_def)
  next
    case False
    then have "content_type_of (drop_bit 24 info) \<noteq> DATA_BLOCK"
      by (simp add: is_block_def)
    moreover have "show_leader frequency (sm_packet s) = Some ()"
      unfolding assms(2) by (rule show_leader_ok [OF info(1)]) (use assms(3,4) in simp)
    ultimately show ?thesis
      using False assms(6,8) info(2) ign
      by (cases "content_type_of (drop_bit 24 info)")
        (auto simp: handle_content_def f gvsp_packet_type_is_error_def stream_at_def payload_def)
  qed
qed

lemma packet_step:
  assumes "good_packet n (t, info, data)" "40 \<le> n" "n < 2 ^ 32" "stream_at n k s" "Suc k < 2 ^ 31 - 1"
    and "sm_started (new_frame action (ucast f) s)"
    and "length (sm_iframe (new_frame action (ucast f) s)) + n \<le> MAX_FRAME_SIZE"
  shows "\<exists>s'. handle_packet action frequency (packet_of f (t, info, data)) s = Some s' \<and> stream_at n (Suc k) s'
    \<and> sm_iframe s' = sm_iframe (new_frame action (ucast f) s) @ payload [(t, info, data)]
    \<and> sm_last_frame_id s' = ucast f \<and> sm_started s' \<and> sm_delivered s' = sm_delivered (new_frame action (ucast f) s)"
proof -
  have len: "length data + 8 \<le> length (sm_packet s)" "length (sm_packet s) = n" and info: "\<not> bit info 31"
    using assms(1,4) by (auto simp: good_packet_def stream_at_def)
  define z where "z = drop (length data + 8) (sm_packet s)"
  have recv: "recv_into (sm_packet s) (packet_of f (t, info, data)) = stream_packet t f info (data @ z)"
    using recv_stream_packet [OF len(1)] by (simp add: packet_of_def z_def)
  have cnt: "c_int (sm_received s + 1) = Some (sm_received s + 1)"
    using assms(4,5) by (auto simp: stream_at_def)
  define s1 where "s1 = s\<lparr>sm_packet := stream_packet t f info (data @ z), sm_received := sm_received s + 1\<rparr>"
  define s2 where "s2 = new_frame action (ucast f) s1"
  have s2: "sm_packet s2 = stream_packet t f info (data @ z)" "stream_at n (Suc k) s2" "sm_started s2"
    "sm_iframe s2 = sm_iframe (new_frame action (ucast f) s)" "sm_delivered s2 = sm_delivered (new_frame action (ucast f) s)"
    "sm_last_frame_id s2 = ucast f" "sm_ignored s2 < int (Suc k)"
    using assms(4,6) len by (auto simp: s2_def s1_def new_frame_def stream_at_def z_def Let_def)
  have zl: "length data + 8 + length z = n"
    using len by (simp add: z_def)
  have "handle_packet action frequency (packet_of f (t, info, data)) s = handle_content frequency s2"
    using cnt stream_packet_fields [OF info, of t f "data @ z"] s2(3)
    by (simp add: handle_packet_def recv s1_def [symmetric] s2_def [symmetric])
  moreover obtain s' where "handle_content frequency s2 = Some s'" "stream_at n (Suc k) s'"
    "sm_iframe s' = sm_iframe s2 @ payload [(t, info, data)]" "sm_last_frame_id s' = sm_last_frame_id s2"
    "sm_started s' = sm_started s2" "sm_delivered s' = sm_delivered s2"
    using content_step [OF assms(1) s2(1) zl assms(2,3) s2(2) _ s2(7)] assms(5,7) s2(4) by auto
  ultimately show ?thesis
    using s2 by simp
qed

lemma payload_Cons: "payload (p # ps) = payload [p] @ payload ps"
  by (simp add: payload_def)

text \<open>The further packets of a frame, and then whole frames.\<close>

lemma frame_rest:
  assumes "\<forall>p \<in> set ps. good_packet n p" "40 \<le> n" "n < 2 ^ 32" "stream_at n k s" "k + length ps < 2 ^ 31 - 1"
    and "sm_started s" "sm_last_frame_id s = ucast f" "length (sm_iframe s) + n * length ps \<le> MAX_FRAME_SIZE"
  shows "\<exists>s'. stream_turns action frequency (map (\<lambda>p. (True, Sv_recv (packet_of f p))) ps @ ts) s = stream_turns action frequency ts s'
    \<and> stream_at n (k + length ps) s' \<and> sm_iframe s' = sm_iframe s @ payload ps \<and> sm_last_frame_id s' = ucast f
    \<and> sm_started s' \<and> sm_delivered s' = sm_delivered s"
  using assms(1,4-8)
proof (induction ps arbitrary: k s)
  case Nil
  then show ?case by (auto simp: payload_def)
next
  case (Cons p ps)
  obtain t info data where p: "p = (t, info, data)"
    by (cases p)
  have nf: "new_frame action (ucast f) s = s"
    using Cons.prems(5) by (simp add: new_frame_def)
  have g: "good_packet n (t, info, data)"
    using Cons.prems(1) p by simp
  have "length (payload [(t, info, data)]) \<le> n"
    using g by (auto simp: payload_def good_packet_def)
  moreover obtain s1 where s1: "handle_packet action frequency (packet_of f p) s = Some s1" "stream_at n (Suc k) s1"
    "sm_iframe s1 = sm_iframe s @ payload [p]" "sm_last_frame_id s1 = ucast f" "sm_started s1" "sm_delivered s1 = sm_delivered s"
    using packet_step [OF g assms(2,3) Cons.prems(2), of action f frequency] Cons.prems(3,4,6) p nf by auto
  ultimately have "\<exists>s'. stream_turns action frequency (map (\<lambda>p. (True, Sv_recv (packet_of f p))) ps @ ts) s1 = stream_turns action frequency ts s'
    \<and> stream_at n (Suc k + length ps) s' \<and> sm_iframe s' = sm_iframe s1 @ payload ps \<and> sm_last_frame_id s' = ucast f
    \<and> sm_started s' \<and> sm_delivered s' = sm_delivered s1"
    using Cons.IH [OF _ s1(2) _ s1(5,4)] Cons.prems(1,3,6) p by simp
  moreover have "sm_packet_live s"
    using Cons.prems(2) by (simp add: stream_at_def)
  ultimately show ?case
    using s1 payload_Cons [of p ps] by auto
qed

text \<open>A frame is its id with its packets, the first one included.\<close>

definition frame_events :: "u16 \<times> frame_packet list \<Rightarrow> (bool \<times> stream_event) list" where
  "frame_events fr = map (\<lambda>p. (True, Sv_recv (packet_of (fst fr) p))) (snd fr)"

definition frame_ok :: "nat \<Rightarrow> u16 \<times> frame_packet list \<Rightarrow> bool" where
  "frame_ok n fr \<longleftrightarrow> snd fr \<noteq> [] \<and> (\<forall>p \<in> set (snd fr). good_packet n p) \<and> n * length (snd fr) \<le> MAX_FRAME_SIZE"

text \<open>A frame whose id is not that of the last one: the frame before it, if there is one, is handed over.\<close>

lemma frame_step:
  assumes "frame_ok n (f, ps)" "40 \<le> n" "n < 2 ^ 32" "stream_at n k s" "k + length ps < 2 ^ 31 - 1" "ucast f \<noteq> sm_last_frame_id s"
  shows "\<exists>s'. stream_turns True frequency (frame_events (f, ps) @ ts) s = stream_turns True frequency ts s'
    \<and> stream_at n (k + length ps) s' \<and> sm_iframe s' = payload ps \<and> sm_last_frame_id s' = ucast f
    \<and> sm_started s' \<and> sm_delivered s' = sm_delivered s @ (if sm_started s then [(sm_last_frame_id s, sm_iframe s)] else [])"
proof -
  obtain p qs where ps: "ps = p # qs"
    using assms(1) by (cases ps) (auto simp: frame_ok_def)
  obtain t info data where p: "p = (t, info, data)"
    by (cases p)
  let ?s = "new_frame True (ucast f) s"
  have nf: "sm_started ?s" "sm_iframe ?s = []"
    "sm_delivered ?s = sm_delivered s @ (if sm_started s then [(sm_last_frame_id s, sm_iframe s)] else [])"
    using assms(6) by (auto simp: new_frame_def Let_def)
  have g: "good_packet n (t, info, data)" "n + n * length qs \<le> MAX_FRAME_SIZE" "\<forall>p \<in> set qs. good_packet n p"
    using assms(1) ps p by (auto simp: frame_ok_def)
  obtain s1 where s1: "handle_packet True frequency (packet_of f p) s = Some s1" "stream_at n (Suc k) s1"
    "sm_iframe s1 = payload [p]" "sm_last_frame_id s1 = ucast f" "sm_started s1" "sm_delivered s1 = sm_delivered ?s"
    using packet_step [OF g(1) assms(2,3,4), of True f frequency] assms(5) ps p nf g(2) by auto
  have "length (payload [p]) \<le> n"
    using g(1) p by (auto simp: payload_def good_packet_def)
  then obtain s' where "stream_turns True frequency (map (\<lambda>p. (True, Sv_recv (packet_of f p))) qs @ ts) s1 = stream_turns True frequency ts s'"
    "stream_at n (Suc k + length qs) s'" "sm_iframe s' = sm_iframe s1 @ payload qs" "sm_last_frame_id s' = ucast f"
    "sm_started s'" "sm_delivered s' = sm_delivered s1"
    using frame_rest [OF g(3) assms(2,3) s1(2) _ s1(5,4), of True frequency ts] assms(5) g(2) s1(3) ps by auto
  moreover have "sm_packet_live s"
    using assms(4) by (simp add: stream_at_def)
  ultimately show ?thesis
    using s1 ps nf(3) payload_Cons [of p qs] by (auto simp: frame_events_def)
qed

lemma frames_run:
  assumes "\<forall>fr \<in> set frs. frame_ok n fr" "40 \<le> n" "n < 2 ^ 32" "stream_at n k s"
    and "k + sum_list (map (length \<circ> snd) frs) < 2 ^ 31 - 1"
    and "sm_started s" "distinct_adj (sm_last_frame_id s # map (ucast \<circ> fst) frs)"
  shows "\<exists>s' k'. stream_turns True frequency (concat (map frame_events frs) @ ts) s = stream_turns True frequency ts s'
    \<and> stream_at n k' s' \<and> sm_started s'
    \<and> sm_delivered s' @ [(sm_last_frame_id s', sm_iframe s')]
      = sm_delivered s @ (sm_last_frame_id s, sm_iframe s) # map (\<lambda>(f, ps). (ucast f, payload ps)) frs"
  using assms(1,4-7)
proof (induction frs arbitrary: k s)
  case (Cons fr frs)
  obtain f ps where fr: "fr = (f, ps)"
    by (cases fr)
  obtain s1 where s1: "stream_turns True frequency (frame_events (f, ps) @ (concat (map frame_events frs) @ ts)) s
      = stream_turns True frequency (concat (map frame_events frs) @ ts) s1"
    "stream_at n (k + length ps) s1" "sm_iframe s1 = payload ps" "sm_last_frame_id s1 = ucast f" "sm_started s1"
    "sm_delivered s1 = sm_delivered s @ [(sm_last_frame_id s, sm_iframe s)]"
    using frame_step [of n f ps k s frequency "concat (map frame_events frs) @ ts"] Cons.prems assms(2,3) fr by auto
  with Cons.IH [OF _ s1(2) _ s1(5)] Cons.prems fr show ?case
    by auto
qed auto

subsection \<open>Properties\<close>


definition demo_frames :: "(u16 \<times> frame_packet list) list" where
  "demo_frames = [(7, [(0, 0x01000000, []), (0, 0x03000001, replicate 32 5)]), (8, [(0, 0x01000000, [])])]"


text \<open>
  A block shorter than the memory of the packet is completed with the bytes that an earlier packet left
  there: the length of a block is taken from the size of the memory and not from the number of bytes received.
\<close>

theorem short_block_adds_stale_bytes:
  assumes "content_type_of (drop_bit 24 info) = DATA_BLOCK" "\<not> bit info 31" "t \<noteq> GVCP_PACKET_TYPE_ERROR"
    and "length data + 8 \<le> length (sm_packet s)" "length (sm_packet s) < 2 ^ 32"
    and "sm_started s" "sm_last_frame_id s = ucast f" "0 \<le> sm_received s" "sm_received s < 2 ^ 31 - 1"
    and "length (sm_iframe s) + length (sm_packet s) \<le> MAX_FRAME_SIZE + 8"
  shows "\<exists>s'. handle_packet action frequency (stream_packet t f info data) s = Some s'
    \<and> sm_iframe s' = sm_iframe s @ data @ drop (length data + 8) (sm_packet s)"
proof -
  let ?z = "drop (length data + 8) (sm_packet s)"
  define s1 where "s1 = s\<lparr>sm_packet := stream_packet t f info (data @ ?z), sm_received := sm_received s + 1\<rparr>"
  note fields = stream_packet_fields [OF assms(2), of t f "data @ ?z"]
  have "add_block s1 = Some (s1\<lparr>sm_iframe := sm_iframe s1 @ data @ ?z\<rparr>)"
    by (rule add_block_ok [OF assms(2)]) (use assms(4,5,10) in \<open>simp_all add: s1_def\<close>)
  then have "handle_content frequency s1 = Some (s1\<lparr>sm_iframe := sm_iframe s1 @ data @ ?z\<rparr>)"
    using fields assms(1,3) by (simp add: handle_content_def s1_def gvsp_packet_type_is_error_def)
  moreover have "c_int (sm_received s + 1) = Some (sm_received s + 1)"
    using assms(8,9) by simp
  then have "handle_packet action frequency (stream_packet t f info data) s = handle_content frequency s1"
    using fields assms(6,7) recv_stream_packet [OF assms(4), of t f info]
    by (simp add: handle_packet_def new_frame_def s1_def)
  ultimately show ?thesis
    by (simp add: s1_def)
qed

theorem short_block_adds_stale_bytes_witness:
  "\<exists>s'. handle_packet True 1000 (stream_packet 0 7 0x03000001 [1]) ((stream_start [] [0, 0, 0, 0, 0, 0, 0, 0, 8, 9])\<lparr>sm_started := True, sm_last_frame_id := 7\<rparr>)
     = Some s' \<and> sm_iframe s' = [1, 9]"
proof -
  have "\<not> bit (0x03000001 :: u32) 31"
    by (simp add: bit_iff_odd)
  from short_block_adds_stale_bytes [OF _ this, of 0 "[1]" "(stream_start [] [0, 0, 0, 0, 0, 0, 0, 0, 8, 9])\<lparr>sm_started := True, sm_last_frame_id := 7\<rparr>"
      7 True 1000] show ?thesis
    by (simp add: content_type_of_def GVCP_PACKET_TYPE_ERROR_def stream_start_def MAX_FRAME_SIZE_def)
qed

end
