(* ===== verification/Gige_Camera.thy ===== *)
theory Gige_Camera imports Camera_Stream begin

section \<open>Opening, testing and closing a camera (libcapture: gige_camera.c)\<close>

text \<open>
  Two sockets belong to a camera: commands go to one, the stream comes from the other. The answers of the system are
  arguments; \<open>opened\<close> and \<open>closed\<close> are the descriptors the function opened and closed.
\<close>

datatype camera_state = STREAM_NOT_INITIALIZED | STREAM_STOP | STREAM_LIVE | STREAM_PAUSE

text \<open>What the functions here use of a camera. The state is not written by \<open>gige_camera_init\<close>.\<close>

record gige_camera =
  gc_state :: camera_state
  gc_ops :: gige_camera_ops
  gc_gvcp_fd :: int
  gc_gvsp_fd :: int
  gc_last_gvcp_packet_id :: u32
  gc_timestamp_tick_frequency :: u64
  gc_packet_size :: u32
  gc_has_action :: bool

definition gige_camera_identify_ops :: "string \<Rightarrow> gige_camera_ops" where
  "gige_camera_identify_ops ip =
     (if ip = ''127.0.0.1'' then gige_camera_ops_arvfake
      else if ip = ''169.254.2.134'' then gige_camera_ops_flir_color
      else if ip = ''10.0.0.2'' then gige_camera_ops_flir_color2
      else if ip = ''169.254.0.1'' \<or> ip = ''10.0.0.3'' then gige_camera_ops_lucid_polar
      else gige_camera_ops_no)"

record open_answers =
  oa_alloc :: bool
  oa_gvcp :: int
  oa_gvcp_bind :: bool
  oa_gvcp_connect :: bool
  oa_gvsp :: int
  oa_gvsp_bind :: bool
  oa_name :: "(u32 \<times> u16) option"
  oa_state :: camera_state
  oa_mem :: "u32 \<times> u32"

record 'd camera_run =
  cr_io :: "'d gv_io"
  cr_opened :: "int list"
  cr_closed :: "int list"

definition fresh_camera :: "open_answers \<Rightarrow> string \<Rightarrow> bool \<Rightarrow> gige_camera" where
  "fresh_camera a ip action = \<lparr>gc_state = oa_state a, gc_ops = gige_camera_identify_ops ip, gc_gvcp_fd = oa_gvcp a,
     gc_gvsp_fd = - 1, gc_last_gvcp_packet_id = 0xf000, gc_timestamp_tick_frequency = 0, gc_packet_size = 0,
     gc_has_action = action\<rparr>"

text \<open>
  \<open>dev\<close> is the device that is given (\<open>None\<close> a NULL pointer), by its address as a text. The counter of the camera
  is increased by the macro in the call of \<open>gvcp_init\<close> and once more for the frequency.
\<close>

definition gige_camera_init :: "'d device \<Rightarrow> open_answers \<Rightarrow> string option \<Rightarrow> bool \<Rightarrow> 'd camera_run \<Rightarrow>
    gige_camera option \<times> 'd camera_run" where
  "gige_camera_init dv a dev action r =
     (let opens = (\<lambda>fd r. r\<lparr>cr_opened := cr_opened r @ [fd]\<rparr>); closes = (\<lambda>fd r. r\<lparr>cr_closed := cr_closed r @ [fd]\<rparr>)
      in case dev of
        None \<Rightarrow> (None, r)
      | Some ip \<Rightarrow>
        if \<not> oa_alloc a then (None, r)
        else if oa_gvcp a < 0 then (None, r)
        else let r = opens (oa_gvcp a) r
        in if \<not> oa_gvcp_bind a then (None, r)
        else if \<not> oa_gvcp_connect a then (None, r)
        else let cam = fresh_camera a ip action
        in if oa_gvsp a < 0 then (None, closes (gc_gvcp_fd cam) r)
        else let r = opens (oa_gvsp a) r
        in if \<not> oa_gvsp_bind a then (None, closes (oa_gvsp a) (closes (gc_gvcp_fd cam) r))
        else let (n, i) = next_packet_id (gc_last_gvcp_packet_id cam);
                 (packet_size, io) = gvcp_init dv (oa_name a) (oa_mem a) (gc_gvcp_fd cam) n (cr_io r);
                 r = r\<lparr>cr_io := io\<rparr>; cam = cam\<lparr>gc_last_gvcp_packet_id := i, gc_packet_size := packet_size\<rparr>
        in if 0 < packet_size
           then let (n, i) = next_packet_id (gc_last_gvcp_packet_id cam);
                    (freq, io) = gvcp_get_timestamp_tick_frequency dv (oa_mem a) (gc_gvcp_fd cam) n (cr_io r)
                in (Some (cam\<lparr>gc_gvsp_fd := oa_gvsp a, gc_last_gvcp_packet_id := i, gc_timestamp_tick_frequency := freq\<rparr>),
                    r\<lparr>cr_io := io\<rparr>)
           else (None, r))"

definition gige_camera_destroy :: "gige_camera \<Rightarrow> 'd camera_run \<Rightarrow> 'd camera_run" where
  "gige_camera_destroy cam r = r\<lparr>cr_closed := cr_closed r @ [gc_gvsp_fd cam, gc_gvcp_fd cam]\<rparr>"

text \<open>An operation of the camera is called with the next number of the camera's own counter.\<close>

definition camera_op :: "'d device \<Rightarrow> reg_step list \<Rightarrow> gige_camera \<times> 'd gv_io \<Rightarrow> gige_camera \<times> 'd gv_io" where
  "camera_op dv steps s =
     (let (n, i) = next_packet_id (gc_last_gvcp_packet_id (fst s))
      in ((fst s)\<lparr>gc_last_gvcp_packet_id := i\<rparr>, run_op dv (gc_gvcp_fd (fst s)) steps n (snd s)))"

text \<open>
  A test of 0 seconds lasts for ever (\<open>Blocked\<close>). The stream thread runs beside the loop and is joined; it ends
  because the state and the descriptors change.
\<close>

definition gige_camera_test :: "'d device \<Rightarrow> int \<Rightarrow> gige_camera \<Rightarrow> 'd camera_run \<Rightarrow> (gige_camera \<times> 'd camera_run) run" where
  "gige_camera_test dv duration cam r =
     (let (cam, io) = camera_op dv (op_start (gc_ops cam)) (cam, cr_io r);
          cam = cam\<lparr>gc_state := STREAM_LIVE\<rparr>
      in if duration = 0 then Blocked
         else let (cam, io) = (camera_op dv (op_watchdog (gc_ops cam)) ^^ nat duration) (cam, io);
                  (cam, io) = camera_op dv (op_stop (gc_ops cam)) (cam, io)
              in Done (cam\<lparr>gc_state := STREAM_STOP, gc_gvcp_fd := - 1, gc_gvsp_fd := - 1\<rparr>,
                   r\<lparr>cr_io := io, cr_closed := cr_closed r @ [gc_gvcp_fd cam, gc_gvsp_fd cam]\<rparr>))"

subsection \<open>What a session does to the registers\<close>

definition op_effect :: "reg_step list \<Rightarrow> (u32 \<Rightarrow> u32) \<Rightarrow> u32 \<Rightarrow> u32" where
  "op_effect steps r = snd (steps_effect steps (- 1, r))"

lemma camera_op_device:
  assumes "register_device dv regs" "gc_gvcp_fd cam \<noteq> - 1"
  shows "\<exists>i io'. camera_op dv steps (cam, io) = (cam\<lparr>gc_last_gvcp_packet_id := i\<rparr>, io') \<and> regs (gi_dev io') = op_effect steps (regs (gi_dev io))"
  using run_steps_device [OF assms, of steps "- 1" "packet_number (gc_last_gvcp_packet_id cam + 1)" io]
  by (auto simp: camera_op_def next_packet_id_def run_op_def op_effect_def)

lemma camera_ops_device:
  assumes "register_device dv regs" "gc_gvcp_fd cam \<noteq> - 1"
  shows "\<exists>i io'. (camera_op dv steps ^^ n) (cam, io) = (cam\<lparr>gc_last_gvcp_packet_id := i\<rparr>, io')
    \<and> regs (gi_dev io') = (op_effect steps ^^ n) (regs (gi_dev io))"
proof (induction n)
  case 0
  then show ?case
    by (intro exI [of _ "gc_last_gvcp_packet_id cam"] exI [of _ io]) simp
next
  case (Suc n)
  then obtain i io' where i: "(camera_op dv steps ^^ n) (cam, io) = (cam\<lparr>gc_last_gvcp_packet_id := i\<rparr>, io')"
    "regs (gi_dev io') = (op_effect steps ^^ n) (regs (gi_dev io))"
    by blast
  with camera_op_device [OF assms(1), of "cam\<lparr>gc_last_gvcp_packet_id := i\<rparr>" steps io'] assms(2) show ?case
    by auto
qed

subsection \<open>Properties\<close>

text \<open>
  A test of a camera that answers takes it through the registers of the start, of as many watchdogs as
  the test has seconds and of the stop of its type, and closes both sockets. A test of no seconds does not end.
\<close>

theorem camera_test_session:
  assumes "register_device dv regs" "gc_gvcp_fd cam \<noteq> - 1"
  shows "case gige_camera_test dv duration cam r of
      Done (cam', r') \<Rightarrow> duration \<noteq> 0 \<and> gc_state cam' = STREAM_STOP \<and> gc_gvcp_fd cam' = - 1 \<and> gc_gvsp_fd cam' = - 1
        \<and> cr_closed r' = cr_closed r @ [gc_gvcp_fd cam, gc_gvsp_fd cam]
        \<and> regs (gi_dev (cr_io r')) = op_effect (op_stop (gc_ops cam)) ((op_effect (op_watchdog (gc_ops cam)) ^^ nat duration)
            (op_effect (op_start (gc_ops cam)) (regs (gi_dev (cr_io r)))))
    | Blocked \<Rightarrow> duration = 0
    | Fault \<Rightarrow> False"
proof (cases "duration = 0")
  case False
  obtain i1 io1 where 1: "camera_op dv (op_start (gc_ops cam)) (cam, cr_io r) = (cam\<lparr>gc_last_gvcp_packet_id := i1\<rparr>, io1)"
    "regs (gi_dev io1) = op_effect (op_start (gc_ops cam)) (regs (gi_dev (cr_io r)))"
    using camera_op_device [OF assms] by blast
  let ?cam = "cam\<lparr>gc_last_gvcp_packet_id := i1, gc_state := STREAM_LIVE\<rparr>"
  obtain i2 io2 where 2: "(camera_op dv (op_watchdog (gc_ops cam)) ^^ nat duration) (?cam, io1) = (?cam\<lparr>gc_last_gvcp_packet_id := i2\<rparr>, io2)"
    "regs (gi_dev io2) = (op_effect (op_watchdog (gc_ops cam)) ^^ nat duration) (regs (gi_dev io1))"
    using camera_ops_device [OF assms(1), of ?cam] assms(2) by fastforce
  obtain i3 io3 where 3: "camera_op dv (op_stop (gc_ops cam)) (?cam\<lparr>gc_last_gvcp_packet_id := i2\<rparr>, io2)
      = (?cam\<lparr>gc_last_gvcp_packet_id := i2, gc_last_gvcp_packet_id := i3\<rparr>, io3)"
    "regs (gi_dev io3) = op_effect (op_stop (gc_ops cam)) (regs (gi_dev io2))"
    using camera_op_device [OF assms(1), of "?cam\<lparr>gc_last_gvcp_packet_id := i2\<rparr>"] assms(2) by fastforce
  from 1 2 3 False show ?thesis
    by (simp add: gige_camera_test_def)
qed (simp add: gige_camera_test_def split_beta)

definition demo_open :: open_answers where
  "demo_open = \<lparr>oa_alloc = True, oa_gvcp = 3, oa_gvcp_bind = True, oa_gvcp_connect = True, oa_gvsp = 4, oa_gvsp_bind = True,
     oa_name = Some (0, 0), oa_state = STREAM_STOP, oa_mem = (0, 0)\<rparr>"

theorem camera_test_session_witness:
  "case gige_camera_test demo_camera 2 (fresh_camera demo_open ''127.0.0.1'' True)
      \<lparr>cr_io = \<lparr>gi_dev = (\<lambda>_. 5), gi_sent = []\<rparr>, cr_opened = [3], cr_closed = []\<rparr> of
     Done (cam', r') \<Rightarrow> gi_dev (cr_io r') = (\<lambda>_. 5)(0xa00 := 2, 0x124 := 0) | _ \<Rightarrow> False"
proof -
  have f: "gc_gvcp_fd (fresh_camera demo_open ''127.0.0.1'' True) \<noteq> - 1"
    "gc_ops (fresh_camera demo_open ''127.0.0.1'' True) = gige_camera_ops_arvfake"
    by (simp_all add: fresh_camera_def demo_open_def gige_camera_identify_ops_def)
  from camera_test_session [OF demo_camera_device f(1), of 2 "\<lparr>cr_io = \<lparr>gi_dev = (\<lambda>_. 5), gi_sent = []\<rparr>, cr_opened = [3], cr_closed = []\<rparr>"]
  show ?thesis
    by (auto simp: f(2) gige_camera_ops_arvfake_def op_effect_def gvcp_start_arvfake_def gvcp_watchdog_arvfake_def gvcp_stop_arvfake_def
        PRIVILEGE_def numeral_2_eq_2 fun_eq_iff split: run.splits)
qed

text \<open>
  A camera that could be opened has both its sockets, commands and operations for its address. A camera
  that could not be opened leaves a socket behind when the command socket cannot be bound or connected, and
  both when the camera gives no size for its packets.
\<close>

theorem camera_init_sockets:
  "case gige_camera_init dv a dev action \<lparr>cr_io = io, cr_opened = [], cr_closed = []\<rparr> of
      (Some cam, r) \<Rightarrow> cr_opened r = [gc_gvcp_fd cam, gc_gvsp_fd cam] \<and> cr_closed r = [] \<and> 0 < gc_packet_size cam
        \<and> gc_packet_size cam \<le> 4096 \<and> (\<exists>ip. dev = Some ip \<and> gc_ops cam = gige_camera_identify_ops ip)
    | (None, r) \<Rightarrow> set (cr_opened r) - set (cr_closed r) =
        (if dev = None \<or> \<not> oa_alloc a \<or> oa_gvcp a < 0 then {}
         else if \<not> oa_gvcp_bind a \<or> \<not> oa_gvcp_connect a then {oa_gvcp a}
         else if oa_gvsp a < 0 \<or> \<not> oa_gvsp_bind a then {}
         else {oa_gvcp a, oa_gvsp a})"
proof -
  have p: "fst (gvcp_init dv name mem fd n io) \<le> 4096" for name mem fd n io
    by (auto simp: gvcp_init_def split_beta Let_def)
  show ?thesis
  proof (cases dev)
    case (Some ip)
    show ?thesis
      using Some p [of "oa_name a" "oa_mem a" "oa_gvcp a" "packet_number 0xf001" io]
      by (auto simp: gige_camera_init_def fresh_camera_def next_packet_id_def Let_def split_beta split: option.splits prod.splits)
  qed (simp add: gige_camera_init_def)
qed

end
