(* ===== verification/Data_Source.thy ===== *)
theory Data_Source imports Tcp_Source Gige_Camera begin

section \<open>Sources of frames (collector/src/source.c)\<close>

text \<open>
  A source is created from its description, runs a thread for its kind and is destroyed by the collector. The
  callbacks are represented by their presence. The results of \<open>device_find\<close> and \<open>gige_camera_init\<close>, which
  \<open>Discovery\<close> and \<open>Gige_Camera\<close> model, are answers of the system here, as are those of \<open>malloc\<close>; the empty list is the
  block that NULL stands for, which no access fits.
\<close>

definition OBJECT_DETECTION_FRAME_LIMIT :: int where "OBJECT_DETECTION_FRAME_LIMIT = 50"

record data_source =
  ds_sid :: int
  ds_fd :: int
  ds_sdesc :: "source_desc option"
  ds_packet :: "data_packet option"
  ds_camera :: "gige_camera option"
  ds_exit_flag :: int
  ds_empty_ready :: nat
  ds_data_ready :: nat
  ds_data :: string
  ds_detection :: bool
  ds_add_frame :: bool
  ds_save_frame :: bool
  ds_need_to_free :: int
  ds_frames_in_object :: int
  ds_limit :: int

record source_answers =
  sa_mem :: "data_source option"
  sa_packet :: bool
  sa_block :: "u64 \<Rightarrow> u8 list"
  sa_gai :: int
  sa_socks :: "(int \<times> bool) list"
  sa_device :: bool
  sa_camera :: "gige_camera option"
  sa_sem_data :: bool
  sa_sem_empty :: bool

text \<open>The addresses of a host are tried in turn; the result has the descriptor and those that were closed.\<close>

fun connect_source :: "(int \<times> bool) list \<Rightarrow> int option \<times> int list" where
  "connect_source [] = (None, [])"
| "connect_source ((fd, connected) # rs) =
     (if fd = - 1 then connect_source rs
      else if connected then (Some fd, [])
      else let (res, closed) = connect_source rs in (res, fd # closed))"

definition new_packet :: "source_answers \<Rightarrow> source_desc \<Rightarrow> data_packet option" where
  "new_packet a sdesc = (if sa_packet a
     then Some \<lparr>dp_header = sa_block a (sd_header_len sdesc), dp_header_len = sd_header_len sdesc,
       dp_data = sa_block a (sd_data_len sdesc), dp_data_len = sd_data_len sdesc\<rparr> else None)"

text \<open>
  \<open>q\<close> is the pointer the caller passes the address of. The result has the code and the pointer after the call: on an
  error a source that was allocated here is lost. The first write to a source precedes the test for NULL.
\<close>

definition source_sems :: "source_answers \<Rightarrow> data_source option \<Rightarrow> data_source \<Rightarrow> int \<times> data_source option" where
  "source_sems a failed src =
     (let src = src\<lparr>ds_exit_flag := 0, ds_detection := False, ds_add_frame := False, ds_save_frame := False\<rparr>
      in if \<not> sa_sem_data a then (- 1, failed)
         else let src = src\<lparr>ds_data_ready := 0\<rparr>
         in if \<not> sa_sem_empty a then (- 1, failed)
            else let src = src\<lparr>ds_empty_ready := 0\<rparr> in (ds_fd src, Some src))"

definition source_init :: "source_answers \<Rightarrow> data_source option option \<Rightarrow> source_desc \<Rightarrow> (int \<times> data_source option \<times> int list) option" where
  "source_init a p sdesc = (case p of None \<Rightarrow> Some (- 1, None, []) | Some q \<Rightarrow> do {
     src \<leftarrow> (case q of Some s \<Rightarrow> Some (s\<lparr>ds_need_to_free := 0\<rparr>) | None \<Rightarrow> map_option (\<lambda>s. s\<lparr>ds_need_to_free := 1\<rparr>) (sa_mem a));
     _ \<leftarrow> cstr (sd_port sdesc);
     _ \<leftarrow> out_source_description sdesc;
     packet \<leftarrow> new_packet a sdesc;
     let src = src\<lparr>ds_sdesc := Some sdesc, ds_limit := OBJECT_DETECTION_FRAME_LIMIT, ds_frames_in_object := 0,
       ds_exit_flag := 0, ds_fd := - 1, ds_camera := None, ds_packet := Some packet\<rparr>;
     let failed = (if q = None then None else Some src);
     if sd_type sdesc = STYPE_TCP then
       (if sa_gai a \<noteq> 0 then Some (- 1, failed, [])
        else case connect_source (sa_socks a) of
            (None, closed) \<Rightarrow> Some (- 1, failed, closed)
          | (Some fd, closed) \<Rightarrow> (let (rc, res) = source_sems a failed (src\<lparr>ds_fd := fd\<rparr>) in Some (rc, res, closed)))
     else if \<not> sa_device a then Some (- 1, failed, [])
     else (let (rc, res) = source_sems a failed (src\<lparr>ds_camera := sa_camera a\<rparr>) in Some (rc, res, [])) })"

text \<open>
  The thread of a camera, with \<open>n\<close> turns of its loop: the frames come from the thread of the stream, which it starts
  and joins. The camera is dereferenced before anything else.
\<close>

definition source_data_thread_udp :: "'d device \<Rightarrow> nat \<Rightarrow> data_source \<Rightarrow> 'd camera_run \<Rightarrow> (data_source \<times> 'd camera_run) run" where
  "source_data_thread_udp dv n src r = (case ds_camera src of None \<Rightarrow> Fault | Some cam \<Rightarrow>
     (case sem_wait (ds_empty_ready src) of None \<Rightarrow> Blocked | Some e \<Rightarrow>
       let (cam, io) = camera_op dv (op_start (gc_ops cam)) (cam, cr_io r);
           cam = cam\<lparr>gc_state := STREAM_LIVE\<rparr>;
           (cam, io) = (camera_op dv (op_watchdog (gc_ops cam)) ^^ n) (cam, io);
           cam = cam\<lparr>gc_state := STREAM_STOP\<rparr>;
           (cam, io) = camera_op dv (op_stop (gc_ops cam)) (cam, io)
       in Done (src\<lparr>ds_empty_ready := e, ds_exit_flag := 1, ds_data_ready := sem_post (ds_data_ready src),
                 ds_camera := Some (cam\<lparr>gc_gvcp_fd := - 1\<rparr>)\<rparr>,
            r\<lparr>cr_io := io, cr_closed := cr_closed r @ [gc_gvcp_fd cam]\<rparr>)))"

text \<open>
  \<open>thread_done\<close> says whether the thread of the source ends. The semaphore is posted for a camera only. The result is the
  descriptors that are closed; a descriptor of a camera that its thread has closed before is closed again as \<open>- 1\<close>.
\<close>

definition source_destroy :: "bool \<Rightarrow> data_source \<Rightarrow> (data_source \<times> int list) run" where
  "source_destroy thread_done src =
     (let src = src\<lparr>ds_exit_flag := 1\<rparr>;
          (src, closed) = (case ds_camera src of
              None \<Rightarrow> (src, [])
            | Some cam \<Rightarrow> (src\<lparr>ds_camera := Some (cam\<lparr>gc_state := STREAM_STOP\<rparr>), ds_empty_ready := sem_post (ds_empty_ready src)\<rparr>,
                [gc_gvsp_fd cam, gc_gvcp_fd cam]));
          closed = closed @ [ds_fd src]
      in if thread_done then Done (src\<lparr>ds_fd := - 1, ds_packet := None, ds_sdesc := None\<rparr>, closed) else Blocked)"

subsection \<open>Properties\<close>

lemma source_init_tcp:
  assumes "tcp_source host port sdesc" "sa_mem a = Some m" "sa_packet a" "sa_gai a = 0"
    "connect_source (sa_socks a) = (Some fd, closed)" "sa_sem_data a" "sa_sem_empty a"
  shows "\<exists>src. source_init a (Some None) sdesc = Some (fd, Some src, closed) \<and> ds_fd src = fd \<and> ds_exit_flag src = 0
    \<and> ds_empty_ready src = 0 \<and> ds_data_ready src = 0 \<and> ds_frames_in_object src = 0 \<and> ds_limit src = 50
    \<and> ds_packet src = new_packet a sdesc \<and> ds_data src = ds_data m \<and> ds_camera src = None"
proof -
  have "cstr (sd_port sdesc) = Some port" "sd_type sdesc = STYPE_TCP"
    using assms(1) by (simp_all add: tcp_source_def)
  moreover have "out_source_description sdesc \<noteq> None"
    using source_text [OF assms(1)] .
  moreover obtain p where "new_packet a sdesc = Some p"
    using assms(3) by (simp add: new_packet_def)
  ultimately show ?thesis
    using assms by (auto simp: source_init_def source_sems_def OBJECT_DETECTION_FRAME_LIMIT_def)
qed

lemma udp_source_session:
  assumes "register_device dv regs" "ds_camera src = Some cam" "gc_gvcp_fd cam \<noteq> - 1" "ds_empty_ready src = Suc e"
  shows "\<exists>src' r'. source_data_thread_udp dv n src r = Done (src', r') \<and> ds_exit_flag src' = 1
    \<and> ds_empty_ready src' = e \<and> ds_data_ready src' = Suc (ds_data_ready src) \<and> cr_closed r' = cr_closed r @ [gc_gvcp_fd cam]
    \<and> regs (gi_dev (cr_io r')) = op_effect (op_stop (gc_ops cam)) ((op_effect (op_watchdog (gc_ops cam)) ^^ n)
        (op_effect (op_start (gc_ops cam)) (regs (gi_dev (cr_io r)))))"
proof -
  obtain i1 io1 where 1: "camera_op dv (op_start (gc_ops cam)) (cam, cr_io r) = (cam\<lparr>gc_last_gvcp_packet_id := i1\<rparr>, io1)"
    "regs (gi_dev io1) = op_effect (op_start (gc_ops cam)) (regs (gi_dev (cr_io r)))"
    using camera_op_device [OF assms(1,3)] by blast
  define cam1 where "cam1 = cam\<lparr>gc_last_gvcp_packet_id := i1, gc_state := STREAM_LIVE\<rparr>"
  then have fd1: "gc_gvcp_fd cam1 \<noteq> - 1"
    using assms(3) by simp
  obtain i2 io2 where 2: "(camera_op dv (op_watchdog (gc_ops cam)) ^^ n) (cam1, io1) = (cam1\<lparr>gc_last_gvcp_packet_id := i2\<rparr>, io2)"
    "regs (gi_dev io2) = (op_effect (op_watchdog (gc_ops cam)) ^^ n) (regs (gi_dev io1))"
    using camera_ops_device [OF assms(1) fd1] by blast
  define cam2 where "cam2 = cam1\<lparr>gc_last_gvcp_packet_id := i2, gc_state := STREAM_STOP\<rparr>"
  then have fd2: "gc_gvcp_fd cam2 \<noteq> - 1"
    using assms(3) by (simp add: cam1_def)
  obtain i3 io3 where 3: "camera_op dv (op_stop (gc_ops cam)) (cam2, io2) = (cam2\<lparr>gc_last_gvcp_packet_id := i3\<rparr>, io3)"
    "regs (gi_dev io3) = op_effect (op_stop (gc_ops cam)) (regs (gi_dev io2))"
    using camera_op_device [OF assms(1) fd2] by blast
  show ?thesis
    using assms 1 2 3 by (simp add: source_data_thread_udp_def cam1_def cam2_def sem_post_def)
qed

end
