(* ===== verification/Ring_Buffer.thy ===== *)
theory Ring_Buffer imports Prelude begin

section \<open>The ring buffer (misc/src/ring_buffer.c)\<close>

text \<open>
  \<open>struct ring_buffer\<close> as a record: the three \<open>int\<close> fields, the semaphore counter and the
  trailing array. Each call below is the whole call, run without interference; the interleaving of
  several callers is the matter of \<open>Pipeline_Threads\<close>. A push computes \<open>start + used\<close> and subtracts
  \<open>max_cnt\<close> at most once; the source says there is no overflow check, so the store may be out of
  bounds and that is a fault here. \<open>ring_queue\<close> is the sequence the ring stands for.
\<close>

record ring =
  rg_max :: int
  rg_used :: int
  rg_start :: int
  rg_sem :: nat
  rg_buf :: "u64 list"

text \<open>The arguments \<open>alloc\<close> and \<open>sem_ok\<close> say whether \<open>malloc\<close> and \<open>sem_init\<close> succeed.\<close>

definition ring_buffer_create :: "bool \<Rightarrow> bool \<Rightarrow> int \<Rightarrow> bool \<Rightarrow> ring option" where
  "ring_buffer_create alloc sem_ok max_cnt emp =
     (if \<not> alloc then None
      else let ring = \<lparr>rg_max = max_cnt, rg_used = 0, rg_start = 0, rg_sem = 0,
                       rg_buf = replicate (nat max_cnt) 0\<rparr>;
               ring = (if \<not> emp then ring\<lparr>rg_used := max_cnt\<rparr> else ring)
           in if \<not> sem_ok then None
              else Some (ring\<lparr>rg_sem := (if emp then 0 else nat max_cnt)\<rparr>))"

definition ring_buffer_pop :: "ring \<Rightarrow> (u64 \<times> ring) run" where
  "ring_buffer_pop r =
     (case sem_wait (rg_sem r) of
        None \<Rightarrow> Blocked
      | Some n \<Rightarrow> run_of (do {
          offs \<leftarrow> arr_get (rg_buf r) (rg_start r);
          st \<leftarrow> c_int (rg_start r + 1);
          us \<leftarrow> c_int (rg_used r - 1);
          Some (offs, r\<lparr>rg_sem := n, rg_start := (if rg_max r \<le> st then 0 else st), rg_used := us\<rparr>) }))"

definition ring_buffer_push :: "ring \<Rightarrow> u64 \<Rightarrow> ring run" where
  "ring_buffer_push r v = run_of (do {
     pos \<leftarrow> c_int (rg_start r + rg_used r);
     us \<leftarrow> c_int (rg_used r + 1);
     let pos = (if rg_max r \<le> pos then pos - rg_max r else pos);
     buf \<leftarrow> arr_set (rg_buf r) pos v;
     Some (r\<lparr>rg_used := us, rg_buf := buf, rg_sem := sem_post (rg_sem r)\<rparr>) })"

subsection \<open>The queue a ring stands for\<close>

fun ring_seq :: "nat \<Rightarrow> nat \<Rightarrow> 'a list \<Rightarrow> 'a list" where
  "ring_seq st u buf = map (\<lambda>k. buf ! ((st + k) mod length buf)) [0..<u]"

definition ring_queue :: "ring \<Rightarrow> u64 list" where
  "ring_queue r = ring_seq (nat (rg_start r)) (nat (rg_used r)) (rg_buf r)"

definition ring_cap :: "ring \<Rightarrow> nat" where
  "ring_cap r = length (rg_buf r)"

text \<open>
  The invariant between calls: the indices are in range, the semaphore counts the entries, and the
  capacity is such that \<open>start + used\<close> is an \<open>int\<close>.
\<close>

definition ring_ok :: "ring \<Rightarrow> bool" where
  "ring_ok r \<longleftrightarrow> rg_max r = int (length (rg_buf r)) \<and> length (rg_buf r) \<le> 2 ^ 30
     \<and> 0 \<le> rg_start r \<and> rg_start r < rg_max r \<and> 0 \<le> rg_used r \<and> rg_used r \<le> rg_max r
     \<and> rg_sem r = nat (rg_used r)"

definition ring_rep :: "ring \<Rightarrow> u64 list \<Rightarrow> bool" where
  "ring_rep r q \<longleftrightarrow> ring_ok r \<and> ring_queue r = q"

lemma ring_queue_length [simp]: "length (ring_queue r) = nat (rg_used r)"
  by (simp add: ring_queue_def)

lemma ring_buffer_create_ok:
  assumes "0 < n" "n \<le> 2 ^ 30"
  shows "\<exists>r. ring_buffer_create True True n e = Some r
    \<and> ring_rep r (if e then [] else replicate (nat n) 0) \<and> ring_cap r = nat n"
  using assms
  by (auto simp: ring_buffer_create_def ring_rep_def ring_ok_def ring_queue_def ring_cap_def
      Let_def map_replicate_const intro!: nth_equalityI)

lemma ring_slot_neq:
  assumes "s < m" "k < u" "u < (m :: nat)"
  shows "(s + k) mod m \<noteq> (s + u) mod m"
  using assms by (auto simp: mod_if split: if_splits)

lemma ring_seq_pop:
  assumes "st < length buf"
  shows "ring_seq st (Suc u) buf = buf ! st # ring_seq ((st + 1) mod length buf) u buf"
proof -
  have "[0..<Suc u] = 0 # map Suc [0..<u]"
    by (simp add: upt_conv_Cons map_Suc_upt del: upt_Suc)
  then show ?thesis
    using assms by (simp add: mod_add_left_eq del: upt_Suc)
qed

lemma ring_seq_push:
  assumes "st < length buf" "u < length buf"
  shows "ring_seq st (Suc u) (buf[(st + u) mod length buf := v]) = ring_seq st u buf @ [v]"
proof -
  have "(st + u) mod length buf < length buf"
    using assms by (intro mod_less_divisor) auto
  then show ?thesis
    using ring_slot_neq [OF assms(1) _ assms(2), THEN not_sym] by auto
qed

text \<open>The fields of a well formed ring as naturals.\<close>

lemma ring_okE:
  assumes "ring_ok r"
  obtains st u m where "rg_start r = int st" "rg_used r = int u" "rg_max r = int m"
    "rg_sem r = u" "length (rg_buf r) = m" "st < m" "u \<le> m" "m \<le> 2 ^ 30"
proof (rule that [of "nat (rg_start r)" "nat (rg_used r)" "length (rg_buf r)"])
qed (use assms in \<open>auto simp: ring_ok_def\<close>)

lemma ring_push_law:
  assumes "ring_rep r q" "length q < ring_cap r"
  shows "\<exists>r'. ring_buffer_push r v = Done r' \<and> ring_rep r' (q @ [v]) \<and> ring_cap r' = ring_cap r"
proof -
  from assms(1) have ok: "ring_ok r" and q: "q = ring_queue r"
    by (simp_all add: ring_rep_def)
  from ok obtain st u m where f: "rg_start r = int st" "rg_used r = int u" "rg_max r = int m"
    "rg_sem r = u" "length (rg_buf r) = m" "st < m" "u \<le> m" "m \<le> 2 ^ 30"
    by (rule ring_okE)
  have u: "u < m"
    using assms(2) q f by (simp add: ring_cap_def)
  let ?r = "r\<lparr>rg_used := int (Suc u), rg_buf := (rg_buf r)[(st + u) mod m := v], rg_sem := Suc u\<rparr>"
  have "ring_buffer_push r v = Done ?r"
    using f u by (cases "m \<le> st + u")
      (simp_all add: ring_buffer_push_def Let_def sem_post_def arr_set_def mod_if nat_diff_distrib nat_add_distrib)
  moreover have "ring_ok ?r"
    using f u by (auto simp: ring_ok_def)
  moreover have "ring_queue ?r = q @ [v]"
    using ring_seq_push [of st "rg_buf r" u v] f u q by (simp add: ring_queue_def del: ring_seq.simps)
  ultimately show ?thesis
    by (auto simp: ring_rep_def ring_cap_def)
qed

lemma ring_pop_law:
  assumes "ring_rep r (v # q)"
  shows "\<exists>r'. ring_buffer_pop r = Done (v, r') \<and> ring_rep r' q \<and> ring_cap r' = ring_cap r"
proof -
  from assms have ok: "ring_ok r" and q: "v # q = ring_queue r"
    by (simp_all add: ring_rep_def)
  from ok obtain st u m where f: "rg_start r = int st" "rg_used r = int u" "rg_max r = int m"
    "rg_sem r = u" "length (rg_buf r) = m" "st < m" "u \<le> m" "m \<le> 2 ^ 30"
    by (rule ring_okE)
  from q f obtain k where k: "u = Suc k"
    by (cases u) (auto simp: ring_queue_def)
  let ?r = "r\<lparr>rg_sem := k, rg_start := int ((st + 1) mod m), rg_used := int k\<rparr>"
  have vq: "v = rg_buf r ! st" "q = ring_seq ((st + 1) mod m) k (rg_buf r)"
    using ring_seq_pop [of st "rg_buf r" k] q f k by (simp_all add: ring_queue_def del: ring_seq.simps)
  have "ring_buffer_pop r = Done (v, ?r)"
    using f k vq(1) by (cases "m \<le> st + 1") (auto simp: ring_buffer_pop_def mod_if)
  moreover have "ring_ok ?r"
    using f k by (auto simp: ring_ok_def)
  moreover have "ring_queue ?r = q"
    using f vq(2) by (simp add: ring_queue_def del: ring_seq.simps)
  ultimately show ?thesis
    by (auto simp: ring_rep_def ring_cap_def)
qed

lemma ring_pop_empty:
  assumes "ring_rep r []"
  shows "ring_buffer_pop r = Blocked"
  using assms by (auto simp: ring_rep_def ring_ok_def ring_buffer_pop_def ring_queue_def)

subsection \<open>The bounded queue the threads rely on\<close>

text \<open>
  A client of a ring runs a sequence of pushes and pops. \<open>spec_ops\<close> is what the sequence means on
  the abstract queue: a pop of an empty queue blocks, and a push beyond the capacity is outside the
  contract.
\<close>

datatype 'a qop = Enq 'a | Deq

fun run_ops :: "('q \<Rightarrow> 'a \<Rightarrow> 'q run) \<Rightarrow> ('q \<Rightarrow> ('a \<times> 'q) run) \<Rightarrow> 'a qop list \<Rightarrow> 'q \<Rightarrow> ('a list \<times> 'q) run" where
  "run_ops enq deq [] q = Done ([], q)"
| "run_ops enq deq (Enq v # ops) q = bind_run (enq q v) (run_ops enq deq ops)"
| "run_ops enq deq (Deq # ops) q = bind_run (deq q) (\<lambda>(v, q).
     bind_run (run_ops enq deq ops q) (\<lambda>(vs, q). Done (v # vs, q)))"

fun spec_ops :: "nat \<Rightarrow> 'a qop list \<Rightarrow> 'a list \<Rightarrow> ('a list \<times> 'a list) run" where
  "spec_ops c [] xs = Done ([], xs)"
| "spec_ops c (Enq v # ops) xs = (if length xs < c then spec_ops c ops (xs @ [v]) else Fault)"
| "spec_ops c (Deq # ops) [] = Blocked"
| "spec_ops c (Deq # ops) (x # xs) = bind_run (spec_ops c ops xs) (\<lambda>(vs, ys). Done (x # vs, ys))"

locale bounded_queue =
  fixes rep :: "'q \<Rightarrow> 'a list \<Rightarrow> bool" and cap :: "'q \<Rightarrow> nat"
    and enq :: "'q \<Rightarrow> 'a \<Rightarrow> 'q run" and deq :: "'q \<Rightarrow> ('a \<times> 'q) run"
  assumes enq_law: "rep q xs \<Longrightarrow> length xs < cap q \<Longrightarrow>
      \<exists>q'. enq q v = Done q' \<and> rep q' (xs @ [v]) \<and> cap q' = cap q"
    and deq_law: "rep q (x # xs) \<Longrightarrow> \<exists>q'. deq q = Done (x, q') \<and> rep q' xs \<and> cap q' = cap q"
    and deq_empty: "rep q [] \<Longrightarrow> deq q = Blocked"
begin

lemma run_refines:
  assumes "rep q xs" "spec_ops (cap q) ops xs \<noteq> Fault"
  shows "(spec_ops (cap q) ops xs = Blocked \<and> run_ops enq deq ops q = Blocked)
    \<or> (\<exists>vs ys q'. spec_ops (cap q) ops xs = Done (vs, ys) \<and> run_ops enq deq ops q = Done (vs, q')
         \<and> rep q' ys \<and> cap q' = cap q)"
  using assms
proof (induction "cap q" ops xs arbitrary: q rule: spec_ops.induct)
  case (1 xs)
  then show ?case by simp
next
  case (2 v ops xs)
  then have "length xs < cap q"
    by (auto split: if_splits)
  moreover from this 2(2) obtain q' where q': "enq q v = Done q'" "rep q' (xs @ [v])" "cap q' = cap q"
    using enq_law by blast
  moreover have "spec_ops (cap q') ops (xs @ [v]) \<noteq> Fault"
    using 2(3) q'(3) \<open>length xs < cap q\<close> by simp
  moreover note 2(1) [OF \<open>length xs < cap q\<close> q'(3) [symmetric] q'(2)]
  ultimately show ?case
    by (simp only: spec_ops.simps run_ops.simps bind_run.simps if_True simp_thms)
next
  case (3 ops)
  then show ?case by (simp add: deq_empty)
next
  case (4 ops x xs)
  then obtain q' where q': "deq q = Done (x, q')" "rep q' xs" "cap q' = cap q"
    using deq_law by blast
  moreover have "spec_ops (cap q') ops xs \<noteq> Fault"
    using 4(3) q'(3) by (cases "spec_ops (cap q) ops xs") auto
  ultimately show ?case
    using 4(1) [of q'] by fastforce
qed

text \<open>Filling a queue and emptying it returns the values in order.\<close>

lemma spec_enq_all: "length xs + length vs \<le> c \<Longrightarrow>
    spec_ops c (map Enq vs @ ops) xs = spec_ops c ops (xs @ vs)"
  by (induction vs arbitrary: xs) auto

lemma spec_deq_all: "spec_ops c (map (\<lambda>_. Deq) xs) xs = Done (xs, [])"
  by (induction xs) auto

lemma fifo:
  assumes "rep q []" "length vs \<le> cap q"
  shows "\<exists>q'. run_ops enq deq (map Enq vs @ map (\<lambda>_. Deq) vs) q = Done (vs, q') \<and> rep q' []"
  using run_refines [OF assms(1), of "map Enq vs @ map (\<lambda>_. Deq) vs"] assms(2)
  by (auto simp: spec_enq_all spec_deq_all)

end

interpretation rq: bounded_queue ring_rep ring_cap ring_buffer_push ring_buffer_pop
  by unfold_locales (use ring_push_law ring_pop_law ring_pop_empty in blast)+

subsection \<open>The ring created full\<close>

text \<open>
  Every caller passes \<open>empty = 0\<close>: the ring starts with \<open>max_cnt\<close> zero entries in it. A push
  before any pop is then beyond the capacity. At start index \<open>st\<close> with \<open>k\<close> values pushed since,
  the store goes to index \<open>st + k\<close>, which is inside the array only while \<open>st + k < max_cnt\<close>.
\<close>

lemma ring_push_full:
  assumes "rg_max r = int m" "rg_start r = int st" "rg_used r = int (m + k)" "st < m" "st + k < m"
    and "length (rg_buf r) = m" "m < 2 ^ 30"
  shows "ring_buffer_push r v = Done (r\<lparr>rg_used := int (m + Suc k), rg_buf := (rg_buf r)[st + k := v],
    rg_sem := Suc (rg_sem r)\<rparr>)"
  using assms by (auto simp: ring_buffer_push_def Let_def sem_post_def arr_set_def nat_add_distrib)

lemma ring_push_overflow:
  assumes "rg_max r = int m" "rg_start r = int st" "rg_used r = int (m + k)" "m \<le> st + k"
    and "length (rg_buf r) = m"
  shows "ring_buffer_push r v = Fault"
  using assms by (auto simp: ring_buffer_push_def Let_def arr_set_def c_int_def)

subsection \<open>Properties\<close>

text \<open>
  Claim C11. The ring buffer is a bounded FIFO queue: any sequence of pushes and pops that never exceeds the
  capacity does on the ring what it does on the sequence the ring stands for, returns the same values
  in the same order, blocks exactly where a pop meets an empty queue, and never has undefined
  behaviour.
\<close>

theorem ring_buffer_refines_queue:
  assumes "ring_rep r q" "spec_ops (ring_cap r) ops q \<noteq> Fault"
  shows "(spec_ops (ring_cap r) ops q = Blocked \<and> run_ops ring_buffer_push ring_buffer_pop ops r = Blocked)
    \<or> (\<exists>vs q' r'. spec_ops (ring_cap r) ops q = Done (vs, q')
         \<and> run_ops ring_buffer_push ring_buffer_pop ops r = Done (vs, r') \<and> ring_rep r' q')"
  using rq.run_refines [OF assms] by blast

definition demo_empty_ring :: ring where
  "demo_empty_ring = \<lparr>rg_max = 2, rg_used = 0, rg_start = 1, rg_sem = 0, rg_buf = [7, 8]\<rparr>"

lemma demo_empty_ring_rep: "ring_rep demo_empty_ring []"
  by (simp add: demo_empty_ring_def ring_rep_def ring_ok_def ring_queue_def)

theorem ring_buffer_refines_queue_witness:
  "\<exists>r'. run_ops ring_buffer_push ring_buffer_pop [Enq 5, Enq 6, Deq, Enq 9, Deq] demo_empty_ring = Done ([5, 6], r')
     \<and> ring_rep r' [9]"
  using ring_buffer_refines_queue [OF demo_empty_ring_rep, of "[Enq 5, Enq 6, Deq, Enq 9, Deq]"]
  by (simp add: demo_empty_ring_def ring_cap_def)

text \<open>
  A ring that was created full and has not been popped accepts a push only while start + pushes stays
  inside the array: the value lands on an entry that is still in use, and from the first push past the
  end of the array the store is out of bounds, since \<open>start + used\<close> is reduced only once.
\<close>

theorem ring_push_when_full:
  assumes "rg_max r = int m" "rg_start r = int st" "rg_used r = int (m + k)" "st < m"
    and "length (rg_buf r) = m" "m < 2 ^ 30"
  shows "ring_buffer_push r v = (if st + k < m
     then Done (r\<lparr>rg_used := int (m + Suc k), rg_buf := (rg_buf r)[st + k := v], rg_sem := Suc (rg_sem r)\<rparr>)
     else Fault)"
  using ring_push_full [of r m st k v] ring_push_overflow [of r m st k v] assms by simp

theorem ring_push_when_full_witness:
  "ring_buffer_push \<lparr>rg_max = 2, rg_used = 3, rg_start = 1, rg_sem = 3, rg_buf = [7, 8]\<rparr> 5 = Fault"
  using ring_push_when_full [of "\<lparr>rg_max = 2, rg_used = 3, rg_start = 1, rg_sem = 3, rg_buf = [7, 8]\<rparr>" 2 1 1 5] by simp

end
