(* ===== verification/Collector.thy ===== *)
theory Collector imports Data_Source Ring_Buffer begin

section \<open>The collector and its sources (collector/src/collector.c, examples/simple_collector.c)\<close>

text \<open>
  The thread of the collector, the threads of its TCP sources, the loop of its client (\<open>collector_action\<close> and
  \<open>after_collector_action\<close>) and the thread that destroys it run together. A program counter names the next statement of a
  thread that touches shared data, and one step executes it. What the system gives (the bytes a source reads, the
  verdict of a detection callback, the name made from the clock) is part of the step.
\<close>

datatype collector_pc = C_WaitEmpty | C_Copy nat | C_Give nat | C_Loop | C_WaitData nat | C_Post | C_Check | C_Test
  | C_Stop nat | C_FinExit nat | C_FinWait nat | C_FinPost | C_Done

datatype source_pc = S_WaitFirst | S_Loop | S_Read | S_Detect | S_Post | S_TestExit | S_WaitEmpty | S_Add | S_Save
  | S_End | S_Done

datatype client_pc = A_Test | A_ExitPost | A_WaitData | A_Push | A_Name | A_Post | A_Pop

datatype main_pc = M_Run | M_Join | M_Exit nat | M_JoinSource nat | M_Ended

definition MAX_SOURCES_NUMBER :: int where "MAX_SOURCES_NUMBER = 5"

record data_collector =
  dc_exit_flag :: int
  dc_sources_cnt :: nat
  dc_sources :: "nat \<Rightarrow> data_source"
  dc_empty_ready :: nat
  dc_data_ready :: nat
  dc_data :: string
  dc_memory :: string
  dc_dataoffset :: u64
  dc_chunk_cnt :: u64
  dc_chunk_size :: u64
  dc_ring :: "ring option"
  dc_use_boost_shmem :: int
  dc_boost_path :: string
  dc_boost_size :: u64

subsection \<open>Creating a collector\<close>

text \<open>
  \<open>block\<close> is the memory for the names, the empty list when \<open>malloc\<close> gives NULL; so is \<open>ring\<close>, whether there is memory for the ring.
  Without a description the new one is lost in a variable of an inner scope, and NULL is printed. Each source
  is made anew, and its pointer is used without a test.
\<close>

definition zero_collector :: "data_source \<Rightarrow> data_collector" where
  "zero_collector blank = \<lparr>dc_exit_flag = 0, dc_sources_cnt = 0, dc_sources = \<lambda>_. blank, dc_empty_ready = 0, dc_data_ready = 0,
     dc_data = replicate MAX_SHMEM_NAME_LEN NUL, dc_memory = [], dc_dataoffset = 0, dc_chunk_cnt = 0, dc_chunk_size = 0,
     dc_ring = None, dc_use_boost_shmem = 0, dc_boost_path = replicate MAX_SHMEM_NAME_LEN NUL, dc_boost_size = 0\<rparr>"

definition collector_add_source :: "collector_desc \<Rightarrow> source_answers \<Rightarrow> nat \<Rightarrow> data_collector \<Rightarrow> data_collector option" where
  "collector_add_source desc a i d =
     (if MAX_SOURCES_NUMBER \<le> int i then None
      else do {
        as \<leftarrow> cd_sdescs desc;
        p \<leftarrow> arr_get as (int i);
        sdesc \<leftarrow> p;
        (fd, q, _) \<leftarrow> source_init a (Some None) sdesc;
        src \<leftarrow> q;
        name \<leftarrow> cstr (dc_data d);
        data \<leftarrow> strcpy_to 0 name (ds_data src);
        Some (d\<lparr>dc_sources := (dc_sources d)(i := src\<lparr>ds_fd := fd, ds_sid := int i, ds_data := data\<rparr>), dc_exit_flag := 0\<rparr>) })"

fun collector_add_sources :: "collector_desc \<Rightarrow> (nat \<Rightarrow> source_answers) \<Rightarrow> nat list \<Rightarrow> data_collector \<Rightarrow> data_collector option" where
  "collector_add_sources desc a [] d = Some d"
| "collector_add_sources desc a (i # is) d = Option.bind (collector_add_source desc (a i) i d) (collector_add_sources desc a is)"

definition collector_init :: "data_source \<Rightarrow> bool \<Rightarrow> string \<Rightarrow> bool \<Rightarrow> bool \<Rightarrow> (nat \<Rightarrow> source_answers) \<Rightarrow> collector_desc option \<Rightarrow>
    data_collector option option" where
  "collector_init blank alloc block ring sems a p =
     (if \<not> alloc then Some None
      else do {
        desc \<leftarrow> p;
        _ \<leftarrow> out_collector_description desc;
        let d = (zero_collector blank)\<lparr>dc_chunk_cnt := 512, dc_chunk_size := 256, dc_memory := block, dc_dataoffset := 0,
          dc_ring := ring_buffer_create ring True 512 False, dc_sources_cnt := nat (cd_sources_cnt desc)\<rparr>;
        d \<leftarrow> collector_add_sources desc a [0..<dc_sources_cnt d] d;
        d \<leftarrow> (if cd_use_boost_shmem desc \<noteq> 0 then do {
             path \<leftarrow> cstr (cd_boost_path desc);
             path \<leftarrow> strcpy_to 0 path (dc_boost_path d);
             Some (d\<lparr>dc_use_boost_shmem := 1, dc_boost_path := path, dc_boost_size := cd_boost_size desc\<rparr>) }
           else Some d);
        Some (if sems then Some (d\<lparr>dc_data_ready := 1, dc_empty_ready := 0\<rparr>) else None) })"

subsection \<open>The threads that run\<close>

text \<open>
  The threads: program counters, the reader and the current frame of every source, the frames that were added to objects
  with the name the source had then, the names made so far, those pushed to the ring and those popped from it.
\<close>

record run_state = data_collector +
  pc_collector :: collector_pc
  pc_source :: "nat \<Rightarrow> source_pc"
  pc_client :: client_pc
  pc_main :: main_pc
  rs_reader :: "nat \<Rightarrow> tcp_reader"
  rs_frame :: "nat \<Rightarrow> int"
  rs_added :: "nat \<Rightarrow> (string \<times> int \<times> u8 list) list"
  rs_names :: "string list"
  rs_pushed :: "string list"
  rs_popped :: "string list"

definition upd_source :: "nat \<Rightarrow> (data_source \<Rightarrow> data_source) \<Rightarrow> run_state \<Rightarrow> run_state" where
  "upd_source i f s = s\<lparr>dc_sources := (dc_sources s)(i := f (dc_sources s i))\<rparr>"

definition go_source :: "source_pc \<Rightarrow> nat \<Rightarrow> run_state \<Rightarrow> run_state" where
  "go_source p i s = s\<lparr>pc_source := (pc_source s)(i := p)\<rparr>"

subsection \<open>The thread of the collector\<close>

text \<open>
  The counter of the loop over the sources is declared inside the loop, so it is 0 or 1 when it is compared
  with the number of sources.
\<close>

definition check_sources :: "nat \<Rightarrow> (nat \<Rightarrow> data_source) \<Rightarrow> int \<Rightarrow> int" where
  "check_sources n src exit_flag = fold (\<lambda>i e. let cnt = (if ds_exit_flag (src i) \<noteq> 0 then 1 else 0)
     in if cnt = n then 1 else e) [0..<n] exit_flag"

definition copy_name :: "nat \<Rightarrow> run_state \<Rightarrow> run_state option" where
  "copy_name i s = do {
     name \<leftarrow> cstr (dc_data s);
     d \<leftarrow> strcpy_to 0 name (ds_data (dc_sources s i));
     Some (upd_source i (\<lambda>src. src\<lparr>ds_data := d\<rparr>) s) }"

definition collect_data_thread :: "run_state \<Rightarrow> run_state run" where
  "collect_data_thread s = (let n = dc_sources_cnt s; goto = (\<lambda>p s. s\<lparr>pc_collector := p\<rparr>)
   in case pc_collector s of
     C_WaitEmpty \<Rightarrow> (case sem_wait (dc_empty_ready s) of None \<Rightarrow> Blocked
       | Some k \<Rightarrow> Done (goto (C_Copy 0) (s\<lparr>dc_empty_ready := k\<rparr>)))
   | C_Copy i \<Rightarrow> if n \<le> i then Done (goto C_Loop s) else bind_run (run_of (copy_name i s)) (\<lambda>s. Done (goto (C_Give i) s))
   | C_Give i \<Rightarrow> Done (goto (C_Copy (Suc i)) (upd_source i (\<lambda>src. src\<lparr>ds_empty_ready := sem_post (ds_empty_ready src)\<rparr>) s))
   | C_Loop \<Rightarrow> Done (goto (if dc_exit_flag s \<noteq> 0 then C_FinExit 0 else C_WaitData 0) s)
   | C_WaitData i \<Rightarrow> if n \<le> i then Done (goto C_Post s)
       else (case sem_wait (ds_data_ready (dc_sources s i)) of None \<Rightarrow> Blocked
         | Some k \<Rightarrow> Done (goto (C_WaitData (Suc i)) (upd_source i (\<lambda>src. src\<lparr>ds_data_ready := k\<rparr>) s)))
   | C_Post \<Rightarrow> Done (goto C_Check (s\<lparr>dc_data_ready := sem_post (dc_data_ready s)\<rparr>))
   | C_Check \<Rightarrow> Done (goto C_Test (s\<lparr>dc_exit_flag := check_sources n (dc_sources s) (dc_exit_flag s)\<rparr>))
   | C_Test \<Rightarrow> Done (goto (if dc_exit_flag s = 0 then C_WaitEmpty else C_Stop 0) s)
   | C_Stop i \<Rightarrow> if n \<le> i then Done (goto C_Loop s)
       else Done (goto (C_Stop (Suc i)) (upd_source i (\<lambda>src. src\<lparr>ds_exit_flag := 1\<rparr>) s))
   | C_FinExit i \<Rightarrow> if n \<le> i then Done (goto C_FinPost s)
       else Done (goto (C_FinWait i) (upd_source i (\<lambda>src. src\<lparr>ds_exit_flag := 1\<rparr>) s))
   | C_FinWait i \<Rightarrow> (case sem_wait (ds_data_ready (dc_sources s i)) of None \<Rightarrow> Blocked
         | Some k \<Rightarrow> Done (goto (C_FinExit (Suc i)) (upd_source i (\<lambda>src. src\<lparr>ds_data_ready := k\<rparr>) s)))
   | C_FinPost \<Rightarrow> Done (goto C_Done (s\<lparr>dc_data_ready := sem_post (dc_data_ready s)\<rparr>))
   | C_Done \<Rightarrow> Blocked)"

subsection \<open>The thread of a source\<close>

text \<open>
  \<open>new_frame_action\<close> is the part from \<open>S_Detect\<close> to \<open>S_Save\<close>: it tests for a new object, hands the old one over,
  waits for the new name, adds the frame and counts it. \<open>verdict\<close> is what the detection callback would answer.
\<close>

definition new_object :: "int \<Rightarrow> data_source \<Rightarrow> bool" where
  "new_object verdict src \<longleftrightarrow> ds_detection src \<and> verdict \<noteq> 0 \<or> ds_frames_in_object src mod ds_limit src = 0"

definition add_frame :: "nat \<Rightarrow> run_state \<Rightarrow> run_state option" where
  "add_frame i s = (let src = dc_sources s i in
     if ds_exit_flag src = 0 \<and> ds_add_frame src
     then do { name \<leftarrow> cstr (ds_data src);
       Some (s\<lparr>rs_added := (rs_added s)(i := rs_added s i @ [(name, rs_frame s i, dp_data (tr_packet (rs_reader s i)))])\<rparr>) }
     else Some s)"

definition new_frame_action :: "int \<Rightarrow> nat \<Rightarrow> run_state \<Rightarrow> run_state run" where
  "new_frame_action verdict i s = (let src = dc_sources s i in case pc_source s i of
     S_Detect \<Rightarrow> if new_object verdict src
       then Done (go_source S_Post i (upd_source i (\<lambda>src. src\<lparr>ds_frames_in_object := 0\<rparr>) s))
       else Done (go_source S_Add i s)
   | S_Post \<Rightarrow> Done (go_source S_TestExit i (upd_source i (\<lambda>src. src\<lparr>ds_data_ready := sem_post (ds_data_ready src)\<rparr>) s))
   | S_TestExit \<Rightarrow> Done (go_source (if ds_exit_flag src = 0 then S_WaitEmpty else S_Add) i s)
   | S_WaitEmpty \<Rightarrow> (case sem_wait (ds_empty_ready src) of None \<Rightarrow> Blocked
       | Some k \<Rightarrow> Done (go_source S_Add i (upd_source i (\<lambda>src. src\<lparr>ds_empty_ready := k\<rparr>) s)))
   | S_Add \<Rightarrow> bind_run (run_of (add_frame i s)) (\<lambda>s. Done (go_source S_Save i s))
   | _ \<Rightarrow> bind_run (run_of (c_int (ds_frames_in_object src + 1)))
       (\<lambda>k. Done (go_source S_Loop i (upd_source i (\<lambda>src. src\<lparr>ds_frames_in_object := k\<rparr>) s))))"

definition source_data_thread_tcp :: "u8 list option \<Rightarrow> int \<Rightarrow> nat \<Rightarrow> run_state \<Rightarrow> run_state run" where
  "source_data_thread_tcp rd verdict i s = (let src = dc_sources s i in case pc_source s i of
     S_WaitFirst \<Rightarrow> (case sem_wait (ds_empty_ready src) of None \<Rightarrow> Blocked
       | Some k \<Rightarrow> Done (go_source S_Loop i (upd_source i (\<lambda>src. src\<lparr>ds_empty_ready := k\<rparr>) s)))
   | S_Loop \<Rightarrow> Done (go_source (if ds_exit_flag src = 0 then S_Read else S_End) i s)
   | S_Read \<Rightarrow> (case tcp_turn rd (rs_reader s i) of None \<Rightarrow> Fault
       | Some (res, r) \<Rightarrow> (let s = s\<lparr>rs_reader := (rs_reader s)(i := r)\<rparr> in case res of
           Again \<Rightarrow> Done (go_source S_Loop i s)
         | Broken \<Rightarrow> Done (go_source S_End i (upd_source i (\<lambda>src. src\<lparr>ds_exit_flag := 1\<rparr>) s))
         | Frame no \<Rightarrow> Done (go_source S_Detect i (s\<lparr>rs_frame := (rs_frame s)(i := no)\<rparr>))))
   | S_End \<Rightarrow> Done (go_source S_Done i (upd_source i (\<lambda>src. src\<lparr>ds_data_ready := sem_post (ds_data_ready src)\<rparr>) s))
   | S_Done \<Rightarrow> Blocked
   | _ \<Rightarrow> new_frame_action verdict i s)"

subsection \<open>The client\<close>

text \<open>
  \<open>collector_action\<close> takes the current name to the ring and makes a new one; when the collector stops it only posts.
  \<open>name\<close> is the text that \<open>generate_new_object_name\<close> prints.
\<close>

definition collector_action :: "string \<Rightarrow> run_state \<Rightarrow> run_state run" where
  "collector_action name s = (let goto = (\<lambda>p s. s\<lparr>pc_client := p\<rparr>) in case pc_client s of
     A_Test \<Rightarrow> Done (goto (if dc_exit_flag s \<noteq> 0 then A_ExitPost else A_WaitData) s)
   | A_ExitPost \<Rightarrow> Done (goto A_Pop (s\<lparr>dc_empty_ready := sem_post (dc_empty_ready s)\<rparr>))
   | A_WaitData \<Rightarrow> (case sem_wait (dc_data_ready s) of None \<Rightarrow> Blocked
       | Some k \<Rightarrow> Done (goto A_Push (s\<lparr>dc_data_ready := k\<rparr>)))
   | A_Push \<Rightarrow> bind_run (run_of (do {
         t \<leftarrow> cstr (dc_data s);
         m \<leftarrow> strcpy_to (unat (dc_dataoffset s)) t (dc_memory s);
         r \<leftarrow> dc_ring s;
         Some (t, m, r) })) (\<lambda>(t, m, r).
       bind_run (ring_buffer_push r (dc_dataoffset s)) (\<lambda>r.
         Done (goto A_Name (s\<lparr>dc_memory := m, dc_ring := Some r, rs_pushed := rs_pushed s @ [t],
           dc_dataoffset := (dc_dataoffset s + dc_chunk_size s) mod (dc_chunk_cnt s * dc_chunk_size s)\<rparr>))))
   | A_Name \<Rightarrow> bind_run (run_of (strcpy_to 0 name (dc_data s))) (\<lambda>d.
       Done (goto A_Post (s\<lparr>dc_data := d, rs_names := rs_names s @ [name]\<rparr>)))
   | _ \<Rightarrow> Done (goto A_Pop (s\<lparr>dc_empty_ready := sem_post (dc_empty_ready s)\<rparr>)))"

definition after_collector_action :: "run_state \<Rightarrow> run_state run" where
  "after_collector_action s = bind_run (bind_run (run_of (dc_ring s)) ring_buffer_pop) (\<lambda>(off, r).
     bind_run (run_of (if unat off \<le> length (dc_memory s) then cstr (drop (unat off) (dc_memory s)) else None)) (\<lambda>t.
       Done (s\<lparr>dc_ring := Some r, rs_popped := (if t = [] then rs_popped s else rs_popped s @ [t]), pc_client := A_Test\<rparr>)))"

definition client_loop :: "string \<Rightarrow> run_state \<Rightarrow> run_state run" where
  "client_loop name s = (if pc_client s = A_Pop then after_collector_action s else collector_action name s)"

subsection \<open>Destroying a collector\<close>

text \<open>The sources end before their threads are joined only when they find their exit flag.\<close>

definition collector_destroy :: "run_state \<Rightarrow> run_state run" where
  "collector_destroy s = (let goto = (\<lambda>p s. s\<lparr>pc_main := p\<rparr>) in case pc_main s of
     M_Run \<Rightarrow> Done (goto M_Join (s\<lparr>dc_exit_flag := 1\<rparr>))
   | M_Join \<Rightarrow> if pc_collector s = C_Done then Done (goto (M_Exit 0) s) else Blocked
   | M_Exit i \<Rightarrow> if dc_sources_cnt s \<le> i then Done (goto M_Ended s)
       else Done (goto (M_JoinSource i) (upd_source i (\<lambda>src. src\<lparr>ds_exit_flag := 1\<rparr>) s))
   | M_JoinSource i \<Rightarrow> (case source_destroy (pc_source s i = S_Done) (dc_sources s i) of
         Done (src, _) \<Rightarrow> Done (goto (M_Exit (Suc i)) (upd_source i (\<lambda>_. src) s))
       | Blocked \<Rightarrow> Blocked | Fault \<Rightarrow> Fault)
   | M_Ended \<Rightarrow> Blocked)"

datatype actor = Collector | Source nat "u8 list option" int | Client string | Main

definition collector_step :: "actor \<Rightarrow> run_state \<Rightarrow> run_state run" where
  "collector_step a s = (case a of
     Collector \<Rightarrow> collect_data_thread s
   | Source i rd verdict \<Rightarrow> if i < dc_sources_cnt s then source_data_thread_tcp rd verdict i s else Blocked
   | Client name \<Rightarrow> client_loop name s
   | Main \<Rightarrow> collector_destroy s)"

text \<open>
  A name made from the clock is a text of less than 248 characters that has not been made before, because it counts
  microseconds.
\<close>

definition clock_name :: "string \<Rightarrow> run_state \<Rightarrow> bool" where
  "clock_name name s \<longleftrightarrow> NUL \<notin> set name \<and> length name < 248 \<and> name \<noteq> [] \<and> name \<notin> set (rs_names s)"

definition possible :: "actor \<Rightarrow> run_state \<Rightarrow> bool" where
  "possible a s \<longleftrightarrow> (case a of Client name \<Rightarrow> pc_client s = A_Name \<longrightarrow> clock_name name s | _ \<Rightarrow> True)"

definition collector_move :: "run_state \<Rightarrow> run_state \<Rightarrow> bool" where
  "collector_move s t \<longleftrightarrow> (\<exists>a. possible a s \<and> collector_step a s = Done t)"

text \<open>
  Before its loop the client sets the callbacks of the sources and makes the first name. The sources are those of
  TCP descriptions, and \<open>reader_of\<close> is the reader of a source at its start.
\<close>

definition reader_of :: "data_source \<Rightarrow> tcp_reader" where
  "reader_of src = (case ds_packet src of Some p \<Rightarrow> tcp_reader_start p
     | None \<Rightarrow> tcp_reader_start \<lparr>dp_header = [], dp_header_len = 0, dp_data = [], dp_data_len = 0\<rparr>)"

definition client_setup :: "bool \<Rightarrow> string \<Rightarrow> data_collector \<Rightarrow> data_collector option" where
  "client_setup detection name d = do {
     data \<leftarrow> strcpy_to 0 name (dc_data d);
     Some (d\<lparr>dc_data := data, dc_sources := (\<lambda>i. if i < dc_sources_cnt d
       then (dc_sources d i)\<lparr>ds_detection := detection, ds_add_frame := True, ds_save_frame := False\<rparr> else dc_sources d i)\<rparr>) }"

definition start_threads :: "string \<Rightarrow> data_collector \<Rightarrow> run_state" where
  "start_threads name d = data_collector.extend d \<lparr>pc_collector = C_WaitEmpty, pc_source = \<lambda>_. S_WaitFirst, pc_client = A_Test, pc_main = M_Run,
     rs_reader = \<lambda>i. reader_of (dc_sources d i), rs_frame = \<lambda>_. - 1, rs_added = \<lambda>_. [], rs_names = [name], rs_pushed = [], rs_popped = []\<rparr>"

text \<open>The memory of the names is there, and a source has 256 bytes for the name.\<close>

definition collector_start :: "run_state \<Rightarrow> bool" where
  "collector_start s \<longleftrightarrow> (\<exists>blank block a desc d d' detection name.
     collector_init blank True block True True a (Some desc) = Some (Some d)
     \<and> length block = 131072 \<and> (\<forall>i < dc_sources_cnt d. ds_camera (dc_sources d i) = None) \<and> (\<forall>i m. sa_mem (a i) = Some m \<longrightarrow> length (ds_data m) = 256)
     \<and> NUL \<notin> set name \<and> length name < 248 \<and> name \<noteq> []
     \<and> client_setup detection name d = Some d' \<and> s = start_threads name d')"

end
