(* ===== verification/Collector_Handshake.thy ===== *)
theory Collector_Handshake imports Collector begin

section \<open>The handshake of the collector\<close>

text \<open>
  One token goes round between the client and the collector (\<open>empty_ready\<close>, \<open>data_ready\<close> and who holds it), and one
  between the collector and each of its sources. Who holds the token may write the name the others read. The
  invariants hold as long as no exit flag is set; the flags are never reset.
\<close>

definition quiet :: "run_state \<Rightarrow> bool" where
  "quiet s \<longleftrightarrow> dc_exit_flag s = 0 \<and> (\<forall>i < dc_sources_cnt s. ds_exit_flag (dc_sources s i) = 0)"

definition active :: "source_pc \<Rightarrow> bool" where
  "active p \<longleftrightarrow> p \<in> {S_Loop, S_Read, S_Detect, S_Post, S_Add, S_Save}"

definition client_has :: "client_pc \<Rightarrow> bool" where
  "client_has p \<longleftrightarrow> p \<in> {A_Push, A_Name, A_Post}"

fun collector_has :: "collector_pc \<Rightarrow> bool" where
  "collector_has (C_Copy k) = True"
| "collector_has (C_Give k) = True"
| "collector_has C_Loop = True"
| "collector_has (C_WaitData k) = True"
| "collector_has C_Post = True"
| "collector_has _ = False"

text \<open>The collector holds the token of source \<open>i\<close>.\<close>

fun holds :: "nat \<Rightarrow> collector_pc \<Rightarrow> bool" where
  "holds i (C_Copy k) = (k \<le> i)"
| "holds i (C_Give k) = (k \<le> i)"
| "holds i C_Loop = False"
| "holds i (C_WaitData k) = (i < k)"
| "holds i _ = True"

fun running :: "collector_pc \<Rightarrow> bool" where
  "running (C_Stop k) = False"
| "running (C_FinExit k) = False"
| "running (C_FinWait k) = False"
| "running C_FinPost = False"
| "running C_Done = False"
| "running (C_Give k) = True"
| "running _ = True"

definition all_run :: "run_state \<Rightarrow> bool" where
  "all_run s \<longleftrightarrow> running (pc_collector s) \<and> pc_client s \<noteq> A_ExitPost \<and> pc_main s = M_Run
     \<and> (\<forall>i < dc_sources_cnt s. pc_source s i \<notin> {S_End, S_Done})
     \<and> (\<forall>k. pc_collector s = C_Give k \<longrightarrow> k < dc_sources_cnt s)"

text \<open>A token is in one of two semaphores or with one of two threads.\<close>

definition one_of :: "nat \<Rightarrow> nat \<Rightarrow> bool \<Rightarrow> bool \<Rightarrow> bool" where
  "one_of e d a h \<longleftrightarrow> e + d + (if a then 1 else 0) + (if h then 1 else 0) = 1"

lemma one_of_simps [simp]:
  "one_of e d True h \<longleftrightarrow> e = 0 \<and> d = 0 \<and> \<not> h"
  "one_of e d a True \<longleftrightarrow> e = 0 \<and> d = 0 \<and> \<not> a"
  "one_of (Suc e) d a h \<longleftrightarrow> e = 0 \<and> d = 0 \<and> \<not> a \<and> \<not> h"
  "one_of e (Suc d) a h \<longleftrightarrow> e = 0 \<and> d = 0 \<and> \<not> a \<and> \<not> h"
  "\<not> one_of 0 0 False False"
  by (auto simp: one_of_def)

definition tokens :: "run_state \<Rightarrow> bool" where
  "tokens s \<longleftrightarrow> one_of (dc_empty_ready s) (dc_data_ready s) (client_has (pc_client s)) (collector_has (pc_collector s))
     \<and> (\<forall>i < dc_sources_cnt s. one_of (ds_empty_ready (dc_sources s i)) (ds_data_ready (dc_sources s i))
          (active (pc_source s i)) (holds i (pc_collector s)))"

lemma active_simps [simp]:
  "active S_Loop" "active S_Read" "active S_Detect" "active S_Post" "active S_Add" "active S_Save"
  "\<not> active S_WaitFirst" "\<not> active S_TestExit" "\<not> active S_WaitEmpty" "\<not> active S_End" "\<not> active S_Done"
  by (simp_all add: active_def)

lemma client_has_simps [simp]:
  "client_has A_Push" "client_has A_Name" "client_has A_Post"
  "\<not> client_has A_Test" "\<not> client_has A_ExitPost" "\<not> client_has A_WaitData" "\<not> client_has A_Pop"
  by (simp_all add: client_has_def)

lemma Suc_le_neq: "i \<noteq> k \<Longrightarrow> Suc k \<le> i \<longleftrightarrow> k \<le> i"
  by auto

lemma run_of_Done_iff: "run_of m = Done a \<longleftrightarrow> m = Some a"
  by (cases m) auto

lemma check_sources_0: "(\<And>i. i < n \<Longrightarrow> ds_exit_flag (src i) = 0) \<Longrightarrow> 0 < n \<or> n = 0 \<Longrightarrow> check_sources n src e = e"
proof -
  assume z: "\<And>i. i < n \<Longrightarrow> ds_exit_flag (src i) = 0"
  have "m \<le> n \<Longrightarrow> fold (\<lambda>i e. let cnt = (if ds_exit_flag (src i) \<noteq> 0 then 1 else 0) in if cnt = n then 1 else e) [0..<m] e = e" for m
    using z by (induction m) auto
  from this [of n] show ?thesis
    by (simp add: check_sources_def)
qed

lemma cnt_fixed: "collector_step a s = Done t \<Longrightarrow> dc_sources_cnt t = dc_sources_cnt s"
  by (auto simp: collector_step_def collect_data_thread_def source_data_thread_tcp_def new_frame_action_def client_loop_def
      collector_action_def after_collector_action_def collector_destroy_def copy_name_def add_frame_def bind_run_Done_iff run_of_Done_iff
      upd_source_def go_source_def Let_def
      split: actor.splits collector_pc.splits source_pc.splits client_pc.splits main_pc.splits if_splits option.splits run.splits tcp_outcome.splits)

text \<open>An exit flag that is set stays set.\<close>

lemma check_sources_mono: "e \<noteq> 0 \<Longrightarrow> check_sources n src e \<noteq> 0"
proof -
  assume "e \<noteq> 0"
  then have "fold (\<lambda>i e. let cnt = (if ds_exit_flag (src i) \<noteq> 0 then 1 else 0) in if cnt = n then 1 else e) is e \<noteq> 0" for "is"
    by (induction "is" arbitrary: e) (auto simp: Let_def)
  then show ?thesis
    by (simp add: check_sources_def)
qed

lemma exit_flags_stay:
  assumes "collector_step a s = Done t"
  shows "dc_exit_flag s \<noteq> 0 \<longrightarrow> dc_exit_flag t \<noteq> 0"
    and "ds_exit_flag (dc_sources s i) \<noteq> 0 \<longrightarrow> ds_exit_flag (dc_sources t i) \<noteq> 0"
  using assms
  by (auto simp: collector_step_def collect_data_thread_def source_data_thread_tcp_def new_frame_action_def client_loop_def
      collector_action_def after_collector_action_def collector_destroy_def source_destroy_def copy_name_def add_frame_def
      bind_run_Done_iff run_of_Done_iff upd_source_def go_source_def Let_def check_sources_mono
      split: actor.splits collector_pc.splits source_pc.splits client_pc.splits main_pc.splits if_splits option.splits
        run.splits tcp_outcome.splits)

lemma quiet_back: "collector_step a s = Done t \<Longrightarrow> quiet t \<Longrightarrow> quiet s"
  using exit_flags_stay [of a s t] cnt_fixed [of a s t] by (auto simp: quiet_def)

subsection \<open>Tokens\<close>

lemma tokens_source: "tokens s \<Longrightarrow> i < dc_sources_cnt s \<Longrightarrow>
    one_of (ds_empty_ready (dc_sources s i)) (ds_data_ready (dc_sources s i)) (active (pc_source s i)) (holds i (pc_collector s))"
  by (simp add: tokens_def)

lemmas step_simps = collect_data_thread_def copy_name_def source_data_thread_tcp_def new_frame_action_def add_frame_def
  collector_action_def after_collector_action_def client_loop_def upd_source_def go_source_def
  bind_run_Done_iff run_of_Done_iff sem_post_def sem_wait_Some_iff

lemma collector_tokens:
  assumes "collect_data_thread s = Done t" "quiet s" "all_run s" "tokens s"
  shows "all_run t \<and> tokens t"
proof (cases "pc_collector s")
  case C_Check
  have "check_sources (dc_sources_cnt s) (dc_sources s) (dc_exit_flag s) = dc_exit_flag s"
    using assms(2) by (intro check_sources_0) (auto simp: quiet_def)
  then show ?thesis
    using assms C_Check by (auto simp: step_simps tokens_def all_run_def)
next
  case (C_Copy k)
  then show ?thesis
    using assms tokens_source [OF assms(4), of k] by (auto simp: step_simps tokens_def all_run_def split: if_splits)
next
  case (C_Give k)
  then show ?thesis
    using assms tokens_source [OF assms(4), of k] by (auto simp: step_simps tokens_def all_run_def Suc_le_neq)
next
  case (C_WaitData k)
  then show ?thesis
    using assms tokens_source [OF assms(4), of k]
    by (auto simp: step_simps tokens_def all_run_def less_Suc_eq split: if_splits option.splits)
qed (use assms in \<open>auto simp: step_simps tokens_def all_run_def quiet_def split: if_splits option.splits\<close>)

text \<open>What a step of a source leaves alone.\<close>

definition same_but_source :: "nat \<Rightarrow> run_state \<Rightarrow> run_state \<Rightarrow> bool" where
  "same_but_source i s t \<longleftrightarrow> dc_exit_flag t = dc_exit_flag s \<and> dc_sources_cnt t = dc_sources_cnt s \<and> dc_empty_ready t = dc_empty_ready s
     \<and> dc_data_ready t = dc_data_ready s \<and> dc_data t = dc_data s \<and> dc_memory t = dc_memory s \<and> dc_dataoffset t = dc_dataoffset s
     \<and> dc_chunk_cnt t = dc_chunk_cnt s \<and> dc_chunk_size t = dc_chunk_size s \<and> dc_ring t = dc_ring s
     \<and> pc_collector t = pc_collector s \<and> pc_client t = pc_client s \<and> pc_main t = pc_main s
     \<and> rs_names t = rs_names s \<and> rs_pushed t = rs_pushed s \<and> rs_popped t = rs_popped s
     \<and> (\<forall>j. j \<noteq> i \<longrightarrow> dc_sources t j = dc_sources s j \<and> pc_source t j = pc_source s j \<and> rs_added t j = rs_added s j)"

lemma source_frame: "source_data_thread_tcp rd verdict i s = Done t \<Longrightarrow> same_but_source i s t"
  by (auto simp: step_simps same_but_source_def Let_def
      split: source_pc.splits if_splits option.splits tcp_outcome.splits)

text \<open>What it does to its own counter, its record and the frames it adds, as long as no flag is set.\<close>

inductive source_move :: "source_pc \<Rightarrow> data_source \<Rightarrow> (string \<times> int \<times> u8 list) list \<Rightarrow>
    source_pc \<Rightarrow> data_source \<Rightarrow> (string \<times> int \<times> u8 list) list \<Rightarrow> bool" where
  "ds_empty_ready src = Suc k \<Longrightarrow> source_move S_WaitFirst src fs S_Loop (src\<lparr>ds_empty_ready := k\<rparr>) fs"
| "source_move S_Loop src fs S_Read src fs"
| "source_move S_Read src fs S_Loop src fs"
| "source_move S_Read src fs S_Detect src fs"
| "new_object v src \<Longrightarrow> source_move S_Detect src fs S_Post (src\<lparr>ds_frames_in_object := 0\<rparr>) fs"
| "\<not> new_object v src \<Longrightarrow> source_move S_Detect src fs S_Add src fs"
| "source_move S_Post src fs S_TestExit (src\<lparr>ds_data_ready := Suc (ds_data_ready src)\<rparr>) fs"
| "source_move S_TestExit src fs S_WaitEmpty src fs"
| "ds_empty_ready src = Suc k \<Longrightarrow> source_move S_WaitEmpty src fs S_Add (src\<lparr>ds_empty_ready := k\<rparr>) fs"
| "ds_add_frame src \<Longrightarrow> cstr (ds_data src) = Some name \<Longrightarrow> source_move S_Add src fs S_Save src (fs @ [(name, no, data)])"
| "\<not> ds_add_frame src \<Longrightarrow> source_move S_Add src fs S_Save src fs"
| "source_move S_Save src fs S_Loop (src\<lparr>ds_frames_in_object := ds_frames_in_object src + 1\<rparr>) fs"

lemma source_moves:
  assumes "source_data_thread_tcp rd verdict i s = Done t" "ds_exit_flag (dc_sources s i) = 0" "ds_exit_flag (dc_sources t i) = 0"
    and "pc_source s i \<notin> {S_End, S_Done}"
  shows "source_move (pc_source s i) (dc_sources s i) (rs_added s i) (pc_source t i) (dc_sources t i) (rs_added t i)"
proof (cases "pc_source s i = S_Read")
  case True
  then show ?thesis
    using assms(1,3) by (auto simp: step_simps Let_def source_move.intros(3,4) split: option.splits tcp_outcome.splits)
next
  case False
  then show ?thesis
    using assms by (auto simp: step_simps Let_def c_int_def intro: source_move.intros split: source_pc.splits if_splits option.splits)
qed

lemma same_others:
  assumes "same_but_source i s t" "i < dc_sources_cnt s" "all_run s" "tokens s" "pc_source t i \<notin> {S_End, S_Done}"
    and "one_of (ds_empty_ready (dc_sources t i)) (ds_data_ready (dc_sources t i)) (active (pc_source t i)) (holds i (pc_collector s))"
  shows "all_run t \<and> tokens t"
proof -
  have "pc_source t j \<notin> {S_End, S_Done} \<and> one_of (ds_empty_ready (dc_sources t j)) (ds_data_ready (dc_sources t j))
      (active (pc_source t j)) (holds j (pc_collector s))" if "j < dc_sources_cnt s" for j
    using that assms by (cases "j = i") (auto simp: same_but_source_def all_run_def tokens_def)
  then show ?thesis
    using assms(1,3,4) by (simp add: same_but_source_def all_run_def tokens_def)
qed

lemma source_tokens:
  assumes "source_data_thread_tcp rd verdict i s = Done t" "i < dc_sources_cnt s" "quiet t" "quiet s" "all_run s" "tokens s"
  shows "all_run t \<and> tokens t"
proof -
  note fr = source_frame [OF assms(1)]
  have "ds_exit_flag (dc_sources s i) = 0" "ds_exit_flag (dc_sources t i) = 0" "pc_source s i \<notin> {S_End, S_Done}"
    using assms fr by (auto simp: quiet_def all_run_def same_but_source_def)
  from source_moves [OF assms(1) this] tokens_source [OF assms(6,2)]
  have "pc_source t i \<notin> {S_End, S_Done} \<and> one_of (ds_empty_ready (dc_sources t i)) (ds_data_ready (dc_sources t i))
      (active (pc_source t i)) (holds i (pc_collector s))"
    by cases auto
  then show ?thesis
    using same_others [OF fr assms(2,5,6)] by blast
qed

text \<open>What a step of the client leaves alone.\<close>

lemma client_frame:
  assumes "client_loop name s = Done t"
  shows "dc_exit_flag t = dc_exit_flag s \<and> dc_sources t = dc_sources s \<and> dc_sources_cnt t = dc_sources_cnt s \<and> pc_collector t = pc_collector s
    \<and> pc_source t = pc_source s \<and> pc_main t = pc_main s \<and> rs_added t = rs_added s \<and> rs_reader t = rs_reader s
    \<and> dc_chunk_cnt t = dc_chunk_cnt s \<and> dc_chunk_size t = dc_chunk_size s"
  using assms by (auto simp: step_simps Let_def split: client_pc.splits if_splits option.splits)

lemma client_moves:
  assumes "client_loop name s = Done t" "dc_exit_flag s = 0"
  shows "pc_client s = A_Test \<and> pc_client t = A_WaitData \<and> dc_empty_ready t = dc_empty_ready s \<and> dc_data_ready t = dc_data_ready s
    \<or> pc_client s = A_WaitData \<and> pc_client t = A_Push \<and> dc_empty_ready t = dc_empty_ready s \<and> dc_data_ready s = Suc (dc_data_ready t)
    \<or> pc_client s = A_Push \<and> pc_client t = A_Name \<and> dc_empty_ready t = dc_empty_ready s \<and> dc_data_ready t = dc_data_ready s
    \<or> pc_client s = A_Name \<and> pc_client t = A_Post \<and> dc_empty_ready t = dc_empty_ready s \<and> dc_data_ready t = dc_data_ready s
    \<or> pc_client s \<in> {A_Post, A_ExitPost} \<and> pc_client t = A_Pop \<and> dc_empty_ready t = Suc (dc_empty_ready s) \<and> dc_data_ready t = dc_data_ready s
    \<or> pc_client s = A_Pop \<and> pc_client t = A_Test \<and> dc_empty_ready t = dc_empty_ready s \<and> dc_data_ready t = dc_data_ready s"
  using assms by (auto simp: step_simps Let_def split: client_pc.splits if_splits option.splits)

lemma client_tokens:
  assumes "client_loop name s = Done t" "quiet s" "all_run s" "tokens s"
  shows "all_run t \<and> tokens t"
proof -
  have fr: "dc_sources t = dc_sources s" "dc_sources_cnt t = dc_sources_cnt s" "pc_collector t = pc_collector s"
    "pc_source t = pc_source s" "pc_main t = pc_main s" "dc_exit_flag s = 0"
    using client_frame [OF assms(1)] assms(2) by (auto simp: quiet_def)
  have "one_of (dc_empty_ready s) (dc_data_ready s) (client_has (pc_client s)) (collector_has (pc_collector s))"
    "pc_client s \<noteq> A_ExitPost"
    using assms(3,4) by (auto simp: tokens_def all_run_def)
  then have "pc_client t \<noteq> A_ExitPost
    \<and> one_of (dc_empty_ready t) (dc_data_ready t) (client_has (pc_client t)) (collector_has (pc_collector s))"
    using client_moves [OF assms(1) fr(6)] by auto
  then show ?thesis
    using fr assms(3,4) by (simp add: all_run_def tokens_def)
qed

lemma main_breaks_quiet: "collector_destroy s = Done t \<Longrightarrow> all_run s \<Longrightarrow> \<not> quiet t"
  by (auto simp: collector_destroy_def all_run_def quiet_def)

lemma step_tokens:
  assumes "collector_step a s = Done t" "quiet t" "all_run s" "tokens s"
  shows "all_run t \<and> tokens t"
  using assms quiet_back [OF assms(1,2)] main_breaks_quiet
  by (auto simp: collector_step_def split: actor.splits if_splits
      dest: collector_tokens source_tokens client_tokens)

end
