(* ===== verification/Collector_Safety.thy ===== *)
theory Collector_Safety imports Collector_Handshake begin

section \<open>What the collector guarantees while it runs\<close>

text \<open>
  Invariants of the running collector beside the tokens: the name every source has is the client's while it adds frames,
  a name that was handed over is not used again, an object has at most \<open>OBJECT_DETECTION_FRAME_LIMIT\<close> frames of a source,
  and the ring gives the client back what it has pushed. The last part shows what happens when a source is lost.
\<close>

definition the_name :: "run_state \<Rightarrow> string" where
  "the_name s = the (cstr (dc_data s))"

text \<open>Source \<open>i\<close> has been given the current name.\<close>

fun copied :: "nat \<Rightarrow> collector_pc \<Rightarrow> bool" where
  "copied i (C_Copy k) = (i < k)"
| "copied i (C_Give k) = (i \<le> k)"
| "copied i C_Loop = True"
| "copied i (C_WaitData k) = True"
| "copied i C_Post = True"
| "copied i _ = False"

definition names_ok :: "run_state \<Rightarrow> bool" where
  "names_ok s \<longleftrightarrow> length (dc_data s) = 256 \<and> cstr (dc_data s) = Some (the_name s) \<and> the_name s \<in> set (rs_names s)
     \<and> length (the_name s) < 248 \<and> the_name s \<noteq> []
     \<and> (\<forall>i < dc_sources_cnt s. length (ds_data (dc_sources s i)) = 256
         \<and> (copied i (pc_collector s) \<longrightarrow> cstr (ds_data (dc_sources s i)) = Some (the_name s)))"

definition pushed_ok :: "run_state \<Rightarrow> bool" where
  "pushed_ok s \<longleftrightarrow> distinct (rs_pushed s) \<and> set (rs_pushed s) \<subseteq> set (rs_names s) \<and> (the_name s \<in> set (rs_pushed s) \<longleftrightarrow> pc_client s = A_Name)
     \<and> (\<forall>i < dc_sources_cnt s. fst ` set (rs_added s i) \<subseteq> set (rs_names s))"

text \<open>The frames with a name.\<close>

definition frames_named :: "string \<Rightarrow> (string \<times> int \<times> u8 list) list \<Rightarrow> nat" where
  "frames_named name fs = length (filter (\<lambda>f. fst f = name) fs)"

lemma frames_named_simps [simp]:
  "frames_named name [] = 0"
  "frames_named name (fs @ [(n, f)]) = frames_named name fs + (if n = name then 1 else 0)"
  by (simp_all add: frames_named_def)

lemma frames_named_0: "name \<notin> fst ` set fs \<Longrightarrow> frames_named name fs = 0"
  by (auto simp: frames_named_def filter_empty_conv)

text \<open>Source \<open>i\<close> will get the current name and has not got it yet.\<close>

definition awaits :: "nat \<Rightarrow> run_state \<Rightarrow> bool" where
  "awaits i s \<longleftrightarrow> pc_client s = A_Post \<or> 0 < dc_empty_ready s \<or> (case pc_collector s of C_Copy k \<Rightarrow> k \<le> i | C_Give k \<Rightarrow> k \<le> i | _ \<Rightarrow> False)
     \<or> copied i (pc_collector s) \<and> 0 < ds_empty_ready (dc_sources s i)"

definition count_ok :: "source_pc \<Rightarrow> int \<Rightarrow> int \<Rightarrow> bool" where
  "count_ok p k n \<longleftrightarrow> (case p of S_Loop \<Rightarrow> n \<le> k | S_Read \<Rightarrow> n \<le> k | S_Detect \<Rightarrow> n \<le> k | S_Add \<Rightarrow> n \<le> k \<and> k < 50
     | S_Save \<Rightarrow> n \<le> k + 1 \<and> k < 50 | _ \<Rightarrow> k = 0)"

definition source_count_ok :: "nat \<Rightarrow> run_state \<Rightarrow> bool" where
  "source_count_ok i s \<longleftrightarrow> 0 \<le> ds_frames_in_object (dc_sources s i) \<and> ds_frames_in_object (dc_sources s i) \<le> 50
     \<and> ds_limit (dc_sources s i) = 50 \<and> (\<forall>name. frames_named name (rs_added s i) \<le> 50)
     \<and> (awaits i s \<longrightarrow> frames_named (the_name s) (rs_added s i) = 0)
     \<and> count_ok (pc_source s i) (ds_frames_in_object (dc_sources s i)) (int (frames_named (the_name s) (rs_added s i)))"

definition counts_ok :: "run_state \<Rightarrow> bool" where
  "counts_ok s \<longleftrightarrow> (\<forall>i < dc_sources_cnt s. source_count_ok i s)"

text \<open>The ring is full but for the time between a push and the pop that follows it.\<close>

definition ring_cycle :: "run_state \<Rightarrow> bool" where
  "ring_cycle s \<longleftrightarrow> dc_chunk_cnt s = 512 \<and> dc_chunk_size s = 256 \<and> length (dc_memory s) = 131072 \<and> (\<exists>j < 512. dc_dataoffset s = of_nat (256 * j))
     \<and> (\<exists>r st. dc_ring s = Some r \<and> rg_max r = 512 \<and> rg_start r = int st \<and> st < 512 \<and> length (rg_buf r) = 512
       \<and> (if pc_client s \<in> {A_Name, A_Post, A_Pop}
          then rg_used r = 513 \<and> rg_sem r = 513 \<and> (\<exists>j t. j < 512 \<and> rg_buf r ! st = of_nat (256 * j)
            \<and> cstr (drop (256 * j) (dc_memory s)) = Some t \<and> t \<noteq> [] \<and> rs_pushed s = rs_popped s @ [t])
          else rg_used r = 512 \<and> rg_sem r = 512 \<and> rs_pushed s = rs_popped s))"

definition collector_inv :: "run_state \<Rightarrow> bool" where
  "collector_inv s \<longleftrightarrow> all_run s \<and> tokens s \<and> names_ok s \<and> pushed_ok s \<and> counts_ok s \<and> ring_cycle s"

subsection \<open>Copies of a name\<close>

lemma copy_to_block:
  assumes "cstr a = Some name" "length name < length b"
  shows "\<exists>c. strcpy_to 0 name b = Some c \<and> length c = length b \<and> cstr c = Some name"
  using assms cstr_no_NUL [OF assms(1)] strcpy_to_0 [OF assms(2)] by auto

lemma strcpy_text:
  assumes "strcpy_to 0 name b = Some c" "NUL \<notin> set name"
  shows "length c = length b" "cstr c = Some name"
  using assms by (auto simp: strcpy_to_def buf_put_def split: if_splits)

text \<open>A source that is between two objects has the token, which the collector has given away with the current name.\<close>

lemma active_source:
  assumes "tokens s" "i < dc_sources_cnt s" "active (pc_source s i)"
  shows "collector_has (pc_collector s)" "copied i (pc_collector s)" "\<not> client_has (pc_client s)"
    "dc_empty_ready s = 0" "dc_data_ready s = 0" "\<not> awaits i s" "ds_empty_ready (dc_sources s i) = 0"
proof -
  have "\<not> holds i (pc_collector s)" and e: "ds_empty_ready (dc_sources s i) = 0"
    using tokens_source [OF assms(1,2)] assms(3) by simp_all
  then have c: "collector_has (pc_collector s)" "copied i (pc_collector s)"
    "\<not> (case pc_collector s of C_Copy k \<Rightarrow> k \<le> i | C_Give k \<Rightarrow> k \<le> i | _ \<Rightarrow> False)"
    by (cases "pc_collector s"; simp)+
  then show "collector_has (pc_collector s)" "copied i (pc_collector s)" by simp_all
  have "one_of (dc_empty_ready s) (dc_data_ready s) (client_has (pc_client s)) True"
    using assms(1) c(1) by (simp add: tokens_def)
  then show d: "\<not> client_has (pc_client s)" "dc_empty_ready s = 0" "dc_data_ready s = 0"
    by simp_all
  show "\<not> awaits i s"
    using c(3) d(1,2) e by (auto simp: awaits_def)
  show "ds_empty_ready (dc_sources s i) = 0"
    by (rule e)
qed

subsection \<open>Steps of the collector\<close>

definition same_but_collector :: "run_state \<Rightarrow> run_state \<Rightarrow> bool" where
  "same_but_collector s t \<longleftrightarrow> dc_sources_cnt t = dc_sources_cnt s \<and> dc_data t = dc_data s \<and> dc_memory t = dc_memory s
     \<and> dc_dataoffset t = dc_dataoffset s \<and> dc_chunk_cnt t = dc_chunk_cnt s \<and> dc_chunk_size t = dc_chunk_size s \<and> dc_ring t = dc_ring s
     \<and> pc_source t = pc_source s \<and> pc_client t = pc_client s \<and> pc_main t = pc_main s \<and> rs_added t = rs_added s
     \<and> rs_names t = rs_names s \<and> rs_pushed t = rs_pushed s \<and> rs_popped t = rs_popped s
     \<and> (\<forall>i. ds_frames_in_object (dc_sources t i) = ds_frames_in_object (dc_sources s i) \<and> ds_limit (dc_sources t i) = ds_limit (dc_sources s i))"

lemma collector_frame: "collect_data_thread s = Done t \<Longrightarrow> same_but_collector s t"
  by (auto simp: step_simps same_but_collector_def Let_def split: collector_pc.splits if_splits option.splits)

lemma collector_names:
  assumes "collect_data_thread s = Done t" "names_ok s" "all_run s" "all_run t"
  shows "names_ok t"
proof -
  have fr: "the_name t = the_name s" "dc_data t = dc_data s" "rs_names t = rs_names s" "dc_sources_cnt t = dc_sources_cnt s"
    using collector_frame [OF assms(1)] by (simp_all add: same_but_collector_def the_name_def)
  have "length (ds_data (dc_sources t i)) = 256 \<and> (copied i (pc_collector t) \<longrightarrow> cstr (ds_data (dc_sources t i)) = Some (the_name s))"
    if i: "i < dc_sources_cnt s" for i
  proof (cases "pc_collector s")
    case (C_Copy k)
    have c: "\<exists>c. strcpy_to 0 (the_name s) (ds_data (dc_sources s k)) = Some c \<and> length c = 256 \<and> cstr c = Some (the_name s)"
      if "k < dc_sources_cnt s"
      using that copy_to_block [of "dc_data s" "the_name s" "ds_data (dc_sources s k)"] assms(2) by (auto simp: names_ok_def)
    show ?thesis
      using assms C_Copy i c by (auto simp: step_simps names_ok_def split: if_splits)
  qed (use assms i in \<open>auto simp: step_simps names_ok_def all_run_def split: if_splits option.splits\<close>)
  then show ?thesis
    using assms(2) fr by (simp add: names_ok_def)
qed

lemma collector_awaits:
  assumes "collect_data_thread s = Done t" "quiet s" "tokens s" "all_run s" "i < dc_sources_cnt s" "awaits i t"
  shows "awaits i s"
proof (cases "pc_collector s")
  case C_Test
  then show ?thesis
    using assms by (auto simp: step_simps awaits_def quiet_def)
next
  case C_Loop
  then show ?thesis
    using assms by (auto simp: step_simps awaits_def quiet_def)
next
  case (C_Copy k)
  then show ?thesis
    using assms tokens_source [OF assms(3), of i] by (auto simp: step_simps awaits_def split: if_splits)
qed (use assms in \<open>auto simp: step_simps awaits_def all_run_def split: if_splits option.splits\<close>)

lemma collector_counts:
  assumes "collect_data_thread s = Done t" "quiet s" "tokens s" "all_run s" "counts_ok s"
  shows "counts_ok t"
proof -
  have fr: "the_name t = the_name s" "dc_sources_cnt t = dc_sources_cnt s" "rs_added t = rs_added s" "pc_source t = pc_source s"
    "\<And>i. ds_frames_in_object (dc_sources t i) = ds_frames_in_object (dc_sources s i) \<and> ds_limit (dc_sources t i) = ds_limit (dc_sources s i)"
    using collector_frame [OF assms(1)] by (simp_all add: same_but_collector_def the_name_def)
  show ?thesis
    using assms(5) collector_awaits [OF assms(1-4)] by (simp add: counts_ok_def source_count_ok_def fr)
qed

lemma collector_keeps:
  assumes "collect_data_thread s = Done t" "quiet s" "collector_inv s"
  shows "collector_inv t"
proof -
  have "all_run t" "tokens t"
    using collector_tokens [OF assms(1,2)] assms(3) by (simp_all add: collector_inv_def)
  moreover have fr: "dc_sources_cnt t = dc_sources_cnt s" "dc_data t = dc_data s" "dc_memory t = dc_memory s" "dc_dataoffset t = dc_dataoffset s"
    "dc_chunk_cnt t = dc_chunk_cnt s" "dc_chunk_size t = dc_chunk_size s" "dc_ring t = dc_ring s" "pc_client t = pc_client s"
    "rs_added t = rs_added s" "rs_names t = rs_names s" "rs_pushed t = rs_pushed s" "rs_popped t = rs_popped s" "the_name t = the_name s"
    using collector_frame [OF assms(1)] by (simp_all add: same_but_collector_def the_name_def)
  have "pushed_ok t"
    using assms(3) by (simp add: collector_inv_def pushed_ok_def fr)
  moreover have "ring_cycle t"
    using assms(3) by (simp only: collector_inv_def ring_cycle_def fr)
  ultimately show ?thesis
    using assms collector_names [OF assms(1)] collector_counts [OF assms(1,2)] by (simp add: collector_inv_def)
qed

subsection \<open>Steps of a source\<close>

lemma source_move_data:
  "source_move p src fs p' src' fs' \<Longrightarrow> ds_data src' = ds_data src \<and> ds_limit src' = ds_limit src
     \<and> (\<exists>new. fs' = fs @ new \<and> (new = [] \<or> p = S_Add \<and> (\<exists>name no data. cstr (ds_data src) = Some name \<and> new = [(name, no, data)])))"
  by (cases rule: source_move.cases) auto

lemma source_adds:
  assumes "source_move (pc_source s i) (dc_sources s i) (rs_added s i) p src fs" "tokens s" "names_ok s" "i < dc_sources_cnt s"
  shows "\<exists>new. fs = rs_added s i @ new \<and> fst ` set new \<subseteq> {the_name s} \<and> (new \<noteq> [] \<longrightarrow> pc_client s \<noteq> A_Name)"
proof -
  obtain new where "fs = rs_added s i @ new" "new = [] \<or> pc_source s i = S_Add
      \<and> (\<exists>name no data. cstr (ds_data (dc_sources s i)) = Some name \<and> new = [(name, no, data)])"
    using source_move_data [OF assms(1)] by blast
  moreover have "cstr (ds_data (dc_sources s i)) = Some (the_name s) \<and> pc_client s \<noteq> A_Name" if "pc_source s i = S_Add"
    using active_source [OF assms(2,4)] that assms(3,4) by (auto simp: names_ok_def)
  ultimately show ?thesis
    by fastforce
qed

lemma source_counts:
  assumes "source_move p src fs p' src' fs'" "0 \<le> ds_frames_in_object src" "ds_frames_in_object src \<le> 50" "ds_limit src = 50"
    and "count_ok p (ds_frames_in_object src) (int (frames_named name fs))" "\<forall>n. frames_named n fs \<le> 50"
    and "p = S_Add \<Longrightarrow> cstr (ds_data src) = Some name" "p \<in> {S_WaitFirst, S_WaitEmpty} \<Longrightarrow> 0 < ds_empty_ready src \<Longrightarrow> frames_named name fs = 0"
  shows "0 \<le> ds_frames_in_object src' \<and> ds_frames_in_object src' \<le> 50 \<and> (\<forall>n. frames_named n fs' \<le> 50)
    \<and> count_ok p' (ds_frames_in_object src') (int (frames_named name fs'))"
  using assms(1)
proof cases
  case (6 v)
  have "ds_frames_in_object src \<noteq> 50"
    using 6 assms(4) by (auto simp: new_object_def)
  then show ?thesis
    using 6 assms by (simp add: count_ok_def)
next
  case (10 n no data)
  then have "frames_named name fs < 50"
    using assms(5) by (simp add: count_ok_def)
  then show ?thesis
    using 10 assms by (auto simp: count_ok_def)
qed (use assms in \<open>auto simp: count_ok_def\<close>)

lemma source_awaits:
  assumes "source_move p (dc_sources s i) fs p' (dc_sources t i) fs'" "pc_collector t = pc_collector s" "dc_empty_ready t = dc_empty_ready s"
    "pc_client t = pc_client s" "awaits i t"
  shows "awaits i s"
  using assms by (cases rule: source_move.cases) (auto simp: awaits_def)

lemma source_gets: "tokens s \<Longrightarrow> i < dc_sources_cnt s \<Longrightarrow> 0 < ds_empty_ready (dc_sources s i) \<Longrightarrow> awaits i s"
  using tokens_source [of s i] by (cases "pc_collector s") (auto simp: awaits_def gr0_conv_Suc)

lemma source_count_step:
  assumes "source_move (pc_source s i) (dc_sources s i) (rs_added s i) (pc_source t i) (dc_sources t i) (rs_added t i)"
    and "tokens s" "names_ok s" "i < dc_sources_cnt s" "source_count_ok i s" "awaits i t \<Longrightarrow> awaits i s" "the_name t = the_name s"
  shows "source_count_ok i t"
proof -
  have act: "cstr (ds_data (dc_sources s i)) = Some (the_name s)" if "pc_source s i = S_Add"
    using active_source [OF assms(2,4)] assms(3,4) that by (simp add: names_ok_def)
  have fresh: "frames_named (the_name s) (rs_added s i) = 0" if "0 < ds_empty_ready (dc_sources s i)"
    using source_gets [OF assms(2,4) that] assms(5) by (simp add: source_count_ok_def)
  have "rs_added t i = rs_added s i" if "awaits i t"
    using source_move_data [OF assms(1)] active_source(6) [OF assms(2,4)] assms(6) that by auto
  moreover have "0 \<le> ds_frames_in_object (dc_sources t i) \<and> ds_frames_in_object (dc_sources t i) \<le> 50
    \<and> (\<forall>n. frames_named n (rs_added t i) \<le> 50)
    \<and> count_ok (pc_source t i) (ds_frames_in_object (dc_sources t i)) (int (frames_named (the_name s) (rs_added t i)))"
    by (rule source_counts [OF assms(1)]) (use assms(5) act fresh in \<open>simp_all add: source_count_ok_def\<close>)
  ultimately show ?thesis
    using assms(5-7) source_move_data [OF assms(1)] by (simp add: source_count_ok_def)
qed

lemma source_keeps:
  assumes "source_data_thread_tcp rd verdict i s = Done t" "i < dc_sources_cnt s" "quiet t" "quiet s" "collector_inv s"
  shows "collector_inv t"
proof -
  note fr = source_frame [OF assms(1)]
  have inv: "all_run s" "tokens s" "names_ok s" "pushed_ok s" "counts_ok s" "ring_cycle s"
    using assms(5) by (simp_all add: collector_inv_def)
  note toks = source_tokens [OF assms(1-4) inv(1,2)]
  have eqs: "dc_sources_cnt t = dc_sources_cnt s" "dc_data t = dc_data s" "dc_memory t = dc_memory s" "dc_dataoffset t = dc_dataoffset s"
    "dc_chunk_cnt t = dc_chunk_cnt s" "dc_chunk_size t = dc_chunk_size s" "dc_ring t = dc_ring s" "pc_client t = pc_client s"
    "rs_names t = rs_names s" "rs_pushed t = rs_pushed s" "rs_popped t = rs_popped s" "the_name t = the_name s"
    "pc_collector t = pc_collector s" "dc_empty_ready t = dc_empty_ready s"
    using fr by (simp_all add: same_but_source_def the_name_def)
  have other: "dc_sources t j = dc_sources s j \<and> pc_source t j = pc_source s j \<and> rs_added t j = rs_added s j" if "j \<noteq> i" for j
    using fr that by (simp add: same_but_source_def)
  have ex: "ds_exit_flag (dc_sources s i) = 0" "ds_exit_flag (dc_sources t i) = 0" "pc_source s i \<notin> {S_End, S_Done}"
    using assms fr inv(1) by (auto simp: quiet_def all_run_def same_but_source_def)
  note mv = source_moves [OF assms(1) ex]
  obtain new where new: "rs_added t i = rs_added s i @ new" "fst ` set new \<subseteq> {the_name s}"
    using source_adds [OF mv inv(2,3) assms(2)] by blast
  have "ds_data (dc_sources t j) = ds_data (dc_sources s j) \<and> ds_limit (dc_sources t j) = ds_limit (dc_sources s j)" for j
    using source_move_data [OF mv] other [of j] by (cases "j = i") auto
  then have "names_ok t"
    using inv(3) by (simp add: names_ok_def eqs)
  moreover have "pushed_ok t"
  proof -
    have "fst ` set (rs_added t j) \<subseteq> set (rs_names s)" if "j < dc_sources_cnt s" for j
    proof -
      have "fst ` set (rs_added s j) \<subseteq> set (rs_names s)" "fst ` set new \<subseteq> set (rs_names s)"
        using inv(3,4) new(2) that by (auto simp: names_ok_def pushed_ok_def)
      then show ?thesis
        using new(1) other [of j] by (cases "j = i") (simp_all add: image_Un)
    qed
    then show ?thesis
      using inv(4) by (simp add: pushed_ok_def eqs)
  qed
  moreover have "counts_ok t"
  proof -
    have "source_count_ok j t" if "j < dc_sources_cnt s" for j
    proof (cases "j = i")
      case False
      then show ?thesis
        using inv(5) that other [of j] by (simp add: counts_ok_def source_count_ok_def awaits_def eqs)
    next
      case True
      then show ?thesis
        using source_count_step [OF mv inv(2,3) assms(2)] source_awaits [OF mv eqs(13,14,8)] inv(5) assms(2) eqs(12)
        by (simp add: counts_ok_def)
    qed
    then show ?thesis
      by (simp add: counts_ok_def eqs)
  qed
  moreover have "ring_cycle t"
    using inv(6) by (simp only: ring_cycle_def eqs)
  ultimately show ?thesis
    using toks by (simp add: collector_inv_def)
qed

subsection \<open>Steps of the client\<close>

lemma client_data:
  assumes "client_loop name s = Done t" "pc_client s \<noteq> A_Name"
  shows "dc_data t = dc_data s" "rs_names t = rs_names s" "the_name t = the_name s"
  using assms by (auto simp: step_simps the_name_def split: client_pc.splits if_splits option.splits)

lemma client_new_name:
  assumes "client_loop name s = Done t" "pc_client s = A_Name" "clock_name name s"
  shows "length (dc_data t) = length (dc_data s)" "cstr (dc_data t) = Some name" "the_name t = name" "rs_names t = rs_names s @ [name]"
    "rs_pushed t = rs_pushed s" "dc_empty_ready t = dc_empty_ready s" "pc_client t = A_Post"
  using assms strcpy_text [of name "dc_data s"] by (auto simp: step_simps the_name_def clock_name_def split: if_splits)

lemma copied_has: "copied i p \<Longrightarrow> collector_has p"
  by (cases p) auto

lemma client_names:
  assumes "client_loop name s = Done t" "pc_client s = A_Name \<Longrightarrow> clock_name name s" "tokens s" "names_ok s"
  shows "names_ok t"
proof (cases "pc_client s = A_Name")
  case True
  then have "one_of (dc_empty_ready s) (dc_data_ready s) True (collector_has (pc_collector s))"
    using assms(3) by (simp add: tokens_def)
  then have "\<not> copied i (pc_collector s)" for i
    using copied_has by auto
  then show ?thesis
    using assms True client_new_name [OF assms(1)] client_frame [OF assms(1)] by (simp add: names_ok_def clock_name_def)
next
  case False
  then show ?thesis
    using assms(4) client_data [OF assms(1)] client_frame [OF assms(1)] by (simp add: names_ok_def)
qed

lemma client_pushes:
  assumes "client_loop name s = Done t"
  shows "pc_client s \<noteq> A_Push \<Longrightarrow> rs_pushed t = rs_pushed s"
    and "pc_client s = A_Push \<Longrightarrow> rs_pushed t = rs_pushed s @ [the_name s] \<and> pc_client t = A_Name"
  using assms by (auto simp: step_simps the_name_def split: client_pc.splits if_splits option.splits)

lemma client_pushed:
  assumes "client_loop name s = Done t" "pc_client s = A_Name \<Longrightarrow> clock_name name s" "names_ok s" "pushed_ok s" "dc_exit_flag s = 0"
  shows "pushed_ok t"
proof -
  have fr: "dc_sources_cnt t = dc_sources_cnt s" "rs_added t = rs_added s"
    using client_frame [OF assms(1)] by simp_all
  consider "pc_client s = A_Name" | "pc_client s = A_Push" | "pc_client s \<notin> {A_Name, A_Push}"
    by blast
  then show ?thesis
  proof cases
    case 1
    then show ?thesis
      using assms client_new_name [OF assms(1)] fr by (auto simp: pushed_ok_def clock_name_def)
  next
    case 2
    then show ?thesis
      using assms client_data [OF assms(1)] client_pushes [OF assms(1)] fr by (auto simp: pushed_ok_def names_ok_def)
  next
    case 3
    then have "pc_client t \<noteq> A_Name"
      using client_moves [OF assms(1,5)] by auto
    then show ?thesis
      using 3 assms client_data [OF assms(1)] client_pushes [OF assms(1)] fr by (auto simp: pushed_ok_def)
  qed
qed

lemma count_ok_inactive: "\<not> active p \<Longrightarrow> count_ok p k n = count_ok p k m"
  by (cases p) (auto simp: count_ok_def)

lemma client_counts:
  assumes "client_loop name s = Done t" "pc_client s = A_Name \<Longrightarrow> clock_name name s" "dc_exit_flag s = 0"
    and "all_run s" "tokens s" "pushed_ok s" "counts_ok s"
  shows "counts_ok t"
proof -
  have fr: "dc_sources t = dc_sources s" "dc_sources_cnt t = dc_sources_cnt s" "pc_collector t = pc_collector s"
    "pc_source t = pc_source s" "rs_added t = rs_added s"
    using client_frame [OF assms(1)] by simp_all
  have "source_count_ok i t" if i: "i < dc_sources_cnt s" for i
  proof (cases "pc_client s = A_Name")
    case True
    have c: "source_count_ok i s"
      using assms(7) i by (simp add: counts_ok_def)
    have "\<not> active (pc_source s i)"
      using active_source(3) [OF assms(5) i] True by auto
    then have "count_ok (pc_source s i) (ds_frames_in_object (dc_sources s i)) 0"
      using c count_ok_inactive [of "pc_source s i" _ 0 "int (frames_named (the_name s) (rs_added s i))"] by (simp add: source_count_ok_def)
    moreover have "frames_named name (rs_added s i) = 0"
      using assms(2) [OF True] assms(6) i by (intro frames_named_0) (auto simp: clock_name_def pushed_ok_def)
    ultimately show ?thesis
      using c client_new_name(3) [OF assms(1) True assms(2) [OF True]] by (simp add: source_count_ok_def fr)
  next
    case False
    then have "awaits i t \<Longrightarrow> awaits i s"
      using client_moves [OF assms(1,3)] assms(4) by (auto simp: awaits_def fr all_run_def)
    then show ?thesis
      using assms(7) i client_data(3) [OF assms(1) False] by (simp add: source_count_ok_def counts_ok_def fr)
  qed
  then show ?thesis
    by (simp add: counts_ok_def fr)
qed

subsection \<open>The ring of the client\<close>

lemma chunk_offset: "j < 512 \<Longrightarrow> unat (of_nat (256 * j) :: u64) = 256 * j"
  by (rule unat_u64) simp

lemma next_chunk:
  assumes "j < 512"
  shows "(of_nat (256 * j) + 256 :: u64) mod (512 * 256) = of_nat (256 * (Suc j mod 512))"
proof -
  have "(of_nat (256 * j) + 256 :: u64) mod (512 * 256) = of_nat (256 * Suc j) mod of_nat (512 * 256)"
    by (simp add: add.commute)
  also have "\<dots> = of_nat ((256 * Suc j) mod (512 * 256))"
  proof -
    have "unat (of_nat (256 * Suc j) :: u64) = 256 * Suc j" "unat (of_nat (512 * 256) :: u64) = 512 * 256"
      "unat (of_nat ((256 * Suc j) mod (512 * 256)) :: u64) = (256 * Suc j) mod (512 * 256)"
      using assms by (intro unat_u64; simp)+
    then show ?thesis
      by (simp only: word_unat_eq_iff unat_mod)
  qed
  finally show ?thesis
    by (simp add: mult_mod_right)
qed

lemma strcpy_at:
  assumes "off + length t < length m" "NUL \<notin> set t"
  shows "\<exists>c. strcpy_to off t m = Some c \<and> length c = length m \<and> cstr (drop off c) = Some t"
  using assms by (simp add: strcpy_to_def buf_put_def)

lemma client_push_run:
  assumes "pc_client s = A_Push" "names_ok s" "ring_cycle s"
  shows "\<exists>t. client_loop name s = Done t \<and> ring_cycle t"
proof -
  from assms(3) assms(1) obtain r st j where r: "dc_chunk_cnt s = 512" "dc_chunk_size s = 256" "length (dc_memory s) = 131072" "j < 512"
    "dc_dataoffset s = of_nat (256 * j)" "dc_ring s = Some r" "rg_max r = 512" "rg_start r = int st" "st < 512" "length (rg_buf r) = 512"
    "rg_used r = 512" "rg_sem r = 512" "rs_pushed s = rs_popped s"
    by (auto simp: ring_cycle_def)
  have name: "cstr (dc_data s) = Some (the_name s)" "length (the_name s) < 248" "the_name s \<noteq> []"
    using assms(2) by (simp_all add: names_ok_def)
  obtain m where m: "strcpy_to (256 * j) (the_name s) (dc_memory s) = Some m" "length m = 131072" "cstr (drop (256 * j) m) = Some (the_name s)"
    using strcpy_at [of "256 * j" "the_name s" "dc_memory s"] r(3,4) name(2) cstr_no_NUL [OF name(1)] by auto
  define ring where "ring = r\<lparr>rg_used := 513, rg_buf := (rg_buf r)[st := of_nat (256 * j)], rg_sem := 513\<rparr>"
  have push: "ring_buffer_push r (dc_dataoffset s) = Done ring"
    using ring_push_full [of r 512 st 0 "dc_dataoffset s"] r by (simp add: ring_def)
  define t where "t = s\<lparr>dc_memory := m, dc_ring := Some ring, rs_pushed := rs_pushed s @ [the_name s],
      dc_dataoffset := of_nat (256 * (Suc j mod 512)), pc_client := A_Name\<rparr>"
  have "client_loop name s = Done t"
    using assms(1) r(1,2,6) m(1) name(1) push next_chunk [OF r(4)] chunk_offset [OF r(4)]
    by (simp add: client_loop_def collector_action_def Let_def t_def r(5) del: of_nat_mult)
  moreover have "\<exists>k < 512. (of_nat (256 * (Suc j mod 512)) :: u64) = of_nat (256 * k)"
    by (rule exI [of _ "Suc j mod 512"]) simp
  then have "ring_cycle t"
    using r m name(3) by (auto simp: ring_cycle_def t_def ring_def simp del: of_nat_mult)
  ultimately show ?thesis
    by blast
qed

lemma client_pop_run:
  assumes "pc_client s = A_Pop" "ring_cycle s"
  shows "\<exists>t. client_loop name s = Done t \<and> ring_cycle t"
proof -
  from assms(2,1) obtain r st j x where r: "dc_ring s = Some r" "rg_max r = 512" "rg_start r = int st" "st < 512" "length (rg_buf r) = 512"
    "rg_used r = 513" "rg_sem r = 513" "j < 512" "rg_buf r ! st = of_nat (256 * j)" "cstr (drop (256 * j) (dc_memory s)) = Some x" "x \<noteq> []"
    "rs_pushed s = rs_popped s @ [x]" "length (dc_memory s) = 131072"
    by (auto simp: ring_cycle_def simp del: of_nat_mult)
  define ring where "ring = r\<lparr>rg_sem := 512, rg_start := int (Suc st mod 512), rg_used := 512\<rparr>"
  have pop: "ring_buffer_pop r = Done (of_nat (256 * j), ring)"
    using r by (auto simp: ring_buffer_pop_def sem_wait_def mod_Suc Let_def ring_def simp del: of_nat_mult)
  define t where "t = s\<lparr>dc_ring := Some ring, rs_popped := rs_popped s @ [x], pc_client := A_Test\<rparr>"
  have "client_loop name s = Done t"
    using assms(1) r(1,8,10,11,13) pop chunk_offset [OF r(8)] by (simp add: client_loop_def after_collector_action_def t_def del: of_nat_mult)
  moreover have "Suc st mod 512 < 512"
    by simp
  then have "ring_cycle t"
    using assms(2) r by (auto simp: ring_cycle_def t_def ring_def simp del: of_nat_mult)
  ultimately show ?thesis
    by blast
qed

lemma client_rings:
  assumes "client_loop name s = Done t" "dc_exit_flag s = 0" "all_run s" "names_ok s" "ring_cycle s"
  shows "ring_cycle t"
proof -
  have fr: "dc_chunk_cnt t = dc_chunk_cnt s" "dc_chunk_size t = dc_chunk_size s"
    using client_frame [OF assms(1)] by simp_all
  consider "pc_client s = A_Push" | "pc_client s = A_Pop" | "pc_client s \<in> {A_Test, A_WaitData, A_Name, A_Post}"
    using assms(3) by (cases "pc_client s") (auto simp: all_run_def)
  then show ?thesis
  proof cases
    case 1
    then show ?thesis
      using client_push_run [OF 1 assms(4,5), of name] assms(1) by simp
  next
    case 2
    then show ?thesis
      using client_pop_run [OF 2 assms(5), of name] assms(1) by simp
  next
    case 3
    then have "dc_memory t = dc_memory s \<and> dc_ring t = dc_ring s \<and> dc_dataoffset t = dc_dataoffset s \<and> rs_pushed t = rs_pushed s
        \<and> rs_popped t = rs_popped s \<and> (pc_client t \<in> {A_Name, A_Post, A_Pop} \<longleftrightarrow> pc_client s \<in> {A_Name, A_Post, A_Pop})"
      using assms(1,2) by (auto simp: step_simps split: if_splits option.splits)
    then show ?thesis
      using assms(5) fr unfolding ring_cycle_def by metis
  qed
qed

lemma client_keeps:
  assumes "client_loop name s = Done t" "pc_client s = A_Name \<Longrightarrow> clock_name name s" "quiet s" "collector_inv s"
  shows "collector_inv t"
proof -
  have inv: "all_run s" "tokens s" "names_ok s" "pushed_ok s" "counts_ok s" "ring_cycle s" and q: "dc_exit_flag s = 0"
    using assms(3,4) by (simp_all add: collector_inv_def quiet_def)
  show ?thesis
    using client_tokens [OF assms(1,3) inv(1,2)] client_names [OF assms(1,2) inv(2,3)] client_pushed [OF assms(1,2) inv(3,4) q]
      client_counts [OF assms(1,2) q inv(1,2,4,5)] client_rings [OF assms(1) q inv(1,3,6)]
    by (simp add: collector_inv_def)
qed

lemma collector_inv_step:
  assumes "collector_move s t" "quiet t" "collector_inv s"
  shows "collector_inv t \<and> quiet s"
proof -
  obtain a where a: "possible a s" "collector_step a s = Done t"
    using assms(1) by (auto simp: collector_move_def)
  have q: "quiet s"
    using quiet_back [OF a(2) assms(2)] .
  have ar: "all_run s"
    using assms(3) by (simp add: collector_inv_def)
  have "collector_inv t"
  proof (cases a)
    case Collector
    then show ?thesis
      using collector_keeps [OF _ q assms(3)] a by (simp add: collector_step_def)
  next
    case (Source i rd v)
    then show ?thesis
      using source_keeps [of rd v i s t] q assms(2,3) a by (simp add: collector_step_def split: if_splits)
  next
    case (Client name)
    then show ?thesis
      using client_keeps [of name s t] q assms(3) a by (simp add: collector_step_def possible_def)
  next
    case Main
    then show ?thesis
      using main_breaks_quiet [of s t] a assms(2) ar by (simp add: collector_step_def)
  qed
  with q show ?thesis
    by blast
qed

subsection \<open>The start\<close>

lemma source_init_new:
  assumes "source_init a (Some None) sdesc = Some (fd, Some src, closed)"
  shows "ds_exit_flag src = 0 \<and> ds_empty_ready src = 0 \<and> ds_data_ready src = 0 \<and> ds_frames_in_object src = 0 \<and> ds_limit src = 50
    \<and> (\<exists>m. sa_mem a = Some m \<and> ds_data src = ds_data m)"
  using assms
  by (auto simp: source_init_def source_sems_def OBJECT_DETECTION_FRAME_LIMIT_def Let_def split: if_splits option.splits prod.splits)

definition new_source_ok :: "data_source \<Rightarrow> bool" where
  "new_source_ok src \<longleftrightarrow> ds_exit_flag src = 0 \<and> ds_empty_ready src = 0 \<and> ds_data_ready src = 0 \<and> ds_frames_in_object src = 0
     \<and> ds_limit src = 50 \<and> length (ds_data src) = 256"

lemma collector_add_source_ok:
  assumes "collector_add_source desc a i d = Some d'" "\<And>m. sa_mem a = Some m \<Longrightarrow> length (ds_data m) = 256"
  shows "\<exists>src. d' = d\<lparr>dc_sources := (dc_sources d)(i := src), dc_exit_flag := 0\<rparr> \<and> new_source_ok src"
proof -
  obtain sdesc fd src closed name data where "source_init a (Some None) sdesc = Some (fd, Some src, closed)" "strcpy_to 0 name (ds_data src) = Some data"
    "d' = d\<lparr>dc_sources := (dc_sources d)(i := src\<lparr>ds_fd := fd, ds_sid := int i, ds_data := data\<rparr>), dc_exit_flag := 0\<rparr>"
    using assms(1) by (auto simp: collector_add_source_def split: if_splits)
  moreover from source_init_new [OF this(1)] have "new_source_ok (src\<lparr>ds_fd := fd, ds_sid := int i, ds_data := data\<rparr>)"
    using assms(2) calculation(2) by (auto simp: new_source_ok_def strcpy_to_def dest: buf_put_length)
  ultimately show ?thesis
    by blast
qed

lemma collector_add_sources_ok:
  assumes "collector_add_sources desc a is d = Some d'" "\<forall>i m. sa_mem (a i) = Some m \<longrightarrow> length (ds_data m) = 256" "dc_exit_flag d = 0"
  shows "\<exists>srcs. d' = d\<lparr>dc_sources := srcs\<rparr> \<and> (\<forall>i \<in> set is. new_source_ok (srcs i)) \<and> (\<forall>i. i \<notin> set is \<longrightarrow> srcs i = dc_sources d i)"
  using assms
proof (induction "is" arbitrary: d)
  case Nil
  then show ?case by (intro exI [of _ "dc_sources d"]) simp
next
  case (Cons i "is")
  obtain e where e: "collector_add_source desc (a i) i d = Some e" "collector_add_sources desc a is e = Some d'"
    using Cons.prems(1) by auto
  obtain src where src: "e = d\<lparr>dc_sources := (dc_sources d)(i := src), dc_exit_flag := 0\<rparr>" "new_source_ok src"
    using collector_add_source_ok [OF e(1)] Cons.prems(2) by blast
  obtain srcs where "d' = e\<lparr>dc_sources := srcs\<rparr>" "\<forall>i \<in> set is. new_source_ok (srcs i)" "\<forall>i. i \<notin> set is \<longrightarrow> srcs i = dc_sources e i"
    using Cons.IH [OF e(2) Cons.prems(2)] src(1) by auto
  then show ?case
    using src Cons.prems(3) by (intro exI [of _ srcs]) fastforce
qed

lemma collector_start_ok:
  assumes "collector_start s"
  shows "collector_inv s \<and> dc_exit_flag s = 0 \<and> dc_empty_ready s = 0 \<and> (\<forall>i < dc_sources_cnt s. ds_empty_ready (dc_sources s i) = 0)"
proof -
  obtain blank block a desc d d' detection name where init: "collector_init blank True block True True a (Some desc) = Some (Some d)"
    "length block = 131072" "\<forall>i m. sa_mem (a i) = Some m \<longrightarrow> length (ds_data m) = 256" "NUL \<notin> set name" "length name < 248" "name \<noteq> []"
    "client_setup detection name d = Some d'" "s = start_threads name d'"
    using assms unfolding collector_start_def by blast
  define d0 where "d0 = (zero_collector blank)\<lparr>dc_chunk_cnt := 512, dc_chunk_size := 256, dc_memory := block, dc_dataoffset := 0,
    dc_ring := ring_buffer_create True True 512 False, dc_sources_cnt := nat (cd_sources_cnt desc)\<rparr>"
  obtain d1 where d1: "collector_add_sources desc a [0..<dc_sources_cnt d0] d0 = Some d1"
    and same: "dc_sources d = dc_sources d1 \<and> dc_data d = dc_data d1 \<and> dc_sources_cnt d = dc_sources_cnt d1 \<and> dc_memory d = dc_memory d1
      \<and> dc_dataoffset d = dc_dataoffset d1 \<and> dc_chunk_cnt d = dc_chunk_cnt d1 \<and> dc_chunk_size d = dc_chunk_size d1 \<and> dc_ring d = dc_ring d1
      \<and> dc_data_ready d = 1 \<and> dc_empty_ready d = 0 \<and> dc_exit_flag d = dc_exit_flag d1"
  proof -
    have "Option.bind (collector_add_sources desc a [0..<dc_sources_cnt d0] d0) (\<lambda>d. Option.bind (if cd_use_boost_shmem desc \<noteq> 0 then do {
             path \<leftarrow> cstr (cd_boost_path desc);
             path \<leftarrow> strcpy_to 0 path (dc_boost_path d);
             Some (d\<lparr>dc_use_boost_shmem := 1, dc_boost_path := path, dc_boost_size := cd_boost_size desc\<rparr>) }
           else Some d) (\<lambda>d. Some (Some (d\<lparr>dc_data_ready := 1, dc_empty_ready := 0\<rparr>)))) = Some (Some d)"
      using init(1) unfolding collector_init_def Let_def d0_def by simp
    then obtain d1 d2 where "collector_add_sources desc a [0..<dc_sources_cnt d0] d0 = Some d1"
      "(if cd_use_boost_shmem desc \<noteq> 0 then do {
             path \<leftarrow> cstr (cd_boost_path desc);
             path \<leftarrow> strcpy_to 0 path (dc_boost_path d1);
             Some (d1\<lparr>dc_use_boost_shmem := 1, dc_boost_path := path, dc_boost_size := cd_boost_size desc\<rparr>) }
           else Some d1) = Some d2" "d = d2\<lparr>dc_data_ready := 1, dc_empty_ready := 0\<rparr>"
      by (simp only: bind_Some_iff option.inject) blast
    then show ?thesis
      by (intro that [of d1]) (auto split: if_splits)
  qed
  have d0: "dc_exit_flag d0 = 0" "length (dc_data d0) = 256" "dc_memory d0 = block" "dc_dataoffset d0 = 0" "dc_chunk_cnt d0 = 512"
    "dc_chunk_size d0 = 256" "dc_ring d0 = Some \<lparr>rg_max = 512, rg_used = 512, rg_start = 0, rg_sem = 512, rg_buf = replicate 512 0\<rparr>"
    by (simp_all add: d0_def zero_collector_def MAX_SHMEM_NAME_LEN_def ring_buffer_create_def)
  obtain srcs where srcs: "d1 = d0\<lparr>dc_sources := srcs\<rparr>" "\<forall>i < dc_sources_cnt d0. new_source_ok (srcs i)"
    using collector_add_sources_ok [OF d1 init(3) d0(1)] by auto
  obtain data where data: "strcpy_to 0 name (dc_data d0) = Some data"
    "d' = d\<lparr>dc_data := data, dc_sources := (\<lambda>i. if i < dc_sources_cnt d
       then (dc_sources d i)\<lparr>ds_detection := detection, ds_add_frame := True, ds_save_frame := False\<rparr> else dc_sources d i)\<rparr>"
    using init(7) srcs same by (auto simp: client_setup_def)
  have name: "length data = 256" "cstr data = Some name"
    using strcpy_text [OF data(1) init(4)] d0(2) by simp_all
  define n where "n = dc_sources_cnt d0"
  have s: "the_name s = name" "dc_data s = data" "dc_sources_cnt s = n" "dc_memory s = block" "dc_dataoffset s = 0" "dc_chunk_cnt s = 512"
    "dc_chunk_size s = 256" "dc_ring s = Some \<lparr>rg_max = 512, rg_used = 512, rg_start = 0, rg_sem = 512, rg_buf = replicate 512 0\<rparr>"
    "pc_collector s = C_WaitEmpty" "pc_source s = (\<lambda>_. S_WaitFirst)" "pc_client s = A_Test" "pc_main s = M_Run" "rs_added s = (\<lambda>_. [])"
    "rs_names s = [name]" "rs_pushed s = []" "rs_popped s = []" "dc_data_ready s = 1" "dc_empty_ready s = 0" "dc_exit_flag s = 0"
    using init(8) data(2) srcs(1) same d0 name(2)
    by (simp_all add: start_threads_def data_collector.defs the_name_def n_def)
  have src: "dc_sources s i = (srcs i)\<lparr>ds_detection := detection, ds_add_frame := True, ds_save_frame := False\<rparr> \<and> new_source_ok (srcs i)" if "i < n" for i
    using init(8) data(2) srcs same that by (simp add: start_threads_def data_collector.defs n_def)
  have "all_run s" "tokens s" "names_ok s" "pushed_ok s" "counts_ok s"
    using src name init(5,6)
    by (simp_all add: all_run_def tokens_def names_ok_def pushed_ok_def counts_ok_def source_count_ok_def count_ok_def new_source_ok_def
        one_of_def s)
  moreover have "ring_cycle s"
    using init(2) by (simp add: ring_cycle_def s) (intro exI [of _ 0], simp)
  moreover have "dc_exit_flag s = 0" "dc_empty_ready s = 0" "\<forall>i < dc_sources_cnt s. ds_empty_ready (dc_sources s i) = 0"
    using src by (simp_all add: s new_source_ok_def)
  ultimately show ?thesis
    by (simp add: collector_inv_def)
qed

lemmas collector_start_inv = collector_start_ok [THEN conjunct1]
lemmas collector_start_sems = collector_start_ok [THEN conjunct2]

interpretation chs: safe_machine collector_start collector_move "\<lambda>s. quiet s \<longrightarrow> collector_inv s"
  by unfold_locales (use collector_start_inv collector_inv_step in \<open>auto simp: collector_move_def intro: quiet_back\<close>)

subsection \<open>What one step adds\<close>

lemma move_cases:
  assumes "collector_move s t" "quiet t" "collector_inv s"
  obtains (collector) "collect_data_thread s = Done t"
  | (source) i rd v where "source_data_thread_tcp rd v i s = Done t" "i < dc_sources_cnt s"
      "source_move (pc_source s i) (dc_sources s i) (rs_added s i) (pc_source t i) (dc_sources t i) (rs_added t i)" "same_but_source i s t"
  | (client) name where "client_loop name s = Done t" "pc_client s = A_Name \<Longrightarrow> clock_name name s"
proof -
  obtain a where a: "possible a s" "collector_step a s = Done t"
    using assms(1) by (auto simp: collector_move_def)
  have q: "quiet s"
    using quiet_back [OF a(2) assms(2)] .
  show thesis
  proof (cases a)
    case Collector
    then show thesis
      using a collector by (simp add: collector_step_def)
  next
    case (Source i rd v)
    then have st: "source_data_thread_tcp rd v i s = Done t" "i < dc_sources_cnt s"
      using a by (auto simp: collector_step_def split: if_splits)
    moreover note fr = source_frame [OF st(1)]
    moreover have "ds_exit_flag (dc_sources s i) = 0" "ds_exit_flag (dc_sources t i) = 0" "pc_source s i \<notin> {S_End, S_Done}"
      using assms q st(2) fr by (auto simp: quiet_def same_but_source_def collector_inv_def all_run_def)
    ultimately show thesis
      using source source_moves by blast
  next
    case (Client name)
    then show thesis
      using a client by (simp add: collector_step_def possible_def)
  next
    case Main
    then show thesis
      using a main_breaks_quiet assms(2,3) by (auto simp: collector_step_def collector_inv_def)
  qed
qed

lemma move_pushes:
  assumes "collector_move s t" "quiet t" "collector_inv s"
  shows "dc_sources_cnt t = dc_sources_cnt s \<and> (\<exists>more. rs_pushed t = rs_pushed s @ more)"
  using assms
proof (cases rule: move_cases)
  case collector
  then show ?thesis
    using collector_frame by (auto simp: same_but_collector_def)
next
  case (source j rd v)
  then show ?thesis
    by (simp add: same_but_source_def)
next
  case (client name)
  then show ?thesis
    using client_frame [OF client(1)] client_pushes [OF client(1)] by (cases "pc_client s = A_Push") simp_all
qed

lemma move_adds:
  assumes "collector_move s t" "quiet t" "collector_inv s" "i < dc_sources_cnt s"
  shows "\<exists>new. rs_added t i = rs_added s i @ new \<and> fst ` set new \<inter> set (rs_pushed s) = {}"
  using assms(1-3)
proof (cases rule: move_cases)
  case collector
  then show ?thesis
    using collector_frame by (auto simp: same_but_collector_def)
next
  case (source j rd v)
  obtain new where "rs_added t j = rs_added s j @ new" "fst ` set new \<subseteq> {the_name s}" "new \<noteq> [] \<longrightarrow> pc_client s \<noteq> A_Name"
    using source_adds [OF source(3) _ _ source(2)] assms(3) by (auto simp: collector_inv_def)
  moreover have "pc_client s \<noteq> A_Name \<longrightarrow> the_name s \<notin> set (rs_pushed s)"
    using assms(3) by (simp add: collector_inv_def pushed_ok_def)
  ultimately show ?thesis
    using source(4) by (cases "i = j") (auto simp: same_but_source_def)
next
  case (client name)
  then show ?thesis
    using client_frame [OF client(1)] by simp
qed

lemma move_quiet: "collector_move s t \<Longrightarrow> quiet t \<Longrightarrow> quiet s"
  by (auto simp: collector_move_def intro: quiet_back)

lemma moves_quiet: "collector_move\<^sup>*\<^sup>* s t \<Longrightarrow> quiet t \<Longrightarrow> quiet s"
  by (induction rule: rtranclp_induct) (auto dest: move_quiet)

lemma moves_add:
  assumes "collector_move\<^sup>*\<^sup>* s t" "quiet t" "collector_inv s" "i < dc_sources_cnt s"
  shows "dc_sources_cnt t = dc_sources_cnt s \<and> (\<exists>new. rs_added t i = rs_added s i @ new \<and> fst ` set new \<inter> set (rs_pushed s) = {})
    \<and> (\<exists>more. rs_pushed t = rs_pushed s @ more)"
  using assms
proof (induction rule: rtranclp_induct)
  case base
  then show ?case by auto
next
  case (step t u)
  have q: "quiet t"
    using move_quiet [OF step(2,4)] .
  have "collector_inv t"
    using chs.steps_inv [OF step(1)] step(5) q by simp
  from move_adds [OF step(2,4) this] move_pushes [OF step(2,4) this] step.IH [OF q step(5,6)] step(6) show ?case
    by fastforce
qed

subsection \<open>The first object\<close>

definition before_first :: "run_state \<Rightarrow> bool" where
  "before_first s \<longleftrightarrow> pc_collector s = C_WaitEmpty \<and> dc_empty_ready s = 0 \<and> pc_client s \<in> {A_Test, A_WaitData, A_Push}
     \<and> (\<forall>i < dc_sources_cnt s. pc_source s i = S_WaitFirst \<and> ds_empty_ready (dc_sources s i) = 0 \<and> rs_added s i = [])"

definition first_empty :: "run_state \<Rightarrow> bool" where
  "first_empty s \<longleftrightarrow> (case rs_pushed s of [] \<Rightarrow> before_first s | name # _ \<Rightarrow> \<forall>i < dc_sources_cnt s. frames_named name (rs_added s i) = 0)"

lemma frames_named_append [simp]: "frames_named name (fs @ gs) = frames_named name fs + frames_named name gs"
  by (simp add: frames_named_def)

lemma before_first_step:
  assumes "collector_move s t" "quiet t" "collector_inv s" "before_first s"
  shows "rs_pushed t = rs_pushed s \<and> before_first t \<or> rs_pushed t \<noteq> [] \<and> (\<forall>i < dc_sources_cnt t. rs_added t i = [])"
  using assms(1-3)
proof (cases rule: move_cases)
  case collector
  then show ?thesis
    using assms(4) by (simp add: step_simps before_first_def)
next
  case (source j rd v)
  then show ?thesis
    using assms(4) by (auto simp: before_first_def elim: source_move.cases)
next
  case (client name)
  have "dc_exit_flag s = 0"
    using move_quiet [OF assms(1,2)] by (simp add: quiet_def)
  then show ?thesis
    using client_frame [OF client(1)] client_moves [OF client(1)] client_pushes [OF client(1)] assms(4)
    by (cases "pc_client s = A_Push") (auto simp: before_first_def)
qed

lemma first_empty_step:
  assumes "collector_move s t" "quiet t" "collector_inv s" "first_empty s"
  shows "first_empty t"
proof (cases "rs_pushed s")
  case Nil
  then show ?thesis
    using before_first_step [OF assms(1-3)] assms(4) by (auto simp: first_empty_def split: list.splits)
next
  case (Cons name ps)
  have "frames_named name (rs_added t i) = 0" if i: "i < dc_sources_cnt s" for i
  proof -
    obtain new where new: "rs_added t i = rs_added s i @ new" "fst ` set new \<inter> set (rs_pushed s) = {}"
      using move_adds [OF assms(1-3) i] by blast
    then have "frames_named name new = 0"
      using Cons by (intro frames_named_0) auto
    then show ?thesis
      using new assms(4) Cons i by (simp add: first_empty_def)
  qed
  moreover note move_pushes [OF assms(1-3)]
  ultimately show ?thesis
    using Cons by (auto simp: first_empty_def)
qed

lemma collector_start_first: "collector_start s \<Longrightarrow> first_empty s"
proof -
  assume st: "collector_start s"
  then have "tokens s"
    using collector_start_inv by (simp add: collector_inv_def)
  moreover obtain name d where "s = start_threads name d"
    using st by (auto simp: collector_start_def)
  then have "rs_pushed s = []" "pc_collector s = C_WaitEmpty" "pc_client s = A_Test" "pc_source s = (\<lambda>_. S_WaitFirst)" "rs_added s = (\<lambda>_. [])"
    by (simp_all add: start_threads_def data_collector.defs)
  moreover note collector_start_sems [OF st]
  ultimately show "first_empty s"
    by (simp add: first_empty_def before_first_def)
qed

interpretation chf: safe_machine collector_start collector_move "\<lambda>s. quiet s \<longrightarrow> collector_inv s \<and> first_empty s"
  by unfold_locales (use collector_start_inv collector_start_first collector_inv_step first_empty_step move_quiet in blast)+

subsection \<open>No thread but a reading source faults\<close>

lemma client_runs:
  assumes "collector_inv s" "quiet s" "pc_client s = A_Name \<Longrightarrow> clock_name name s"
  shows "client_loop name s \<noteq> Fault"
proof (cases "pc_client s")
  case A_Name
  have "length (dc_data s) = 256" "length name < 248"
    using assms A_Name by (simp_all add: collector_inv_def names_ok_def clock_name_def)
  then show ?thesis
    using A_Name strcpy_to_0 [of name "dc_data s"] by (simp add: client_loop_def collector_action_def)
next
  case A_Push
  then show ?thesis
    using client_push_run [OF A_Push, of name] assms(1) by (auto simp: collector_inv_def)
next
  case A_Pop
  then show ?thesis
    using client_pop_run [OF A_Pop, of name] assms(1) by (auto simp: collector_inv_def)
qed (simp_all add: client_loop_def collector_action_def split: option.splits)

lemma collector_runs:
  assumes "names_ok s"
  shows "collect_data_thread s \<noteq> Fault"
proof (cases "pc_collector s")
  case (C_Copy k)
  have "\<exists>c. strcpy_to 0 (the_name s) (ds_data (dc_sources s k)) = Some c" if "k < dc_sources_cnt s"
    using that copy_to_block [of "dc_data s" "the_name s" "ds_data (dc_sources s k)"] assms by (auto simp: names_ok_def)
  then show ?thesis
    using assms C_Copy by (auto simp: collect_data_thread_def copy_name_def names_ok_def)
qed (simp_all add: collect_data_thread_def Let_def split: option.splits)

lemma source_runs:
  assumes "collector_inv s" "quiet s" "i < dc_sources_cnt s" "source_data_thread_tcp rd v i s = Fault"
  shows "pc_source s i = S_Read \<and> tcp_turn rd (rs_reader s i) = None"
proof (cases "pc_source s i")
  case S_Add
  have "cstr (ds_data (dc_sources s i)) \<noteq> None"
    using active_source(2) [of s i] S_Add assms(1,3) by (simp add: collector_inv_def names_ok_def)
  then show ?thesis
    using assms(4) S_Add by (auto simp: source_data_thread_tcp_def new_frame_action_def add_frame_def Let_def split: if_splits)
next
  case S_Save
  have "source_count_ok i s"
    using assms(1,3) by (simp add: collector_inv_def counts_ok_def)
  then have "c_int (ds_frames_in_object (dc_sources s i) + 1) = Some (ds_frames_in_object (dc_sources s i) + 1)"
    by (intro c_int_in) (simp_all add: source_count_ok_def)
  then show ?thesis
    using assms(4) S_Save by (simp add: source_data_thread_tcp_def new_frame_action_def Let_def)
qed (use assms(4) in \<open>auto simp: source_data_thread_tcp_def new_frame_action_def Let_def split: if_splits option.splits tcp_outcome.splits\<close>)

lemma inv_of_reach: "reach collector_start collector_move s \<Longrightarrow> quiet s \<Longrightarrow> collector_inv s"
  using chs.reach_inv by blast

subsection \<open>A run for the witnesses\<close>

definition plain_source :: data_source where
  "plain_source = \<lparr>ds_sid = 0, ds_fd = - 1, ds_sdesc = None, ds_packet = None, ds_camera = None, ds_exit_flag = 0, ds_empty_ready = 0,
     ds_data_ready = 0, ds_data = replicate 256 NUL, ds_detection = False, ds_add_frame = False, ds_save_frame = False,
     ds_need_to_free = 0, ds_frames_in_object = 0, ds_limit = 0\<rparr>"

definition plain_answers :: source_answers where
  "plain_answers = \<lparr>sa_mem = Some plain_source, sa_packet = True, sa_block = (\<lambda>n. replicate (unat n) 0), sa_gai = 0,
     sa_socks = [(3, True)], sa_device = False, sa_camera = None, sa_sem_data = True, sa_sem_empty = True\<rparr>"

lemma demo_start: "\<exists>s. collector_start s \<and> quiet s \<and> dc_sources_cnt s = 2"
proof -
  obtain sdesc where sdesc: "tcp_source ''a'' ''1'' sdesc"
    using create_tcp_source [OF blank_source_block, of "''a''" "''1''"] by (auto simp: NUL_def)
  define desc where "desc = zero_collector_desc\<lparr>cd_sources_cnt := 2, cd_sdescs := Some [Some sdesc, Some sdesc]\<rparr>"
  obtain src where src: "source_init plain_answers (Some None) sdesc = Some (3, Some src, [])" "ds_camera src = None" "length (ds_data src) = 256"
    "ds_exit_flag src = 0"
    using source_init_tcp [OF sdesc, of plain_answers plain_source 3 "[]"] by (auto simp: plain_answers_def plain_source_def new_packet_def)
  define d0 where "d0 = (zero_collector plain_source)\<lparr>dc_chunk_cnt := 512, dc_chunk_size := 256, dc_memory := replicate 131072 NUL, dc_dataoffset := 0,
    dc_ring := ring_buffer_create True True 512 False, dc_sources_cnt := 2\<rparr>"
  have blank: "cstr (replicate 256 NUL) = Some []"
    by (simp add: cstr_def)
  have zero: "dc_data (zero_collector b) = replicate 256 NUL" "dc_exit_flag (zero_collector b) = 0" for b
    by (simp_all add: zero_collector_def MAX_SHMEM_NAME_LEN_def)
  obtain data where data: "strcpy_to 0 [] (ds_data src) = Some data"
    using strcpy_to_0 [of "[]" "ds_data src"] src(3) by auto
  define d1 where "d1 = d0\<lparr>dc_sources := (dc_sources d0)(0 := src\<lparr>ds_fd := 3, ds_sid := 0, ds_data := data\<rparr>,
    1 := src\<lparr>ds_fd := 3, ds_sid := 1, ds_data := data\<rparr>), dc_exit_flag := 0\<rparr>"
  have add: "collector_add_sources desc (\<lambda>_. plain_answers) [0..<2] d0 = Some d1"
    using src(1) data blank by (simp add: collector_add_source_def d1_def d0_def desc_def MAX_SOURCES_NUMBER_def arr_get_def zero upt_conv_Cons)
  have "out_source_description sdesc \<noteq> None"
    using source_text [OF sdesc] .
  then have "out_collector_description desc \<noteq> None"
    by (auto simp: out_collector_description_def source_texts_def desc_def zero_collector_desc_def arr_get_def upt_conv_Cons split: option.splits)
  then have "collector_init plain_source True (replicate 131072 NUL) True True (\<lambda>_. plain_answers) (Some desc)
      = Some (Some (d1\<lparr>dc_data_ready := 1, dc_empty_ready := 0\<rparr>))"
    using add by (auto simp: collector_init_def Let_def d0_def desc_def zero_collector_desc_def)
  moreover obtain name where name: "strcpy_to 0 ''a'' (dc_data d1) = Some name"
    using strcpy_to_0 [of "''a''" "dc_data d1"] by (auto simp: d1_def d0_def zero)
  define d2 where "d2 = the (client_setup False ''a'' (d1\<lparr>dc_data_ready := 1, dc_empty_ready := 0\<rparr>))"
  have ready: "client_setup False ''a'' (d1\<lparr>dc_data_ready := 1, dc_empty_ready := 0\<rparr>) = Some d2"
    using name by (simp add: client_setup_def d2_def)
  have "dc_exit_flag d2 = 0" "\<forall>i < 2. ds_exit_flag (dc_sources d2 i) = 0" "dc_sources_cnt d2 = 2"
    using name src(4) by (simp_all add: client_setup_def d2_def d1_def d0_def less_2_cases_iff)
  then have "quiet (start_threads ''a'' d2)" "dc_sources_cnt (start_threads ''a'' d2) = 2"
    by (simp_all add: start_threads_def data_collector.defs quiet_def)
  moreover have "collector_start (start_threads ''a'' d2)"
    unfolding collector_start_def
    using calculation(1) ready src(2)
    by (intro exI conjI) (auto simp: less_2_cases_iff d1_def d0_def plain_answers_def plain_source_def NUL_def)
  ultimately show ?thesis
    by blast
qed

lemma client_move: "client_loop name s = Done t \<Longrightarrow> pc_client s \<noteq> A_Name \<Longrightarrow> collector_move s t"
  unfolding collector_move_def by (rule exI [of _ "Client name"]) (simp add: possible_def collector_step_def)

lemma demo_run: "\<exists>s t. reach collector_start collector_move s \<and> collector_move s t \<and> quiet s \<and> quiet t \<and> dc_sources_cnt s = 2
    \<and> rs_pushed s = [] \<and> (\<exists>name. rs_pushed t = [name]) \<and> pc_client t = A_Name"
proof -
  obtain s where s: "collector_start s" "quiet s" "dc_sources_cnt s = 2"
    using demo_start by blast
  have first: "rs_pushed s = []" "pc_client s = A_Test" "pc_collector s = C_WaitEmpty"
    using s(1) by (auto simp: collector_start_def start_threads_def data_collector.defs)
  then have "dc_data_ready s = 1"
    using collector_start_inv [OF s(1)] collector_start_sems [OF s(1)] by (auto simp: collector_inv_def tokens_def one_of_def)
  moreover have "dc_exit_flag s = 0"
    using s(2) by (simp add: quiet_def)
  moreover define s1 s2 where "s1 = s\<lparr>pc_client := A_WaitData\<rparr>" and "s2 = s1\<lparr>dc_data_ready := 0, pc_client := A_Push\<rparr>"
  ultimately have "client_loop [] s = Done s1" "client_loop [] s1 = Done s2"
    using first by (simp_all add: client_loop_def collector_action_def)
  then have r: "reach collector_start collector_move s2"
    using reach_step [OF reach_step [OF reach_init [of collector_start, OF s(1)]], of collector_move s1 s2]
      client_move [of "[]" s s1] client_move [of "[]" s1 s2] first by (simp add: s1_def)
  have q: "quiet s2" "pc_client s2 = A_Push" "rs_pushed s2 = []" "dc_sources_cnt s2 = 2"
    using s first by (simp_all add: quiet_def s1_def s2_def)
  then obtain t where t: "client_loop [] s2 = Done t"
    using client_push_run [OF q(2), of "[]"] inv_of_reach [OF r] by (auto simp: collector_inv_def)
  then have "quiet t"
    using client_frame [OF t] q(1) by (simp add: quiet_def)
  then show ?thesis
    using r q t client_move [OF t] client_pushes(2) [OF t] by (intro exI [of _ s2] exI [of _ t]) simp
qed

subsection \<open>A lost source\<close>

definition waits_for_lost :: "nat \<Rightarrow> run_state \<Rightarrow> bool" where
  "waits_for_lost i s \<longleftrightarrow> i < dc_sources_cnt s \<and> pc_source s i = S_Done \<and> ds_data_ready (dc_sources s i) = 0
     \<and> (\<exists>k \<le> i. pc_collector s = C_WaitData k) \<and> pc_main s \<in> {M_Run, M_Join}"

lemma lost_collector: "waits_for_lost i s \<Longrightarrow> collect_data_thread s = Done t \<Longrightarrow> waits_for_lost i t"
  by (auto simp: waits_for_lost_def step_simps le_Suc_eq split: option.splits) (metis le_neq_implies_less Suc_leI nat.distinct(1))+

lemma lost_source:
  assumes "waits_for_lost i s" "source_data_thread_tcp rd v j s = Done t"
  shows "waits_for_lost i t"
proof -
  have "j \<noteq> i"
    using assms by (auto simp: waits_for_lost_def source_data_thread_tcp_def Let_def)
  then show ?thesis
    using source_frame [OF assms(2)] assms(1) by (simp add: waits_for_lost_def same_but_source_def)
qed

lemma lost_main: "waits_for_lost i s \<Longrightarrow> collector_destroy s = Done t \<Longrightarrow> waits_for_lost i t"
  by (auto simp: waits_for_lost_def collector_destroy_def split: if_splits)

lemma lost_move:
  assumes "waits_for_lost i s" "collector_move s t"
  shows "waits_for_lost i t"
proof -
  obtain a where a: "collector_step a s = Done t"
    using assms(2) by (auto simp: collector_move_def)
  show ?thesis
  proof (cases a)
    case Collector
    then show ?thesis
      using a assms(1) lost_collector by (simp add: collector_step_def)
  next
    case (Source j rd v)
    then show ?thesis
      using a assms(1) lost_source [of i s rd v j t] by (simp add: collector_step_def split: if_splits)
  next
    case (Client name)
    then show ?thesis
      using a assms(1) client_frame [of name s t] by (simp add: collector_step_def waits_for_lost_def)
  next
    case Main
    then show ?thesis
      using a assms(1) lost_main by (simp add: collector_step_def)
  qed
qed

text \<open>Lemmas on the flag of the collector: with two sources or more only \<open>collector_destroy\<close> sets it.\<close>

lemma check_sources_many:
  assumes "2 \<le> n"
  shows "check_sources n src e = e"
proof -
  have "fold (\<lambda>i e. let cnt = (if ds_exit_flag (src i) \<noteq> 0 then 1 else 0) in if cnt = n then 1 else e) is e = e" for "is"
    using assms by (induction "is") auto
  then show ?thesis
    by (simp add: check_sources_def)
qed

definition unnoticed :: "run_state \<Rightarrow> bool" where
  "unnoticed s \<longleftrightarrow> (2 \<le> dc_sources_cnt s \<and> pc_main s = M_Run \<longrightarrow> dc_exit_flag s = 0)"

lemma unnoticed_step: "unnoticed s \<Longrightarrow> collector_move s t \<Longrightarrow> unnoticed t"
proof -
  assume u: "unnoticed s" "collector_move s t"
  then obtain a where a: "collector_step a s = Done t"
    by (auto simp: collector_move_def)
  show ?thesis
  proof (cases a)
    case Collector
    then show ?thesis
      using a u(1) by (auto simp: collector_step_def step_simps unnoticed_def check_sources_many Let_def
          split: collector_pc.splits if_splits option.splits)
  next
    case (Source i rd v)
    then show ?thesis
      using a u(1) source_frame [of rd v i s t] by (auto simp: collector_step_def unnoticed_def same_but_source_def split: if_splits)
  next
    case (Client name)
    then show ?thesis
      using a u(1) client_frame [of name s t] by (simp add: collector_step_def unnoticed_def)
  next
    case Main
    then show ?thesis
      using a u(1) by (auto simp: collector_step_def collector_destroy_def unnoticed_def upd_source_def
          split: main_pc.splits if_splits run.splits)
  qed
qed

interpretation chu: safe_machine collector_start collector_move unnoticed
  by unfold_locales (use collector_start_sems unnoticed_step in \<open>auto simp: unnoticed_def\<close>)

subsection \<open>Properties\<close>

text \<open>
  Claim C10. The name is passed without a race: while no exit flag is set, the collector copies the name to a source only when that
  source is not between two objects, and the client makes a new name only when no source adds frames and the collector does
  not read the old one.
\<close>

theorem names_without_race:
  assumes "reach collector_start collector_move s" "quiet s" "i < dc_sources_cnt s"
    and "pc_collector s = C_Copy k \<and> k \<le> i \<or> pc_client s = A_Name"
  shows "\<not> active (pc_source s i) \<and> \<not> (pc_client s = A_Name \<and> pc_collector s = C_Copy k)"
proof -
  have t: "tokens s"
    using inv_of_reach [OF assms(1,2)] by (simp add: collector_inv_def)
  then have "one_of (dc_empty_ready s) (dc_data_ready s) (client_has (pc_client s)) (collector_has (pc_collector s))"
    by (simp add: tokens_def)
  then show ?thesis
    using active_source [OF t assms(3)] assms(4) by auto
qed

theorem names_without_race_witness:
  "\<exists>s. reach collector_start collector_move s \<and> pc_client s = A_Name \<and> dc_sources_cnt s = 2 \<and> \<not> active (pc_source s 1)
     \<and> pc_collector s \<noteq> C_Copy 0"
proof -
  obtain s t where st: "reach collector_start collector_move s" "collector_move s t" "quiet s" "quiet t" "dc_sources_cnt s = 2" "pc_client t = A_Name"
    using demo_run by blast
  have t: "reach collector_start collector_move t" "dc_sources_cnt t = 2"
    using reach_step [OF st(1,2)] move_pushes [OF st(2,4) inv_of_reach [OF st(1,3)]] st(5) by simp_all
  then show ?thesis
    using names_without_race [OF t(1) st(4), of 1 0] st(6) by auto
qed

text \<open>
  Claim C9. An object that the client has taken is complete: from then on every frame a source adds has a name that is not one of
  those taken before, in whatever order the threads run.
\<close>

theorem taken_objects_complete:
  assumes "reach collector_start collector_move s" "collector_move\<^sup>*\<^sup>* s t" "quiet t" "i < dc_sources_cnt s"
  shows "\<exists>new. rs_added t i = rs_added s i @ new \<and> fst ` set new \<inter> set (rs_pushed s) = {}"
  using moves_add [OF assms(2,3) inv_of_reach [OF assms(1) moves_quiet [OF assms(2,3)]] assms(4)] by blast

theorem taken_objects_complete_witness:
  "\<exists>s t new. reach collector_start collector_move s \<and> collector_move s t \<and> rs_pushed s \<noteq> rs_pushed t \<and> rs_added t 0 = rs_added s 0 @ new
     \<and> fst ` set new \<inter> set (rs_pushed s) = {}"
proof -
  obtain s t where st: "reach collector_start collector_move s" "collector_move s t" "quiet t" "dc_sources_cnt s = 2"
    "rs_pushed s = []" "\<exists>name. rs_pushed t = [name]"
    using demo_run by blast
  then show ?thesis
    using taken_objects_complete [OF st(1) r_into_rtranclp [of collector_move, OF st(2)] st(3), of 0] by force
qed

text \<open>An object has at most fifty frames of a source.\<close>

theorem object_frames_bounded:
  assumes "reach collector_start collector_move s" "quiet s" "i < dc_sources_cnt s"
  shows "frames_named name (rs_added s i) \<le> nat OBJECT_DETECTION_FRAME_LIMIT"
  using inv_of_reach [OF assms(1,2)] assms(3)
  by (simp add: collector_inv_def counts_ok_def source_count_ok_def OBJECT_DETECTION_FRAME_LIMIT_def)

theorem object_frames_bounded_witness:
  "\<exists>s. reach collector_start collector_move s \<and> dc_sources_cnt s = 2 \<and> frames_named ''a'' (rs_added s 0) \<le> 50"
proof -
  obtain s where "reach collector_start collector_move s" "quiet s" "dc_sources_cnt s = 2"
    using demo_run by blast
  then show ?thesis
    using object_frames_bounded [of s 0 "''a''"] by (auto simp: OBJECT_DETECTION_FRAME_LIMIT_def)
qed



text \<open>The first object the client takes has no frame of any source: \<open>data_ready\<close> starts at one.\<close>

theorem first_object_empty:
  assumes "reach collector_start collector_move s" "quiet s" "rs_pushed s = name # names" "i < dc_sources_cnt s"
  shows "frames_named name (rs_added s i) = 0"
  using chf.reach_inv [OF assms(1)] assms(2-4) by (simp add: first_empty_def)

theorem first_object_empty_witness:
  "\<exists>s name. reach collector_start collector_move s \<and> rs_pushed s = [name] \<and> dc_sources_cnt s = 2 \<and> frames_named name (rs_added s 0) = 0"
proof -
  obtain s t name where st: "reach collector_start collector_move s" "collector_move s t" "quiet s" "quiet t" "rs_pushed t = [name]"
    "dc_sources_cnt s = 2"
    using demo_run by blast
  have "reach collector_start collector_move t" "dc_sources_cnt t = 2"
    using reach_step [OF st(1,2)] move_pushes [OF st(2,4) inv_of_reach [OF st(1,3)]] st(6) by simp_all
  then show ?thesis
    using first_object_empty [OF _ st(4,5), of 0] st(5) by auto
qed





text \<open>
  A source that has ended blocks the collector for ever: once the collector waits for data of a source whose thread is
  done and whose semaphore is zero, the thread of the collector never ends and \<open>collector_destroy\<close> never gets past its join.
\<close>

theorem lost_source_blocks:
  assumes "i < dc_sources_cnt s" "pc_source s i = S_Done" "ds_data_ready (dc_sources s i) = 0" "pc_collector s = C_WaitData k" "k \<le> i"
    and "pc_main s = M_Run" "collector_move\<^sup>*\<^sup>* s t"
  shows "(\<exists>k \<le> i. pc_collector t = C_WaitData k) \<and> pc_main t \<in> {M_Run, M_Join}"
proof -
  have "waits_for_lost i s"
    using assms by (auto simp: waits_for_lost_def)
  with assms(7) have "waits_for_lost i t"
    by (induction rule: rtranclp_induct) (auto intro: lost_move)
  then show ?thesis
    by (simp add: waits_for_lost_def)
qed

definition lost_demo :: "run_state \<Rightarrow> run_state" where
  "lost_demo s = s\<lparr>pc_collector := C_WaitData 0, pc_source := \<lambda>_. S_Done, dc_sources := (\<lambda>_. plain_source), dc_sources_cnt := 2, pc_main := M_Run\<rparr>"

theorem lost_source_blocks_witness:
  "\<exists>s. collector_move (lost_demo s) (lost_demo s\<lparr>pc_main := M_Join, dc_exit_flag := 1\<rparr>)
     \<and> (\<forall>t. collector_move\<^sup>*\<^sup>* (lost_demo s\<lparr>dc_exit_flag := 0\<rparr>) t \<longrightarrow> pc_collector t = C_WaitData 0)"
proof -
  have "pc_collector t = C_WaitData 0" if "collector_move\<^sup>*\<^sup>* (lost_demo s\<lparr>dc_exit_flag := 0\<rparr>) t" for s t
    using lost_source_blocks [OF _ _ _ _ _ _ that, of 0 0] by (simp add: lost_demo_def plain_source_def)
  moreover have "collector_move (lost_demo s) (lost_demo s\<lparr>pc_main := M_Join, dc_exit_flag := 1\<rparr>)" for s
    unfolding collector_move_def by (rule exI [of _ Main]) (simp add: possible_def collector_step_def collector_destroy_def lost_demo_def)
  ultimately show ?thesis
    by blast
qed

text \<open>
  With two sources or more the collector never finds out that its sources have ended: its exit flag is zero until
  \<open>collector_destroy\<close> sets it, whatever the flags of the sources are.
\<close>

theorem lost_sources_unnoticed:
  assumes "reach collector_start collector_move s" "2 \<le> dc_sources_cnt s" "pc_main s = M_Run"
  shows "dc_exit_flag s = 0"
  using chu.reach_inv [OF assms(1)] assms(2,3) by (simp add: unnoticed_def)

theorem lost_sources_unnoticed_witness:
  "\<exists>s. reach collector_start collector_move s \<and> dc_sources_cnt s = 2 \<and> dc_exit_flag s = 0"
proof -
  obtain s where s: "reach collector_start collector_move s" "quiet s" "dc_sources_cnt s = 2"
    using demo_run by blast
  then have "pc_main s = M_Run"
    using inv_of_reach [OF s(1,2)] by (simp add: collector_inv_def all_run_def)
  then show ?thesis
    using lost_sources_unnoticed [OF s(1)] s by auto
qed

end
