(* ===== verification/Object_Names.thy ===== *)
theory Object_Names imports C_Buffer begin

section \<open>Names made from the clock (misc/include/misc/name_generator.h)\<close>

text \<open>
  Objects, framesets and frames are named after the time. \<open>snprintf(a, n, ...)\<close> writes at most \<open>n - 1\<close> characters
  and a terminator into \<open>a\<close>, which may be shorter. The broken-down time is what \<open>localtime_r\<close> gives.
\<close>

definition DT_POSTFIX_SIZE :: nat where "DT_POSTFIX_SIZE = 34"
definition MAX_GENERATED_NAME_LEN :: nat where "MAX_GENERATED_NAME_LEN = 248"

record clock =
  tm_year :: int
  tm_mon :: int
  tm_mday :: int
  tm_hour :: int
  tm_min :: int
  tm_sec :: int
  tv_usec :: int

text \<open>The conversion \<open>%0nd\<close>: zeros come between the sign and the digits.\<close>

definition show_pad :: "nat \<Rightarrow> int \<Rightarrow> string" where
  "show_pad n i = (let t = show_base 10 (nat \<bar>i\<bar>); sign = (if i < 0 then ''-'' else [])
     in sign @ replicate (n - length t - length sign) CHR ''0'' @ t)"

definition snprintf :: "nat \<Rightarrow> string \<Rightarrow> string \<Rightarrow> string option" where
  "snprintf n text a = (if n = 0 then Some a else strcpy_to 0 (take (n - 1) text) a)"

definition dt_text :: "clock \<Rightarrow> string" where
  "dt_text c = show_pad 4 (1900 + tm_year c) @ ''-'' @ show_pad 2 (tm_mon c + 1) @ ''-'' @ show_pad 2 (tm_mday c) @ ''_''
     @ show_pad 2 (tm_hour c) @ ''-'' @ show_pad 2 (tm_min c) @ ''-'' @ show_pad 2 (tm_sec c) @ ''.'' @ show_pad 6 (tv_usec c)"

definition generate_dt_postfix :: "clock \<Rightarrow> string \<Rightarrow> string option" where
  "generate_dt_postfix c postfix = snprintf DT_POSTFIX_SIZE (dt_text c) postfix"

definition generate_new_object_name :: "clock \<Rightarrow> string \<Rightarrow> string option" where
  "generate_new_object_name c name = do {
     postfix \<leftarrow> generate_dt_postfix c (replicate DT_POSTFIX_SIZE NUL);
     postfix \<leftarrow> cstr postfix;
     snprintf MAX_GENERATED_NAME_LEN (''object_'' @ postfix) name }"

definition generate_name :: "string \<Rightarrow> string \<Rightarrow> string \<Rightarrow> string option" where
  "generate_name base postfix name = snprintf MAX_GENERATED_NAME_LEN (base @ ''_'' @ postfix) name"

definition generate_name_with_id :: "string \<Rightarrow> int \<Rightarrow> string \<Rightarrow> string \<Rightarrow> string option" where
  "generate_name_with_id base no postfix name =
     snprintf MAX_GENERATED_NAME_LEN (base @ ''_'' @ show_int no @ ''_'' @ postfix) name"

definition generate_name_with_src_and_id :: "string \<Rightarrow> int \<Rightarrow> int \<Rightarrow> string \<Rightarrow> string \<Rightarrow> string option" where
  "generate_name_with_src_and_id base src_id no postfix name =
     snprintf MAX_GENERATED_NAME_LEN (base @ ''_'' @ show_int src_id @ ''_'' @ show_int no @ ''_'' @ postfix) name"

text \<open>Without a \<open>_\<close> in the name the NULL of \<open>strchr\<close> is incremented and read.\<close>

definition get_object_postfix :: "string \<Rightarrow> string \<Rightarrow> string option" where
  "get_object_postfix name postfix = (case strchr name CHR ''_'' of None \<Rightarrow> None | Some t \<Rightarrow> strcpy_to 0 (tl t) postfix)"

subsection \<open>Padded numbers\<close>

lemma show_pad_length: "0 \<le> i \<Longrightarrow> i < 10 ^ n \<Longrightarrow> 0 < n \<Longrightarrow> length (show_pad n i) = n"
proof -
  assume a: "0 \<le> i" "i < 10 ^ n" "0 < n"
  then obtain k where "n = Suc k"
    by (cases n) auto
  then have "length (show_base 10 (nat i)) \<le> n"
    using a show_base_length [of 10 "nat i" k] by (simp add: nat_less_iff)
  then show ?thesis
    using a(1) by (simp add: show_pad_def Let_def)
qed

lemma scan_zeros: "scan_digits 10 0 (replicate k CHR ''0'' @ t) = scan_digits 10 0 t"
  by (induction k) (simp_all add: digit_val_def)

lemma show_pad_scan: "0 \<le> i \<Longrightarrow> scan_digits 10 0 (show_pad n i) = (nat i, [])"
  by (simp add: show_pad_def Let_def scan_zeros scan_show_base)

lemma show_pad_inj: "0 \<le> i \<Longrightarrow> 0 \<le> j \<Longrightarrow> show_pad n i = show_pad n j \<Longrightarrow> i = j"
  using show_pad_scan [of i n] show_pad_scan [of j n] by simp

lemma show_pad_no_NUL: "NUL \<notin> set (show_pad n i)"
  using show_base_no_NUL [of 10 "nat \<bar>i\<bar>"] by (auto simp: show_pad_def Let_def NUL_def)

text \<open>A time of the calendar with a year of four digits.\<close>

definition calendar_time :: "clock \<Rightarrow> bool" where
  "calendar_time c \<longleftrightarrow> 0 \<le> tm_year c \<and> tm_year c < 8100 \<and> 0 \<le> tm_mon c \<and> tm_mon c < 12 \<and> 1 \<le> tm_mday c \<and> tm_mday c \<le> 31
     \<and> 0 \<le> tm_hour c \<and> tm_hour c < 24 \<and> 0 \<le> tm_min c \<and> tm_min c < 60 \<and> 0 \<le> tm_sec c \<and> tm_sec c \<le> 60
     \<and> 0 \<le> tv_usec c \<and> tv_usec c < 1000000"

lemma dt_text_length: "calendar_time c \<Longrightarrow> length (dt_text c) = 26"
  by (simp add: dt_text_def calendar_time_def show_pad_length)

lemma dt_text_no_NUL: "NUL \<notin> set (dt_text c)"
  using show_pad_no_NUL by (simp add: dt_text_def NUL_def)

lemma dt_text_inj:
  assumes "calendar_time c" "calendar_time d" "dt_text c = dt_text d"
  shows "c = d"
proof -
  have "length (show_pad 4 (1900 + tm_year x)) = 4 \<and> length (show_pad 2 (tm_mon x + 1)) = 2 \<and> length (show_pad 2 (tm_mday x)) = 2
    \<and> length (show_pad 2 (tm_hour x)) = 2 \<and> length (show_pad 2 (tm_min x)) = 2 \<and> length (show_pad 2 (tm_sec x)) = 2" if "calendar_time x" for x
    using that by (simp add: calendar_time_def show_pad_length)
  from this [OF assms(1)] this [OF assms(2)] assms(3)
  have "show_pad 4 (1900 + tm_year c) = show_pad 4 (1900 + tm_year d)" "show_pad 2 (tm_mon c + 1) = show_pad 2 (tm_mon d + 1)"
    "show_pad 2 (tm_mday c) = show_pad 2 (tm_mday d)" "show_pad 2 (tm_hour c) = show_pad 2 (tm_hour d)"
    "show_pad 2 (tm_min c) = show_pad 2 (tm_min d)" "show_pad 2 (tm_sec c) = show_pad 2 (tm_sec d)" "show_pad 6 (tv_usec c) = show_pad 6 (tv_usec d)"
    by (simp_all add: dt_text_def)
  then show ?thesis
    using assms(1,2) by (auto simp: calendar_time_def dest!: show_pad_inj [rotated 2])
qed

lemma snprintf_fits: "0 < n \<Longrightarrow> length text < n \<Longrightarrow> length text < length a \<Longrightarrow>
    snprintf n text a = Some (text @ NUL # drop (Suc (length text)) a)"
  by (simp add: snprintf_def strcpy_to_0)

lemma postfix_text:
  assumes "calendar_time c" "26 < length a"
  shows "\<exists>b. generate_dt_postfix c a = Some b \<and> length b = length a \<and> cstr b = Some (dt_text c)"
  using assms dt_text_length [OF assms(1)] dt_text_no_NUL
  by (simp add: generate_dt_postfix_def snprintf_fits DT_POSTFIX_SIZE_def)

lemma object_name_text:
  assumes "calendar_time c" "33 < length a"
  shows "\<exists>b. generate_new_object_name c a = Some b \<and> length b = length a \<and> cstr b = Some (''object_'' @ dt_text c)"
proof -
  obtain p where "generate_dt_postfix c (replicate DT_POSTFIX_SIZE NUL) = Some p" "cstr p = Some (dt_text c)"
    using postfix_text [OF assms(1), of "replicate DT_POSTFIX_SIZE NUL"] by (auto simp: DT_POSTFIX_SIZE_def)
  moreover have "NUL \<notin> set (''object_'' @ dt_text c)"
    using dt_text_no_NUL by (simp add: NUL_def)
  then have "cstr ((''object_'' @ dt_text c) @ NUL # r) = Some (''object_'' @ dt_text c)" for r
    by (rule cstr_append_NUL)
  ultimately show ?thesis
    using assms(2) dt_text_length [OF assms(1)]
    by (simp add: generate_new_object_name_def snprintf_fits MAX_GENERATED_NAME_LEN_def)
qed

text \<open>The postfix of an object is the part of its name that the clock made.\<close>

lemma object_postfix_text:
  assumes "26 < length a" "calendar_time c"
  shows "\<exists>b. get_object_postfix (''object_'' @ dt_text c) a = Some b \<and> length b = length a \<and> cstr b = Some (dt_text c)"
  using assms dt_text_length [OF assms(2)] dt_text_no_NUL by (simp add: get_object_postfix_def strcpy_to_0)


definition demo_clock :: "int \<Rightarrow> clock" where
  "demo_clock us = \<lparr>tm_year = 121, tm_mon = 8, tm_mday = 3, tm_hour = 7, tm_min = 5, tm_sec = 9, tv_usec = us\<rparr>"


text \<open>\<open>save_frame_callback\<close> passes an array of twenty bytes, which the text does not fit.\<close>

lemma short_postfix_overflows: "calendar_time c \<Longrightarrow> generate_dt_postfix c (replicate 20 NUL) = None"
  using dt_text_length [of c] by (simp add: generate_dt_postfix_def snprintf_def DT_POSTFIX_SIZE_def strcpy_to_0_None)

end
