(* ===== verification/Name_Map.thy ===== *)
theory Name_Map imports Prelude "HOL-Library.Char_ord" "HOL-Library.List_Lexorder" begin

section \<open>Maps ordered by name\<close>

text \<open>
  A \<open>std::map\<close> with strings as keys, and Boost's map of the shared memory, is the list of its pairs in ascending order of the keys. Strings are
  compared character by character, characters by their codes. \<open>map_emplace\<close> keeps an element that is there, \<open>map_set\<close> replaces it.
\<close>

fun map_emplace :: "string \<Rightarrow> 'a \<Rightarrow> (string \<times> 'a) list \<Rightarrow> (string \<times> 'a) list" where
  "map_emplace k v [] = [(k, v)]"
| "map_emplace k v ((l, w) # m) = (if k < l then (k, v) # (l, w) # m else if k = l then (l, w) # m else (l, w) # map_emplace k v m)"

fun map_erase :: "string \<Rightarrow> (string \<times> 'a) list \<Rightarrow> (string \<times> 'a) list" where
  "map_erase k [] = []"
| "map_erase k ((l, w) # m) = (if k = l then m else (l, w) # map_erase k m)"

fun map_update :: "string \<Rightarrow> ('a \<Rightarrow> 'a) \<Rightarrow> (string \<times> 'a) list \<Rightarrow> (string \<times> 'a) list" where
  "map_update k f [] = []"
| "map_update k f ((l, w) # m) = (if k = l then (l, f w) # m else (l, w) # map_update k f m)"

definition ordered :: "(string \<times> 'a) list \<Rightarrow> bool" where
  "ordered m \<longleftrightarrow> sorted_wrt (<) (map fst m)"

lemma ordered_Nil [simp]: "ordered []"
  by (simp add: ordered_def)

lemma ordered_Cons [simp]: "ordered ((l, w) # m) \<longleftrightarrow> (\<forall>k \<in> fst ` set m. l < k) \<and> ordered m"
  by (simp add: ordered_def)

lemma emplace_keys: "fst ` set (map_emplace k v m) = insert k (fst ` set m)"
  by (induction m rule: map_emplace.induct) auto

lemma ordered_emplace: "ordered m \<Longrightarrow> ordered (map_emplace k v m)"
  by (induction m rule: map_emplace.induct) (auto simp: emplace_keys)

lemma erase_keys: "fst ` set (map_erase k m) \<subseteq> fst ` set m"
  by (induction m rule: map_erase.induct) auto

lemma ordered_erase: "ordered m \<Longrightarrow> ordered (map_erase k m)"
  using erase_keys by (induction m rule: map_erase.induct) fastforce+

lemma update_keys [simp]: "map fst (map_update k f m) = map fst m"
  by (induction m rule: map_update.induct) auto

lemma ordered_update: "ordered m \<Longrightarrow> ordered (map_update k f m)"
  by (simp add: ordered_def)

lemma ordered_absent: "ordered ((l, w) # m) \<Longrightarrow> k \<le> l \<Longrightarrow> map_of m k = None"
  by (auto simp: map_of_eq_None_iff)

text \<open>The laws of the map: an element that is present is not replaced.\<close>

lemma emplace_lookup:
  assumes "ordered m"
  shows "map_of (map_emplace k v m) = (case map_of m k of None \<Rightarrow> (map_of m)(k \<mapsto> v) | Some _ \<Rightarrow> map_of m)"
  using assms
proof (induction m rule: map_emplace.induct)
  case (2 k v l w m)
  consider "k < l" | "k = l" | "l < k"
    by (rule linorder_cases)
  then show ?case
  proof cases
    case 1
    then have "map_of m k = None"
      using ordered_absent [OF 2(2), of k] by simp
    then show ?thesis
      using 1 by auto
  next
    case 3
    then show ?thesis
      using 2 by (auto simp: fun_upd_twist split: option.splits)
  qed simp
qed simp

lemma erase_lookup: "ordered m \<Longrightarrow> map_of (map_erase k m) = (map_of m)(k := None)"
proof (induction m rule: map_erase.induct)
  case (2 k l w m)
  then show ?case
    using ordered_absent [of l w m l] by (cases "k = l") (auto simp: fun_upd_twist fun_upd_idem)
qed auto

lemma update_lookup: "map_of (map_update k f m) l = (if l = k then map_option f (map_of m k) else map_of m l)"
  by (induction k f m rule: map_update.induct) auto

lemma emplace_last: "(\<And>l. l \<in> fst ` set m \<Longrightarrow> l < k) \<Longrightarrow> map_emplace k v m = m @ [(k, v)]"
  by (induction m rule: map_emplace.induct) (auto dest: less_not_sym)

lemma emplace_length: "ordered m \<Longrightarrow> length (map_emplace k v m) = (case map_of m k of None \<Rightarrow> Suc (length m) | Some _ \<Rightarrow> length m)"
proof (induction m rule: map_emplace.induct)
  case (2 k v l w m)
  then show ?case
    using ordered_absent [OF 2(2), of k] by (auto split: option.splits)
qed simp

lemma ordered_nth: "ordered m \<Longrightarrow> i < j \<Longrightarrow> j < length m \<Longrightarrow> map fst m ! i < map fst m ! j"
  by (auto simp: ordered_def sorted_wrt_iff_nth_less)

lemma ordered_nth_lookup: "ordered m \<Longrightarrow> i < length m \<Longrightarrow> map_of m (map fst m ! i) = Some (snd (m ! i))"
  by (auto simp: ordered_def strict_sorted_iff intro!: map_of_is_SomeI)

lemma update_nth: "ordered m \<Longrightarrow> i < length m \<Longrightarrow> map_update (map fst m ! i) f m = m[i := (fst (m ! i), f (snd (m ! i)))]"
proof (induction m arbitrary: i)
  case (Cons x m)
  obtain l w where x: "x = (l, w)"
    by (cases x)
  show ?case
  proof (cases i)
    case (Suc j)
    then have "fst (m ! j) \<noteq> l"
      using Cons.prems x by (auto dest: nth_mem)
    then show ?thesis
      using Cons Suc x by simp
  qed (simp add: x)
qed simp

lemma update_last: "k \<notin> fst ` set m \<Longrightarrow> map_update k f (m @ [(k, v)]) = m @ [(k, f v)]"
  by (induction m) auto

lemma ordered_snoc: "ordered (m @ (k, v) # m') \<Longrightarrow> l \<in> fst ` set m \<Longrightarrow> l < k"
  by (auto simp: ordered_def sorted_wrt_append)

lemma ordered_filter: "ordered m \<Longrightarrow> ordered (filter P m)"
  by (induction m) auto

lemma emplace_subset: "set (map_emplace k v m) \<subseteq> insert (k, v) (set m)"
  by (induction k v m rule: map_emplace.induct) auto

lemma erase_subset: "set (map_erase k m) \<subseteq> set m"
  by (induction k m rule: map_erase.induct) auto

definition map_set :: "string \<Rightarrow> 'a \<Rightarrow> (string \<times> 'a) list \<Rightarrow> (string \<times> 'a) list" where
  "map_set k v m = (if map_of m k = None then map_emplace k v m else map_update k (\<lambda>_. v) m)"

lemma ordered_set: "ordered m \<Longrightarrow> ordered (map_set k v m)"
  by (simp add: map_set_def ordered_emplace ordered_update)

lemma set_lookup: "ordered m \<Longrightarrow> map_of (map_set k v m) = (map_of m)(k \<mapsto> v)"
  by (auto simp: map_set_def emplace_lookup update_lookup fun_eq_iff split: option.splits)

text \<open>Such a list is determined by what is found in it.\<close>

lemma ordered_distinct: "ordered m \<Longrightarrow> distinct (map fst m)"
  by (simp add: ordered_def strict_sorted_iff)

lemma ordered_pairs: "ordered m \<Longrightarrow> (k, v) \<in> set m \<longleftrightarrow> map_of m k = Some v"
  by (simp add: ordered_distinct)

lemma ordered_unique:
  assumes "ordered m" "ordered m'" "map_of m = map_of m'"
  shows "m = m'"
proof -
  have "set m = set m'"
    using assms by (metis ordered_pairs subsetI subset_antisym surj_pair)
  moreover have "sorted (map fst m)" "sorted (map fst m')"
    using assms(1,2) by (simp_all add: ordered_def strict_sorted_iff)
  moreover have "inj_on fst (set m \<union> set m')"
    using assms(1) calculation(1) ordered_distinct [OF assms(1)] by (simp add: distinct_map)
  ultimately show ?thesis
    using map_sorted_distinct_set_unique [of fst m m'] ordered_distinct assms(1,2) by blast
qed

end
