(* ===== verification/Storage.thy ===== *)
theory Storage imports Object_Names Name_Map begin

section \<open>Objects in shared memory (libstorage)\<close>

text \<open>
  An object descriptor has framesets, a frameset has frames, each in a \<open>map\<close> ordered by \<open>strcmp\<close> on the names (\<open>Name_Map\<close>). Boost's segments are not part of the sources: a segment is the map of its named objects, and whether an
  allocation in it succeeds is an argument (\<open>ok\<close>). An exception that no one catches is \<open>None\<close>. OpenCV's
  matrix is the record of the fields that the code reads; \<open>elem\<close> is the size of an element of a type.
\<close>

subsection \<open>Names (IObject.h)\<close>

text \<open>A variable of the enumeration holds any \<open>int\<close>; a cast can put one there that has no name.\<close>

datatype storage_type = NO_SAVE | SHORT_TERM | LONG_TERM | Unnamed_Storage int

definition MAX_NAME_LENGTH :: nat where "MAX_NAME_LENGTH = 71"
definition IMPOSSIBLE_ID :: u64 where "IMPOSSIBLE_ID = 0"

definition object_id :: "string \<Rightarrow> string" where
  "object_id name = take MAX_NAME_LENGTH name"

subsection \<open>Frames (Frame.cpp)\<close>

record mat =
  mt_rows :: nat
  mt_cols :: nat
  mt_type :: int
  mt_step :: nat
  mt_data :: "u8 list"

record frame =
  fr_name :: string
  fr_id :: u64
  fr_storage :: storage_type
  fr_time :: int
  fr_sequence :: int
  fr_source :: int
  fr_image :: "u8 list"
  fr_width :: nat
  fr_height :: nat
  fr_type :: int
  fr_save :: bool

text \<open>The copy of a matrix that is not continuous is made and not used.\<close>

definition set_image :: "mat \<Rightarrow> frame \<Rightarrow> frame option" where
  "set_image img f = (let size = mt_step img * mt_rows img in
     if size \<le> length (mt_data img)
     then Some (f\<lparr>fr_width := mt_cols img, fr_height := mt_rows img, fr_type := mt_type img, fr_image := take size (mt_data img)\<rparr>)
     else None)"

text \<open>\<open>junk\<close> is what the memory of the frame holds before: the short constructor leaves most fields to it.\<close>

definition frame_short :: "frame \<Rightarrow> string \<Rightarrow> storage_type \<Rightarrow> frame" where
  "frame_short junk name st = junk\<lparr>fr_name := object_id name, fr_id := IMPOSSIBLE_ID, fr_storage := st, fr_image := []\<rparr>"

definition frame_new :: "frame \<Rightarrow> string \<Rightarrow> storage_type \<Rightarrow> mat \<Rightarrow> int \<Rightarrow> int \<Rightarrow> int \<Rightarrow> frame option" where
  "frame_new junk name st img time sequence source =
     set_image img ((frame_short junk name st)\<lparr>fr_time := time, fr_sequence := sequence, fr_source := source, fr_save := False\<rparr>)"

definition frame_image :: "(int \<Rightarrow> nat) \<Rightarrow> frame \<Rightarrow> mat option" where
  "frame_image elem f = (if fr_image f = [] then None
     else Some \<lparr>mt_rows = fr_height f, mt_cols = fr_width f, mt_type = fr_type f, mt_step = fr_width f * elem (fr_type f), mt_data = fr_image f\<rparr>)"

text \<open>The bytes of the element in row \<open>r\<close> and column \<open>c\<close>.\<close>

definition mat_at :: "(int \<Rightarrow> nat) \<Rightarrow> mat \<Rightarrow> nat \<Rightarrow> nat \<Rightarrow> u8 list" where
  "mat_at elem m r c = take (elem (mt_type m)) (drop (r * mt_step m + c * elem (mt_type m)) (mt_data m))"

definition continuous_mat :: "(int \<Rightarrow> nat) \<Rightarrow> mat \<Rightarrow> bool" where
  "continuous_mat elem m \<longleftrightarrow> mt_step m = mt_cols m * elem (mt_type m)"

subsection \<open>Framesets (Frameset.cpp)\<close>

record frameset =
  fs_name :: string
  fs_id :: u64
  fs_storage :: storage_type
  fs_frames :: "(string \<times> frame) list"

text \<open>The constructor passes on the member, which is not set yet, and not its argument.\<close>

definition frameset_new :: "storage_type \<Rightarrow> string \<Rightarrow> storage_type \<Rightarrow> frameset" where
  "frameset_new junk name st = \<lparr>fs_name = object_id name, fs_id = IMPOSSIBLE_ID, fs_storage = junk, fs_frames = []\<rparr>"

text \<open>The reference is the name of the frame, \<open>None\<close> when the allocation failed.\<close>

definition add_frame_to :: "bool \<Rightarrow> string \<Rightarrow> frame \<Rightarrow> frameset \<Rightarrow> string option \<times> frameset" where
  "add_frame_to ok name f fs = (if ok then (Some (object_id name), fs\<lparr>fs_frames := map_emplace (object_id name) f (fs_frames fs)\<rparr>) else (None, fs))"

definition frames_ids :: "frameset \<Rightarrow> string list" where
  "frames_ids fs = map fst (fs_frames fs)"

definition frames_count :: "frameset \<Rightarrow> nat" where
  "frames_count fs = length (fs_frames fs)"

definition frame_of :: "string \<Rightarrow> frameset \<Rightarrow> frame option" where
  "frame_of name fs = map_of (fs_frames fs) (object_id name)"

definition remove_frame :: "string \<Rightarrow> frameset \<Rightarrow> frameset" where
  "remove_frame name fs = fs\<lparr>fs_frames := map_erase (object_id name) (fs_frames fs)\<rparr>"

definition is_valid_frame :: "string \<Rightarrow> frameset \<Rightarrow> bool" where
  "is_valid_frame name fs \<longleftrightarrow> map_of (fs_frames fs) (object_id name) \<noteq> None"

subsection \<open>Object descriptors (ObjectDescriptor.cpp)\<close>

datatype observable_type = BILLET | MANDREL | PIPE | PIPE_COOLED | UNKNOWN_TYPE_OBSERVABLEOBJECT

record object_descriptor =
  od_name :: string
  od_id :: u64
  od_storage :: storage_type
  od_type :: observable_type
  od_framesets :: "(string \<times> frameset) list"

definition object_new :: "string \<Rightarrow> storage_type \<Rightarrow> observable_type \<Rightarrow> object_descriptor" where
  "object_new name st ty = \<lparr>od_name = object_id name, od_id = IMPOSSIBLE_ID, od_storage = st, od_type = ty, od_framesets = []\<rparr>"

definition add_frameset :: "bool \<Rightarrow> storage_type \<Rightarrow> string \<Rightarrow> storage_type \<Rightarrow> object_descriptor \<Rightarrow> string option \<times> object_descriptor" where
  "add_frameset ok junk name st d =
     (if ok then (Some (object_id name), d\<lparr>od_framesets := map_emplace (object_id name) (frameset_new junk name st) (od_framesets d)\<rparr>)
      else (None, d))"

text \<open>
  The other \<open>addFrameset\<close> moves a frameset, which is empty afterwards. When the name is taken, \<open>built\<close> says whether the container
  makes the element before it looks: then the frames are lost with it.
\<close>

definition move_frameset :: "bool \<Rightarrow> bool \<Rightarrow> frameset \<Rightarrow> object_descriptor \<Rightarrow> string option \<times> object_descriptor \<times> frameset" where
  "move_frameset ok built fs d =
     (if \<not> ok then (None, d, fs)
      else (Some (fs_name fs), d\<lparr>od_framesets := map_emplace (fs_name fs) fs (od_framesets d)\<rparr>,
            if built \<or> map_of (od_framesets d) (fs_name fs) = None then fs\<lparr>fs_frames := []\<rparr> else fs))"

definition framesets_ids :: "object_descriptor \<Rightarrow> string list" where
  "framesets_ids d = map fst (od_framesets d)"

definition framesets_count :: "object_descriptor \<Rightarrow> nat" where
  "framesets_count d = length (od_framesets d)"

definition frameset_of :: "string \<Rightarrow> object_descriptor \<Rightarrow> frameset option" where
  "frameset_of name d = map_of (od_framesets d) (object_id name)"

definition remove_frameset :: "string \<Rightarrow> object_descriptor \<Rightarrow> object_descriptor" where
  "remove_frameset name d = d\<lparr>od_framesets := map_erase (object_id name) (od_framesets d)\<rparr>"

definition is_valid_frameset :: "string \<Rightarrow> object_descriptor \<Rightarrow> bool" where
  "is_valid_frameset name d \<longleftrightarrow> map_of (od_framesets d) (object_id name) \<noteq> None"

subsection \<open>Images\<close>

lemma frame_new_fields:
  assumes "frame_new junk name st img time sequence source = Some f"
  shows "fr_name f = object_id name \<and> fr_time f = time \<and> fr_sequence f = sequence \<and> fr_source f = source \<and> fr_storage f = st
    \<and> fr_save f = False \<and> fr_width f = mt_cols img \<and> fr_height f = mt_rows img \<and> fr_type f = mt_type img
    \<and> fr_image f = take (mt_step img * mt_rows img) (mt_data img)"
  using assms by (auto simp: frame_new_def set_image_def frame_short_def Let_def split: if_splits)

lemma mat_at_take:
  assumes "mt_step m = mt_cols m * elem (mt_type m)" "r < mt_rows m" "c < mt_cols m"
  shows "mat_at elem (m\<lparr>mt_data := take (mt_step m * mt_rows m) (mt_data m)\<rparr>) r c = mat_at elem m r c"
proof -
  let ?e = "elem (mt_type m)"
  have "Suc c * ?e \<le> mt_cols m * ?e" "Suc r * mt_step m \<le> mt_rows m * mt_step m"
    using assms(2,3) by (intro mult_le_mono1; simp)+
  then have "r * mt_step m + c * ?e + ?e \<le> mt_step m * mt_rows m"
    using assms(1) by (simp add: mult.commute)
  then have "take ?e (drop (r * mt_step m + c * ?e) (take (mt_step m * mt_rows m) (mt_data m))) = take ?e (drop (r * mt_step m + c * ?e) (mt_data m))"
    by (simp add: drop_take min_def)
  then show ?thesis
    by (simp add: mat_at_def)
qed

text \<open>
  Claim C29. A frame keeps its image: a matrix without gaps between its rows is given back element by element, with its size and
  its type.
\<close>

theorem frame_keeps_image:
  assumes "continuous_mat elem m" "mt_step m * mt_rows m \<le> length (mt_data m)" "0 < mt_step m" "0 < mt_rows m"
  shows "\<exists>f img. frame_new junk name st m time sequence source = Some f \<and> frame_image elem f = Some img
    \<and> mt_rows img = mt_rows m \<and> mt_cols img = mt_cols m \<and> mt_type img = mt_type m
    \<and> (\<forall>r < mt_rows m. \<forall>c < mt_cols m. mat_at elem img r c = mat_at elem m r c)"
proof -
  obtain f where f: "frame_new junk name st m time sequence source = Some f"
    using assms(2) by (simp add: frame_new_def set_image_def)
  note fields = frame_new_fields [OF f]
  have "frame_image elem f = Some (m\<lparr>mt_data := take (mt_step m * mt_rows m) (mt_data m)\<rparr>)"
    using fields assms by (auto simp: frame_image_def continuous_mat_def)
  then show ?thesis
    using f mat_at_take [of m elem] assms(1) by (auto simp: continuous_mat_def)
qed

text \<open>Of a part of a larger matrix, every row but the first is read from the wrong place.\<close>

definition demo_mat :: "nat \<Rightarrow> mat" where
  "demo_mat step = \<lparr>mt_rows = 2, mt_cols = 2, mt_type = 0, mt_step = step, mt_data = [1, 2, 3, 4, 5, 6, 7, 8]\<rparr>"

definition blank_frame :: frame where
  "blank_frame = \<lparr>fr_name = [], fr_id = 0, fr_storage = LONG_TERM, fr_time = 0, fr_sequence = 0, fr_source = 0, fr_image = [], fr_width = 0,
     fr_height = 0, fr_type = 0, fr_save = True\<rparr>"

theorem frame_keeps_image_witness:
  "\<exists>f img. frame_new blank_frame ''f'' NO_SAVE (demo_mat 2) 7 0 1 = Some f \<and> frame_image (\<lambda>_. 1) f = Some img \<and> mat_at (\<lambda>_. 1) img 1 0 = [3]"
proof -
  have m: "continuous_mat (\<lambda>_. 1) (demo_mat 2)" "mt_rows (demo_mat 2) = 2" "mt_cols (demo_mat 2) = 2" "mt_step (demo_mat 2) = 2"
    "length (mt_data (demo_mat 2)) = 8" "mat_at (\<lambda>_. 1) (demo_mat 2) 1 0 = [3]"
    by (simp_all add: demo_mat_def continuous_mat_def mat_at_def)
  then show ?thesis
    using frame_keeps_image [of "\<lambda>_. 1" "demo_mat 2" blank_frame "''f''" NO_SAVE 7 0 1] by force
qed

lemma part_image_garbled:
  "\<exists>f img. frame_new blank_frame ''f'' NO_SAVE (demo_mat 4) 7 0 1 = Some f \<and> frame_image (\<lambda>_. 1) f = Some img
     \<and> mat_at (\<lambda>_. 1) (demo_mat 4) 1 0 = [5] \<and> mat_at (\<lambda>_. 1) img 1 0 = [3]"
  by (simp add: frame_new_def set_image_def frame_image_def mat_at_def demo_mat_def Let_def)

end
