(* ===== verification/Storage_Interface.thy ===== *)
theory Storage_Interface imports Storage begin

section \<open>The interface of the storage (storage_interface.cpp, Ipc.h)\<close>

text \<open>
  A segment is the map of its named objects; the storage is the map of the segments, with the variable of the environment
  that tells a child the name of the segment. Opening a segment that is not there throws, and nobody catches it. \<open>room\<close> is
  what \<open>get_free_memory\<close> answers.
\<close>

type_synonym segment = "string \<Rightarrow> object_descriptor option"

record shm_store =
  st_segments :: "string \<Rightarrow> segment option"
  st_env :: "string option"

definition SHMEM_NAME_LEN :: nat where "SHMEM_NAME_LEN = 255"

definition set_segment :: "string \<Rightarrow> segment \<Rightarrow> shm_store \<Rightarrow> shm_store" where
  "set_segment seg s st = st\<lparr>st_segments := (st_segments st)(seg \<mapsto> s)\<rparr>"

text \<open>A name that is taken or a segment that is full is an exception that \<open>createShared\<close> catches.\<close>

definition create_shared :: "bool \<Rightarrow> string \<Rightarrow> object_descriptor \<Rightarrow> segment \<Rightarrow> bool \<times> segment" where
  "create_shared ok name d s = (if ok \<and> s name = None then (True, s(name \<mapsto> d)) else (False, s))"

definition find_shared :: "string \<Rightarrow> segment \<Rightarrow> object_descriptor option" where
  "find_shared name s = s name"

definition destroy_shared :: "string \<Rightarrow> segment \<Rightarrow> segment" where
  "destroy_shared name s = s(name := None)"

definition storage_interface_init :: "(segment \<Rightarrow> u64) \<Rightarrow> bool \<Rightarrow> string \<Rightarrow> shm_store \<Rightarrow> (u64 \<times> shm_store) option" where
  "storage_interface_init room set_ok seg st =
     (if st_segments st seg \<noteq> None then None
      else let st = set_segment seg Map.empty st
        in if set_ok then Some (room Map.empty, st\<lparr>st_env := Some seg\<rparr>) else Some (- 1, st))"

definition storage_interface_new_object :: "(segment \<Rightarrow> u64) \<Rightarrow> bool \<Rightarrow> string \<Rightarrow> string \<Rightarrow> shm_store \<Rightarrow> (u64 \<times> shm_store) option" where
  "storage_interface_new_object room ok seg name st = do {
     s \<leftarrow> st_segments st seg;
     let s = snd (create_shared ok name (object_new name NO_SAVE PIPE) s);
     Some (room s, set_segment seg s st) }"

text \<open>The pointer that is given back is that of a local variable: it points nowhere (\<open>None\<close>).\<close>

definition storage_interface_get_object :: "(segment \<Rightarrow> u64) \<Rightarrow> string \<Rightarrow> string \<Rightarrow> shm_store \<Rightarrow> (u64 \<times> object_descriptor option) option" where
  "storage_interface_get_object room seg name st = map_option (\<lambda>s. (room s, None)) (st_segments st seg)"

fun add_framesets :: "(nat \<Rightarrow> bool) \<Rightarrow> (nat \<Rightarrow> storage_type) \<Rightarrow> string \<Rightarrow> nat list \<Rightarrow> object_descriptor \<Rightarrow> object_descriptor option" where
  "add_framesets ok junk postfix [] d = Some d"
| "add_framesets ok junk postfix (i # is) d = do {
     fsname \<leftarrow> generate_name_with_id ''frameset'' (int i) postfix (replicate SHMEM_NAME_LEN NUL);
     fsname \<leftarrow> cstr fsname;
     add_framesets ok junk postfix is (snd (add_frameset (ok i) (junk i) fsname NO_SAVE d)) }"

definition storage_interface_new_object_with_framesets :: "(segment \<Rightarrow> u64) \<Rightarrow> bool \<Rightarrow> (nat \<Rightarrow> bool) \<Rightarrow> (nat \<Rightarrow> storage_type) \<Rightarrow>
    string \<Rightarrow> string \<Rightarrow> int \<Rightarrow> shm_store \<Rightarrow> (u64 \<times> shm_store) option" where
  "storage_interface_new_object_with_framesets room ok oks junk seg name source_number st = do {
     s \<leftarrow> st_segments st seg;
     let (valid, s) = create_shared ok name (object_new name NO_SAVE PIPE) s;
     postfix \<leftarrow> get_object_postfix name (replicate SHMEM_NAME_LEN NUL);
     postfix \<leftarrow> cstr postfix;
     s \<leftarrow> (if source_number \<le> 0 then Some s
          else if \<not> valid then None
          else do { d \<leftarrow> find_shared name s; d \<leftarrow> add_framesets oks junk postfix [0..<nat source_number] d; Some (s(name \<mapsto> d)) });
     Some (room s, set_segment seg s st) }"

text \<open>
  The frameset of a source is the one at its index in the order of the names. The name of the frame is also the name of a shared
  object that is destroyed. An allocation that fails is that of the image, before any byte of it is read.
\<close>

definition storage_interface_add_frame_to_object_with_framesets :: "(segment \<Rightarrow> u64) \<Rightarrow> bool \<Rightarrow> frame \<Rightarrow> int \<Rightarrow> clock \<Rightarrow>
    string \<Rightarrow> string \<Rightarrow> int \<Rightarrow> int \<Rightarrow> mat \<Rightarrow> shm_store \<Rightarrow> (u64 \<times> shm_store) option" where
  "storage_interface_add_frame_to_object_with_framesets room ok junk now c seg name source_id frame_id img st = do {
     s \<leftarrow> st_segments st seg;
     d \<leftarrow> find_shared name s;
     fsid \<leftarrow> arr_get (framesets_ids d) source_id;
     _ \<leftarrow> frameset_of fsid d;
     postfix \<leftarrow> generate_dt_postfix c (replicate SHMEM_NAME_LEN NUL);
     postfix \<leftarrow> cstr postfix;
     fname \<leftarrow> generate_name_with_src_and_id ''frame'' source_id frame_id postfix (replicate SHMEM_NAME_LEN NUL);
     fname \<leftarrow> cstr fname;
     f \<leftarrow> (if ok then frame_new junk fname NO_SAVE img now frame_id source_id else Some junk);
     let d = d\<lparr>od_framesets := map_update fsid (\<lambda>fs. snd (add_frame_to ok fname f fs)) (od_framesets d)\<rparr>;
     let s = destroy_shared fname (s(name \<mapsto> d));
     Some (room s, set_segment seg s st) }"

text \<open>What the analysis prints: of every frameset its name, the number of frames and the size of the first image.\<close>

definition analyze_frame :: "(int \<Rightarrow> nat) \<Rightarrow> frame \<Rightarrow> nat" where
  "analyze_frame elem f = (case frame_image elem f of None \<Rightarrow> 0 | Some m \<Rightarrow> mt_rows m * mt_cols m * elem (mt_type m))"

definition analyze_frameset :: "(int \<Rightarrow> nat) \<Rightarrow> frameset \<Rightarrow> string \<times> nat \<times> nat option" where
  "analyze_frameset elem fs = (fs_name fs, frames_count fs,
     if 0 < frames_count fs then map_option (analyze_frame elem) (frame_of (frames_ids fs ! 0) fs) else None)"

definition analyze_object :: "(int \<Rightarrow> nat) \<Rightarrow> object_descriptor \<Rightarrow> (string \<times> nat \<times> nat option) list" where
  "analyze_object elem d = map (\<lambda>(_, fs). analyze_frameset elem fs) (od_framesets d)"

definition storage_interface_analyze_object_with_framesets :: "(int \<Rightarrow> nat) \<Rightarrow> string \<Rightarrow> string \<Rightarrow> shm_store \<Rightarrow>
    (string \<times> nat \<times> nat option) list option" where
  "storage_interface_analyze_object_with_framesets elem seg name st = do {
     s \<leftarrow> st_segments st seg;
     d \<leftarrow> find_shared name s;
     Some (analyze_object elem d) }"

definition storage_interface_free_object :: "(segment \<Rightarrow> u64) \<Rightarrow> string \<Rightarrow> string \<Rightarrow> shm_store \<Rightarrow> (u64 \<times> shm_store) option" where
  "storage_interface_free_object room seg name st = do {
     s \<leftarrow> st_segments st seg;
     let s = (case find_shared name s of None \<Rightarrow> s | Some _ \<Rightarrow> destroy_shared name s);
     Some (room s, set_segment seg s st) }"

definition storage_interface_destroy :: "string \<Rightarrow> shm_store \<Rightarrow> shm_store" where
  "storage_interface_destroy seg st = st\<lparr>st_segments := (st_segments st)(seg := None)\<rparr>"

subsection \<open>Names of framesets and frames\<close>

definition frameset_key :: "string \<Rightarrow> nat \<Rightarrow> string" where
  "frameset_key p i = object_id (''frameset_'' @ show_int (int i) @ ''_'' @ p)"

definition frame_text :: "nat \<Rightarrow> int \<Rightarrow> clock \<Rightarrow> string" where
  "frame_text i no c = take 247 (''frame_'' @ show_int (int i) @ ''_'' @ show_int no @ ''_'' @ take 33 (dt_text c))"

lemma show_int_no_NUL: "NUL \<notin> set (show_int i)"
  using show_base_no_NUL [of 10] by (simp add: show_int_def NUL_def)

lemma snprintf_text:
  assumes "0 < n" "n \<le> length a" "NUL \<notin> set t"
  shows "\<exists>b. snprintf n t a = Some b \<and> cstr b = Some (take (n - 1) t)"
proof -
  have "length (take (n - 1) t) < length a" "NUL \<notin> set (take (n - 1) t)"
    using assms by (auto dest: in_set_takeD)
  then show ?thesis
    using assms(1) by (simp add: snprintf_def strcpy_to_0)
qed

lemma frameset_name_text:
  assumes "NUL \<notin> set p"
  shows "\<exists>b. generate_name_with_id ''frameset'' (int i) p (replicate SHMEM_NAME_LEN NUL) = Some b
    \<and> (\<exists>t. cstr b = Some t \<and> object_id t = frameset_key p i)"
proof -
  define t where "t = ''frameset'' @ ''_'' @ show_int (int i) @ ''_'' @ p"
  have "NUL \<notin> set t"
    using assms show_int_no_NUL by (simp add: NUL_def t_def)
  from snprintf_text [OF _ _ this, of MAX_GENERATED_NAME_LEN "replicate SHMEM_NAME_LEN NUL"]
  obtain b where "snprintf MAX_GENERATED_NAME_LEN t (replicate SHMEM_NAME_LEN NUL) = Some b" "cstr b = Some (take 247 t)"
    by (auto simp: MAX_GENERATED_NAME_LEN_def SHMEM_NAME_LEN_def)
  moreover have "object_id (take 247 t) = object_id t"
    by (simp add: object_id_def MAX_NAME_LENGTH_def)
  moreover have "object_id t = frameset_key p i"
    by (simp add: frameset_key_def t_def)
  ultimately show ?thesis
    by (auto simp: generate_name_with_id_def t_def)
qed

lemma frame_name_text:
  obtains q b where "generate_dt_postfix c (replicate SHMEM_NAME_LEN NUL) = Some q"
    "cstr q = Some (take 33 (dt_text c))"
    "generate_name_with_src_and_id ''frame'' (int i) no (take 33 (dt_text c)) (replicate SHMEM_NAME_LEN NUL) = Some b"
    "cstr b = Some (frame_text i no c)"
proof -
  obtain q where q: "generate_dt_postfix c (replicate SHMEM_NAME_LEN NUL) = Some q" "cstr q = Some (take 33 (dt_text c))"
    using snprintf_text [of DT_POSTFIX_SIZE "replicate SHMEM_NAME_LEN NUL" "dt_text c"] dt_text_no_NUL
    by (auto simp: generate_dt_postfix_def DT_POSTFIX_SIZE_def SHMEM_NAME_LEN_def)
  define t where "t = ''frame'' @ ''_'' @ show_int (int i) @ ''_'' @ show_int no @ ''_'' @ take 33 (dt_text c)"
  have "NUL \<notin> set t"
    using dt_text_no_NUL show_int_no_NUL by (auto simp: NUL_def t_def dest: in_set_takeD)
  from snprintf_text [OF _ _ this, of MAX_GENERATED_NAME_LEN "replicate SHMEM_NAME_LEN NUL"]
  obtain b where "snprintf MAX_GENERATED_NAME_LEN t (replicate SHMEM_NAME_LEN NUL) = Some b" "cstr b = Some (take 247 t)"
    by (auto simp: MAX_GENERATED_NAME_LEN_def SHMEM_NAME_LEN_def)
  moreover have "take 247 t = frame_text i no c"
    by (simp add: frame_text_def t_def)
  ultimately have "generate_name_with_src_and_id ''frame'' (int i) no (take 33 (dt_text c)) (replicate SHMEM_NAME_LEN NUL) = Some b"
    "cstr b = Some (frame_text i no c)"
    by (simp_all add: generate_name_with_src_and_id_def t_def)
  then show thesis
    using that q by blast
qed

lemma digit_less: "i < j \<Longrightarrow> j < 10 \<Longrightarrow> digit_char i < digit_char j"
  by (simp add: less_char_def of_char_digit)

lemma frameset_key_less:
  assumes "i < j" "j < 10"
  shows "frameset_key p i < frameset_key p j"
proof -
  have "show_int (int i) = [digit_char i]" "show_int (int j) = [digit_char j]"
    using assms by (simp_all add: show_int_def show_base.simps)
  then show ?thesis
    using digit_less [OF assms] by (simp add: frameset_key_def object_id_def MAX_NAME_LENGTH_def)
qed

lemma frameset_key_10: "frameset_key p 10 < frameset_key p 2"
proof -
  have "show_int 10 = [digit_char 1, digit_char 0]" "show_int 2 = [digit_char 2]"
    by (simp_all add: show_int_def show_base.simps)
  moreover have "digit_char 1 < digit_char 2"
    by (rule digit_less) simp_all
  ultimately show ?thesis
    by (simp add: frameset_key_def object_id_def MAX_NAME_LENGTH_def)
qed

lemma all_less_two: "(\<forall>i < 2. P i) \<longleftrightarrow> P 0 \<and> P (Suc 0)"
  by (auto simp: less_2_cases_iff)

subsection \<open>A new object\<close>

lemma add_framesets_append: "add_framesets ok junk p (is @ js) d = Option.bind (add_framesets ok junk p is d) (add_framesets ok junk p js)"
proof (induction "is" arbitrary: d)
  case (Cons i "is")
  then show ?case
    by (cases "generate_name_with_id ''frameset'' (int i) p (replicate SHMEM_NAME_LEN NUL)") (auto split: bind_splits)
qed simp

lemma add_frameset_one:
  assumes "NUL \<notin> set p"
  shows "\<exists>fs. add_framesets (\<lambda>_. True) junk p [i] d = Some (d\<lparr>od_framesets := map_emplace (frameset_key p i) fs (od_framesets d)\<rparr>) \<and> fs_frames fs = []"
proof -
  obtain b t where "generate_name_with_id ''frameset'' (int i) p (replicate SHMEM_NAME_LEN NUL) = Some b" "cstr b = Some t"
    "object_id t = frameset_key p i"
    using frameset_name_text [OF assms] by blast
  then show ?thesis
    by (auto simp: add_frameset_def frameset_new_def)
qed

lemma add_framesets_ordered:
  assumes "NUL \<notin> set p" "ordered (od_framesets d)"
  shows "\<exists>d'. add_framesets (\<lambda>_. True) junk p [0..<n] d = Some d' \<and> ordered (od_framesets d')"
proof (induction n)
  case (Suc n)
  then obtain d' where "add_framesets (\<lambda>_. True) junk p [0..<n] d = Some d'" "ordered (od_framesets d')"
    by blast
  then show ?case
    using add_frameset_one [OF assms(1), of junk n d'] by (auto simp: add_framesets_append ordered_emplace simp del: add_framesets.simps(2))
qed (use assms in simp)

lemma add_framesets_few:
  assumes "NUL \<notin> set p" "n \<le> 10" "od_framesets d = []"
  shows "\<exists>d'. add_framesets (\<lambda>_. True) junk p [0..<n] d = Some d' \<and> framesets_ids d' = map (frameset_key p) [0..<n]
    \<and> (\<forall>fs \<in> snd ` set (od_framesets d'). fs_frames fs = [])"
  using assms(2)
proof (induction n)
  case (Suc n)
  then obtain d' where d': "add_framesets (\<lambda>_. True) junk p [0..<n] d = Some d'" "framesets_ids d' = map (frameset_key p) [0..<n]"
    "\<forall>fs \<in> snd ` set (od_framesets d'). fs_frames fs = []"
    by auto
  obtain fs where fs: "add_framesets (\<lambda>_. True) junk p [n] d' = Some (d'\<lparr>od_framesets := map_emplace (frameset_key p n) fs (od_framesets d')\<rparr>)"
    "fs_frames fs = []"
    using add_frameset_one [OF assms(1)] by blast
  have "fst ` set (od_framesets d') = frameset_key p ` {0..<n}"
    using d'(2) by (metis framesets_ids_def list.set_map set_upt)
  then have "map_emplace (frameset_key p n) fs (od_framesets d') = od_framesets d' @ [(frameset_key p n, fs)]"
    using frameset_key_less [of _ n p] Suc.prems by (intro emplace_last) auto
  then show ?case
    using d' fs by (auto simp: add_framesets_append framesets_ids_def simp del: add_framesets.simps(2))
qed (use assms in \<open>simp add: framesets_ids_def\<close>)

lemma new_object_run:
  assumes "st_segments st seg = Some s" "s (''object_'' @ p) = None" "NUL \<notin> set p" "length p < SHMEM_NAME_LEN"
  shows "storage_interface_new_object_with_framesets room True (\<lambda>_. True) junk seg (''object_'' @ p) (int n) st
    = (if n = 0 then Some (room (s(''object_'' @ p \<mapsto> object_new (''object_'' @ p) NO_SAVE PIPE)),
         set_segment seg (s(''object_'' @ p \<mapsto> object_new (''object_'' @ p) NO_SAVE PIPE)) st)
       else do { d \<leftarrow> add_framesets (\<lambda>_. True) junk p [0..<n] (object_new (''object_'' @ p) NO_SAVE PIPE);
         Some (room (s(''object_'' @ p \<mapsto> d)), set_segment seg (s(''object_'' @ p \<mapsto> d)) st) })"
proof -
  obtain q where q: "get_object_postfix (''object_'' @ p) (replicate SHMEM_NAME_LEN NUL) = Some q" "cstr q = Some p"
    using strcpy_to_0 [of p "replicate SHMEM_NAME_LEN NUL"] assms(3,4) by (auto simp: get_object_postfix_def)
  define name where "name = ''object_'' @ p"
  show ?thesis
    using assms(1,2) q unfolding name_def [symmetric]
    by (cases "add_framesets (\<lambda>_. True) junk p [0..<n] (object_new name NO_SAVE PIPE)")
      (auto simp: storage_interface_new_object_with_framesets_def create_shared_def find_shared_def)
qed

text \<open>
  The framesets of a new object are found under the indices of their sources exactly when there are at most ten sources: the
  names are ordered as texts, and \<open>frameset_10\<close> comes before \<open>frameset_2\<close>.
\<close>

theorem framesets_in_source_order:
  assumes "st_segments st seg = Some s" "s (''object_'' @ p) = None" "NUL \<notin> set p" "length p < SHMEM_NAME_LEN"
  shows "\<exists>r st' s' d. storage_interface_new_object_with_framesets room True (\<lambda>_. True) junk seg (''object_'' @ p) (int n) st = Some (r, st')
    \<and> st_segments st' seg = Some s' \<and> s' (''object_'' @ p) = Some d
    \<and> ((\<forall>i < n. arr_get (framesets_ids d) (int i) = Some (frameset_key p i)) \<longleftrightarrow> n \<le> 10)"
proof -
  let ?d = "object_new (''object_'' @ p) NO_SAVE PIPE"
  have empty: "od_framesets ?d = []"
    by (simp add: object_new_def)
  obtain d where d: "add_framesets (\<lambda>_. True) junk p [0..<n] ?d = Some d" "ordered (od_framesets d)"
    using add_framesets_ordered [OF assms(3), of ?d junk n] empty by auto
  have "(\<forall>i < n. arr_get (framesets_ids d) (int i) = Some (frameset_key p i)) \<longleftrightarrow> n \<le> 10"
  proof (cases "n \<le> 10")
    case True
    then have "framesets_ids d = map (frameset_key p) [0..<n]"
      using add_framesets_few [OF assms(3) True empty, of junk] d(1) by auto
    then show ?thesis
      using True by simp
  next
    case False
    have "\<not> (arr_get (framesets_ids d) (int 2) = Some (frameset_key p 2) \<and> arr_get (framesets_ids d) (int 10) = Some (frameset_key p 10))"
      using ordered_nth [OF d(2), of 2 10] frameset_key_10 [of p] by (auto simp: arr_get_def framesets_ids_def split: if_splits)
    moreover have "2 < n" "10 < n"
      using False by simp_all
    ultimately show ?thesis
      using False by blast
  qed
  moreover have "n = 0 \<Longrightarrow> d = ?d"
    using d(1) by simp
  ultimately show ?thesis
    using new_object_run [OF assms, of room junk n] d(1) by (auto simp: set_segment_def)
qed

definition one_segment :: shm_store where
  "one_segment = \<lparr>st_segments = [''boostsegment'' \<mapsto> Map.empty], st_env = None\<rparr>"

theorem framesets_in_source_order_witness:
  "\<exists>r st' s' d. storage_interface_new_object_with_framesets (\<lambda>_. 0) True (\<lambda>_. True) (\<lambda>_. NO_SAVE) ''boostsegment'' (''object_'' @ ''1'') (int 11) one_segment
     = Some (r, st') \<and> st_segments st' ''boostsegment'' = Some s' \<and> s' (''object_'' @ ''1'') = Some d
     \<and> (\<exists>i < 11. arr_get (framesets_ids d) (int i) \<noteq> Some (frameset_key ''1'' i))"
  using framesets_in_source_order [of one_segment "''boostsegment''" Map.empty "''1''" "\<lambda>_. 0" "\<lambda>_. NO_SAVE" 11]
  by (auto simp: one_segment_def NUL_def SHMEM_NAME_LEN_def)

subsection \<open>Frames that are added\<close>

text \<open>An addition: source, number, time of the name, time stamp, image.\<close>

type_synonym addition = "nat \<times> int \<times> clock \<times> int \<times> mat"

definition stored_frame :: "addition \<Rightarrow> string \<times> frame" where
  "stored_frame = (\<lambda>(i, no, c, time, img). (object_id (frame_text i no c), the (frame_new blank_frame (frame_text i no c) NO_SAVE img time no (int i))))"

definition frames_stored :: "nat \<Rightarrow> addition list \<Rightarrow> (string \<times> frame) list" where
  "frames_stored i as = map stored_frame (filter (\<lambda>a. fst a = i) as)"

definition image_fits :: "addition \<Rightarrow> bool" where
  "image_fits = (\<lambda>(i, no, c, time, img). mt_step img * mt_rows img \<le> length (mt_data img))"

fun add_frames :: "(segment \<Rightarrow> u64) \<Rightarrow> frame \<Rightarrow> string \<Rightarrow> string \<Rightarrow> addition list \<Rightarrow> shm_store \<Rightarrow> shm_store option" where
  "add_frames room junk seg name [] st = Some st"
| "add_frames room junk seg name ((i, no, c, time, img) # as) st = do {
     (_, st) \<leftarrow> storage_interface_add_frame_to_object_with_framesets room True junk time c seg name (int i) no img st;
     add_frames room junk seg name as st }"

text \<open>The object holds the frames \<open>as\<close> in the framesets of \<open>n\<close> sources.\<close>

definition object_holds :: "nat \<Rightarrow> string \<Rightarrow> addition list \<Rightarrow> object_descriptor \<Rightarrow> bool" where
  "object_holds n p as d \<longleftrightarrow> ordered (od_framesets d) \<and> framesets_ids d = map (frameset_key p) [0..<n]
     \<and> (\<forall>i < n. ordered (fs_frames (snd (od_framesets d ! i))) \<and> map_of (fs_frames (snd (od_framesets d ! i))) = map_of (frames_stored i as))"

lemma frame_new_junk: "frame_new junk name st img time no src = frame_new blank_frame name st img time no src"
  by (cases junk) (simp add: frame_new_def set_image_def frame_short_def blank_frame_def Let_def)

lemma frame_text_not_object: "frame_text i no c \<noteq> ''object_'' @ p"
  by (simp add: frame_text_def)

lemma add_frame_effect:
  assumes "object_holds n p as d" "i < n" "image_fits (i, no, c, time, img)" "st_segments st seg = Some s" "s (''object_'' @ p) = Some d"
  shows "\<exists>r d'. storage_interface_add_frame_to_object_with_framesets room True junk time c seg (''object_'' @ p) (int i) no img st
      = Some (r, set_segment seg (destroy_shared (frame_text i no c) (s(''object_'' @ p \<mapsto> d'))) st)
    \<and> object_holds n p (as @ [(i, no, c, time, img)]) d'"
proof -
  obtain q b where names: "generate_dt_postfix c (replicate SHMEM_NAME_LEN NUL) = Some q" "cstr q = Some (take 33 (dt_text c))"
    "generate_name_with_src_and_id ''frame'' (int i) no (take 33 (dt_text c)) (replicate SHMEM_NAME_LEN NUL) = Some b"
    "cstr b = Some (frame_text i no c)"
    by (rule frame_name_text)
  obtain f where f: "frame_new junk (frame_text i no c) NO_SAVE img time no (int i) = Some f"
    using assms(3) by (simp add: frame_new_def set_image_def image_fits_def)
  then have sf: "stored_frame (i, no, c, time, img) = (object_id (frame_text i no c), f)"
    using frame_new_junk [of junk] by (simp add: stored_frame_def)
  let ?m = "od_framesets d"
  have len: "length ?m = n" and ord: "ordered ?m" and ids: "framesets_ids d = map fst ?m"
    using assms(1) by (auto simp: object_holds_def framesets_ids_def dest: arg_cong [of _ _ length])
  let ?g = "\<lambda>fs. fs\<lparr>fs_frames := map_emplace (object_id (frame_text i no c)) f (fs_frames fs)\<rparr>"
  define d' where "d' = d\<lparr>od_framesets := ?m[i := (fst (?m ! i), ?g (snd (?m ! i)))]\<rparr>"
  have id: "arr_get (framesets_ids d) (int i) = Some (map fst ?m ! i)" "object_id (map fst ?m ! i) = map fst ?m ! i"
    using assms(1,2) len by (simp_all add: ids object_holds_def framesets_ids_def frameset_key_def object_id_def)
  have "map_update (map fst ?m ! i) (\<lambda>fs. snd (add_frame_to True (frame_text i no c) f fs)) ?m = od_framesets d'"
    using update_nth [OF ord, of i] assms(2) len by (simp add: add_frame_to_def d'_def)
  then have "storage_interface_add_frame_to_object_with_framesets room True junk time c seg (''object_'' @ p) (int i) no img st
      = Some (room (destroy_shared (frame_text i no c) (s(''object_'' @ p \<mapsto> d'))),
          set_segment seg (destroy_shared (frame_text i no c) (s(''object_'' @ p \<mapsto> d'))) st)"
    using assms(4,5) id names f ordered_nth_lookup [OF ord, of i] assms(2) len
    by (simp add: storage_interface_add_frame_to_object_with_framesets_def find_shared_def frameset_of_def d'_def Let_def)
  moreover have "object_holds n p (as @ [(i, no, c, time, img)]) d'"
  proof -
    have ids': "map fst (od_framesets d') = map fst ?m"
      using assms(2) len by (intro nth_equalityI) (auto simp: d'_def nth_list_update)
    have "ordered (fs_frames (snd (od_framesets d' ! j)))
        \<and> map_of (fs_frames (snd (od_framesets d' ! j))) = map_of (frames_stored j (as @ [(i, no, c, time, img)]))" if "j < n" for j
    proof (cases "j = i")
      case True
      have "ordered (fs_frames (snd (?m ! i)))" "map_of (fs_frames (snd (?m ! i))) = map_of (frames_stored i as)"
        using assms(1,2) by (simp_all add: object_holds_def)
      then show ?thesis
        using True assms(2) len sf
        by (auto simp: d'_def frames_stored_def ordered_emplace emplace_lookup map_add_def fun_eq_iff split: option.splits)
    next
      case False
      then show ?thesis
        using assms(1) that by (simp add: d'_def object_holds_def frames_stored_def)
    qed
    moreover have "ordered (od_framesets d')"
      using ord ids' by (simp add: ordered_def)
    ultimately show ?thesis
      using assms(1) ids' by (simp add: object_holds_def framesets_ids_def)
  qed
  ultimately show ?thesis
    by blast
qed

lemma add_one_frame:
  assumes "object_holds n p as d" "i < n" "image_fits (i, no, c, time, img)" "st_segments st seg = Some s" "s (''object_'' @ p) = Some d"
  shows "\<exists>r st' s' d'. storage_interface_add_frame_to_object_with_framesets room True junk time c seg (''object_'' @ p) (int i) no img st = Some (r, st')
    \<and> st_segments st' seg = Some s' \<and> s' (''object_'' @ p) = Some d' \<and> object_holds n p (as @ [(i, no, c, time, img)]) d'"
proof -
  obtain r d' where "storage_interface_add_frame_to_object_with_framesets room True junk time c seg (''object_'' @ p) (int i) no img st
      = Some (r, set_segment seg (destroy_shared (frame_text i no c) (s(''object_'' @ p \<mapsto> d'))) st)"
    "object_holds n p (as @ [(i, no, c, time, img)]) d'"
    using add_frame_effect [OF assms] by blast
  then show ?thesis
    using frame_text_not_object [of i no c p] by (auto simp: set_segment_def destroy_shared_def)
qed

lemma add_frames_holds:
  assumes "object_holds n p as d" "\<forall>a \<in> set bs. fst a < n \<and> image_fits a" "st_segments st seg = Some s" "s (''object_'' @ p) = Some d"
  shows "\<exists>st' s' d'. add_frames room junk seg (''object_'' @ p) bs st = Some st' \<and> st_segments st' seg = Some s'
    \<and> s' (''object_'' @ p) = Some d' \<and> object_holds n p (as @ bs) d'"
  using assms
proof (induction bs arbitrary: as d st s)
  case Nil
  then show ?case by auto
next
  case (Cons b bs)
  obtain i no c time img where b: "b = (i, no, c, time, img)"
    by (cases b)
  obtain r st1 s1 d1 where 1: "storage_interface_add_frame_to_object_with_framesets room True junk time c seg (''object_'' @ p) (int i) no img st = Some (r, st1)"
    "st_segments st1 seg = Some s1" "s1 (''object_'' @ p) = Some d1" "object_holds n p (as @ [b]) d1"
    using add_one_frame [of n p as d i no c time img st seg s room junk] Cons.prems b by auto
  then show ?case
    using Cons.IH [OF 1(4) _ 1(2,3)] Cons.prems(2) b by auto
qed

lemma new_object_holds:
  assumes "st_segments st seg = Some s" "s (''object_'' @ p) = None" "NUL \<notin> set p" "length p < SHMEM_NAME_LEN" "n \<le> 10"
  shows "\<exists>r d. storage_interface_new_object_with_framesets room True (\<lambda>_. True) junk seg (''object_'' @ p) (int n) st
      = Some (r, set_segment seg (s(''object_'' @ p \<mapsto> d)) st) \<and> object_holds n p [] d"
proof -
  let ?d = "object_new (''object_'' @ p) NO_SAVE PIPE" and ?name = "''object_'' @ p"
  have empty: "od_framesets ?d = []"
    by (simp add: object_new_def)
  obtain d where d: "add_framesets (\<lambda>_. True) junk p [0..<n] ?d = Some d" "framesets_ids d = map (frameset_key p) [0..<n]"
    "\<forall>fs \<in> snd ` set (od_framesets d). fs_frames fs = []"
    using add_framesets_few [OF assms(3,5) empty, of junk] by blast
  moreover have "ordered (od_framesets d)"
    using add_framesets_ordered [OF assms(3), of ?d junk n] d(1) empty by auto
  moreover have len: "length (od_framesets d) = n"
    using d(2) by (metis framesets_ids_def length_map length_upt minus_nat.diff_0)
  ultimately have holds: "object_holds n p [] d"
    by (auto simp: object_holds_def frames_stored_def)
  have "n = 0 \<Longrightarrow> d = ?d"
    using d(1) by simp
  then have "storage_interface_new_object_with_framesets room True (\<lambda>_. True) junk seg ?name (int n) st
      = Some (room (s(?name \<mapsto> d)), set_segment seg (s(?name \<mapsto> d)) st)"
    using new_object_run [OF assms(1-4), of room junk n] d(1) by (cases "n = 0") auto
  then show ?thesis
    using holds by blast
qed

text \<open>
  Claim C18. An object made for at most ten sources stores the frames that are added to it: every source finds in its frameset exactly
  its own frames, under their names and with their images, whatever the order of the additions; of two frames with one name the first stays.
\<close>

theorem frames_stored_by_source:
  assumes "st_segments st seg = Some s" "s (''object_'' @ p) = None" "NUL \<notin> set p" "length p < SHMEM_NAME_LEN" "0 < n" "n \<le> 10"
    and "\<forall>a \<in> set as. fst a < n \<and> image_fits a"
  shows "\<exists>r st1 st2 s2 d. storage_interface_new_object_with_framesets room True (\<lambda>_. True) junk seg (''object_'' @ p) (int n) st = Some (r, st1)
    \<and> add_frames room j seg (''object_'' @ p) as st1 = Some st2 \<and> st_segments st2 seg = Some s2 \<and> find_shared (''object_'' @ p) s2 = Some d
    \<and> (\<forall>i < n. \<exists>fs. frameset_of (frameset_key p i) d = Some fs
         \<and> frames_count fs = card (fst ` set (frames_stored i as))
         \<and> (\<forall>name. frame_of name fs = map_of (frames_stored i as) (object_id name)))"
proof -
  let ?name = "''object_'' @ p"
  obtain r d where new: "storage_interface_new_object_with_framesets room True (\<lambda>_. True) junk seg ?name (int n) st
      = Some (r, set_segment seg (s(?name \<mapsto> d)) st)" and holds: "object_holds n p [] d"
    using new_object_holds [OF assms(1-4,6)] by blast
  define st1 where "st1 = set_segment seg (s(?name \<mapsto> d)) st"
  note new = new [folded st1_def]
  obtain st2 s2 d2 where 2: "add_frames room j seg ?name as st1 = Some st2" "st_segments st2 seg = Some s2" "s2 ?name = Some d2"
    "object_holds n p as d2"
    using add_frames_holds [OF holds assms(7), of st1 seg "s(?name \<mapsto> d)" room j] by (auto simp: st1_def set_segment_def)
  have "\<exists>fs. frameset_of (frameset_key p i) d2 = Some fs \<and> frames_count fs = card (fst ` set (frames_stored i as))
      \<and> (\<forall>name. frame_of name fs = map_of (frames_stored i as) (object_id name))" if i: "i < n" for i
  proof -
    let ?fs = "snd (od_framesets d2 ! i)"
    have len: "length (od_framesets d2) = n" and o: "ordered (fs_frames ?fs)" "map_of (fs_frames ?fs) = map_of (frames_stored i as)"
      using 2(4) i by (auto simp: object_holds_def framesets_ids_def dest: arg_cong [of _ _ length])
    have "map fst (od_framesets d2) ! i = frameset_key p i"
      using 2(4) i by (simp add: object_holds_def framesets_ids_def)
    then have "frameset_of (frameset_key p i) d2 = Some ?fs"
      using ordered_nth_lookup [of "od_framesets d2" i] 2(4) i len
      by (simp add: frameset_of_def object_holds_def frameset_key_def object_id_def)
    moreover have "length (fs_frames ?fs) = card (fst ` set (frames_stored i as))"
    proof -
      have "distinct (map fst (fs_frames ?fs))"
        using o(1) unfolding ordered_def strict_sorted_iff by (rule conjunct2)
      then have "card (fst ` set (fs_frames ?fs)) = length (fs_frames ?fs)"
        using distinct_card [of "map fst (fs_frames ?fs)"] by simp
      moreover have "fst ` set (fs_frames ?fs) = fst ` set (frames_stored i as)"
        using o(2) by (metis dom_map_of_conv_image_fst)
      ultimately show ?thesis
        by simp
    qed
    ultimately show ?thesis
      using o(2) by (simp add: frames_count_def frame_of_def)
  qed
  then have found: "\<forall>i < n. \<exists>fs. frameset_of (frameset_key p i) d2 = Some fs \<and> frames_count fs = card (fst ` set (frames_stored i as))
      \<and> (\<forall>name. frame_of name fs = map_of (frames_stored i as) (object_id name))"
    by blast
  have d2: "find_shared ?name s2 = Some d2"
    using 2(3) by (simp add: find_shared_def)
  show ?thesis
    by (rule exI, rule exI, rule exI, rule exI, rule exI, rule conjI [OF new conjI [OF 2(1) conjI [OF 2(2) conjI [OF d2 found]]]])
qed

theorem frames_stored_by_source_witness:
  "\<exists>r st1 st2 s2 d fs f. storage_interface_new_object_with_framesets (\<lambda>_. 0) True (\<lambda>_. True) (\<lambda>_. NO_SAVE) ''boostsegment'' (''object_'' @ ''1'') (int 2) one_segment
     = Some (r, st1) \<and> add_frames (\<lambda>_. 0) blank_frame ''boostsegment'' (''object_'' @ ''1'') [(1, 7, demo_clock 0, 5, demo_mat 2), (0, 7, demo_clock 0, 6, demo_mat 2)] st1 = Some st2
     \<and> st_segments st2 ''boostsegment'' = Some s2 \<and> find_shared (''object_'' @ ''1'') s2 = Some d \<and> frameset_of (frameset_key ''1'' 1) d = Some fs
     \<and> frames_count fs = 1 \<and> frame_of (frame_text 1 7 (demo_clock 0)) fs = Some f \<and> fr_time f = 5 \<and> fr_image f = [1, 2, 3, 4]"
proof -
  let ?as = "[(1, 7, demo_clock 0, 5, demo_mat 2), (0, 7, demo_clock 0, 6, demo_mat 2)]"
  have "frames_stored 1 ?as = [(object_id (frame_text 1 7 (demo_clock 0)), the (frame_new blank_frame (frame_text 1 7 (demo_clock 0)) NO_SAVE (demo_mat 2) 5 7 1))]"
    by (simp add: frames_stored_def stored_frame_def)
  moreover obtain f where f: "frame_new blank_frame (frame_text 1 7 (demo_clock 0)) NO_SAVE (demo_mat 2) 5 7 1 = Some f"
    by (simp add: frame_new_def set_image_def demo_mat_def Let_def)
  moreover have "fr_time f = 5" "fr_image f = [1, 2, 3, 4]"
    using frame_new_fields [OF f] by (simp_all add: demo_mat_def)
  moreover have h: "st_segments one_segment ''boostsegment'' = Some Map.empty" "Map.empty (''object_'' @ ''1'') = None" "NUL \<notin> set ''1''"
    "length ''1'' < SHMEM_NAME_LEN" "(0 :: nat) < 2" "(2 :: nat) \<le> 10" "\<forall>a \<in> set ?as. fst a < 2 \<and> image_fits a"
    by (simp_all add: one_segment_def NUL_def SHMEM_NAME_LEN_def image_fits_def demo_mat_def)
  obtain r st1 st2 s2 d where run: "storage_interface_new_object_with_framesets (\<lambda>_. 0) True (\<lambda>_. True) (\<lambda>_. NO_SAVE) ''boostsegment'' (''object_'' @ ''1'') (int 2) one_segment = Some (r, st1)"
    "add_frames (\<lambda>_. 0) blank_frame ''boostsegment'' (''object_'' @ ''1'') ?as st1 = Some st2" "st_segments st2 ''boostsegment'' = Some s2"
    "find_shared (''object_'' @ ''1'') s2 = Some d"
    and found: "\<forall>i < 2. \<exists>fs. frameset_of (frameset_key ''1'' i) d = Some fs \<and> frames_count fs = card (fst ` set (frames_stored i ?as))
      \<and> (\<forall>name. frame_of name fs = map_of (frames_stored i ?as) (object_id name))"
    using frames_stored_by_source [OF h, of "\<lambda>_. 0" "\<lambda>_. NO_SAVE" blank_frame] by blast
  obtain fs where fs: "frameset_of (frameset_key ''1'' 1) d = Some fs" "frames_count fs = card (fst ` set (frames_stored 1 ?as))"
      "\<forall>name. frame_of name fs = map_of (frames_stored 1 ?as) (object_id name)"
    using found [rule_format, of 1] by auto
  ultimately have "frame_of (frame_text 1 7 (demo_clock 0)) fs = Some f" "frames_count fs = 1" "fr_time f = 5" "fr_image f = [1, 2, 3, 4]"
    by simp_all
  then show ?thesis
    using run fs(1) by blast
qed

text \<open>
  A session with an object leaves no trace: what \<open>free_object\<close> gives back is the segment without the object. An operation on an object
  that is not there ends the program.
\<close>

lemma new_then_free:
  assumes "st_segments st seg = Some s" "s name = None"
  shows "case storage_interface_new_object room ok seg name st of None \<Rightarrow> False
    | Some (_, st') \<Rightarrow> storage_interface_free_object room seg name st' = Some (room s, st'\<lparr>st_segments := (st_segments st)(seg \<mapsto> s)\<rparr>)"
  using assms by (auto simp: storage_interface_new_object_def storage_interface_free_object_def create_shared_def find_shared_def
      destroy_shared_def set_segment_def fun_upd_idem Let_def)

lemma missing_object_faults:
  assumes "st_segments st seg = Some s" "s name = None"
  shows "storage_interface_add_frame_to_object_with_framesets room ok junk now c seg name i no img st = None"
    and "storage_interface_analyze_object_with_framesets elem seg name st = None"
    and "storage_interface_free_object room seg name st = Some (room s, set_segment seg s st)"
  using assms by (simp_all add: storage_interface_add_frame_to_object_with_framesets_def storage_interface_analyze_object_with_framesets_def
      storage_interface_free_object_def find_shared_def Let_def)

end
