(* ===== verification/Processor_Actions.thy ===== *)
theory Processor_Actions imports Collector Storage_Interface begin

section \<open>Modules over a collector and a storage (processor/src/dclprocessor_old.cpp)\<close>

text \<open>
  The first module of a pipeline takes the object the collector has filled and makes a new one, the middle modules work on it, the
  last one frees it. \<open>connect_to_pipeline\<close> prepares a process, runs \<open>pipeline_process\<close> with the action of its type, and cleans up.
  The data of an action is the chunk of the pipeline, a \<open>char\<close> array. What \<open>exec_object\<close> does with an object is an argument; it gets the
  pointer that \<open>storage_interface_get_object\<close> left (\<open>None\<close>: it points nowhere), the segment and the name.
\<close>

subsection \<open>Images\<close>

text \<open>A size becomes an \<open>int\<close> by its low 32 bits; OpenCV rejects negative ones. Types of OpenCV with 8 bits have channels from bit 3 on.\<close>

definition size_to_int :: "u64 \<Rightarrow> int" where
  "size_to_int w = sint (ucast w :: 32 word)"

definition CV_8UC1 :: int where "CV_8UC1 = 0"
definition CV_8UC3 :: int where "CV_8UC3 = 16"
definition CV_8UC4 :: int where "CV_8UC4 = 24"

definition cv_elem :: "int \<Rightarrow> nat" where
  "cv_elem t = nat (t div 8 + 1)"

definition restore_image :: "source_desc \<Rightarrow> u8 list \<Rightarrow> mat option" where
  "restore_image sdesc frame_data = (let rows = size_to_int (sd_height sdesc); cols = size_to_int (sd_width sdesc);
       channels = size_to_int (sd_channels sdesc);
       cv_const = (if channels = 1 then CV_8UC1 else if channels = 3 then CV_8UC3 else CV_8UC4)
     in if rows < 0 \<or> cols < 0 then None
        else Some \<lparr>mt_rows = nat rows, mt_cols = nat cols, mt_type = cv_const, mt_step = nat cols * cv_elem cv_const, mt_data = frame_data\<rparr>)"

subsection \<open>Callbacks of a source\<close>

text \<open>
  \<open>p\<close> is the collector or NULL. The answers: \<open>room\<close> as in \<open>Storage_Interface\<close>, \<open>junk\<close> the memory of the new frame, the time and the clock.
  \<open>save_frame_callback\<close> gives the file it writes. The postfix has twenty bytes, fewer than the text.
\<close>

definition add_frame_callback :: "(segment \<Rightarrow> u64) \<Rightarrow> frame \<Rightarrow> int \<Rightarrow> clock \<Rightarrow> data_collector option \<Rightarrow> nat \<Rightarrow> int \<Rightarrow> u8 list \<Rightarrow>
    shm_store \<Rightarrow> shm_store option" where
  "add_frame_callback room junk now c p source_id frame_id frame_data st = (case p of
     None \<Rightarrow> Some st
   | Some col \<Rightarrow> do {
       sdesc \<leftarrow> ds_sdesc (dc_sources col source_id);
       img \<leftarrow> restore_image sdesc frame_data;
       seg \<leftarrow> cstr (dc_boost_path col);
       name \<leftarrow> cstr (ds_data (dc_sources col source_id));
       (_, st) \<leftarrow> storage_interface_add_frame_to_object_with_framesets room True junk now c seg name (int source_id) frame_id img st;
       Some st })"

definition save_frame_callback :: "clock \<Rightarrow> data_collector option \<Rightarrow> nat \<Rightarrow> int \<Rightarrow> u8 list \<Rightarrow> (string \<times> mat) option option" where
  "save_frame_callback c p source_id frame_id frame_data = (case p of
     None \<Rightarrow> Some None
   | Some col \<Rightarrow> do {
       sdesc \<leftarrow> ds_sdesc (dc_sources col source_id);
       output_path \<leftarrow> cstr (sd_output_path sdesc);
       img \<leftarrow> restore_image sdesc frame_data;
       postfix \<leftarrow> generate_dt_postfix c (replicate 20 NUL);
       postfix \<leftarrow> cstr postfix;
       name \<leftarrow> strcpy_to 0 (output_path @ ''/frame_'' @ show_int (int source_id) @ ''_'' @ postfix @ ''.bmp'') (replicate 256 NUL);
       name \<leftarrow> cstr name;
       Some (Some (name, img)) })"

subsection \<open>Actions\<close>

type_synonym exec_object = "object_descriptor option \<Rightarrow> string \<Rightarrow> string \<Rightarrow> shm_store \<Rightarrow> shm_store option"

definition run_object :: "(segment \<Rightarrow> u64) \<Rightarrow> exec_object \<Rightarrow> string \<Rightarrow> string \<Rightarrow> shm_store \<Rightarrow> shm_store option" where
  "run_object room exec path obj_name st = do {
     seg \<leftarrow> cstr path;
     (_, obj) \<leftarrow> storage_interface_get_object room seg obj_name st;
     exec obj seg obj_name st }"

text \<open>
  The first action: \<open>junk\<close> is the memory of the new framesets, \<open>path\<close> the array \<open>boost_path\<close> of the process. Without a collector the
  name of the new object is not put into the chunk. The status is 0 on every way out.
\<close>

definition first_action :: "(segment \<Rightarrow> u64) \<Rightarrow> (nat \<Rightarrow> storage_type) \<Rightarrow> exec_object \<Rightarrow> clock \<Rightarrow> string \<Rightarrow> data_collector option \<Rightarrow>
    string \<Rightarrow> shm_store \<Rightarrow> (int \<times> string \<times> data_collector option \<times> shm_store) run" where
  "first_action room junk exec c path p data st = (case p of
     Some col \<Rightarrow>
       if dc_exit_flag col \<noteq> 0 then Done (0, data, Some (col\<lparr>dc_empty_ready := sem_post (dc_empty_ready col)\<rparr>), st)
       else (case sem_wait (dc_data_ready col) of None \<Rightarrow> Blocked
         | Some k \<Rightarrow> run_of (do {
             name \<leftarrow> cstr (dc_data col);
             data \<leftarrow> strcpy_to 0 name data;
             buf \<leftarrow> generate_new_object_name c (replicate 256 NUL);
             obj_name \<leftarrow> cstr buf;
             st \<leftarrow> (if dc_use_boost_shmem col \<noteq> 0 then do {
                 seg \<leftarrow> cstr (dc_boost_path col);
                 (_, st) \<leftarrow> storage_interface_new_object_with_framesets room True (\<lambda>_. True) junk seg obj_name (int (dc_sources_cnt col)) st;
                 Some st }
               else Some st);
             st \<leftarrow> run_object room exec path obj_name st;
             cur \<leftarrow> strcpy_to 0 obj_name (dc_data col);
             Some (0, data, Some (col\<lparr>dc_data_ready := k, dc_data := cur, dc_empty_ready := sem_post (dc_empty_ready col)\<rparr>), st) }))
   | None \<Rightarrow> run_of (do {
       buf \<leftarrow> generate_new_object_name c (replicate 256 NUL);
       obj_name \<leftarrow> cstr buf;
       seg \<leftarrow> cstr path;
       (_, st) \<leftarrow> storage_interface_new_object room True seg obj_name st;
       st \<leftarrow> run_object room exec path obj_name st;
       Some (0, data, None, st) }))"

text \<open>The middle action gives what the analysis prints.\<close>

definition middle_action :: "(segment \<Rightarrow> u64) \<Rightarrow> exec_object \<Rightarrow> string \<Rightarrow> string \<Rightarrow> shm_store \<Rightarrow>
    (int \<times> (string \<times> nat \<times> nat option) list \<times> shm_store) option" where
  "middle_action room exec path data st = do {
     obj_name \<leftarrow> cstr data;
     st \<leftarrow> run_object room exec path obj_name st;
     seg \<leftarrow> cstr path;
     out \<leftarrow> storage_interface_analyze_object_with_framesets cv_elem seg obj_name st;
     Some (0, out, st) }"

definition last_action :: "(segment \<Rightarrow> u64) \<Rightarrow> exec_object \<Rightarrow> string \<Rightarrow> string \<Rightarrow> shm_store \<Rightarrow> (int \<times> shm_store) option" where
  "last_action room exec path data st = do {
     obj_name \<leftarrow> cstr data;
     st \<leftarrow> run_object room exec path obj_name st;
     seg \<leftarrow> cstr path;
     (_, st) \<leftarrow> storage_interface_free_object room seg obj_name st;
     Some (0, st) }"

text \<open>What the processes of \<open>dclcomponents\<close> do with an object: the middle one analyses it, the others print its name.\<close>

definition work_first :: exec_object where
  "work_first obj seg obj_name st = Some st"

definition work_middle :: exec_object where
  "work_middle obj seg obj_name st = do { _ \<leftarrow> storage_interface_analyze_object_with_framesets cv_elem seg obj_name st; Some st }"

definition work_last :: exec_object where
  "work_last obj seg obj_name st = Some st"

subsection \<open>Connecting a process\<close>

datatype pc_type = PC_UNDEFINED | PC_FIRST | PC_MIDDLE | PC_LAST

definition processor_path :: "data_collector option \<Rightarrow> string \<Rightarrow> string option" where
  "processor_path p junk = (case p of
     Some col \<Rightarrow> if dc_use_boost_shmem col \<noteq> 0 then do { path \<leftarrow> cstr (dc_boost_path col); strcpy_to 0 path junk }
       else strcpy_to 0 ''boostsegment'' junk
   | None \<Rightarrow> strcpy_to 0 ''boostsegment'' junk)"

definition set_callbacks :: "data_collector \<Rightarrow> data_collector" where
  "set_callbacks col = col\<lparr>dc_sources := (\<lambda>i. if i < dc_sources_cnt col
     then (dc_sources col i)\<lparr>ds_detection := False, ds_add_frame := True, ds_save_frame := True\<rparr> else dc_sources col i)\<rparr>"

text \<open>What comes before \<open>pipeline_process\<close>, which runs the action of the type on the chunks: only the first module does something. \<open>env\<close> says whether \<open>setenv\<close> succeeds.\<close>

definition connect_first :: "(segment \<Rightarrow> u64) \<Rightarrow> bool \<Rightarrow> (nat \<Rightarrow> storage_type) \<Rightarrow> clock \<Rightarrow> string \<Rightarrow> data_collector option \<Rightarrow> shm_store \<Rightarrow>
    (data_collector option \<times> shm_store) option" where
  "connect_first room env junk c path p st = (case p of
     Some col \<Rightarrow> do {
       let col = set_callbacks col;
       data \<leftarrow> generate_new_object_name c (dc_data col);
       let col = col\<lparr>dc_data := data\<rparr>;
       if dc_use_boost_shmem col \<noteq> 0 then do {
         seg \<leftarrow> cstr (dc_boost_path col);
         (_, st) \<leftarrow> storage_interface_init room env seg (storage_interface_destroy seg st);
         obj_name \<leftarrow> cstr data;
         (_, st) \<leftarrow> storage_interface_new_object_with_framesets room True (\<lambda>_. True) junk seg obj_name (int (dc_sources_cnt col)) st;
         Some (Some col, st) }
       else Some (Some col, st) }
   | None \<Rightarrow> do {
       seg \<leftarrow> cstr path;
       (_, st) \<leftarrow> storage_interface_init room env seg (storage_interface_destroy seg st);
       Some (None, st) })"

definition connect_before :: "pc_type \<Rightarrow> (segment \<Rightarrow> u64) \<Rightarrow> bool \<Rightarrow> (nat \<Rightarrow> storage_type) \<Rightarrow> clock \<Rightarrow> string \<Rightarrow> data_collector option \<Rightarrow>
    shm_store \<Rightarrow> (string \<times> data_collector option \<times> shm_store) option" where
  "connect_before type room env junk c mem p st = do {
     path \<leftarrow> processor_path p mem;
     (p, st) \<leftarrow> (if type = PC_FIRST then connect_first room env junk c path p st else Some (p, st));
     Some (path, p, st) }"

text \<open>What comes after it: the last module destroys the memory, and the collector is told to end.\<close>

definition connect_after :: "pc_type \<Rightarrow> (segment \<Rightarrow> u64) \<Rightarrow> string \<Rightarrow> data_collector option \<Rightarrow> shm_store \<Rightarrow> (data_collector option \<times> shm_store) option" where
  "connect_after type room path p st = do {
     st \<leftarrow> (if type \<noteq> PC_LAST then Some st
       else case p of
         Some col \<Rightarrow> if dc_use_boost_shmem col \<noteq> 0 then do {
             seg \<leftarrow> cstr (dc_boost_path col);
             obj_name \<leftarrow> cstr (dc_data col);
             (_, st) \<leftarrow> storage_interface_free_object room seg obj_name st;
             Some (storage_interface_destroy seg st) }
           else do { seg \<leftarrow> cstr path; Some (storage_interface_destroy seg st) }
       | None \<Rightarrow> do { seg \<leftarrow> cstr path; Some (storage_interface_destroy seg st) });
     Some (map_option (\<lambda>col. col\<lparr>dc_exit_flag := 1\<rparr>) p, st) }"

subsection \<open>Ways that fail\<close>

text \<open>
  A first module sets \<open>save_frame_callback\<close> in all sources, and its array is too short for the time: the first frame
  that a source saves is written over the stack.
\<close>

lemma set_callbacks_saves: "i < dc_sources_cnt col \<Longrightarrow> ds_save_frame (dc_sources (set_callbacks col) i)"
  by (simp add: set_callbacks_def)

lemma saving_overflows: "calendar_time c \<Longrightarrow> save_frame_callback c (Some col) i no bytes = None"
  by (auto simp: save_frame_callback_def short_postfix_overflows split: bind_splits)

text \<open>Without a collector the chunk is passed on as it was, whatever the name of the new object.\<close>

lemma first_keeps_chunk: "first_action room junk exec c path None data st = Done (status, data', p, st') \<Longrightarrow> data' = data \<and> p = None"
  by (auto simp: first_action_def run_of_def split: option.splits bind_splits)

text \<open>A middle module that touches the object it is given touches no memory.\<close>

lemma object_pointer_dangles: "(\<And>seg name st. exec None seg name st = None) \<Longrightarrow> run_object room exec path name st = None"
  by (auto simp: run_object_def storage_interface_get_object_def split: bind_splits)

end
