(* ===== verification/Object_Flow.thy ===== *)
theory Object_Flow imports Processor_Actions begin

section \<open>The way of the objects (first, middle and last module together)\<close>

text \<open>
  Three processes share the storage: the first module with its collector, a middle and the last one without. A step is a call of an
  action, or what the threads of the collector do in between: the collector hands the name of the object to the sources, a
  source adds a frame, and the collector reports that all sources have finished with the object. Chunks travel in order, as the
  pipeline keeps them. A source adds frames only while it has the name of the current object; that this is so in the running
  collector is what \<open>Collector_Safety\<close> proves.
\<close>

record flow_state =
  fl_store :: shm_store
  fl_collector :: data_collector
  fl_first :: string
  fl_client :: string
  fl_chunks :: "string list"

datatype flow = F_Names | F_Frame nat int clock int "u8 list" | F_Ready | F_First clock string | F_Middle nat | F_Last

fun give_names :: "nat list \<Rightarrow> data_collector \<Rightarrow> data_collector option" where
  "give_names [] col = Some col"
| "give_names (i # is) col = do {
     name \<leftarrow> cstr (dc_data col);
     data \<leftarrow> strcpy_to 0 name (ds_data (dc_sources col i));
     give_names is (col\<lparr>dc_sources := (dc_sources col)(i := (dc_sources col i)\<lparr>ds_data := data\<rparr>)\<rparr>) }"

definition flow_step :: "(segment \<Rightarrow> u64) \<Rightarrow> (nat \<Rightarrow> storage_type) \<Rightarrow> frame \<Rightarrow> flow \<Rightarrow> flow_state \<Rightarrow> flow_state run" where
  "flow_step room junk fjunk x s = (let col = fl_collector s; st = fl_store s in case x of
     F_Names \<Rightarrow> (case sem_wait (dc_empty_ready col) of None \<Rightarrow> Blocked
       | Some k \<Rightarrow> run_of (do { col \<leftarrow> give_names [0..<dc_sources_cnt col] (col\<lparr>dc_empty_ready := k\<rparr>); Some (s\<lparr>fl_collector := col\<rparr>) }))
   | F_Frame i no c now bytes \<Rightarrow>
       if i < dc_sources_cnt col \<and> cstr (ds_data (dc_sources col i)) = cstr (dc_data col)
       then run_of (do { st \<leftarrow> add_frame_callback room fjunk now c (Some col) i no bytes st; Some (s\<lparr>fl_store := st\<rparr>) })
       else Blocked
   | F_Ready \<Rightarrow> Done (s\<lparr>fl_collector := col\<lparr>dc_data_ready := sem_post (dc_data_ready col)\<rparr>\<rparr>)
   | F_First c data \<Rightarrow> bind_run (first_action room junk work_first c (fl_first s) (Some col) data st) (\<lambda>(status, data, p, st).
       case p of None \<Rightarrow> Fault | Some col \<Rightarrow> Done (s\<lparr>fl_store := st, fl_collector := col, fl_chunks := fl_chunks s @ [data]\<rparr>))
   | F_Middle i \<Rightarrow> if length (fl_chunks s) \<le> i then Blocked
       else run_of (do { (_, _, st) \<leftarrow> middle_action room work_middle (fl_client s) (fl_chunks s ! i) st; Some (s\<lparr>fl_store := st\<rparr>) })
   | F_Last \<Rightarrow> (case fl_chunks s of [] \<Rightarrow> Blocked
       | data # chunks \<Rightarrow> run_of (do { (_, st) \<leftarrow> last_action room work_last (fl_client s) data st;
           Some (s\<lparr>fl_store := st, fl_chunks := chunks\<rparr>) })))"

subsection \<open>What it promises\<close>

text \<open>
  The abstract state is the object that is being filled and the queue of those on their way, each with the frames it got. A step of the first
  module moves the current object into the queue, one of the last takes the oldest away.
\<close>

type_synonym object_log = "string \<times> addition list"

definition clock_object :: "clock \<Rightarrow> string" where
  "clock_object c = ''object_'' @ dt_text c"

fun log_step :: "(nat \<Rightarrow> source_desc) \<Rightarrow> flow \<Rightarrow> object_log \<times> object_log list \<Rightarrow> object_log \<times> object_log list" where
  "log_step descs (F_First c data) (cur, q) = ((clock_object c, []), q @ [cur])"
| "log_step descs (F_Frame i no c now bytes) ((name, as), q) = ((name, as @ [(i, no, c, now, the (restore_image (descs i) bytes))]), q)"
| "log_step descs F_Last (cur, q) = (cur, tl q)"
| "log_step descs x (cur, q) = (cur, q)"

text \<open>
  The names that have been given are those of clocks in \<open>cs\<close>. In the segment there are the objects of the log and no others, and each holds
  its frames.
\<close>

definition log_stored :: "nat \<Rightarrow> object_log \<Rightarrow> segment \<Rightarrow> bool" where
  "log_stored n l s \<longleftrightarrow> (\<exists>c d. calendar_time c \<and> fst l = clock_object c \<and> s (fst l) = Some d \<and> object_holds n (dt_text c) (snd l) d)"

definition store_rep :: "nat \<Rightarrow> shm_store \<Rightarrow> object_log list \<Rightarrow> bool" where
  "store_rep n st logs \<longleftrightarrow> distinct (map fst logs)
     \<and> (\<exists>seg. st_segments st ''boostsegment'' = Some seg \<and> dom seg = fst ` set logs \<and> (\<forall>l \<in> set logs. log_stored n l seg))"

definition collector_rep :: "nat \<Rightarrow> (nat \<Rightarrow> source_desc) \<Rightarrow> data_collector \<Rightarrow> string \<Rightarrow> bool" where
  "collector_rep n descs col name \<longleftrightarrow> dc_sources_cnt col = n \<and> dc_exit_flag col = 0 \<and> dc_use_boost_shmem col \<noteq> 0
     \<and> cstr (dc_boost_path col) = Some ''boostsegment'' \<and> length (dc_data col) = 256 \<and> cstr (dc_data col) = Some name \<and> length name < 256
     \<and> (\<forall>i < n. ds_sdesc (dc_sources col i) = Some (descs i) \<and> length (ds_data (dc_sources col i)) = 256)"

definition flow_rep :: "nat \<Rightarrow> (nat \<Rightarrow> source_desc) \<Rightarrow> flow_state \<Rightarrow> object_log \<times> object_log list \<Rightarrow> bool" where
  "flow_rep n descs s a \<longleftrightarrow> collector_rep n descs (fl_collector s) (fst (fst a)) \<and> store_rep n (fl_store s) (fst a # snd a)
     \<and> cstr (fl_first s) = Some ''boostsegment'' \<and> cstr (fl_client s) = Some ''boostsegment''
     \<and> map cstr (fl_chunks s) = map (\<lambda>l. Some (fst l)) (snd a)"

text \<open>A new name is not in use, the chunk has room for a name, and the bytes of a frame are as many as its description says.\<close>

definition flow_ok :: "nat \<Rightarrow> (nat \<Rightarrow> source_desc) \<Rightarrow> flow \<Rightarrow> object_log \<times> object_log list \<Rightarrow> bool" where
  "flow_ok n descs x a \<longleftrightarrow> (case x of
     F_First c data \<Rightarrow> calendar_time c \<and> clock_object c \<notin> fst ` set (fst a # snd a) \<and> 33 < length data
   | F_Frame i no c now bytes \<Rightarrow> (\<exists>img. restore_image (descs i) bytes = Some img \<and> image_fits (i, no, c, now, img))
   | _ \<Rightarrow> True)"

subsection \<open>The storage\<close>

lemma log_stored_other: "log_stored n l s \<Longrightarrow> fst l \<noteq> name \<Longrightarrow> log_stored n l (s(name := x))"
  by (auto simp: log_stored_def)

lemma log_stored_others:
  "\<forall>l \<in> set logs. log_stored n l s \<Longrightarrow> name \<notin> fst ` set logs \<Longrightarrow> \<forall>l \<in> set logs. log_stored n l (s(name := x))"
  by (metis image_eqI log_stored_other)

lemma store_rep_perm: "store_rep n st logs \<Longrightarrow> mset logs = mset logs' \<Longrightarrow> store_rep n st logs'"
proof -
  assume s: "store_rep n st logs" "mset logs = mset logs'"
  then have "distinct (map fst logs')"
    by (metis store_rep_def distinct_map mset_eq_imp_distinct_iff set_mset_mset)
  moreover have "set logs' = set logs"
    using s(2) by (metis set_mset_mset)
  ultimately show ?thesis
    using s(1) by (simp add: store_rep_def)
qed

lemma clock_object_length: "calendar_time c \<Longrightarrow> length (clock_object c) = 33"
  using dt_text_length [of c] by (simp add: clock_object_def)

lemma store_new:
  assumes "store_rep n st logs" "calendar_time c" "clock_object c \<notin> fst ` set logs" "n \<le> 10"
  shows "\<exists>r st'. storage_interface_new_object_with_framesets room True (\<lambda>_. True) junk ''boostsegment'' (clock_object c) (int n) st = Some (r, st')
    \<and> store_rep n st' ((clock_object c, []) # logs)"
proof -
  obtain seg where seg: "st_segments st ''boostsegment'' = Some seg" "dom seg = fst ` set logs" "\<forall>l \<in> set logs. log_stored n l seg"
    using assms(1) by (auto simp: store_rep_def)
  have new: "seg (''object_'' @ dt_text c) = None"
    using seg(2) assms(3) by (auto simp: clock_object_def)
  obtain r d where d: "storage_interface_new_object_with_framesets room True (\<lambda>_. True) junk ''boostsegment'' (''object_'' @ dt_text c) (int n) st
      = Some (r, set_segment ''boostsegment'' (seg(''object_'' @ dt_text c \<mapsto> d)) st)" "object_holds n (dt_text c) [] d"
    using new_object_holds [OF seg(1) new dt_text_no_NUL _ assms(4), of room junk] dt_text_length [OF assms(2)] by (auto simp: SHMEM_NAME_LEN_def)
  let ?name = "clock_object c"
  have "\<forall>l \<in> set logs. log_stored n l (seg(?name \<mapsto> d))"
    using log_stored_others [OF seg(3) assms(3)] .
  moreover have "log_stored n (?name, []) (seg(?name \<mapsto> d))"
    using d(2) assms(2) by (auto simp: log_stored_def)
  ultimately have "store_rep n (set_segment ''boostsegment'' (seg(?name \<mapsto> d)) st) ((?name, []) # logs)"
    using assms(1,3) seg(2) by (auto simp: store_rep_def set_segment_def)
  then show ?thesis
    using d(1) unfolding clock_object_def by blast
qed

lemma store_add:
  assumes "store_rep n st ((name, as) # logs)" "i < n" "image_fits (i, no, c, now, img)"
  shows "\<exists>r st'. storage_interface_add_frame_to_object_with_framesets room True junk now c ''boostsegment'' name (int i) no img st = Some (r, st')
    \<and> store_rep n st' ((name, as @ [(i, no, c, now, img)]) # logs)"
proof -
  obtain seg where seg: "st_segments st ''boostsegment'' = Some seg" "dom seg = insert name (fst ` set logs)" "\<forall>l \<in> set logs. log_stored n l seg"
    and cur: "log_stored n (name, as) seg"
    using assms(1) by (auto simp: store_rep_def)
  obtain o_c d where d: "calendar_time o_c" "name = ''object_'' @ dt_text o_c" "seg name = Some d" "object_holds n (dt_text o_c) as d"
    using cur by (auto simp: log_stored_def clock_object_def)
  obtain r d' where d': "storage_interface_add_frame_to_object_with_framesets room True junk now c ''boostsegment'' name (int i) no img st
      = Some (r, set_segment ''boostsegment'' (destroy_shared (frame_text i no c) (seg(name \<mapsto> d'))) st)"
    "object_holds n (dt_text o_c) (as @ [(i, no, c, now, img)]) d'"
    using add_frame_effect [OF d(4) assms(2,3) seg(1), of room junk] d(2,3) by auto
  have logs: "name \<notin> fst ` set logs" "\<forall>l \<in> set logs. \<exists>p. fst l = ''object_'' @ p"
    using assms(1) seg(3) by (auto simp: store_rep_def log_stored_def clock_object_def)
  have frame: "frame_text i no c \<notin> insert name (fst ` set logs)"
    using logs(2) d(2) frame_text_not_object [of i no c] by force
  then have seg': "destroy_shared (frame_text i no c) (seg(name \<mapsto> d')) = seg(name \<mapsto> d')"
    using seg(2) by (auto simp: destroy_shared_def fun_eq_iff domIff)
  have "\<forall>l \<in> set logs. log_stored n l (seg(name \<mapsto> d'))"
    using log_stored_others [OF seg(3) logs(1)] .
  moreover have "log_stored n (name, as @ [(i, no, c, now, img)]) (seg(name \<mapsto> d'))"
    using d(1,2) d'(2) by (auto simp: log_stored_def clock_object_def)
  ultimately have "store_rep n (set_segment ''boostsegment'' (seg(name \<mapsto> d')) st) ((name, as @ [(i, no, c, now, img)]) # logs)"
    using assms(1) seg(2) by (auto simp: store_rep_def set_segment_def)
  then show ?thesis
    using d'(1) unfolding seg' by blast
qed

lemma store_free:
  assumes "store_rep n st (l # logs)"
  shows "\<exists>r st'. storage_interface_free_object room ''boostsegment'' (fst l) st = Some (r, st') \<and> store_rep n st' logs"
proof -
  obtain seg d where seg: "st_segments st ''boostsegment'' = Some seg" "dom seg = fst ` set (l # logs)" "\<forall>l \<in> set logs. log_stored n l seg"
    "seg (fst l) = Some d" "fst l \<notin> fst ` set logs"
    using assms by (auto simp: store_rep_def log_stored_def)
  have "storage_interface_free_object room ''boostsegment'' (fst l) st
      = Some (room (seg(fst l := None)), set_segment ''boostsegment'' (seg(fst l := None)) st)"
    using seg(1,4) by (simp add: storage_interface_free_object_def find_shared_def destroy_shared_def Let_def)
  moreover have "\<forall>m \<in> set logs. log_stored n m (seg(fst l := None))"
    using log_stored_others [OF seg(3,5)] .
  then have "store_rep n (set_segment ''boostsegment'' (seg(fst l := None)) st) logs"
    using assms seg(2,5) by (auto simp: store_rep_def set_segment_def)
  ultimately show ?thesis
    by blast
qed

lemma store_find:
  assumes "store_rep n st logs" "l \<in> set logs"
  shows "\<exists>out. storage_interface_analyze_object_with_framesets elem ''boostsegment'' (fst l) st = Some out"
proof -
  obtain seg d where "st_segments st ''boostsegment'' = Some seg" "seg (fst l) = Some d"
    using assms by (auto simp: store_rep_def log_stored_def)
  then show ?thesis
    by (simp add: storage_interface_analyze_object_with_framesets_def find_shared_def)
qed

lemma store_get: "store_rep n st logs \<Longrightarrow> \<exists>r. storage_interface_get_object room ''boostsegment'' name st = Some (r, None)"
  by (auto simp: store_rep_def storage_interface_get_object_def)

subsection \<open>The steps\<close>

lemma collector_rep_update:
  "collector_rep n descs (col\<lparr>dc_data_ready := k\<rparr>) name \<longleftrightarrow> collector_rep n descs col name"
  "collector_rep n descs (col\<lparr>dc_empty_ready := k\<rparr>) name \<longleftrightarrow> collector_rep n descs col name"
  by (simp_all add: collector_rep_def)

lemma give_names_rep:
  "collector_rep n descs col name \<Longrightarrow> \<forall>i \<in> set is. i < n \<Longrightarrow> \<exists>col'. give_names is col = Some col' \<and> collector_rep n descs col' name"
proof (induction "is" arbitrary: col)
  case (Cons i "is")
  then have c: "cstr (dc_data col) = Some name" "length name < length (ds_data (dc_sources col i))"
    by (auto simp: collector_rep_def)
  then obtain data where data: "strcpy_to 0 name (ds_data (dc_sources col i)) = Some data" "length data = length (ds_data (dc_sources col i))"
    using strcpy_to_0 [OF c(2)] by auto
  have "collector_rep n descs (col\<lparr>dc_sources := (dc_sources col)(i := (dc_sources col i)\<lparr>ds_data := data\<rparr>)\<rparr>) name"
    using Cons.prems data(2) by (auto simp: collector_rep_def)
  from Cons.IH [OF this] show ?case
    using Cons.prems(2) c(1) data(1) by auto
qed simp

lemma names_step:
  assumes "flow_rep n descs s a"
  shows "case flow_step room junk fjunk F_Names s of Fault \<Rightarrow> False | Blocked \<Rightarrow> True | Done s' \<Rightarrow> flow_rep n descs s' a"
proof -
  have col: "collector_rep n descs (fl_collector s) (fst (fst a))"
    using assms by (simp add: flow_rep_def)
  then have cnt: "dc_sources_cnt (fl_collector s) = n"
    by (simp add: collector_rep_def)
  show ?thesis
  proof (cases "sem_wait (dc_empty_ready (fl_collector s))")
    case (Some k)
    obtain col' where "give_names [0..<n] ((fl_collector s)\<lparr>dc_empty_ready := k\<rparr>) = Some col'" "collector_rep n descs col' (fst (fst a))"
      using give_names_rep [of n descs "(fl_collector s)\<lparr>dc_empty_ready := k\<rparr>" "fst (fst a)" "[0..<n]"] col
      by (auto simp: collector_rep_update)
    then show ?thesis
      using assms Some cnt by (simp add: flow_step_def flow_rep_def Let_def)
  qed (simp add: flow_step_def Let_def)
qed

lemma source_frame_step:
  assumes "flow_rep n descs s a" "flow_ok n descs (F_Frame i no c now bytes) a"
  shows "case flow_step room junk fjunk (F_Frame i no c now bytes) s of Fault \<Rightarrow> False | Blocked \<Rightarrow> True
    | Done s' \<Rightarrow> flow_rep n descs s' (log_step descs (F_Frame i no c now bytes) a)"
proof (cases "i < dc_sources_cnt (fl_collector s) \<and> cstr (ds_data (dc_sources (fl_collector s) i)) = cstr (dc_data (fl_collector s))")
  case True
  obtain name "as" q where a: "a = ((name, as), q)"
    by (cases a) auto
  have col: "collector_rep n descs (fl_collector s) name" and st: "store_rep n (fl_store s) ((name, as) # q)"
    using assms(1) a by (simp_all add: flow_rep_def)
  obtain img where img: "restore_image (descs i) bytes = Some img" "image_fits (i, no, c, now, img)"
    using assms(2) by (auto simp: flow_ok_def)
  have i: "i < n" "ds_sdesc (dc_sources (fl_collector s) i) = Some (descs i)" "cstr (ds_data (dc_sources (fl_collector s) i)) = Some name"
    "cstr (dc_boost_path (fl_collector s)) = Some ''boostsegment''" "cstr (dc_data (fl_collector s)) = Some name" "i < dc_sources_cnt (fl_collector s)"
    using col True by (auto simp: collector_rep_def)
  obtain r st' where add: "storage_interface_add_frame_to_object_with_framesets room True fjunk now c ''boostsegment'' name (int i) no img (fl_store s) = Some (r, st')"
    "store_rep n st' ((name, as @ [(i, no, c, now, img)]) # q)"
    using store_add [OF st i(1) img(2)] by blast
  have "flow_step room junk fjunk (F_Frame i no c now bytes) s = Done (s\<lparr>fl_store := st'\<rparr>)"
    using i img(1) add(1) by (simp add: flow_step_def add_frame_callback_def Let_def)
  then show ?thesis
    using assms(1) add(2) img(1) by (simp add: a flow_rep_def)
qed (auto simp: flow_step_def Let_def)

lemma run_object_works:
  assumes "cstr path = Some ''boostsegment''" "store_rep n st logs" "exec None ''boostsegment'' name st = Some st"
  shows "run_object room exec path name st = Some st"
  using store_get [OF assms(2), of room name] assms(1,3) by (auto simp: run_object_def)

lemma first_step:
  assumes "flow_rep n descs s a" "flow_ok n descs (F_First c data) a" "n \<le> 10"
  shows "case flow_step room junk fjunk (F_First c data) s of Fault \<Rightarrow> False | Blocked \<Rightarrow> True
    | Done s' \<Rightarrow> flow_rep n descs s' (log_step descs (F_First c data) a)"
proof -
  obtain cur q where a: "a = (cur, q)"
    by (cases a) auto
  have col: "collector_rep n descs (fl_collector s) (fst cur)" and st: "store_rep n (fl_store s) (cur # q)"
    and path: "cstr (fl_first s) = Some ''boostsegment''"
    using assms(1) a by (simp_all add: flow_rep_def)
  have ok: "calendar_time c" "clock_object c \<notin> fst ` set (cur # q)" "33 < length data"
    using assms(2) a by (auto simp: flow_ok_def)
  obtain cc where cc: "fst cur = clock_object cc" "calendar_time cc"
    using st by (auto simp: store_rep_def log_stored_def)
  have c: "dc_exit_flag (fl_collector s) = 0" "cstr (dc_data (fl_collector s)) = Some (fst cur)" "dc_use_boost_shmem (fl_collector s) \<noteq> 0"
    "cstr (dc_boost_path (fl_collector s)) = Some ''boostsegment''" "dc_sources_cnt (fl_collector s) = n" "length (dc_data (fl_collector s)) = 256"
    using col by (auto simp: collector_rep_def)
  have "length (fst cur) < length data"
    using ok(3) cc clock_object_length by simp
  then obtain data' where data': "strcpy_to 0 (fst cur) data = Some data'" "cstr data' = Some (fst cur)"
    using strcpy_to_0 [of "fst cur" data] cstr_no_NUL [OF c(2)] by auto
  obtain buf where buf: "generate_new_object_name c (replicate 256 NUL) = Some buf" "cstr buf = Some (clock_object c)"
    using object_name_text [OF ok(1), of "replicate 256 NUL"] by (auto simp: clock_object_def)
  obtain r st' where new: "storage_interface_new_object_with_framesets room True (\<lambda>_. True) junk ''boostsegment'' (clock_object c) (int n) (fl_store s) = Some (r, st')"
    "store_rep n st' ((clock_object c, []) # cur # q)"
    using store_new [OF st ok(1,2) assms(3)] by blast
  have run: "run_object room work_first (fl_first s) (clock_object c) st' = Some st'"
    using run_object_works [OF path new(2)] by (simp add: work_first_def)
  have "length (clock_object c) < length (dc_data (fl_collector s))"
    using clock_object_length [OF ok(1)] c(6) by simp
  then obtain d where d: "strcpy_to 0 (clock_object c) (dc_data (fl_collector s)) = Some d" "cstr d = Some (clock_object c)" "length d = 256"
    using strcpy_to_0 [of "clock_object c" "dc_data (fl_collector s)"] cstr_no_NUL [OF buf(2)] c(6) by auto
  have st'': "store_rep n st' ((clock_object c, []) # q @ [cur])"
    using store_rep_perm [OF new(2)] by simp
  show ?thesis
  proof (cases "sem_wait (dc_data_ready (fl_collector s))")
    case (Some k)
    let ?col = "(fl_collector s)\<lparr>dc_data_ready := k, dc_data := d, dc_empty_ready := sem_post (dc_empty_ready (fl_collector s))\<rparr>"
    have "collector_rep n descs ?col (clock_object c)"
      using col d clock_object_length [OF ok(1)] by (simp add: collector_rep_def)
    moreover have "flow_step room junk fjunk (F_First c data) s
        = Done (s\<lparr>fl_store := st', fl_collector := ?col, fl_chunks := fl_chunks s @ [data']\<rparr>)"
      using Some c data' buf new(1) run d by (simp add: flow_step_def first_action_def Let_def)
    ultimately show ?thesis
      using assms(1) st'' data'(2) by (simp add: a flow_rep_def)
  qed (use c in \<open>simp add: flow_step_def first_action_def Let_def\<close>)
qed

lemma chunk_name:
  assumes "flow_rep n descs s a" "i < length (fl_chunks s)"
  shows "i < length (snd a)" "cstr (fl_chunks s ! i) = Some (fst (snd a ! i))" "snd a ! i \<in> set (snd a)"
proof -
  have m: "map cstr (fl_chunks s) = map (\<lambda>l. Some (fst l)) (snd a)"
    using assms(1) by (simp add: flow_rep_def)
  then show "i < length (snd a)"
    using assms(2) map_eq_imp_length_eq by fastforce
  then show "cstr (fl_chunks s ! i) = Some (fst (snd a ! i))" "snd a ! i \<in> set (snd a)"
    using m assms(2) by (metis nth_map, simp)
qed

lemma middle_step:
  assumes "flow_rep n descs s a"
  shows "case flow_step room junk fjunk (F_Middle i) s of Fault \<Rightarrow> False | Blocked \<Rightarrow> True | Done s' \<Rightarrow> flow_rep n descs s' a"
proof (cases "i < length (fl_chunks s)")
  case True
  let ?name = "fst (snd a ! i)"
  have st: "store_rep n (fl_store s) (fst a # snd a)" "cstr (fl_client s) = Some ''boostsegment''"
    using assms by (simp_all add: flow_rep_def)
  obtain out where out: "storage_interface_analyze_object_with_framesets cv_elem ''boostsegment'' ?name (fl_store s) = Some out"
    using store_find [OF st(1), of "snd a ! i"] chunk_name(3) [OF assms True] by auto
  have "run_object room work_middle (fl_client s) ?name (fl_store s) = Some (fl_store s)"
    using run_object_works [OF st(2,1)] out by (simp add: work_middle_def)
  then have "flow_step room junk fjunk (F_Middle i) s = Done s"
    using True chunk_name(2) [OF assms True] out st(2) by (simp add: flow_step_def middle_action_def Let_def)
  then show ?thesis
    using assms by simp
qed (simp add: flow_step_def Let_def)

lemma last_step:
  assumes "flow_rep n descs s a"
  shows "case flow_step room junk fjunk F_Last s of Fault \<Rightarrow> False | Blocked \<Rightarrow> True | Done s' \<Rightarrow> flow_rep n descs s' (log_step descs F_Last a)"
proof (cases "fl_chunks s")
  case (Cons data chunks)
  obtain cur l q where a: "a = (cur, l # q)" "cstr data = Some (fst l)"
    using assms Cons by (cases a; cases "snd a") (auto simp: flow_rep_def)
  have st: "store_rep n (fl_store s) (cur # l # q)" "cstr (fl_client s) = Some ''boostsegment''"
    using assms a by (simp_all add: flow_rep_def)
  obtain r st' where free: "storage_interface_free_object room ''boostsegment'' (fst l) (fl_store s) = Some (r, st')" "store_rep n st' (cur # q)"
    using store_free [of n "fl_store s" l "cur # q" room] store_rep_perm [OF st(1), of "l # cur # q"] by auto
  have "run_object room work_last (fl_client s) (fst l) (fl_store s) = Some (fl_store s)"
    using run_object_works [OF st(2,1)] by (simp add: work_last_def)
  then have "flow_step room junk fjunk F_Last s = Done (s\<lparr>fl_store := st', fl_chunks := chunks\<rparr>)"
    using Cons a(2) st(2) free(1) by (simp add: flow_step_def last_action_def Let_def)
  then show ?thesis
    using assms free(2) Cons a(1) by (simp add: flow_rep_def)
qed (simp add: flow_step_def Let_def)

lemma log_step_same [simp]: "log_step descs F_Names a = a" "log_step descs F_Ready a = a" "log_step descs (F_Middle i) a = a"
  by (cases a; simp)+

lemma flow_step_simulates:
  assumes "flow_rep n descs s a" "flow_ok n descs x a" "n \<le> 10"
  shows "case flow_step room junk fjunk x s of Fault \<Rightarrow> False | Blocked \<Rightarrow> True | Done s' \<Rightarrow> flow_rep n descs s' (log_step descs x a)"
proof (cases x)
  case F_Names
  show ?thesis
    unfolding F_Names log_step_same by (rule names_step [OF assms(1)])
next
  case (F_Frame i no c now bytes)
  show ?thesis
    using assms(2) unfolding F_Frame by (rule source_frame_step [OF assms(1)])
next
  case F_Ready
  then show ?thesis
    using assms(1) by (simp add: flow_step_def flow_rep_def collector_rep_update Let_def)
next
  case (F_First c data)
  show ?thesis
    using assms(2) unfolding F_First by (rule first_step [OF assms(1) _ assms(3)])
next
  case (F_Middle i)
  show ?thesis
    unfolding F_Middle log_step_same by (rule middle_step [OF assms(1)])
next
  case F_Last
  show ?thesis
    unfolding F_Last by (rule last_step [OF assms(1)])
qed

subsection \<open>Runs\<close>

fun run_list :: "('x \<Rightarrow> 's \<Rightarrow> 's run) \<Rightarrow> 'x list \<Rightarrow> 's \<Rightarrow> 's run" where
  "run_list step [] s = Done s"
| "run_list step (x # xs) s = bind_run (step x s) (run_list step xs)"

fun all_ok :: "('x \<Rightarrow> 'a \<Rightarrow> bool) \<Rightarrow> ('x \<Rightarrow> 'a \<Rightarrow> 'a) \<Rightarrow> 'x list \<Rightarrow> 'a \<Rightarrow> bool" where
  "all_ok ok astep [] a = True"
| "all_ok ok astep (x # xs) a \<longleftrightarrow> ok x a \<and> all_ok ok astep xs (astep x a)"

text \<open>A forward simulation: a step from represented states waits or leads to represented states, and so does a run.\<close>

locale forward_simulation =
  fixes rep :: "'s \<Rightarrow> 'a \<Rightarrow> bool" and step :: "'x \<Rightarrow> 's \<Rightarrow> 's run" and astep :: "'x \<Rightarrow> 'a \<Rightarrow> 'a" and ok :: "'x \<Rightarrow> 'a \<Rightarrow> bool"
  assumes simulates: "rep s a \<Longrightarrow> ok x a \<Longrightarrow> case step x s of Fault \<Rightarrow> False | Blocked \<Rightarrow> True | Done s' \<Rightarrow> rep s' (astep x a)"
begin

lemma simulates_run:
  "rep s a \<Longrightarrow> all_ok ok astep xs a \<Longrightarrow> case run_list step xs s of Fault \<Rightarrow> False | Blocked \<Rightarrow> True | Done s' \<Rightarrow> rep s' (fold astep xs a)"
proof (induction xs arbitrary: s a)
  case (Cons x xs)
  show ?case
  proof (cases "step x s")
    case (Done s1)
    then show ?thesis
      using simulates [OF Cons.prems(1), of x] Cons.prems(2) Cons.IH [of s1 "astep x a"] by (simp split: run.splits)
  qed (use simulates [OF Cons.prems(1), of x] Cons.prems(2) in simp_all)
qed simp

end

interpretation objects: forward_simulation "flow_rep n descs" "flow_step room junk fjunk" "log_step descs" "\<lambda>x a. n \<le> 10 \<and> flow_ok n descs x a"
  for n descs room junk fjunk
  by unfold_locales (simp add: flow_step_simulates)

fun flow_clocks :: "flow list \<Rightarrow> clock list" where
  "flow_clocks [] = []"
| "flow_clocks (F_First c data # xs) = c # flow_clocks xs"
| "flow_clocks (_ # xs) = flow_clocks xs"

definition flow_fits :: "(nat \<Rightarrow> source_desc) \<Rightarrow> flow \<Rightarrow> bool" where
  "flow_fits descs x \<longleftrightarrow> (case x of
     F_First c data \<Rightarrow> calendar_time c \<and> 33 < length data
   | F_Frame i no c now bytes \<Rightarrow> (\<exists>img. restore_image (descs i) bytes = Some img \<and> image_fits (i, no, c, now, img))
   | _ \<Rightarrow> True)"

lemma clock_object_inj: "calendar_time c \<Longrightarrow> calendar_time d \<Longrightarrow> clock_object c = clock_object d \<Longrightarrow> c = d"
  using dt_text_inj by (simp add: clock_object_def)

lemma log_step_names: "fst ` set (fst (log_step descs x a) # snd (log_step descs x a))
    \<subseteq> fst ` set (fst a # snd a) \<union> (case x of F_First c data \<Rightarrow> {clock_object c} | _ \<Rightarrow> {})"
proof (cases a)
  case (Pair cur q)
  show ?thesis
  proof (cases x)
    case F_Last
    have "set (tl q) \<subseteq> set q"
      by (cases q) auto
    then show ?thesis
      using Pair F_Last by auto
  qed (use Pair in \<open>cases cur; auto\<close>)+
qed

lemma flow_all_ok:
  assumes "\<forall>x \<in> set xs. flow_fits descs x" "distinct (flow_clocks xs)"
    and "\<forall>c \<in> set (flow_clocks xs). clock_object c \<notin> fst ` set (fst a # snd a)" "n \<le> 10"
  shows "all_ok (\<lambda>x a. n \<le> 10 \<and> flow_ok n descs x a) (log_step descs) xs a"
  using assms
proof (induction xs arbitrary: a)
  case (Cons x xs)
  have cal: "\<forall>c \<in> set (flow_clocks ys). calendar_time c" if "\<forall>x \<in> set ys. flow_fits descs x" for ys
    using that by (induction ys rule: flow_clocks.induct) (auto simp: flow_fits_def)
  have "flow_ok n descs x a"
    using Cons.prems by (cases x) (auto simp: flow_ok_def flow_fits_def)
  moreover have "\<forall>c \<in> set (flow_clocks xs). clock_object c \<notin> fst ` set (fst (log_step descs x a) # snd (log_step descs x a))"
  proof
    fix c
    assume c: "c \<in> set (flow_clocks xs)"
    then have "c \<in> set (flow_clocks (x # xs))"
      by (cases x) auto
    then have "clock_object c \<notin> fst ` set (fst a # snd a)"
      using Cons.prems(3) by blast
    moreover have "clock_object c \<noteq> clock_object d" if "x = F_First d data" for d data
      using that c Cons.prems(1,2) cal [of xs] clock_object_inj [of c d] by (auto simp: flow_fits_def)
    ultimately have "clock_object c \<notin> fst ` set (fst a # snd a) \<union> (case x of F_First d data \<Rightarrow> {clock_object d} | _ \<Rightarrow> {})"
      by (cases x) simp_all
    then show "clock_object c \<notin> fst ` set (fst (log_step descs x a) # snd (log_step descs x a))"
      using log_step_names [of descs x a] by blast
  qed
  moreover have "distinct (flow_clocks xs)"
    using Cons.prems(2) by (cases x) auto
  ultimately show ?case
    using Cons by simp
qed simp

subsection \<open>From the connection on\<close>

definition ready_collector :: "nat \<Rightarrow> (nat \<Rightarrow> source_desc) \<Rightarrow> data_collector \<Rightarrow> bool" where
  "ready_collector n descs col \<longleftrightarrow> dc_sources_cnt col = n \<and> dc_exit_flag col = 0 \<and> dc_use_boost_shmem col \<noteq> 0
     \<and> cstr (dc_boost_path col) = Some ''boostsegment'' \<and> length (dc_data col) = 256
     \<and> (\<forall>i < n. ds_sdesc (dc_sources col i) = Some (descs i) \<and> length (ds_data (dc_sources col i)) = 256)"

lemma path_text:
  assumes "12 < length mem"
  shows "\<exists>path. strcpy_to 0 ''boostsegment'' mem = Some path \<and> cstr path = Some ''boostsegment''"
proof -
  have "cstr (''boostsegment'' @ NUL # r) = Some ''boostsegment''" for r
    by (rule cstr_append_NUL) (simp add: NUL_def)
  moreover have "strcpy_to 0 ''boostsegment'' mem = Some (''boostsegment'' @ NUL # drop (Suc (length ''boostsegment'')) mem)"
    using assms by (intro strcpy_to_0) simp
  ultimately show ?thesis
    by blast
qed

lemma connect_first_rep:
  assumes "ready_collector n descs col" "n \<le> 10" "calendar_time c" "12 < length mem"
  shows "\<exists>path col' st'. connect_before PC_FIRST room True junk c mem (Some col) st = Some (path, Some col', st')
    \<and> (\<forall>client. cstr client = Some ''boostsegment'' \<longrightarrow>
        flow_rep n descs \<lparr>fl_store = st', fl_collector = col', fl_first = path, fl_client = client, fl_chunks = []\<rparr> ((clock_object c, []), []))"
proof -
  have col: "dc_sources_cnt col = n" "dc_use_boost_shmem col \<noteq> 0" "cstr (dc_boost_path col) = Some ''boostsegment''" "length (dc_data col) = 256"
    using assms(1) by (auto simp: ready_collector_def)
  obtain path where path: "strcpy_to 0 ''boostsegment'' mem = Some path" "cstr path = Some ''boostsegment''"
    using path_text [OF assms(4)] by blast
  obtain data where data: "generate_new_object_name c (dc_data col) = Some data" "length data = 256" "cstr data = Some (clock_object c)"
    using object_name_text [OF assms(3), of "dc_data col"] col(4) by (auto simp: clock_object_def)
  define st0 where "st0 = (set_segment ''boostsegment'' Map.empty (storage_interface_destroy ''boostsegment'' st))\<lparr>st_env := Some ''boostsegment''\<rparr>"
  have init: "storage_interface_init room True ''boostsegment'' (storage_interface_destroy ''boostsegment'' st) = Some (room Map.empty, st0)"
    by (simp add: storage_interface_init_def storage_interface_destroy_def st0_def Let_def)
  have "store_rep n st0 []"
    by (simp add: store_rep_def st0_def set_segment_def)
  then obtain r st' where new: "storage_interface_new_object_with_framesets room True (\<lambda>_. True) junk ''boostsegment'' (clock_object c) (int n) st0 = Some (r, st')"
    "store_rep n st' [(clock_object c, [])]"
    using store_new [of n st0 "[]" c room junk] assms(2,3) by auto
  define col' where "col' = (set_callbacks col)\<lparr>dc_data := data\<rparr>"
  have "connect_before PC_FIRST room True junk c mem (Some col) st = Some (path, Some col', st')"
    using col path(1) data(1,3) init new(1)
    by (simp add: connect_before_def processor_path_def connect_first_def set_callbacks_def col'_def Let_def)
  moreover have "collector_rep n descs col' (clock_object c)"
    using assms(1) data(2,3) clock_object_length [OF assms(3)]
    by (simp add: collector_rep_def ready_collector_def col'_def set_callbacks_def)
  ultimately show ?thesis
    using new(2) path(2) by (auto simp: flow_rep_def)
qed


definition demo_source :: source_desc where
  "demo_source = \<lparr>sd_type = STYPE_TCP, sd_sid_string = [], sd_addr = [], sd_port = [], sd_header_len = 12, sd_data_len = 2, sd_width = 2, sd_height = 1,
     sd_channels = 1, sd_output_path = []\<rparr>"

definition demo_collector :: data_collector where
  "demo_collector = (zero_collector \<lparr>ds_sid = 0, ds_fd = 5, ds_sdesc = Some demo_source, ds_packet = None, ds_camera = None, ds_exit_flag = 0,
       ds_empty_ready = 0, ds_data_ready = 0, ds_data = replicate 256 NUL, ds_detection = False, ds_add_frame = False, ds_save_frame = False,
       ds_need_to_free = 0, ds_frames_in_object = 0, ds_limit = 50\<rparr>)
     \<lparr>dc_sources_cnt := 1, dc_use_boost_shmem := 1, dc_boost_path := ''boostsegment'' @ [NUL], dc_data_ready := 1\<rparr>"

definition demo_flow :: "flow list" where
  "demo_flow = [F_Ready, F_First (demo_clock 1) (replicate 256 NUL), F_Middle 0, F_Last]"

lemma demo_flow_returns:
  "case connect_before PC_FIRST (\<lambda>_. 0) True (\<lambda>_. NO_SAVE) (demo_clock 0) (replicate 256 NUL) (Some demo_collector) one_segment of
     Some (path, Some col', st') \<Rightarrow> (case processor_path None (replicate 256 NUL) of
         Some client \<Rightarrow> (case run_list (flow_step (\<lambda>_. 0) (\<lambda>_. NO_SAVE) blank_frame) demo_flow
            \<lparr>fl_store = st', fl_collector = col', fl_first = path, fl_client = client, fl_chunks = []\<rparr> of Blocked \<Rightarrow> False | _ \<Rightarrow> True)
       | None \<Rightarrow> False)
   | _ \<Rightarrow> False"
  by code_simp


end
