(* ===== verification/Object_Detection.thy ===== *)
theory Object_Detection imports Complex_Main Storage begin

section \<open>Detection of an object's end (processor/src/dclprocessor_old.cpp)\<close>

text \<open>
  \<open>object_detection_callback\<close> counts frames in static variables: those that belong to the object, the empty ones and the ones
  that are neither. The radius of a frame comes from \<open>findRadius\<close>, which works on OpenCV matrices; it is an argument, and \<open>None\<close>
  is a value that is no number, for which both comparisons are false.
\<close>

type_synonym radius = "rat option"

record detection =
  frames_obj_cnt :: int
  frames_empty_cnt :: int
  frames_non_cnt :: int
  new_object_flag :: int

definition detection_start :: detection where
  "detection_start = \<lparr>frames_obj_cnt = 0, frames_empty_cnt = 0, frames_non_cnt = 0, new_object_flag = 0\<rparr>"

definition small_radius :: "radius \<Rightarrow> bool" where
  "small_radius r = (case r of None \<Rightarrow> False | Some x \<Rightarrow> x < 135)"

definition big_radius :: "radius \<Rightarrow> bool" where
  "big_radius r = (case r of None \<Rightarrow> False | Some x \<Rightarrow> 150 \<le> x)"

text \<open>Without a collector nothing is counted. The message of a break prints the sum of the three counters.\<close>

definition object_detection_callback :: "bool \<Rightarrow> radius \<Rightarrow> detection \<Rightarrow> (int \<times> detection) option" where
  "object_detection_callback collector r d =
     (if \<not> collector then Some (0, d)
      else if small_radius r \<and> new_object_flag d = 0 then do {
        empty \<leftarrow> c_int (frames_empty_cnt d + 1);
        if 16 \<le> frames_obj_cnt d \<and> 8 \<le> empty then do {
          k \<leftarrow> c_int (empty + frames_obj_cnt d);
          _ \<leftarrow> c_int (k + frames_non_cnt d);
          Some (1, d\<lparr>new_object_flag := 0, frames_obj_cnt := 0, frames_non_cnt := 0, frames_empty_cnt := 0\<rparr>) }
        else Some (0, d\<lparr>frames_empty_cnt := empty\<rparr>) }
      else if big_radius r then do {
        k \<leftarrow> c_int (frames_obj_cnt d + 1);
        k \<leftarrow> c_int (k + frames_empty_cnt d);
        k \<leftarrow> c_int (k + frames_non_cnt d);
        Some (0, d\<lparr>frames_obj_cnt := k, frames_empty_cnt := 0, frames_non_cnt := 0\<rparr>) }
      else do {
        k \<leftarrow> c_int (frames_non_cnt d + 1);
        Some (0, d\<lparr>frames_non_cnt := k\<rparr>) })"

fun detections :: "radius list \<Rightarrow> detection \<Rightarrow> (int list \<times> detection) option" where
  "detections [] d = Some ([], d)"
| "detections (r # rs) d = do {
     (v, d) \<leftarrow> object_detection_callback True r d;
     (vs, d) \<leftarrow> detections rs d;
     Some (v # vs, d) }"

subsection \<open>What it detects\<close>

text \<open>
  Of the frames since the last break, an object has those up to the last big one. It ends with a small frame when it has sixteen
  frames and eight small ones have come since.
\<close>

definition after_object :: "radius list \<Rightarrow> radius list" where
  "after_object w = rev (takeWhile (\<lambda>r. \<not> big_radius r) (rev w))"

definition object_frames :: "radius list \<Rightarrow> nat" where
  "object_frames w = length w - length (after_object w)"

definition empty_frames :: "radius list \<Rightarrow> nat" where
  "empty_frames w = length (filter small_radius (after_object w))"

definition object_ends :: "radius list \<Rightarrow> radius \<Rightarrow> bool" where
  "object_ends w r \<longleftrightarrow> small_radius r \<and> 16 \<le> object_frames w \<and> 8 \<le> empty_frames (w @ [r])"

fun verdicts :: "radius list \<Rightarrow> radius list \<Rightarrow> int list" where
  "verdicts w [] = []"
| "verdicts w (r # rs) = (if object_ends w r then 1 # verdicts [] rs else 0 # verdicts (w @ [r]) rs)"

definition detects :: "radius list \<Rightarrow> detection \<Rightarrow> bool" where
  "detects w d \<longleftrightarrow> frames_obj_cnt d = int (object_frames w) \<and> frames_empty_cnt d = int (empty_frames w)
     \<and> frames_non_cnt d = int (length (after_object w) - empty_frames w) \<and> new_object_flag d = 0"

lemma small_not_big: "small_radius r \<Longrightarrow> \<not> big_radius r"
  by (auto simp: small_radius_def big_radius_def split: option.splits)

lemma after_object_append [simp]:
  "after_object (w @ [r]) = (if big_radius r then [] else after_object w @ [r])"
  by (simp add: after_object_def)

lemma after_object_le: "length (after_object w) \<le> length w" "empty_frames w \<le> length (after_object w)"
  using length_takeWhile_le [of "\<lambda>r. \<not> big_radius r" "rev w"] length_filter_le [of small_radius "after_object w"]
  by (simp_all add: after_object_def empty_frames_def)

lemma frames_append:
  "object_frames (w @ [r]) = (if big_radius r then Suc (length w) else object_frames w)"
  "empty_frames (w @ [r]) = (if big_radius r then 0 else empty_frames w + (if small_radius r then 1 else 0))"
  by (simp_all add: object_frames_def empty_frames_def)

lemma counter_sum: "detects w d \<Longrightarrow> frames_obj_cnt d + frames_empty_cnt d + frames_non_cnt d = int (length w)"
  using after_object_le [of w] by (simp add: detects_def object_frames_def)

lemma callback_detects:
  assumes "detects w d" "Suc (length w) < 2 ^ 31"
  shows "\<exists>d'. object_detection_callback True r d = Some (if object_ends w r then 1 else 0, d')
    \<and> detects (if object_ends w r then [] else w @ [r]) d'"
proof -
  have d: "frames_obj_cnt d = int (object_frames w)" "frames_empty_cnt d = int (empty_frames w)"
    "frames_non_cnt d = int (length (after_object w) - empty_frames w)" "new_object_flag d = 0"
    using assms(1) by (simp_all add: detects_def)
  have le: "object_frames w + length (after_object w) = length w" "empty_frames w \<le> length (after_object w)"
    using after_object_le [of w] by (simp_all add: object_frames_def)
  consider "small_radius r" "object_ends w r" | "small_radius r" "\<not> object_ends w r" | "big_radius r" | "\<not> small_radius r" "\<not> big_radius r"
    by blast
  then show ?thesis
  proof cases
    case 1
    then show ?thesis
      using d le assms(2) small_not_big [OF 1(1)]
      by (auto simp: object_detection_callback_def c_int_def object_ends_def frames_append detects_def object_frames_def empty_frames_def after_object_def)
  next
    case 2
    then show ?thesis
      using d le assms(2) small_not_big [OF 2(1)]
      by (auto simp: object_detection_callback_def c_int_def object_ends_def frames_append detects_def)
  next
    case 3
    then show ?thesis
      using d le assms(2) small_not_big [of r]
      by (auto simp: object_detection_callback_def c_int_def object_ends_def frames_append detects_def)
  next
    case 4
    then show ?thesis
      using d le assms(2)
      by (auto simp: object_detection_callback_def c_int_def object_ends_def frames_append detects_def)
  qed
qed

lemma detections_run:
  "detects w d \<Longrightarrow> length w + length rs < 2 ^ 31 \<Longrightarrow> \<exists>d'. detections rs d = Some (verdicts w rs, d')"
proof (induction rs arbitrary: w d)
  case (Cons r rs)
  then obtain d1 where 1: "object_detection_callback True r d = Some (if object_ends w r then 1 else 0, d1)"
    "detects (if object_ends w r then [] else w @ [r]) d1"
    using callback_detects [of w d r] by auto
  then show ?case
    using Cons.IH [OF 1(2)] Cons.prems(2) by (auto split: if_splits)
qed simp

text \<open>
  Claim C22. The counters detect exactly the ends of objects: a frame is answered with 1 when it is small, the frames up to
  the last big one since the break before are at least sixteen, and eight small ones have come after it.
\<close>

theorem detection_ends_objects:
  assumes "length rs < 2 ^ 31"
  shows "\<exists>d. detections rs detection_start = Some (verdicts [] rs, d)"
proof -
  have "detects [] detection_start"
    by (simp add: detects_def detection_start_def object_frames_def empty_frames_def after_object_def)
  then show ?thesis
    using detections_run [of "[]" detection_start rs] assms by simp
qed

theorem detection_ends_objects_witness:
  "\<exists>d. detections (replicate 16 (Some 200) @ replicate 9 (Some 10)) detection_start
     = Some (replicate 23 0 @ [1, 0], d)"
proof -
  have "verdicts [] (replicate 16 (Some 200) @ replicate 9 (Some 10)) = replicate 23 0 @ [1, 0]"
    by code_simp
  then show ?thesis
    using detection_ends_objects [of "replicate 16 (Some 200) @ replicate 9 (Some 10)"] by simp
qed

end
