(* ===== verification/Polar_Expand.thy ===== *)
theory Polar_Expand imports Prelude begin

unbundle bit_operations_syntax

section \<open>Taking a polarization mosaic apart (libdclalgo/include/PolarExpand.h)\<close>

text \<open>
  A polarization camera has filters of four directions in front of its pixels: in every square of two by two, 90 and 45 degrees in
  the upper row, 135 and 0 in the lower one. \<open>PolarExpand<T>\<close> makes an image for each direction, in the order 0, 45, 90, 135.
  \<open>T\<close> is an unsigned type of 8 or 16 bits; \<open>depth\<close> is its width, and a pixel is an integer below \<open>2 ^ depth\<close>. An \<open>int\<close> of the
  source stays far inside its range here; unsigned arithmetic of 32 bits is written out. \<open>px_at\<close> outside of an image
  is undefined behaviour. The planes are new and zero before they are written, in all functions.
\<close>

record image =
  im_height :: int
  im_width :: int
  im_depth :: nat
  im_px :: "int \<Rightarrow> int \<Rightarrow> int"

definition inside :: "image \<Rightarrow> int \<Rightarrow> int \<Rightarrow> bool" where
  "inside m y x \<longleftrightarrow> 0 \<le> y \<and> y < im_height m \<and> 0 \<le> x \<and> x < im_width m"

definition px_at :: "image \<Rightarrow> int \<Rightarrow> int \<Rightarrow> int option" where
  "px_at m y x = (if inside m y x then Some (im_px m y x) else None)"

definition put_at :: "int \<Rightarrow> int \<Rightarrow> int \<Rightarrow> image \<Rightarrow> image option" where
  "put_at y x v m = (if inside m y x
     then Some (m\<lparr>im_px := (im_px m)(y := (im_px m y)(x := v mod 2 ^ im_depth m))\<rparr>) else None)"

definition zeros :: "int \<Rightarrow> int \<Rightarrow> nat \<Rightarrow> image" where
  "zeros h w depth = \<lparr>im_height = h, im_width = w, im_depth = depth, im_px = \<lambda>_ _. 0\<rparr>"

definition pixels_fit :: "image \<Rightarrow> bool" where
  "pixels_fit m \<longleftrightarrow> (\<forall>y x. inside m y x \<longrightarrow> 0 \<le> im_px m y x \<and> im_px m y x < 2 ^ im_depth m)"

text \<open>Loops: \<open>each\<close> runs a body for the values of a counter, \<open>steps2 n\<close> are the values of one that goes by two.\<close>

fun each :: "('x \<Rightarrow> 's \<Rightarrow> 's option) \<Rightarrow> 'x list \<Rightarrow> 's \<Rightarrow> 's option" where
  "each f [] s = Some s"
| "each f (x # xs) s = Option.bind (f x s) (each f xs)"

definition steps2 :: "int \<Rightarrow> int list" where
  "steps2 n = map (\<lambda>k. 2 * int k) [0..<nat ((n + 1) div 2)]"

definition put_plane :: "nat \<Rightarrow> int \<Rightarrow> int \<Rightarrow> int \<Rightarrow> image list \<Rightarrow> image list option" where
  "put_plane i y x v ps = Option.bind (put_at y x v (ps ! i)) (\<lambda>p. Some (ps[i := p]))"

definition new_planes :: "int \<Rightarrow> int \<Rightarrow> nat \<Rightarrow> image list" where
  "new_planes h w depth = replicate 4 (zeros h w depth)"

subsection \<open>The simple expansion\<close>

text \<open>The shifts of the four directions, for squares that begin in an even or odd row and column.\<close>

definition x_shifts :: "int list list" where
  "x_shifts = [[1, 1, 0, 0], [0, 0, 1, 1], [1, 1, 0, 0], [0, 0, 1, 1]]"

definition y_shifts :: "int list list" where
  "y_shifts = [[1, 0, 0, 1], [1, 0, 0, 1], [0, 1, 1, 0], [0, 1, 1, 0]]"

definition expand_pixel :: "image \<Rightarrow> int \<Rightarrow> int \<Rightarrow> nat \<Rightarrow> image list \<Rightarrow> image list option" where
  "expand_pixel img y x i ps = (let k = nat ((y mod 2) * 2 + x mod 2) in do {
     v \<leftarrow> px_at img (y + y_shifts ! k ! i) (x + x_shifts ! k ! i);
     put_plane i y x v ps })"

definition expand :: "image \<Rightarrow> image list option" where
  "expand img = each (\<lambda>y. each (\<lambda>x. each (\<lambda>i. expand_pixel img y x i) [0..<4]) [0..im_width img - 2]) [0..im_height img - 2]
     (new_planes (im_height img) (im_width img) (im_depth img))"

subsection \<open>The easy expansion\<close>

text \<open>A pixel of the four planes: a value for each direction.\<close>

definition put_pixel :: "int \<Rightarrow> int \<Rightarrow> int option \<Rightarrow> int option \<Rightarrow> int option \<Rightarrow> int option \<Rightarrow> image list \<Rightarrow> image list option" where
  "put_pixel y x p0 p1 p2 p3 ps = do {
     v \<leftarrow> p0; ps \<leftarrow> put_plane 0 y x v ps;
     v \<leftarrow> p1; ps \<leftarrow> put_plane 1 y x v ps;
     v \<leftarrow> p2; ps \<leftarrow> put_plane 2 y x v ps;
     v \<leftarrow> p3; put_plane 3 y x v ps }"

definition easy_pixel :: "image \<Rightarrow> int \<Rightarrow> int \<Rightarrow> image list \<Rightarrow> image list option" where
  "easy_pixel img y x ps = (let y0 = 2 * y + 1; x0 = 2 * x + 1; px = px_at img in
     put_pixel y x (px y0 x0) (px y0 (x0 - 1)) (px (y0 - 1) (x0 - 1)) (px (y0 - 1) x0) ps)"

definition expandEasy :: "image \<Rightarrow> image list option" where
  "expandEasy img = (let h = im_height img div 2; w = im_width img div 2 in
     each (\<lambda>y. each (easy_pixel img y) [0..w - 1]) [0..h - 1] (new_planes h w (im_depth img)))"

subsection \<open>The lite expansion\<close>

text \<open>\<open>toUint\<close> clamps an unsigned result that may have wrapped below zero. Sizes below 8 bits do not occur.\<close>

definition toUint :: "nat \<Rightarrow> int \<Rightarrow> int" where
  "toUint depth a = (if a > 8 * (2 ^ depth - 1) then 0 else if a > 2 ^ depth - 1 then 2 ^ depth - 1 else a)"

text \<open>Half the sum of two pixels, a quarter of that of four.\<close>

definition mean2 :: "nat \<Rightarrow> int option \<Rightarrow> int option \<Rightarrow> int option" where
  "mean2 depth p q = do { a \<leftarrow> p; b \<leftarrow> q; Some (toUint depth ((a + b) mod 2 ^ 32 div 2)) }"

definition mean4 :: "nat \<Rightarrow> int option \<Rightarrow> int option \<Rightarrow> int option \<Rightarrow> int option \<Rightarrow> int option" where
  "mean4 depth p q r s = do { a \<leftarrow> p; b \<leftarrow> q; c \<leftarrow> r; d \<leftarrow> s; Some (toUint depth ((a + b + c + d) mod 2 ^ 32 div 4)) }"

text \<open>Extrapolation from two pixels in a line, and from two such pairs, in 32-bit unsigned arithmetic.\<close>

definition ahead :: "nat \<Rightarrow> int option \<Rightarrow> int option \<Rightarrow> int option" where
  "ahead depth p q = do { a \<leftarrow> p; b \<leftarrow> q; Some (toUint depth ((3 * a - b) mod 2 ^ 32 div 2)) }"

definition ahead2 :: "nat \<Rightarrow> int option \<Rightarrow> int option \<Rightarrow> int option \<Rightarrow> int option \<Rightarrow> int option" where
  "ahead2 depth p q r s = do { a \<leftarrow> p; b \<leftarrow> q; c \<leftarrow> r; d \<leftarrow> s; Some (toUint depth ((3 * a - b + 3 * c - d) mod 2 ^ 32 div 4)) }"

text \<open>Inside, at the lower and the right border, in the three corners at the lower right, and in the two others.\<close>

definition lite_inner :: "image \<Rightarrow> int \<Rightarrow> int \<Rightarrow> image list \<Rightarrow> image list option" where
  "lite_inner img y x ps = (let y0 = 2 * y + 1; x0 = 2 * x + 1; d = im_depth img; px = px_at img in
     put_pixel y x (px y0 x0) (mean2 d (px y0 (x0 + 1)) (px y0 (x0 - 1)))
       (mean4 d (px (y0 - 1) (x0 - 1)) (px (y0 + 1) (x0 - 1)) (px (y0 - 1) (x0 + 1)) (px (y0 + 1) (x0 + 1)))
       (mean2 d (px (y0 - 1) x0) (px (y0 + 1) x0)) ps)"

definition lite_bottom :: "image \<Rightarrow> int \<Rightarrow> int \<Rightarrow> image list \<Rightarrow> image list option" where
  "lite_bottom img y x ps = (let y0 = 2 * y + 1; x0 = 2 * x + 1; d = im_depth img; px = px_at img in
     put_pixel y x (px y0 x0) (mean2 d (px y0 (x0 + 1)) (px y0 (x0 - 1)))
       (ahead2 d (px (y0 - 1) (x0 + 1)) (px (y0 - 3) (x0 + 3)) (px (y0 - 1) (x0 - 1)) (px (y0 - 3) (x0 - 3)))
       (ahead d (px (y0 - 1) x0) (px (y0 - 3) x0)) ps)"

definition lite_right :: "image \<Rightarrow> int \<Rightarrow> int \<Rightarrow> image list \<Rightarrow> image list option" where
  "lite_right img y x ps = (let y0 = 2 * y + 1; x0 = 2 * x + 1; d = im_depth img; px = px_at img in
     put_pixel y x (px y0 x0) (ahead d (px y0 (x0 - 1)) (px y0 (x0 - 3)))
       (ahead2 d (px (y0 - 1) (x0 - 1)) (px (y0 - 3) (x0 - 3)) (px (y0 + 1) (x0 - 1)) (px (y0 + 3) (x0 - 3)))
       (mean2 d (px (y0 - 1) x0) (px (y0 + 1) x0)) ps)"

definition lite_corner :: "image \<Rightarrow> int \<Rightarrow> int \<Rightarrow> image list \<Rightarrow> image list option" where
  "lite_corner img y x ps = (let y0 = 2 * y + 1; x0 = 2 * x + 1; d = im_depth img; px = px_at img in
     put_pixel y x (px y0 x0) (ahead d (px y0 (x0 - 1)) (px y0 (x0 - 3)))
       (ahead d (px (y0 - 1) (x0 - 1)) (px (y0 - 3) (x0 - 3))) (ahead d (px (y0 - 1) x0) (px (y0 - 3) x0)) ps)"

definition lite_lower_left :: "image \<Rightarrow> int \<Rightarrow> image list \<Rightarrow> image list option" where
  "lite_lower_left img y ps = (let y0 = 2 * y + 1; x0 = 1; d = im_depth img; px = px_at img in
     put_pixel y 0 (px y0 x0) (mean2 d (px y0 (x0 + 1)) (px y0 (x0 - 1)))
       (ahead d (px (y0 - 1) (x0 + 1)) (px (y0 - 3) (x0 + 3))) (ahead d (px (y0 - 1) x0) (px (y0 - 3) x0)) ps)"

definition lite_upper_right :: "image \<Rightarrow> int \<Rightarrow> image list \<Rightarrow> image list option" where
  "lite_upper_right img x ps = (let y0 = 1; x0 = 2 * x + 1; d = im_depth img; px = px_at img in
     put_pixel 0 x (px y0 x0) (ahead d (px y0 (x0 - 1)) (px y0 (x0 - 3)))
       (ahead d (px (y0 + 1) (x0 - 1)) (px (y0 + 3) (x0 - 3))) (mean2 d (px (y0 - 1) x0) (px (y0 + 1) x0)) ps)"

definition expandLite :: "image \<Rightarrow> image list option" where
  "expandLite img = (if im_height img < 6 \<or> im_width img < 6 then expandEasy img
     else let h = im_height img div 2; w = im_width img div 2 in do {
       ps \<leftarrow> each (\<lambda>y. each (lite_inner img y) [0..w - 2]) [0..h - 2] (new_planes h w (im_depth img));
       ps \<leftarrow> each (lite_bottom img (h - 1)) [1..w - 3] ps;
       ps \<leftarrow> each (\<lambda>y. lite_right img y (w - 1)) [1..h - 3] ps;
       ps \<leftarrow> lite_corner img (h - 2) (w - 1) ps;
       ps \<leftarrow> lite_corner img (h - 1) (w - 2) ps;
       ps \<leftarrow> lite_lower_left img (h - 1) ps;
       ps \<leftarrow> lite_upper_right img (w - 1) ps;
       lite_corner img (h - 1) (w - 1) ps })"

subsection \<open>What a loop writes\<close>

text \<open>
  \<open>writes h w d G W f\<close>: on four planes of the given size the body \<open>f\<close> succeeds, writes the pixels \<open>W\<close> (direction, row, column), gives each
  a value that \<open>G\<close> allows, and leaves the others alone.
\<close>

definition planes_ok :: "int \<Rightarrow> int \<Rightarrow> nat \<Rightarrow> image list \<Rightarrow> bool" where
  "planes_ok h w d ps \<longleftrightarrow> length ps = 4 \<and> (\<forall>i < 4. im_height (ps ! i) = h \<and> im_width (ps ! i) = w \<and> im_depth (ps ! i) = d)"

definition plane_px :: "image list \<Rightarrow> nat \<times> int \<times> int \<Rightarrow> int" where
  "plane_px ps = (\<lambda>(i, y, x). im_px (ps ! i) y x)"

definition writes :: "int \<Rightarrow> int \<Rightarrow> nat \<Rightarrow> (nat \<times> int \<times> int \<Rightarrow> int set) \<Rightarrow> (nat \<times> int \<times> int) set \<Rightarrow> (image list \<Rightarrow> image list option) \<Rightarrow> bool" where
  "writes h w d G W f \<longleftrightarrow> (\<forall>ps. planes_ok h w d ps \<longrightarrow> (\<exists>ps'. f ps = Some ps' \<and> planes_ok h w d ps'
     \<and> (\<forall>q. if q \<in> W then plane_px ps' q \<in> G q else fst q < 4 \<longrightarrow> plane_px ps' q = plane_px ps q) \<and> (\<forall>q \<in> W. fst q < 4)))"

lemma writes_put:
  assumes "i < 4" "0 \<le> y" "y < h" "0 \<le> x" "x < w" "v mod 2 ^ d \<in> G (i, y, x)"
  shows "writes h w d G {(i, y, x)} (put_plane i y x v)"
proof -
  have "\<exists>ps'. put_plane i y x v ps = Some ps' \<and> planes_ok h w d ps'
      \<and> (\<forall>q. if q = (i, y, x) then plane_px ps' q \<in> G q else fst q < 4 \<longrightarrow> plane_px ps' q = plane_px ps q)" if "planes_ok h w d ps" for ps
  proof -
    have p: "length ps = 4" "im_height (ps ! i) = h" "im_width (ps ! i) = w" "im_depth (ps ! i) = d"
      using that assms(1) by (auto simp: planes_ok_def)
    let ?p = "(ps ! i)\<lparr>im_px := (im_px (ps ! i))(y := (im_px (ps ! i) y)(x := v mod 2 ^ d))\<rparr>"
    have "put_plane i y x v ps = Some (ps[i := ?p])"
      using p assms(2-5) by (simp add: put_plane_def put_at_def inside_def)
    moreover have "im_height (ps[i := ?p] ! j) = im_height (ps ! j) \<and> im_width (ps[i := ?p] ! j) = im_width (ps ! j)
        \<and> im_depth (ps[i := ?p] ! j) = im_depth (ps ! j)" for j
      using p(1) assms(1) by (cases "j = i") simp_all
    then have "planes_ok h w d (ps[i := ?p])"
      using that by (simp add: planes_ok_def)
    moreover have "if q = (i, y, x) then plane_px (ps[i := ?p]) q \<in> G q else fst q < 4 \<longrightarrow> plane_px (ps[i := ?p]) q = plane_px ps q" for q
      using assms(1,6) p(1) by (cases q) (auto simp: plane_px_def nth_list_update)
    ultimately show ?thesis
      by blast
  qed
  then show ?thesis
    using assms(1) by (auto simp: writes_def)
qed

lemma writes_bind:
  assumes "writes h w d G A f" "writes h w d G B f'"
  shows "writes h w d G (A \<union> B) (\<lambda>ps. Option.bind (f ps) f')"
  unfolding writes_def
proof (intro allI impI)
  fix ps
  assume "planes_ok h w d ps"
  then obtain ps1 where 1: "f ps = Some ps1" "planes_ok h w d ps1" "\<forall>q \<in> A. fst q < 4"
    "\<And>q. if q \<in> A then plane_px ps1 q \<in> G q else fst q < 4 \<longrightarrow> plane_px ps1 q = plane_px ps q"
    using assms(1) unfolding writes_def by blast
  obtain ps2 where 2: "f' ps1 = Some ps2" "planes_ok h w d ps2" "\<forall>q \<in> B. fst q < 4"
    "\<And>q. if q \<in> B then plane_px ps2 q \<in> G q else fst q < 4 \<longrightarrow> plane_px ps2 q = plane_px ps1 q"
    using assms(2) 1(2) unfolding writes_def by blast
  have "if q \<in> A \<union> B then plane_px ps2 q \<in> G q else fst q < 4 \<longrightarrow> plane_px ps2 q = plane_px ps q" for q
    using 1(3) 1(4) [of q] 2(4) [of q] by (auto split: if_splits)
  then show "\<exists>ps'. Option.bind (f ps) f' = Some ps' \<and> planes_ok h w d ps'
      \<and> (\<forall>q. if q \<in> A \<union> B then plane_px ps' q \<in> G q else fst q < 4 \<longrightarrow> plane_px ps' q = plane_px ps q) \<and> (\<forall>q \<in> A \<union> B. fst q < 4)"
    using 1(1,3) 2(1-3) by auto
qed

lemma writes_none: "writes h w d G {} Some"
  by (simp add: writes_def)

lemma writes_each:
  "(\<And>x. x \<in> set xs \<Longrightarrow> writes h w d G (W x) (f x)) \<Longrightarrow> writes h w d G (\<Union>x \<in> set xs. W x) (each f xs)"
proof (induction xs)
  case Nil
  have "each f [] = Some"
    by auto
  then show ?case
    by (simp add: writes_none)
next
  case (Cons x xs)
  have "each f (x # xs) = (\<lambda>s. Option.bind (f x s) (each f xs))"
    by auto
  then show ?case
    using writes_bind [of h w d G "W x" "f x"] Cons by simp
qed

text \<open>From new planes: the pixels written have their values, all others are zero.\<close>

lemma writes_new:
  assumes "writes h w d G W f"
  shows "\<exists>ps. f (new_planes h w d) = Some ps \<and> planes_ok h w d ps
    \<and> (\<forall>q. if q \<in> W then plane_px ps q \<in> G q else fst q < 4 \<longrightarrow> plane_px ps q = 0)"
proof -
  have "planes_ok h w d (new_planes h w d)"
    by (auto simp: planes_ok_def new_planes_def zeros_def)
  moreover have "fst q < 4 \<longrightarrow> plane_px (new_planes h w d) q = 0" for q
    by (cases q) (auto simp: plane_px_def new_planes_def zeros_def)
  ultimately show ?thesis
    using assms unfolding writes_def by (metis (no_types, lifting))
qed

subsection \<open>The simple and the easy expansion\<close>

text \<open>The row and column of a direction in a square, and the nearest pixel of that direction at or behind a place.\<close>

definition angle_row :: "nat \<Rightarrow> int" where
  "angle_row i = [1, 0, 0, 1] ! i"

definition angle_col :: "nat \<Rightarrow> int" where
  "angle_col i = [1, 1, 0, 0] ! i"

definition near :: "int \<Rightarrow> int \<Rightarrow> int" where
  "near p y = (if y mod 2 = p then y else y + 1)"

lemma all_less_four: "(\<forall>i < 4. P i) \<longleftrightarrow> P 0 \<and> P (Suc 0) \<and> P 2 \<and> P 3"
  by (auto simp: numeral_eq_Suc less_Suc_eq)

lemma shifts_near: "\<forall>i < 4. y + y_shifts ! nat ((y mod 2) * 2 + x mod 2) ! i = near (angle_row i) y
    \<and> x + x_shifts ! nat ((y mod 2) * 2 + x mod 2) ! i = near (angle_col i) x"
proof -
  consider "y mod 2 = 0" "x mod 2 = 0" | "y mod 2 = 0" "x mod 2 = 1" | "y mod 2 = 1" "x mod 2 = 0" | "y mod 2 = 1" "x mod 2 = 1"
    by fastforce
  then show ?thesis
    by cases (simp_all add: all_less_four near_def angle_row_def angle_col_def x_shifts_def y_shifts_def)
qed

lemma near_le: "0 \<le> y \<Longrightarrow> y \<le> n - 2 \<Longrightarrow> 0 \<le> near p y \<and> near p y < (n :: int)"
  by (simp add: near_def)

lemma px_at_inside: "inside m y x \<Longrightarrow> px_at m y x = Some (im_px m y x)"
  by (simp add: px_at_def)

lemma pixel_mod: "pixels_fit m \<Longrightarrow> inside m y x \<Longrightarrow> im_px m y x mod 2 ^ im_depth m = im_px m y x"
  by (simp add: pixels_fit_def)

definition expand_value :: "image \<Rightarrow> nat \<times> int \<times> int \<Rightarrow> int set" where
  "expand_value img = (\<lambda>(i, y, x). {im_px img (near (angle_row i) y) (near (angle_col i) x)})"

lemma expand_writes:
  assumes "pixels_fit img"
  shows "writes (im_height img) (im_width img) (im_depth img) (expand_value img)
    (\<Union>y \<in> set [0..im_height img - 2]. \<Union>x \<in> set [0..im_width img - 2]. \<Union>i \<in> set [0..<4]. {(i, y, x)})
    (each (\<lambda>y. each (\<lambda>x. each (\<lambda>i. expand_pixel img y x i) [0..<4]) [0..im_width img - 2]) [0..im_height img - 2])"
proof (intro writes_each)
  fix y x :: int and i :: nat
  assume a: "y \<in> set [0..im_height img - 2]" "x \<in> set [0..im_width img - 2]" "i \<in> set [0..<4]"
  let ?ny = "near (angle_row i) y" and ?nx = "near (angle_col i) x"
  have n: "inside img ?ny ?nx"
    using a near_le [of y "im_height img"] near_le [of x "im_width img"] by (simp add: inside_def)
  have "expand_pixel img y x i = put_plane i y x (im_px img ?ny ?nx)"
    using shifts_near [of y x] a(3) px_at_inside [OF n] by (auto simp: expand_pixel_def Let_def fun_eq_iff)
  then show "writes (im_height img) (im_width img) (im_depth img) (expand_value img) {(i, y, x)} (expand_pixel img y x i)"
    using a pixel_mod [OF assms n] by (auto intro!: writes_put simp: expand_value_def)
qed

lemma expand_planes:
  assumes "pixels_fit img"
  shows "\<exists>ps. expand img = Some ps \<and> planes_ok (im_height img) (im_width img) (im_depth img) ps
    \<and> (\<forall>i < 4. \<forall>y x. plane_px ps (i, y, x) = (if 0 \<le> y \<and> y \<le> im_height img - 2 \<and> 0 \<le> x \<and> x \<le> im_width img - 2
         then im_px img (near (angle_row i) y) (near (angle_col i) x) else 0))"
proof -
  obtain ps where ps: "expand img = Some ps" "planes_ok (im_height img) (im_width img) (im_depth img) ps"
    "\<And>q. if q \<in> (\<Union>y \<in> set [0..im_height img - 2]. \<Union>x \<in> set [0..im_width img - 2]. \<Union>i \<in> set [0..<4]. {(i, y, x)})
       then plane_px ps q \<in> expand_value img q else fst q < 4 \<longrightarrow> plane_px ps q = 0"
    using writes_new [OF expand_writes [OF assms]] unfolding expand_def by blast
  have "plane_px ps (i, y, x) = (if 0 \<le> y \<and> y \<le> im_height img - 2 \<and> 0 \<le> x \<and> x \<le> im_width img - 2
      then im_px img (near (angle_row i) y) (near (angle_col i) x) else 0)" if "i < 4" for i y x
    using ps(3) [of "(i, y, x)"] that by (auto simp: expand_value_def split: if_splits)
  then show ?thesis
    using ps(1,2) by blast
qed

definition pixel_of :: "int \<Rightarrow> int \<Rightarrow> (nat \<times> int \<times> int) set" where
  "pixel_of y x = {(0, y, x)} \<union> ({(1, y, x)} \<union> ({(2, y, x)} \<union> {(3, y, x)}))"

lemma pixel_of_iff: "(i, y', x') \<in> pixel_of y x \<longleftrightarrow> i < 4 \<and> y' = y \<and> x' = x"
  by (auto simp: pixel_of_def)

lemma writes_pixel:
  assumes "0 \<le> y" "y < h" "0 \<le> x" "x < w"
    and "v0 mod 2 ^ d \<in> G (0, y, x)" "v1 mod 2 ^ d \<in> G (1, y, x)" "v2 mod 2 ^ d \<in> G (2, y, x)" "v3 mod 2 ^ d \<in> G (3, y, x)"
  shows "writes h w d G (pixel_of y x) (put_pixel y x (Some v0) (Some v1) (Some v2) (Some v3))"
proof -
  have put: "put_pixel y x (Some v0) (Some v1) (Some v2) (Some v3) = (\<lambda>ps. Option.bind (put_plane 0 y x v0 ps)
      (\<lambda>ps. Option.bind (put_plane 1 y x v1 ps) (\<lambda>ps. Option.bind (put_plane 2 y x v2 ps) (put_plane 3 y x v3))))"
    by (simp add: put_pixel_def fun_eq_iff)
  show ?thesis
    unfolding pixel_of_def put by (intro writes_bind writes_put) (use assms in simp_all)
qed

definition easy_row :: "nat \<Rightarrow> int" where
  "easy_row i = [1, 1, 0, 0] ! i"

definition easy_col :: "nat \<Rightarrow> int" where
  "easy_col i = [1, 0, 0, 1] ! i"

definition easy_value :: "image \<Rightarrow> nat \<times> int \<times> int \<Rightarrow> int set" where
  "easy_value img = (\<lambda>(i, y, x). {im_px img (2 * y + easy_row i) (2 * x + easy_col i)})"

lemma easy_writes:
  assumes "pixels_fit img" "0 \<le> y" "y < im_height img div 2" "0 \<le> x" "x < im_width img div 2"
  shows "writes (im_height img div 2) (im_width img div 2) (im_depth img) (easy_value img) (pixel_of y x) (easy_pixel img y x)"
proof -
  have "inside img (2 * y + a) (2 * x + b)" if "a \<in> {0, 1}" "b \<in> {0, 1}" for a b
    using assms(2-5) that by (auto simp: inside_def)
  then have px: "px_at img (2 * y + a) (2 * x + b) = Some (im_px img (2 * y + a) (2 * x + b))"
    "im_px img (2 * y + a) (2 * x + b) mod 2 ^ im_depth img = im_px img (2 * y + a) (2 * x + b)" if "a \<in> {0, 1}" "b \<in> {0, 1}" for a b
    using that px_at_inside pixel_mod [OF assms(1)] by auto
  have "easy_pixel img y x = put_pixel y x (Some (im_px img (2 * y + 1) (2 * x + 1))) (Some (im_px img (2 * y + 1) (2 * x)))
      (Some (im_px img (2 * y) (2 * x))) (Some (im_px img (2 * y) (2 * x + 1)))"
    using px(1) [of 1 1] px(1) [of 1 0] px(1) [of 0 0] px(1) [of 0 1] by (simp add: easy_pixel_def Let_def fun_eq_iff)
  then show ?thesis
    using px(2) [of 1 1] px(2) [of 1 0] px(2) [of 0 0] px(2) [of 0 1] assms(2-5)
    by (auto intro!: writes_pixel simp: easy_value_def easy_row_def easy_col_def)
qed

lemma easy_planes:
  assumes "pixels_fit img"
  shows "\<exists>ps. expandEasy img = Some ps \<and> planes_ok (im_height img div 2) (im_width img div 2) (im_depth img) ps
    \<and> (\<forall>i < 4. \<forall>y x. 0 \<le> y \<and> y < im_height img div 2 \<and> 0 \<le> x \<and> x < im_width img div 2 \<longrightarrow>
         plane_px ps (i, y, x) = im_px img (2 * y + easy_row i) (2 * x + easy_col i))"
proof -
  let ?h = "im_height img div 2" and ?w = "im_width img div 2"
  have "writes ?h ?w (im_depth img) (easy_value img) (\<Union>y \<in> set [0..?h - 1]. \<Union>x \<in> set [0..?w - 1]. pixel_of y x)
      (each (\<lambda>y. each (easy_pixel img y) [0..?w - 1]) [0..?h - 1])"
    by (intro writes_each easy_writes [OF assms]) auto
  from writes_new [OF this] obtain ps where ps: "expandEasy img = Some ps" "planes_ok ?h ?w (im_depth img) ps"
    "\<And>q. if q \<in> (\<Union>y \<in> set [0..?h - 1]. \<Union>x \<in> set [0..?w - 1]. pixel_of y x)
       then plane_px ps q \<in> easy_value img q else fst q < 4 \<longrightarrow> plane_px ps q = 0"
    unfolding expandEasy_def Let_def by blast
  have "plane_px ps (i, y, x) = im_px img (2 * y + easy_row i) (2 * x + easy_col i)"
    if "i < 4" "0 \<le> y \<and> y < ?h \<and> 0 \<le> x \<and> x < ?w" for i y x
    using ps(3) [of "(i, y, x)"] that by (auto simp: pixel_of_iff easy_value_def split: if_splits)
  then show ?thesis
    using ps(1,2) by blast
qed

text \<open>
  The simple expansion gives each direction, at every place but the last row and column, the pixel of that direction at the place or right behind it;
  it is in the image for every size.
\<close>

theorem expand_takes_nearest:
  assumes "pixels_fit img"
  shows "\<exists>ps. expand img = Some ps \<and> planes_ok (im_height img) (im_width img) (im_depth img) ps
    \<and> (\<forall>i < 4. \<forall>y x. plane_px ps (i, y, x) = (if 0 \<le> y \<and> y \<le> im_height img - 2 \<and> 0 \<le> x \<and> x \<le> im_width img - 2
         then im_px img (near (angle_row i) y) (near (angle_col i) x) else 0))"
  by (rule expand_planes [OF assms])

text \<open>
  Claim C24. The easy expansion takes the directions 45 and 135 for each other: it has in every plane the pixels that the simple one has in the
  plane of the other of the two.
\<close>

theorem easy_swaps_directions:
  assumes "pixels_fit img"
  shows "\<exists>ps qs. expandEasy img = Some ps \<and> expand img = Some qs
    \<and> (\<forall>i < 4. \<forall>y x. 0 \<le> y \<and> y < im_height img div 2 \<and> 0 \<le> x \<and> x < im_width img div 2 \<longrightarrow>
         plane_px ps (i, y, x) = plane_px qs ([0, 3, 2, 1] ! i, 2 * y, 2 * x))"
proof -
  obtain ps where ps: "expandEasy img = Some ps" "\<forall>i < 4. \<forall>y x. 0 \<le> y \<and> y < im_height img div 2 \<and> 0 \<le> x \<and> x < im_width img div 2 \<longrightarrow>
      plane_px ps (i, y, x) = im_px img (2 * y + easy_row i) (2 * x + easy_col i)"
    using easy_planes [OF assms] by blast
  obtain qs where qs: "expand img = Some qs" "\<forall>i < 4. \<forall>y x. plane_px qs (i, y, x) = (if 0 \<le> y \<and> y \<le> im_height img - 2 \<and> 0 \<le> x \<and> x \<le> im_width img - 2
      then im_px img (near (angle_row i) y) (near (angle_col i) x) else 0)"
    using expand_planes [OF assms] by blast
  have "[0, 3, 2, 1] ! i < (4 :: nat) \<and> near (angle_row ([0, 3, 2, 1] ! i)) (2 * y) = 2 * y + easy_row i
      \<and> near (angle_col ([0, 3, 2, 1] ! i)) (2 * x) = 2 * x + easy_col i" if "i < 4" for i y x
    using that by (auto simp: numeral_eq_Suc less_Suc_eq near_def angle_row_def angle_col_def easy_row_def easy_col_def)
  then have "plane_px ps (i, y, x) = plane_px qs ([0, 3, 2, 1] ! i, 2 * y, 2 * x)"
    if "i < 4" "0 \<le> y \<and> y < im_height img div 2 \<and> 0 \<le> x \<and> x < im_width img div 2" for i y x
    using that ps(2) qs(2) by auto
  then show ?thesis
    using ps(1) qs(1) by blast
qed

definition demo_mosaic :: image where
  "demo_mosaic = \<lparr>im_height = 6, im_width = 6, im_depth = 8, im_px = \<lambda>y x. 10 * y + x\<rparr>"

lemma demo_mosaic_fits: "pixels_fit demo_mosaic"
  by (auto simp: pixels_fit_def demo_mosaic_def inside_def)

theorem expand_takes_nearest_witness: "\<exists>ps. expand demo_mosaic = Some ps \<and> plane_px ps (1, 1, 2) = 23"
  using expand_takes_nearest [OF demo_mosaic_fits]
  by (auto simp: demo_mosaic_def all_less_four near_def angle_row_def angle_col_def)

theorem easy_swaps_directions_witness:
  "\<exists>ps qs. expandEasy demo_mosaic = Some ps \<and> expand demo_mosaic = Some qs \<and> plane_px ps (1, 2, 0) = plane_px qs (3, 4, 0)"
proof -
  obtain ps qs where "expandEasy demo_mosaic = Some ps" "expand demo_mosaic = Some qs"
    "\<forall>i < 4. \<forall>y x. 0 \<le> y \<and> y < im_height demo_mosaic div 2 \<and> 0 \<le> x \<and> x < im_width demo_mosaic div 2 \<longrightarrow>
       plane_px ps (i, y, x) = plane_px qs ([0, 3, 2, 1] ! i, 2 * y, 2 * x)"
    using easy_swaps_directions [OF demo_mosaic_fits] by blast
  moreover from this(3) [rule_format, of 1 2 0] have "plane_px ps (1, 2, 0) = plane_px qs (3, 4, 0)"
    by (simp add: demo_mosaic_def)
  ultimately show ?thesis
    by blast
qed

subsection \<open>The lite expansion\<close>

text \<open>Exact integers, cut to the range of a pixel: what the 32-bit arithmetic comes to.\<close>

definition clamp :: "nat \<Rightarrow> int \<Rightarrow> int" where
  "clamp d v = max 0 (min (2 ^ d - 1) v)"

definition pixel_value :: "nat \<Rightarrow> int \<Rightarrow> bool" where
  "pixel_value d v \<longleftrightarrow> 0 \<le> v \<and> v < 2 ^ d"

lemma pixel_value_clamp [simp]: "pixel_value d (clamp d v)"
  using one_le_power [of "2 :: int" d] by (simp add: pixel_value_def clamp_def)

lemma pixel_value_mod [simp]: "pixel_value d v \<Longrightarrow> v mod 2 ^ d = v"
  by (simp add: pixel_value_def)

lemma depth_bound: "d \<le> 16 \<Longrightarrow> (2 :: int) ^ d \<le> 65536"
  using power_increasing [of d 16 "2 :: int"] by simp

lemma mean2_value: "d \<le> 16 \<Longrightarrow> pixel_value d a \<Longrightarrow> pixel_value d b \<Longrightarrow>
    mean2 d (Some a) (Some b) = Some ((a + b) div 2) \<and> pixel_value d ((a + b) div 2)"
  using depth_bound [of d] by (auto simp: mean2_def toUint_def pixel_value_def)

lemma mean4_value: "d \<le> 16 \<Longrightarrow> pixel_value d a \<Longrightarrow> pixel_value d b \<Longrightarrow> pixel_value d c \<Longrightarrow> pixel_value d e \<Longrightarrow>
    mean4 d (Some a) (Some b) (Some c) (Some e) = Some ((a + b + c + e) div 4) \<and> pixel_value d ((a + b + c + e) div 4)"
  using depth_bound [of d] by (auto simp: mean4_def toUint_def pixel_value_def)

lemma wrapped_below: "- (2 ^ 32) \<le> v \<Longrightarrow> v < 0 \<Longrightarrow> v mod 2 ^ 32 = v + (2 ^ 32 :: int)"
  using mod_add_self2 [of v "2 ^ 32"] by (metis add.commute add_less_same_cancel2 diff_ge_0_iff_ge diff_minus_eq_add mod_pos_pos_trivial)

lemma toUint_half:
  assumes "d \<le> 16" "- (2 ^ d) < v" "v < 3 * 2 ^ d"
  shows "toUint d (v mod 2 ^ 32 div 2) = clamp d (v div 2)"
proof (cases "v < 0")
  case True
  then have "v mod 2 ^ 32 = v + 2 ^ 32"
    using assms(2) depth_bound [OF assms(1)] by (intro wrapped_below) auto
  then show ?thesis
    using True assms(2) depth_bound [OF assms(1)] by (simp add: toUint_def clamp_def)
next
  case False
  then have "v mod 2 ^ 32 = v"
    using assms(3) depth_bound [OF assms(1)] by simp
  then show ?thesis
    using False assms(3) depth_bound [OF assms(1)] by (auto simp: toUint_def clamp_def)
qed

lemma toUint_quarter:
  assumes "d \<le> 16" "- (2 * 2 ^ d) < v" "v < 6 * 2 ^ d"
  shows "toUint d (v mod 2 ^ 32 div 4) = clamp d (v div 4)"
proof (cases "v < 0")
  case True
  then have "v mod 2 ^ 32 = v + 2 ^ 32"
    using assms(2) depth_bound [OF assms(1)] by (intro wrapped_below) auto
  then show ?thesis
    using True assms(2) depth_bound [OF assms(1)] by (simp add: toUint_def clamp_def)
next
  case False
  then have "v mod 2 ^ 32 = v"
    using assms(3) depth_bound [OF assms(1)] by simp
  then show ?thesis
    using False assms(3) depth_bound [OF assms(1)] by (auto simp: toUint_def clamp_def)
qed

lemma ahead_value: "d \<le> 16 \<Longrightarrow> pixel_value d a \<Longrightarrow> pixel_value d b \<Longrightarrow> ahead d (Some a) (Some b) = Some (clamp d ((3 * a - b) div 2))"
  using toUint_half [of d "3 * a - b"] by (simp add: ahead_def pixel_value_def)

lemma ahead2_value: "d \<le> 16 \<Longrightarrow> pixel_value d a \<Longrightarrow> pixel_value d b \<Longrightarrow> pixel_value d c \<Longrightarrow> pixel_value d e \<Longrightarrow>
    ahead2 d (Some a) (Some b) (Some c) (Some e) = Some (clamp d ((3 * a - b + 3 * c - e) div 4))"
  using toUint_quarter [of d "3 * a - b + 3 * c - e"] by (simp add: ahead2_def pixel_value_def)

text \<open>
  The value of every pixel: direction 0 is that of the square, 45 and 135 are means of two neighbours or, where there is only one, lie ahead of
  two pixels in a line, 90 is the mean of four or lies ahead of one or two pairs.
\<close>

definition lite_value :: "image \<Rightarrow> nat \<times> int \<times> int \<Rightarrow> int" where
  "lite_value img = (\<lambda>(i, y, x). let h = im_height img div 2; w = im_width img div 2; y0 = 2 * y + 1; x0 = 2 * x + 1;
       px = im_px img; d = im_depth img; line = (\<lambda>a b. clamp d ((3 * a - b) div 2))
     in if i = 0 then px y0 x0
       else if i = 1 then (if x < w - 1 \<and> (y < h - 1 \<or> x < w - 2) then (px y0 (x0 + 1) + px y0 (x0 - 1)) div 2
         else line (px y0 (x0 - 1)) (px y0 (x0 - 3)))
       else if i = 3 then (if y < h - 1 \<and> (x < w - 1 \<or> y < h - 2) then (px (y0 - 1) x0 + px (y0 + 1) x0) div 2
         else line (px (y0 - 1) x0) (px (y0 - 3) x0))
       else if y < h - 1 \<and> x < w - 1 then
         (px (y0 - 1) (x0 - 1) + px (y0 + 1) (x0 - 1) + px (y0 - 1) (x0 + 1) + px (y0 + 1) (x0 + 1)) div 4
       else if x = 0 then line (px (y0 - 1) (x0 + 1)) (px (y0 - 3) (x0 + 3))
       else if y = 0 then line (px (y0 + 1) (x0 - 1)) (px (y0 + 3) (x0 - 3))
       else if x < w - 2 then
         clamp d ((3 * px (y0 - 1) (x0 + 1) - px (y0 - 3) (x0 + 3) + 3 * px (y0 - 1) (x0 - 1) - px (y0 - 3) (x0 - 3)) div 4)
       else if y < h - 2 then
         clamp d ((3 * px (y0 - 1) (x0 - 1) - px (y0 - 3) (x0 - 3) + 3 * px (y0 + 1) (x0 - 1) - px (y0 + 3) (x0 - 3)) div 4)
       else line (px (y0 - 1) (x0 - 1)) (px (y0 - 3) (x0 - 3)))"

lemma px_value: "pixels_fit img \<Longrightarrow> 0 \<le> y \<Longrightarrow> y < im_height img \<Longrightarrow> 0 \<le> x \<Longrightarrow> x < im_width img \<Longrightarrow>
    px_at img y x = Some (im_px img y x) \<and> pixel_value (im_depth img) (im_px img y x)"
  by (simp add: px_at_def inside_def pixels_fit_def pixel_value_def)

abbreviation lite_writes :: "image \<Rightarrow> (nat \<times> int \<times> int) set \<Rightarrow> (image list \<Rightarrow> image list option) \<Rightarrow> bool" where
  "lite_writes img \<equiv> writes (im_height img div 2) (im_width img div 2) (im_depth img) (\<lambda>q. {lite_value img q})"

lemma writes_lite:
  assumes "0 \<le> y" "y < im_height img div 2" "0 \<le> x" "x < im_width img div 2"
    and "p0 = Some (lite_value img (0, y, x))" "p1 = Some (lite_value img (1, y, x))" "p2 = Some (lite_value img (2, y, x))" "p3 = Some (lite_value img (3, y, x))"
    and "\<forall>i \<in> {0, 1, 2, 3}. pixel_value (im_depth img) (lite_value img (i, y, x))"
  shows "lite_writes img (pixel_of y x) (put_pixel y x p0 p1 p2 p3)"
  unfolding assms(5-8) by (rule writes_pixel) (use assms(1-4,9) in simp_all)

text \<open>The pixels around the square of a place.\<close>

lemma square_px:
  assumes "pixels_fit img" "0 \<le> 2 * y + 1 + a" "2 * y + 1 + a < im_height img" "0 \<le> 2 * x + 1 + b" "2 * x + 1 + b < im_width img"
  shows "px_at img (2 * y + 1 + a) (2 * x + 1 + b) = Some (im_px img (2 * y + 1 + a) (2 * x + 1 + b))
    \<and> pixel_value (im_depth img) (im_px img (2 * y + 1 + a) (2 * x + 1 + b))"
  using assms by (intro px_value)

lemma lite_inner_writes:
  assumes "pixels_fit img" "im_depth img \<le> 16" "0 \<le> y" "y < im_height img div 2 - 1" "0 \<le> x" "x < im_width img div 2 - 1"
  shows "lite_writes img (pixel_of y x) (lite_inner img y x)"
proof -
  note px = square_px [OF assms(1), of y _ x]
  show ?thesis
    unfolding lite_inner_def Let_def
    using px [of 0 0] px [of 0 1] px [of 0 "- 1"] px [of 1 0] px [of "- 1" 0] px [of 1 1] px [of 1 "- 1"] px [of "- 1" 1] px [of "- 1" "- 1"]
    by (intro writes_lite) (use assms(2-6) in \<open>simp_all add: lite_value_def Let_def mean2_value mean4_value\<close>)
qed

lemma lite_bottom_writes:
  assumes "pixels_fit img" "im_depth img \<le> 16" "6 \<le> im_height img" "6 \<le> im_width img" "y = im_height img div 2 - 1" "1 \<le> x" "x < im_width img div 2 - 2"
  shows "lite_writes img (pixel_of y x) (lite_bottom img y x)"
proof -
  note px = square_px [OF assms(1), of y _ x]
  have place: "2 * y + 1 < im_height img" "2 * y < im_height img" "2 * y - 2 < im_height img" "y < im_height img div 2" "2 * x + 1 < im_width img" "2 * x < im_width img" "2 * x - 2 < im_width img" "x < im_width img div 2" "2 \<le> y" "1 \<le> x" "2 * x + 2 < im_width img" "2 * x + 4 < im_width img"
    using assms(3-) by auto
  have region: "\<not> y < im_height img div 2 - 1" "x < im_width img div 2 - 1" "x < im_width img div 2 - 2" "x \<noteq> 0" "y \<noteq> 0"
    using assms(3-) by auto
  show ?thesis
    unfolding lite_bottom_def Let_def
    using px [of 0 0] px [of 0 1] px [of 0 "-1"] px [of "-1" 1] px [of "-3" 3] px [of "-1" "-1"] px [of "-3" "-3"] px [of "-1" 0] px [of "-3" 0]
    by (intro writes_lite) (use assms(2) place in \<open>simp_all add: region lite_value_def Let_def mean2_value ahead_value ahead2_value\<close>)
qed

lemma lite_right_writes:
  assumes "pixels_fit img" "im_depth img \<le> 16" "6 \<le> im_height img" "6 \<le> im_width img" "x = im_width img div 2 - 1" "1 \<le> y" "y < im_height img div 2 - 2"
  shows "lite_writes img (pixel_of y x) (lite_right img y x)"
proof -
  note px = square_px [OF assms(1), of y _ x]
  have place: "2 * y + 1 < im_height img" "2 * y < im_height img" "2 * y - 2 < im_height img" "y < im_height img div 2" "2 * x + 1 < im_width img" "2 * x < im_width img" "2 * x - 2 < im_width img" "x < im_width img div 2" "2 \<le> x" "1 \<le> y" "2 * y + 2 < im_height img" "2 * y + 4 < im_height img"
    using assms(3-) by auto
  have region: "\<not> x < im_width img div 2 - 1" "\<not> x < im_width img div 2 - 2" "y < im_height img div 2 - 1" "y < im_height img div 2 - 2" "x \<noteq> 0" "y \<noteq> 0"
    using assms(3-) by auto
  show ?thesis
    unfolding lite_right_def Let_def
    using px [of 0 0] px [of 0 "-1"] px [of 0 "-3"] px [of "-1" "-1"] px [of "-3" "-3"] px [of 1 "-1"] px [of 3 "-3"] px [of "-1" 0] px [of 1 0]
    by (intro writes_lite) (use assms(2) place in \<open>simp_all add: region lite_value_def Let_def mean2_value ahead_value ahead2_value\<close>)
qed

lemma lite_corner_writes:
  assumes "pixels_fit img" "im_depth img \<le> 16" "6 \<le> im_height img" "6 \<le> im_width img" "y = im_height img div 2 - 1 \<and> x = im_width img div 2 - 1 \<or> y = im_height img div 2 - 1 \<and> x = im_width img div 2 - 2 \<or> y = im_height img div 2 - 2 \<and> x = im_width img div 2 - 1"
  shows "lite_writes img (pixel_of y x) (lite_corner img y x)"
proof -
  note px = square_px [OF assms(1), of y _ x]
  have place: "2 * y + 1 < im_height img" "2 * y < im_height img" "2 * y - 2 < im_height img" "y < im_height img div 2" "2 * x + 1 < im_width img" "2 * x < im_width img" "2 * x - 2 < im_width img" "x < im_width img div 2" "1 \<le> x" "1 \<le> y"
    using assms(3-) by auto
  have region: "\<not> (x < im_width img div 2 - 1 \<and> (y < im_height img div 2 - 1 \<or> x < im_width img div 2 - 2))" "\<not> (y < im_height img div 2 - 1 \<and> (x < im_width img div 2 - 1 \<or> y < im_height img div 2 - 2))" "\<not> (y < im_height img div 2 - 1 \<and> x < im_width img div 2 - 1)" "\<not> (x < im_width img div 2 - 1 \<and> y < im_height img div 2 - 1)" "\<not> x < im_width img div 2 - 2" "\<not> y < im_height img div 2 - 2" "x \<noteq> 0" "y \<noteq> 0"
    using assms(3-) by auto
  show ?thesis
    unfolding lite_corner_def Let_def
    using px [of 0 0] px [of 0 "-1"] px [of 0 "-3"] px [of "-1" "-1"] px [of "-3" "-3"] px [of "-1" 0] px [of "-3" 0]
    by (intro writes_lite) (use assms(2) place in \<open>simp_all add: region lite_value_def Let_def mean2_value ahead_value ahead2_value\<close>)
qed

lemma lite_lower_left_writes:
  assumes "pixels_fit img" "im_depth img \<le> 16" "6 \<le> im_height img" "6 \<le> im_width img" "y = im_height img div 2 - 1"
  shows "lite_writes img (pixel_of y 0) (lite_lower_left img y)"
proof -
  note px = square_px [OF assms(1), of y _ 0]
  have place: "2 * y + 1 < im_height img" "2 * y < im_height img" "2 * y - 2 < im_height img" "y < im_height img div 2" "2 \<le> y" "4 < im_width img" "0 < im_width img div 2"
    using assms(3-) by auto
  have region: "\<not> y < im_height img div 2 - 1" "1 < im_width img div 2" "2 < im_width img div 2" "y \<noteq> 0"
    using assms(3-) by auto
  show ?thesis
    unfolding lite_lower_left_def Let_def
    using px [of 0 0] px [of 0 1] px [of 0 "-1"] px [of "-1" 1] px [of "-3" 3] px [of "-1" 0] px [of "-3" 0]
    by (intro writes_lite) (use assms(2) place in \<open>simp_all add: region lite_value_def Let_def mean2_value ahead_value ahead2_value\<close>)
qed

lemma lite_upper_right_writes:
  assumes "pixels_fit img" "im_depth img \<le> 16" "6 \<le> im_height img" "6 \<le> im_width img" "x = im_width img div 2 - 1"
  shows "lite_writes img (pixel_of 0 x) (lite_upper_right img x)"
proof -
  note px = square_px [OF assms(1), of 0 _ x]
  have place: "2 * x + 1 < im_width img" "2 * x < im_width img" "2 * x - 2 < im_width img" "x < im_width img div 2" "2 \<le> x" "4 < im_height img" "0 < im_height img div 2"
    using assms(3-) by auto
  have region: "\<not> x < im_width img div 2 - 1" "1 < im_height img div 2" "2 < im_height img div 2" "x \<noteq> 0"
    using assms(3-) by auto
  show ?thesis
    unfolding lite_upper_right_def Let_def
    using px [of 0 0] px [of 0 "-1"] px [of 0 "-3"] px [of 1 "-1"] px [of 3 "-3"] px [of "-1" 0] px [of 1 0]
    by (intro writes_lite) (use assms(2) place in \<open>simp_all add: region lite_value_def Let_def mean2_value ahead_value ahead2_value\<close>)
qed

definition lite_places :: "image \<Rightarrow> (nat \<times> int \<times> int) set" where
  "lite_places img = (let h = im_height img div 2; w = im_width img div 2 in
     (\<Union>y \<in> set [0..h - 2]. \<Union>x \<in> set [0..w - 2]. pixel_of y x) \<union> ((\<Union>x \<in> set [1..w - 3]. pixel_of (h - 1) x)
     \<union> ((\<Union>y \<in> set [1..h - 3]. pixel_of y (w - 1)) \<union> (pixel_of (h - 2) (w - 1) \<union> (pixel_of (h - 1) (w - 2)
     \<union> (pixel_of (h - 1) 0 \<union> (pixel_of 0 (w - 1) \<union> pixel_of (h - 1) (w - 1))))))))"

text \<open>The area, its last row and its last column are the whole plane.\<close>

lemma plane_split:
  fixes h w x y :: int
  assumes "3 \<le> h" "3 \<le> w" "0 \<le> y" "y < h" "0 \<le> x" "x < w"
  shows "(0 \<le> y \<and> y \<le> h - 2 \<and> 0 \<le> x \<and> x \<le> w - 2) \<or> (y = h - 1 \<and> 1 \<le> x \<and> x \<le> w - 3)
      \<or> (x = w - 1 \<and> 1 \<le> y \<and> y \<le> h - 3) \<or> (y = h - 2 \<and> x = w - 1) \<or> (y = h - 1 \<and> x = w - 2)
      \<or> (y = h - 1 \<and> x = 0) \<or> (y = 0 \<and> x = w - 1) \<or> (y = h - 1 \<and> x = w - 1)"
proof -
  consider "y \<le> h - 2" "x \<le> w - 2" | "y = h - 1" | "x = w - 1"
    using assms by linarith
  then show ?thesis
  proof cases
    case 1
    then show ?thesis
      using assms by simp
  next
    case 2
    moreover have "1 \<le> x \<and> x \<le> w - 3 \<or> x = w - 2 \<or> x = 0 \<or> x = w - 1"
      using assms by linarith
    ultimately show ?thesis
      by blast
  next
    case 3
    moreover have "1 \<le> y \<and> y \<le> h - 3 \<or> y = h - 2 \<or> y = 0 \<or> y = h - 1"
      using assms by linarith
    ultimately show ?thesis
      by blast
  qed
qed

lemma lite_places_all:
  assumes "6 \<le> im_height img" "6 \<le> im_width img" "i < 4"
    and "0 \<le> y" "y < im_height img div 2" "0 \<le> x" "x < im_width img div 2"
  shows "(i, y, x) \<in> lite_places img"
proof -
  have "3 \<le> im_height img div 2" "3 \<le> im_width img div 2"
    using assms(1,2) by simp_all
  from plane_split [OF this assms(4-7)] show ?thesis
    using assms(3) unfolding lite_places_def Let_def Un_iff UN_iff pixel_of_iff set_upto by (elim disjE; simp)
qed

lemma expandLite_writes:
  assumes "pixels_fit img" "im_depth img \<le> 16" "6 \<le> im_height img" "6 \<le> im_width img"
  shows "lite_writes img (lite_places img) (\<lambda>ps. let h = im_height img div 2; w = im_width img div 2 in do {
       ps \<leftarrow> each (\<lambda>y. each (lite_inner img y) [0..w - 2]) [0..h - 2] ps;
       ps \<leftarrow> each (lite_bottom img (h - 1)) [1..w - 3] ps;
       ps \<leftarrow> each (\<lambda>y. lite_right img y (w - 1)) [1..h - 3] ps;
       ps \<leftarrow> lite_corner img (h - 2) (w - 1) ps;
       ps \<leftarrow> lite_corner img (h - 1) (w - 2) ps;
       ps \<leftarrow> lite_lower_left img (h - 1) ps;
       ps \<leftarrow> lite_upper_right img (w - 1) ps;
       lite_corner img (h - 1) (w - 1) ps })"
  unfolding lite_places_def Let_def
  by (intro writes_bind writes_each lite_inner_writes lite_bottom_writes lite_right_writes lite_corner_writes lite_lower_left_writes
      lite_upper_right_writes assms) auto

text \<open>
  Claim C23. The lite expansion reads inside of every image of at least six rows and columns, writes every pixel of the four planes, and its 32-bit
  arithmetic, which may wrap below zero, comes to the exact interpolation and extrapolation cut to the range of a pixel.
\<close>

theorem lite_interpolates:
  assumes "pixels_fit img" "im_depth img \<le> 16" "6 \<le> im_height img" "6 \<le> im_width img"
  shows "\<exists>ps. expandLite img = Some ps \<and> planes_ok (im_height img div 2) (im_width img div 2) (im_depth img) ps
    \<and> (\<forall>i < 4. \<forall>y x. 0 \<le> y \<and> y < im_height img div 2 \<and> 0 \<le> x \<and> x < im_width img div 2 \<longrightarrow> plane_px ps (i, y, x) = lite_value img (i, y, x))"
proof -
  have small: "\<not> (im_height img < 6 \<or> im_width img < 6)"
    using assms(3,4) by simp
  obtain ps where ps: "expandLite img = Some ps" "planes_ok (im_height img div 2) (im_width img div 2) (im_depth img) ps"
    "\<And>q. if q \<in> lite_places img then plane_px ps q \<in> {lite_value img q} else fst q < 4 \<longrightarrow> plane_px ps q = 0"
    using writes_new [OF expandLite_writes [OF assms]] small unfolding expandLite_def Let_def if_not_P [OF small] by blast
  have "plane_px ps (i, y, x) = lite_value img (i, y, x)"
    if "i < 4" "0 \<le> y \<and> y < im_height img div 2 \<and> 0 \<le> x \<and> x < im_width img div 2" for i y x
    using ps(3) [of "(i, y, x)"] lite_places_all [OF assms(3,4) that(1)] that(2) by simp
  then show ?thesis
    using ps(1,2) by blast
qed

theorem lite_interpolates_witness:
  "\<exists>ps. expandLite demo_mosaic = Some ps \<and> plane_px ps (2, 0, 0) = 11 \<and> plane_px ps (3, 2, 1) = 53"
proof -
  have "im_depth demo_mosaic \<le> 16" "6 \<le> im_height demo_mosaic" "6 \<le> im_width demo_mosaic"
    by (simp_all add: demo_mosaic_def)
  then obtain ps where "expandLite demo_mosaic = Some ps"
    and px: "\<forall>i < 4. \<forall>y x. 0 \<le> y \<and> y < im_height demo_mosaic div 2 \<and> 0 \<le> x \<and> x < im_width demo_mosaic div 2
      \<longrightarrow> plane_px ps (i, y, x) = lite_value demo_mosaic (i, y, x)"
    using lite_interpolates [OF demo_mosaic_fits] by blast
  moreover have "plane_px ps (2, 0, 0) = 11" "plane_px ps (3, 2, 1) = 53"
    using px [rule_format, of 2 0 0] px [rule_format, of 3 2 1] by (simp_all add: demo_mosaic_def lite_value_def clamp_def)
  ultimately show ?thesis
    by blast
qed

end
