(* ===== verification/Polar_Debayer.thy ===== *)
theory Polar_Debayer imports Polar_Expand "HOL-Library.Signed_Division" begin

unbundle bit_operations_syntax

section \<open>The interpolating expansion of a polarization mosaic (libdclalgo/include/PolarExpand.h)\<close>

text \<open>
  \<open>expandDebayer\<close> makes four planes of the size of the image. In the plane of a direction every second row and column hold measured pixels; the others are
  interpolated in squares of three by three whose corners are measured. At the border a square hangs out of the image, and its corners
  there are extrapolated. The variables \<open>a, b, c, d\<close> of a square have no value where no case of the source gives them one; their use is
  undefined, \<open>None\<close> here.
\<close>

definition data_mask :: "nat \<Rightarrow> int" where
  "data_mask depth = 2 ^ depth - 1"

text \<open>The extrapolation; \<open>/\<close> of the source cuts towards zero.\<close>

definition calculateValue :: "nat \<Rightarrow> int \<Rightarrow> int \<Rightarrow> int" where
  "calculateValue depth v1 v2 = (let v12 = (v1 + v2) sdiv 2; delta = v1 - v12 in
     if delta > 0 then (v1 + delta sdiv 2) AND data_mask depth else (v1 - delta sdiv 2) AND data_mask depth)"

definition selectCase :: "int \<Rightarrow> int \<Rightarrow> int \<Rightarrow> int \<Rightarrow> int" where
  "selectCase x y width height =
     (if x = -1 then 1 else if x = width - 2 then 2 else if 0 \<le> x \<and> x < width - 2 then 3 else 0)
     + (if y = -1 then 10 else if y = height - 2 then 20 else if 0 \<le> y \<and> y < height - 2 then 30 else 0)"

type_synonym corners = "int \<times> int \<times> int \<times> int"

definition calculateABCD :: "image \<Rightarrow> int \<Rightarrow> int \<Rightarrow> corners option" where
  "calculateABCD img x y = (let px = px_at img; val = calculateValue (im_depth img); k = selectCase x y (im_width img) (im_height img) in
     if k = 11 then do {
       y2x2 \<leftarrow> px (y + 2) (x + 2); y4x4 \<leftarrow> px (y + 4) (x + 4); y4x2 \<leftarrow> px (y + 4) (x + 2); y2x4 \<leftarrow> px (y + 2) (x + 4);
       Some (val y2x2 y4x4, val y2x2 y4x2, val y2x2 y2x4, y2x2) }
     else if k = 21 then do {
       y0x2 \<leftarrow> px y (x + 2); y0x4 \<leftarrow> px y (x + 4); y_2x4 \<leftarrow> px (y - 2) (x + 4); y_4x2 \<leftarrow> px (y - 4) (x + 2);
       Some (val y0x2 y0x4, val y0x2 y_2x4, y0x2, val y0x2 y_4x2) }
     else if k = 31 then do {
       y0x2 \<leftarrow> px y (x + 2); y0x4 \<leftarrow> px y (x + 4); y2x2 \<leftarrow> px (y + 2) (x + 2); y2x4 \<leftarrow> px (y + 2) (x + 4);
       Some (val y0x2 y0x4, y0x2, val y2x2 y2x4, y2x2) }
     else if k = 12 then do {
       y2x0 \<leftarrow> px (y + 2) x; y4x0 \<leftarrow> px (y + 4) x; y4x_2 \<leftarrow> px (y + 4) (x - 2); y4x_4 \<leftarrow> px (y + 2) (x - 4);
       Some (val y2x0 y4x0, val y2x0 y4x_2, y2x0, val y2x0 y4x_4) }
     else if k = 22 then do {
       y0x0 \<leftarrow> px y x; y0x_2 \<leftarrow> px y (x - 2); y_2x0 \<leftarrow> px (y - 2) x; y_4x_4 \<leftarrow> px (y - 4) (x - 4);
       Some (y0x0, val y0x0 y0x_2, val y0x0 y_2x0, val y0x0 y_4x_4) }
     else if k = 32 then do {
       y0x0 \<leftarrow> px y x; y0x_2 \<leftarrow> px y (x - 2); y0x_4 \<leftarrow> px y (x - 4);
       Some (y0x0, val y0x0 y0x_2, y0x_2, val y0x_2 y0x_4) }
     else if k = 13 then do {
       y2x0 \<leftarrow> px (y + 2) x; y4x0 \<leftarrow> px (y + 4) x; y2x2 \<leftarrow> px (y + 2) (x + 2); y4x2 \<leftarrow> px (y + 4) (x + 2);
       Some (val y2x0 y4x0, val y2x2 y4x2, y2x0, y2x2) }
     else if k = 23 then do {
       y0x0 \<leftarrow> px y x; y0x2 \<leftarrow> px y (x + 2); y_2x0 \<leftarrow> px (y - 2) x; y_2x2 \<leftarrow> px (y - 2) (x + 2);
       Some (y0x0, y0x2, val y0x0 y_2x0, val y0x2 y_2x2) }
     else if k = 33 then do {
       a \<leftarrow> px y x; b \<leftarrow> px y (x + 2); c \<leftarrow> px (y + 2) x; d \<leftarrow> px (y + 2) (x + 2);
       Some (a, b, c, d) }
     else None)"

subsection \<open>A square of three by three\<close>

text \<open>A write under a guard; the value is read only under it.\<close>

definition put_if :: "bool \<Rightarrow> nat \<Rightarrow> int \<Rightarrow> int \<Rightarrow> int option \<Rightarrow> image list \<Rightarrow> image list option" where
  "put_if c i y x v ps = (if c then Option.bind v (\<lambda>v. put_plane i y x v ps) else Some ps)"

definition put_square :: "image \<Rightarrow> nat \<Rightarrow> int \<Rightarrow> int \<Rightarrow> corners \<Rightarrow> image list \<Rightarrow> image list option" where
  "put_square img i x y = (\<lambda>(a, b, c, d) ps. let w = im_width img; h = im_height img in do {
     ps \<leftarrow> put_if (0 \<le> x \<and> 0 \<le> y) i y x (px_at img y x) ps;
     ps \<leftarrow> put_if (0 \<le> y) i y (x + 1) (Some ((2 * (a + b) + (c + d)) sdiv 3 sdiv 2)) ps;
     ps \<leftarrow> put_if (0 \<le> y \<and> x < w - 2) i y (x + 2) (px_at img y (x + 2)) ps;
     ps \<leftarrow> put_if (0 \<le> x) i (y + 1) x (Some ((2 * (a + c) + (b + d)) sdiv 3 sdiv 2)) ps;
     ps \<leftarrow> put_plane i (y + 1) (x + 1) (((a + b) + (c + d)) sdiv 2 sdiv 2) ps;
     ps \<leftarrow> put_if (x < w - 2) i (y + 1) (x + 2) (Some (((a + c) + 2 * (b + d)) sdiv 3 sdiv 2)) ps;
     ps \<leftarrow> put_if (0 \<le> x \<and> y < h - 2) i (y + 2) x (px_at img (y + 2) x) ps;
     ps \<leftarrow> put_if (y < h - 2) i (y + 2) (x + 1) (Some (((a + b) + 2 * (c + d)) sdiv 3 sdiv 2)) ps;
     put_if (x < w - 2 \<and> y < h - 2) i (y + 2) (x + 2) (px_at img (y + 2) (x + 2)) ps })"

definition biInterpolation :: "image \<Rightarrow> nat \<Rightarrow> int \<Rightarrow> int \<Rightarrow> image list \<Rightarrow> image list option" where
  "biInterpolation img i x y ps = Option.bind (calculateABCD img x y) (\<lambda>abcd. put_square img i x y abcd ps)"

text \<open>\<open>biInterpolation_fast\<close> repeats the same statements; the version without boundaries has no guards and walks along a row by a pointer.\<close>

definition biInterpolation_fast :: "image \<Rightarrow> nat \<Rightarrow> int \<Rightarrow> int \<Rightarrow> image list \<Rightarrow> image list option" where
  "biInterpolation_fast img i x y ps = Option.bind (calculateABCD img x y) (\<lambda>abcd. put_square img i x y abcd ps)"

definition biInterpolationWithOutBoundaries :: "image \<Rightarrow> nat \<Rightarrow> int \<Rightarrow> int \<Rightarrow> image list \<Rightarrow> image list option" where
  "biInterpolationWithOutBoundaries img i x y ps = do {
     a \<leftarrow> px_at img y x; b \<leftarrow> px_at img y (x + 2); c \<leftarrow> px_at img (y + 2) x; d \<leftarrow> px_at img (y + 2) (x + 2);
     ps \<leftarrow> put_plane i y x a ps;
     ps \<leftarrow> put_plane i y (x + 1) ((2 * (a + b) + (c + d)) sdiv 6) ps;
     ps \<leftarrow> put_plane i y (x + 2) b ps;
     ps \<leftarrow> put_plane i (y + 1) x ((2 * (a + c) + (b + d)) sdiv 6) ps;
     ps \<leftarrow> put_plane i (y + 1) (x + 1) (((a + b) + (c + d)) sdiv 4) ps;
     ps \<leftarrow> put_plane i (y + 1) (x + 2) (((a + c) + 2 * (b + d)) sdiv 6) ps;
     ps \<leftarrow> put_plane i (y + 2) x c ps;
     ps \<leftarrow> put_plane i (y + 2) (x + 1) (((a + b) + 2 * (c + d)) sdiv 6) ps;
     put_plane i (y + 2) (x + 2) d ps }"

subsection \<open>The expansions\<close>

definition debayer_at :: "image \<Rightarrow> int \<Rightarrow> int \<Rightarrow> image list \<Rightarrow> image list option" where
  "debayer_at img y x ps = do {
     ps \<leftarrow> biInterpolation img 0 (x - 1) (y - 1) ps;
     ps \<leftarrow> biInterpolation img 1 (x - 1) y ps;
     ps \<leftarrow> biInterpolation img 2 x y ps;
     biInterpolation img 3 x (y - 1) ps }"

definition debayer_fast_at :: "image \<Rightarrow> int \<Rightarrow> int \<Rightarrow> image list \<Rightarrow> image list option" where
  "debayer_fast_at img y x ps = do {
     ps \<leftarrow> biInterpolation_fast img 0 (x - 1) (y - 1) ps;
     ps \<leftarrow> biInterpolation_fast img 1 (x - 1) y ps;
     ps \<leftarrow> biInterpolation_fast img 2 x y ps;
     biInterpolation_fast img 3 x (y - 1) ps }"

definition inner_at :: "image \<Rightarrow> int \<Rightarrow> int \<Rightarrow> image list \<Rightarrow> image list option" where
  "inner_at img y x ps = do {
     ps \<leftarrow> biInterpolationWithOutBoundaries img 0 (x + 1) (y + 1) ps;
     ps \<leftarrow> biInterpolationWithOutBoundaries img 1 (x + 1) y ps;
     ps \<leftarrow> biInterpolationWithOutBoundaries img 2 x y ps;
     biInterpolationWithOutBoundaries img 3 x (y + 1) ps }"

definition expandDebayer :: "image \<Rightarrow> image list option" where
  "expandDebayer img = each (\<lambda>y. each (debayer_at img y) (steps2 (im_width img - 1))) (steps2 (im_height img - 1))
     (new_planes (im_height img) (im_width img) (im_depth img))"

definition expandDebayerWithoutBoundaries :: "image \<Rightarrow> image list option" where
  "expandDebayerWithoutBoundaries img = each (\<lambda>y. each (inner_at img y) (steps2 (im_width img - 3))) (steps2 (im_height img - 3))
     (new_planes (im_height img) (im_width img) (im_depth img))"

definition expandDebayer_fast :: "image \<Rightarrow> image list option" where
  "expandDebayer_fast img = (let h = im_height img; w = im_width img in do {
     ps \<leftarrow> each (\<lambda>y. each (inner_at img y) (steps2 (w - 3))) (steps2 (h - 3)) (new_planes h w (im_depth img));
     ps \<leftarrow> each (debayer_fast_at img 0) (steps2 (w - 1)) ps;
     ps \<leftarrow> each (debayer_fast_at img (h - 2)) (steps2 (w - 1)) ps;
     ps \<leftarrow> each (\<lambda>y. debayer_fast_at img y (w - 2)) (steps2 (h - 1)) ps;
     each (\<lambda>y. debayer_fast_at img y 0) (steps2 (h - 1)) ps })"

lemma debayer_fast_at_same: "debayer_fast_at = debayer_at"
  by (simp add: fun_eq_iff debayer_fast_at_def debayer_at_def biInterpolation_fast_def biInterpolation_def)

subsection \<open>The values of a square\<close>

lemma sdiv_div: "0 \<le> a \<Longrightarrow> 0 < b \<Longrightarrow> a sdiv b = a div (b :: int)"
  by (cases "a = 0") (simp_all add: signed_divide_int_def)

lemma data_mask_mod: "v AND data_mask d = v mod 2 ^ d"
  by (simp add: data_mask_def flip: mask_eq_exp_minus_1 take_bit_eq_mask take_bit_eq_mod)

lemma calculateValue_fits: "pixel_value d (calculateValue d v1 v2)"
  by (simp add: calculateValue_def Let_def data_mask_mod pixel_value_def)

text \<open>The extrapolation goes upwards from the nearer pixel whatever the other one is, and wraps above the largest value.\<close>

lemma calculateValue_upwards:
  assumes "0 \<le> v1" "0 \<le> v2"
  shows "calculateValue d v1 v2 = (v1 + \<bar>v1 - (v1 + v2) div 2\<bar> div 2) mod 2 ^ d"
proof (cases "v1 - (v1 + v2) div 2 > 0")
  case True
  then show ?thesis
    using assms by (simp add: calculateValue_def Let_def data_mask_mod sdiv_div)
next
  case False
  then have "(v1 - (v1 + v2) div 2) sdiv 2 = - (\<bar>v1 - (v1 + v2) div 2\<bar> div 2)"
    by (auto simp: signed_divide_int_def sgn_if)
  then show ?thesis
    using False assms by (simp add: calculateValue_def Let_def data_mask_mod sdiv_div)
qed

text \<open>A value amid the four corners is not below all of them and not above all of them.\<close>

definition amid :: "corners \<Rightarrow> int \<Rightarrow> bool" where
  "amid = (\<lambda>(a, b, c, d) v. \<forall>lo hi. 0 \<le> lo \<and> lo \<le> a \<and> lo \<le> b \<and> lo \<le> c \<and> lo \<le> d \<and> a \<le> hi \<and> b \<le> hi \<and> c \<le> hi \<and> d \<le> hi
     \<longrightarrow> lo \<le> v \<and> v \<le> hi)"

lemma amid_between: "(\<And>lo hi. 0 \<le> lo \<Longrightarrow> lo \<le> a \<Longrightarrow> lo \<le> b \<Longrightarrow> lo \<le> c \<Longrightarrow> lo \<le> d
    \<Longrightarrow> a \<le> hi \<Longrightarrow> b \<le> hi \<Longrightarrow> c \<le> hi \<Longrightarrow> d \<le> hi \<Longrightarrow> lo \<le> v \<and> v \<le> hi) \<Longrightarrow> amid (a, b, c, d) v"
  unfolding amid_def prod.case by blast

lemma weighted_amid:
  assumes "0 \<le> s" "0 < n" "\<And>lo hi. 0 \<le> lo \<Longrightarrow> lo \<le> a \<Longrightarrow> lo \<le> b \<Longrightarrow> lo \<le> c \<Longrightarrow> lo \<le> d
    \<Longrightarrow> a \<le> hi \<Longrightarrow> b \<le> hi \<Longrightarrow> c \<le> hi \<Longrightarrow> d \<le> hi \<Longrightarrow> lo * n \<le> s \<and> s \<le> hi * n"
  shows "amid (a, b, c, d) (s div n)"
proof (rule amid_between)
  fix lo hi
  assume "0 \<le> lo" "lo \<le> a" "lo \<le> b" "lo \<le> c" "lo \<le> d" "a \<le> hi" "b \<le> hi" "c \<le> hi" "d \<le> hi"
  then have "lo * n \<le> s" "s \<le> hi * n"
    using assms(3) by simp_all
  then show "lo \<le> s div n \<and> s div n \<le> hi"
    using zdiv_mono1 [of "lo * n" s n] zdiv_mono1 [of s "hi * n" n] assms(2) by simp
qed

lemma amid_sdiv: "0 \<le> s \<Longrightarrow> amid q (s div 6) \<Longrightarrow> amid q (s sdiv 3 sdiv 2)" "0 \<le> s \<Longrightarrow> amid q (s div 6) \<Longrightarrow> amid q (s sdiv 6)"
  "0 \<le> s \<Longrightarrow> amid q (s div 4) \<Longrightarrow> amid q (s sdiv 2 sdiv 2)" "0 \<le> s \<Longrightarrow> amid q (s div 4) \<Longrightarrow> amid q (s sdiv 4)"
  by (simp_all add: sdiv_div flip: zdiv_zmult2_eq)

lemma means_amid:
  assumes "0 \<le> a" "0 \<le> b" "0 \<le> c" "0 \<le> d"
  shows "amid (a, b, c, d) ((2 * (a + b) + (c + d)) sdiv 3 sdiv 2)" "amid (a, b, c, d) ((2 * (a + b) + (c + d)) sdiv 6)"
    and "amid (a, b, c, d) ((2 * (a + c) + (b + d)) sdiv 3 sdiv 2)" "amid (a, b, c, d) ((2 * (a + c) + (b + d)) sdiv 6)"
    and "amid (a, b, c, d) ((a + c + 2 * (b + d)) sdiv 3 sdiv 2)" "amid (a, b, c, d) ((a + c + 2 * (b + d)) sdiv 6)"
    and "amid (a, b, c, d) ((a + b + 2 * (c + d)) sdiv 3 sdiv 2)" "amid (a, b, c, d) ((a + b + 2 * (c + d)) sdiv 6)"
    and "amid (a, b, c, d) ((a + b + (c + d)) sdiv 2 sdiv 2)" "amid (a, b, c, d) ((a + b + (c + d)) sdiv 4)"
proof -
  have s: "0 \<le> 2 * (a + b) + (c + d)" "0 \<le> 2 * (a + c) + (b + d)" "0 \<le> a + c + 2 * (b + d)" "0 \<le> a + b + 2 * (c + d)" "0 \<le> a + b + (c + d)"
    using assms by simp_all
  have "amid (a, b, c, d) ((2 * (a + b) + (c + d)) div 6)" "amid (a, b, c, d) ((2 * (a + c) + (b + d)) div 6)"
    "amid (a, b, c, d) ((a + c + 2 * (b + d)) div 6)" "amid (a, b, c, d) ((a + b + 2 * (c + d)) div 6)" "amid (a, b, c, d) ((a + b + (c + d)) div 4)"
    by (rule weighted_amid; use s in simp)+
  then show "amid (a, b, c, d) ((2 * (a + b) + (c + d)) sdiv 3 sdiv 2)" "amid (a, b, c, d) ((2 * (a + b) + (c + d)) sdiv 6)"
    and "amid (a, b, c, d) ((2 * (a + c) + (b + d)) sdiv 3 sdiv 2)" "amid (a, b, c, d) ((2 * (a + c) + (b + d)) sdiv 6)"
    and "amid (a, b, c, d) ((a + c + 2 * (b + d)) sdiv 3 sdiv 2)" "amid (a, b, c, d) ((a + c + 2 * (b + d)) sdiv 6)"
    and "amid (a, b, c, d) ((a + b + 2 * (c + d)) sdiv 3 sdiv 2)" "amid (a, b, c, d) ((a + b + 2 * (c + d)) sdiv 6)"
    and "amid (a, b, c, d) ((a + b + (c + d)) sdiv 2 sdiv 2)" "amid (a, b, c, d) ((a + b + (c + d)) sdiv 4)"
    by (simp_all only: amid_sdiv s)
qed

subsection \<open>What a square writes\<close>

text \<open>
  A pixel of a plane is measured where the mosaic has its direction. The values the planes may have: a measured pixel keeps
  its value; two pixels away from the border every other one lies between any bounds of the measured pixels of its direction that are at most
  two rows and two columns away; at the border it is at least a pixel.
\<close>

definition measured :: "nat \<Rightarrow> int \<Rightarrow> int \<Rightarrow> bool" where
  "measured i y x \<longleftrightarrow> y mod 2 = angle_row i \<and> x mod 2 = angle_col i"

definition bounds_near :: "image \<Rightarrow> nat \<Rightarrow> int \<Rightarrow> int \<Rightarrow> int \<Rightarrow> int \<Rightarrow> bool" where
  "bounds_near img i y x lo hi \<longleftrightarrow> (\<forall>y' x'. measured i y' x' \<and> \<bar>y' - y\<bar> \<le> 2 \<and> \<bar>x' - x\<bar> \<le> 2 \<longrightarrow> lo \<le> im_px img y' x' \<and> im_px img y' x' \<le> hi)"

definition deep :: "image \<Rightarrow> int \<Rightarrow> int \<Rightarrow> bool" where
  "deep img y x \<longleftrightarrow> 2 \<le> y \<and> y < im_height img - 2 \<and> 2 \<le> x \<and> x < im_width img - 2"

definition debayer_value :: "image \<Rightarrow> nat \<times> int \<times> int \<Rightarrow> int set" where
  "debayer_value img = (\<lambda>(i, y, x). {v. pixel_value (im_depth img) v \<and> (measured i y x \<longrightarrow> v = im_px img y x)
     \<and> (deep img y x \<longrightarrow> (\<forall>lo hi. bounds_near img i y x lo hi \<longrightarrow> lo \<le> v \<and> v \<le> hi))})"

lemma measured_ok:
  assumes "pixels_fit img" "inside img y x" "measured i y x"
  shows "im_px img y x mod 2 ^ im_depth img \<in> debayer_value img (i, y, x)"
proof -
  have "lo \<le> im_px img y x \<and> im_px img y x \<le> hi" if "bounds_near img i y x lo hi" for lo hi
    using that assms(3) unfolding bounds_near_def by fastforce
  then show ?thesis
    using assms pixel_mod [OF assms(1,2)] by (auto simp: debayer_value_def pixels_fit_def pixel_value_def)
qed

text \<open>The corners of a square at \<open>y, x\<close>; they are the measured pixels where the square is in the image.\<close>

definition corners_ok :: "image \<Rightarrow> int \<Rightarrow> int \<Rightarrow> corners \<Rightarrow> bool" where
  "corners_ok img y x = (\<lambda>(a, b, c, d). let ok = pixel_value (im_depth img) in ok a \<and> ok b \<and> ok c \<and> ok d
     \<and> (0 \<le> y \<and> y < im_height img - 2 \<and> 0 \<le> x \<and> x < im_width img - 2 \<longrightarrow>
         a = im_px img y x \<and> b = im_px img y (x + 2) \<and> c = im_px img (y + 2) x \<and> d = im_px img (y + 2) (x + 2)))"

lemma measured_steps:
  assumes "measured i y x"
  shows "measured i y (x + 2)" "measured i (y + 2) x" "measured i (y + 2) (x + 2)"
    and "\<not> measured i y (x + 1)" "\<not> measured i (y + 1) x" "\<not> measured i (y + 1) (x + 1)" "\<not> measured i (y + 1) (x + 2)" "\<not> measured i (y + 2) (x + 1)"
  using assms by (auto simp: measured_def) presburger+

lemma amid_ok:
  assumes "corners_ok img y x abcd" "measured i y x" "amid abcd v" "0 \<le> j" "j \<le> 2" "0 \<le> k" "k \<le> 2" "\<not> measured i (y + j) (x + k)"
  shows "v mod 2 ^ im_depth img \<in> debayer_value img (i, y + j, x + k)"
proof -
  obtain a b c d where abcd: "abcd = (a, b, c, d)"
    by (cases abcd)
  have ok: "pixel_value (im_depth img) a" "pixel_value (im_depth img) b" "pixel_value (im_depth img) c" "pixel_value (im_depth img) d"
    using assms(1) by (simp_all add: corners_ok_def abcd Let_def)
  then have v: "pixel_value (im_depth img) v"
    using assms(3) [unfolded abcd amid_def prod.case, rule_format, of 0 "2 ^ im_depth img - 1"] by (simp add: pixel_value_def)
  have "lo \<le> v \<and> v \<le> hi" if "deep img (y + j) (x + k)" "bounds_near img i (y + j) (x + k) lo hi" for lo hi
  proof -
    have px: "a = im_px img y x" "b = im_px img y (x + 2)" "c = im_px img (y + 2) x" "d = im_px img (y + 2) (x + 2)"
      using assms(1,4-7) that(1) by (simp_all add: corners_ok_def abcd Let_def deep_def)
    have near: "lo \<le> im_px img y' x' \<and> im_px img y' x' \<le> hi" if "measured i y' x'" "y \<le> y'" "y' \<le> y + 2" "x \<le> x'" "x' \<le> x + 2" for y' x'
      using \<open>bounds_near img i (y + j) (x + k) lo hi\<close> [unfolded bounds_near_def, rule_format, of y' x'] that assms(4-7) by linarith
    have "max 0 lo \<le> v \<and> v \<le> hi"
      using assms(3) [unfolded abcd amid_def prod.case, rule_format, of "max 0 lo" hi] ok near [OF assms(2)]
        near [OF measured_steps(1) [OF assms(2)]] near [OF measured_steps(2) [OF assms(2)]] near [OF measured_steps(3) [OF assms(2)]]
      by (simp add: pixel_value_def px)
    then show ?thesis
      by simp
  qed
  then show ?thesis
    using v assms(8) by (simp add: debayer_value_def pixel_value_def)
qed

lemma corners_found:
  assumes "pixels_fit img" "6 \<le> im_height img" "6 \<le> im_width img" "-1 \<le> y" "y \<le> im_height img - 2" "-1 \<le> x" "x \<le> im_width img - 2"
  shows "\<exists>abcd. calculateABCD img x y = Some abcd \<and> corners_ok img y x abcd"
proof -
  note px = px_value [OF assms(1), THEN conjunct1] px_value [OF assms(1), THEN conjunct2]
  consider "x = -1" | "x = im_width img - 2" | "0 \<le> x" "x < im_width img - 2"
    using assms(6,7) by linarith
  note x_cases = this
  consider "y = -1" | "y = im_height img - 2" | "0 \<le> y" "y < im_height img - 2"
    using assms(4,5) by linarith
  then show ?thesis
    by (cases; rule x_cases)
      (use assms(2,3) in \<open>simp_all add: calculateABCD_def selectCase_def Let_def px corners_ok_def calculateValue_fits\<close>)
qed

definition square_of :: "image \<Rightarrow> nat \<Rightarrow> int \<Rightarrow> int \<Rightarrow> (nat \<times> int \<times> int) set" where
  "square_of img i y x = {(j, y', x'). j = i \<and> inside img y' x' \<and> y \<le> y' \<and> y' \<le> y + 2 \<and> x \<le> x' \<and> x' \<le> x + 2}"

abbreviation debayer_writes :: "image \<Rightarrow> (nat \<times> int \<times> int) set \<Rightarrow> (image list \<Rightarrow> image list option) \<Rightarrow> bool" where
  "debayer_writes img \<equiv> writes (im_height img) (im_width img) (im_depth img) (debayer_value img)"

lemma writes_if:
  assumes "i < 4" "c \<Longrightarrow> inside img y x" "c \<Longrightarrow> v = Some u" "c \<Longrightarrow> u mod 2 ^ im_depth img \<in> debayer_value img (i, y, x)"
  shows "debayer_writes img (if c then {(i, y, x)} else {}) (put_if c i y x v)"
proof (cases c)
  case True
  have "put_if c i y x v = put_plane i y x u"
    using True assms(3) by (simp add: put_if_def fun_eq_iff)
  then show ?thesis
    using True assms by (simp add: writes_put inside_def)
next
  case False
  then have "put_if c i y x v = Some"
    by (simp add: put_if_def fun_eq_iff)
  then show ?thesis
    using False by (simp add: writes_none)
qed

lemma writes_measured:
  assumes "pixels_fit img" "i < 4" "measured i y x" "c \<Longrightarrow> inside img y x"
  shows "debayer_writes img (if c then {(i, y, x)} else {}) (put_if c i y x (px_at img y x))"
  by (rule writes_if [where u = "im_px img y x"]) (use assms in \<open>simp_all add: px_at_inside measured_ok\<close>)

text \<open>The nine guarded places of a square are those that are in the image.\<close>

lemma square_split:
  assumes "-1 \<le> y" "y \<le> im_height img - 2" "-1 \<le> x" "x \<le> im_width img - 2" "2 \<le> im_height img" "2 \<le> im_width img"
  shows "square_of img i y x = (if 0 \<le> x \<and> 0 \<le> y then {(i, y, x)} else {}) \<union> ((if 0 \<le> y then {(i, y, x + 1)} else {})
     \<union> ((if 0 \<le> y \<and> x < im_width img - 2 then {(i, y, x + 2)} else {}) \<union> ((if 0 \<le> x then {(i, y + 1, x)} else {})
     \<union> ({(i, y + 1, x + 1)} \<union> ((if x < im_width img - 2 then {(i, y + 1, x + 2)} else {})
     \<union> ((if 0 \<le> x \<and> y < im_height img - 2 then {(i, y + 2, x)} else {}) \<union> ((if y < im_height img - 2 then {(i, y + 2, x + 1)} else {})
     \<union> (if x < im_width img - 2 \<and> y < im_height img - 2 then {(i, y + 2, x + 2)} else {}))))))))"
proof -
  have steps: "k \<le> n \<and> n \<le> k + 2 \<longleftrightarrow> n = k \<or> n = k + 1 \<or> n = k + 2" for n k :: int
    by linarith
  have sq: "square_of img i y x = {(j, y', x'). j = i \<and> inside img y' x' \<and> (y' = y \<or> y' = y + 1 \<or> y' = y + 2) \<and> (x' = x \<or> x' = x + 1 \<or> x' = x + 2)}"
    unfolding square_of_def by (simp only: steps [symmetric]) blast
  have "inside img y x \<longleftrightarrow> 0 \<le> x \<and> 0 \<le> y" "inside img y (x + 1) \<longleftrightarrow> 0 \<le> y" "inside img y (x + 2) \<longleftrightarrow> 0 \<le> y \<and> x < im_width img - 2"
    "inside img (y + 1) x \<longleftrightarrow> 0 \<le> x" "inside img (y + 1) (x + 1)" "inside img (y + 1) (x + 2) \<longleftrightarrow> x < im_width img - 2"
    "inside img (y + 2) x \<longleftrightarrow> 0 \<le> x \<and> y < im_height img - 2" "inside img (y + 2) (x + 1) \<longleftrightarrow> y < im_height img - 2"
    "inside img (y + 2) (x + 2) \<longleftrightarrow> x < im_width img - 2 \<and> y < im_height img - 2"
    using assms by (auto simp: inside_def)
  then show ?thesis
    unfolding sq by (auto split: if_splits)
qed

lemma put_square_writes:
  assumes "pixels_fit img" "2 \<le> im_height img" "2 \<le> im_width img" "-1 \<le> y" "y \<le> im_height img - 2" "-1 \<le> x" "x \<le> im_width img - 2"
    and "i < 4" "measured i y x" "corners_ok img y x abcd"
  shows "debayer_writes img (square_of img i y x) (put_square img i x y abcd)"
proof -
  obtain a b c d where abcd: "abcd = (a, b, c, d)"
    by (cases abcd)
  have pos: "0 \<le> a" "0 \<le> b" "0 \<le> c" "0 \<le> d"
    using assms(10) by (simp_all add: corners_ok_def abcd Let_def pixel_value_def)
  note steps = measured_steps [OF assms(9)]
  have mid: "v mod 2 ^ im_depth img \<in> debayer_value img (i, y, x + 1)" "v mod 2 ^ im_depth img \<in> debayer_value img (i, y + 1, x)"
    "v mod 2 ^ im_depth img \<in> debayer_value img (i, y + 1, x + 1)" "v mod 2 ^ im_depth img \<in> debayer_value img (i, y + 1, x + 2)"
    "v mod 2 ^ im_depth img \<in> debayer_value img (i, y + 2, x + 1)" if "amid (a, b, c, d) v" for v
    using amid_ok [OF assms(10,9) that [folded abcd], of 0 1] amid_ok [OF assms(10,9) that [folded abcd], of 1 0]
      amid_ok [OF assms(10,9) that [folded abcd], of 1 1] amid_ok [OF assms(10,9) that [folded abcd], of 1 2]
      amid_ok [OF assms(10,9) that [folded abcd], of 2 1] steps by simp_all
  note means = mid(1) [OF means_amid(1) [OF pos]] mid(2) [OF means_amid(3) [OF pos]] mid(3) [OF means_amid(9) [OF pos]]
    mid(4) [OF means_amid(5) [OF pos]] mid(5) [OF means_amid(7) [OF pos]]
  show ?thesis
    unfolding square_split [OF assms(4-7,2,3)] put_square_def abcd prod.case Let_def
    by (intro writes_bind writes_measured writes_if [OF _ _ refl] writes_put means assms(1,8,9) steps) (use assms(2-7) in \<open>simp_all add: inside_def\<close>)
qed

lemma biInterpolation_writes:
  assumes "pixels_fit img" "6 \<le> im_height img" "6 \<le> im_width img" "-1 \<le> y" "y \<le> im_height img - 2" "-1 \<le> x" "x \<le> im_width img - 2"
    and "i < 4" "measured i y x"
  shows "debayer_writes img (square_of img i y x) (biInterpolation img i x y)"
proof -
  obtain abcd where abcd: "calculateABCD img x y = Some abcd" "corners_ok img y x abcd"
    using corners_found [OF assms(1-7)] by blast
  have "biInterpolation img i x y = put_square img i x y abcd"
    by (simp add: biInterpolation_def abcd(1) fun_eq_iff)
  then show ?thesis
    using put_square_writes [OF assms(1) _ _ assms(4-9) abcd(2)] assms(2,3) by simp
qed

lemma inner_square_writes:
  assumes "pixels_fit img" "0 \<le> y" "y < im_height img - 2" "0 \<le> x" "x < im_width img - 2" "i < 4" "measured i y x"
  shows "debayer_writes img (square_of img i y x) (biInterpolationWithOutBoundaries img i x y)"
proof -
  note px = px_value [OF assms(1), THEN conjunct1] px_value [OF assms(1), THEN conjunct2]
  define a b c d where abcd: "a = im_px img y x" "b = im_px img y (x + 2)" "c = im_px img (y + 2) x" "d = im_px img (y + 2) (x + 2)"
  have ok: "corners_ok img y x (a, b, c, d)"
    using assms(2-5) by (simp add: corners_ok_def Let_def abcd px)
  then have pos: "0 \<le> a" "0 \<le> b" "0 \<le> c" "0 \<le> d"
    by (simp_all add: corners_ok_def Let_def pixel_value_def)
  note steps = measured_steps [OF assms(7)]
  note mid = amid_ok [OF ok assms(7)]
  have corner: "a mod 2 ^ im_depth img \<in> debayer_value img (i, y, x)" "b mod 2 ^ im_depth img \<in> debayer_value img (i, y, x + 2)"
    "c mod 2 ^ im_depth img \<in> debayer_value img (i, y + 2, x)" "d mod 2 ^ im_depth img \<in> debayer_value img (i, y + 2, x + 2)"
    unfolding abcd by (rule measured_ok [OF assms(1)]; use assms(2-5,7) steps in \<open>simp add: inside_def\<close>)+
  have put: "biInterpolationWithOutBoundaries img i x y = (\<lambda>ps. do {
     ps \<leftarrow> put_plane i y x a ps;
     ps \<leftarrow> put_plane i y (x + 1) ((2 * (a + b) + (c + d)) sdiv 6) ps;
     ps \<leftarrow> put_plane i y (x + 2) b ps;
     ps \<leftarrow> put_plane i (y + 1) x ((2 * (a + c) + (b + d)) sdiv 6) ps;
     ps \<leftarrow> put_plane i (y + 1) (x + 1) (((a + b) + (c + d)) sdiv 4) ps;
     ps \<leftarrow> put_plane i (y + 1) (x + 2) (((a + c) + 2 * (b + d)) sdiv 6) ps;
     ps \<leftarrow> put_plane i (y + 2) x c ps;
     ps \<leftarrow> put_plane i (y + 2) (x + 1) (((a + b) + 2 * (c + d)) sdiv 6) ps;
     put_plane i (y + 2) (x + 2) d ps })"
    using assms(2-5) by (simp add: biInterpolationWithOutBoundaries_def px fun_eq_iff flip: abcd)
  have guards: "-1 \<le> y" "y \<le> im_height img - 2" "-1 \<le> x" "x \<le> im_width img - 2" "2 \<le> im_height img" "2 \<le> im_width img"
    using assms(2-5) by simp_all
  have true: "0 \<le> x \<and> 0 \<le> y" "0 \<le> y \<and> x < im_width img - 2" "0 \<le> x \<and> y < im_height img - 2" "x < im_width img - 2 \<and> y < im_height img - 2"
    using assms(2-5) by simp_all
  show ?thesis
    unfolding square_split [OF guards] if_P [OF true(1)] if_P [OF true(2)] if_P [OF true(3)] if_P [OF true(4)] if_P [OF assms(2)] if_P [OF assms(3)]
      if_P [OF assms(4)] if_P [OF assms(5)] put
    by (intro writes_bind writes_put corner mid [of _ 0 1, simplified] mid [of _ 1 0, simplified] mid [of _ 1 1] mid [of _ 1 2] mid [of _ 2 1] means_amid [OF pos] steps assms(6))
      (use assms(2-5) in simp_all)
qed

subsection \<open>The loops reach every pixel\<close>

lemma steps2_iff: "z \<in> set (steps2 n) \<longleftrightarrow> 0 \<le> z \<and> z < n \<and> even z"
proof -
  have "2 * int k < n" if "k < nat ((n + 1) div 2)" for k
    using that by linarith
  moreover have "z \<in> (\<lambda>k. 2 * int k) ` {0..<nat ((n + 1) div 2)}" if "0 \<le> z" "z < n" "even z"
    by (rule image_eqI [of _ _ "nat (z div 2)"]) (use that in auto)
  ultimately show ?thesis
    unfolding steps2_def by auto
qed

text \<open>The squares of one turn of a loop.\<close>

definition turn_squares :: "image \<Rightarrow> int \<Rightarrow> int \<Rightarrow> (nat \<times> int \<times> int) set" where
  "turn_squares img y x = square_of img 0 (y - 1) (x - 1) \<union> (square_of img 1 y (x - 1) \<union> (square_of img 2 y x \<union> square_of img 3 (y - 1) x))"

definition inner_squares :: "image \<Rightarrow> int \<Rightarrow> int \<Rightarrow> (nat \<times> int \<times> int) set" where
  "inner_squares img y x = square_of img 0 (y + 1) (x + 1) \<union> (square_of img 1 y (x + 1) \<union> (square_of img 2 y x \<union> square_of img 3 (y + 1) x))"

lemma less_four: "i < 4 \<Longrightarrow> i = 0 \<or> i = Suc 0 \<or> i = 2 \<or> i = (3 :: nat)"
  by linarith

lemma turn_squares_iff: "i < 4 \<Longrightarrow> (i, y', x') \<in> turn_squares img y x \<longleftrightarrow> (i, y', x') \<in> square_of img i (y - angle_row i) (x - angle_col i)"
  by (drule less_four, elim disjE) (simp_all add: turn_squares_def square_of_def angle_row_def angle_col_def)

lemma inner_squares_iff: "i < 4 \<Longrightarrow> (i, y', x') \<in> inner_squares img y x \<longleftrightarrow> (i, y', x') \<in> square_of img i (y + angle_row i) (x + angle_col i)"
  by (drule less_four, elim disjE) (simp_all add: inner_squares_def square_of_def angle_row_def angle_col_def)

lemma measured_angles:
  fixes y x :: int
  assumes "even y" "even x"
  shows "measured 0 (y - 1) (x - 1)" "measured 1 y (x - 1)" "measured 2 y x" "measured 3 (y - 1) x"
    and "measured 0 (y + 1) (x + 1)" "measured 1 y (x + 1)" "measured 3 (y + 1) x"
proof -
  have "z mod 2 = 0" "(z - 1) mod 2 = 1" "(z + 1) mod 2 = 1" if "even z" for z :: int
    using that by presburger+
  then show "measured 0 (y - 1) (x - 1)" "measured 1 y (x - 1)" "measured 2 y x" "measured 3 (y - 1) x"
    and "measured 0 (y + 1) (x + 1)" "measured 1 y (x + 1)" "measured 3 (y + 1) x"
    using assms by (simp_all add: measured_def angle_row_def angle_col_def)
qed

lemma debayer_at_writes:
  assumes "pixels_fit img" "6 \<le> im_height img" "6 \<le> im_width img" "0 \<le> y" "y \<le> im_height img - 2" "0 \<le> x" "x \<le> im_width img - 2" "even y" "even x"
  shows "debayer_writes img (turn_squares img y x) (debayer_at img y x)"
proof -
  have "debayer_at img y x = (\<lambda>ps. Option.bind (biInterpolation img 0 (x - 1) (y - 1) ps) (\<lambda>ps. Option.bind (biInterpolation img 1 (x - 1) y ps)
      (\<lambda>ps. Option.bind (biInterpolation img 2 x y ps) (biInterpolation img 3 x (y - 1)))))"
    by (simp add: debayer_at_def fun_eq_iff)
  then show ?thesis
    unfolding turn_squares_def using assms measured_angles [OF assms(8,9)]
    by (auto intro!: writes_bind biInterpolation_writes)
qed

lemma inner_at_writes:
  assumes "pixels_fit img" "0 \<le> y" "y < im_height img - 3" "0 \<le> x" "x < im_width img - 3" "even y" "even x"
  shows "debayer_writes img (inner_squares img y x) (inner_at img y x)"
proof -
  have "inner_at img y x = (\<lambda>ps. Option.bind (biInterpolationWithOutBoundaries img 0 (x + 1) (y + 1) ps) (\<lambda>ps. Option.bind (biInterpolationWithOutBoundaries img 1 (x + 1) y ps)
      (\<lambda>ps. Option.bind (biInterpolationWithOutBoundaries img 2 x y ps) (biInterpolationWithOutBoundaries img 3 x (y + 1)))))"
    by (simp add: inner_at_def fun_eq_iff)
  then show ?thesis
    unfolding inner_squares_def using assms measured_angles [OF assms(6,7)]
    by (auto intro!: writes_bind inner_square_writes)
qed

text \<open>Every pixel is in a square of the turn of its own square of two by two, and away from the border in one that is inside.\<close>

lemma angle_bit: "i < 4 \<Longrightarrow> angle_row i \<in> {0, 1} \<and> angle_col i \<in> {0, 1}"
  by (drule less_four, elim disjE) (simp_all add: angle_row_def angle_col_def)

lemma in_turn:
  assumes "i < 4" "inside img y x"
  shows "(i, y, x) \<in> turn_squares img (y - y mod 2) (x - x mod 2)"
proof -
  have "y mod 2 \<in> {0, 1}" "x mod 2 \<in> {0, 1}"
    by auto
  then show ?thesis
    unfolding turn_squares_iff [OF assms(1)] using angle_bit [OF assms(1)] assms(2) by (auto simp: square_of_def)
qed

lemma in_inner:
  assumes "i < 4" "inside img y x"
  shows "(i, y, x) \<in> inner_squares img (y - y mod 2 - 2 * angle_row i) (x - x mod 2 - 2 * angle_col i)"
proof -
  have "y mod 2 \<in> {0, 1}" "x mod 2 \<in> {0, 1}"
    by auto
  then show ?thesis
    unfolding inner_squares_iff [OF assms(1)] using angle_bit [OF assms(1)] assms(2) by (auto simp: square_of_def)
qed

lemma turns_write:
  assumes "pixels_fit img" "6 \<le> im_height img" "6 \<le> im_width img" "even (im_height img)" "even (im_width img)"
    and "set ys \<subseteq> set (steps2 (im_height img - 1))" "set xs \<subseteq> set (steps2 (im_width img - 1))"
  shows "debayer_writes img (\<Union>y \<in> set ys. \<Union>x \<in> set xs. turn_squares img y x) (each (\<lambda>y. each (debayer_at img y) xs) ys)"
  by (intro writes_each debayer_at_writes assms(1-3)) (use assms(4-7) in \<open>auto simp: steps2_iff subset_iff\<close>)

lemma expandDebayer_planes:
  assumes "pixels_fit img" "6 \<le> im_height img" "6 \<le> im_width img" "even (im_height img)" "even (im_width img)"
  shows "\<exists>ps. expandDebayer img = Some ps \<and> planes_ok (im_height img) (im_width img) (im_depth img) ps
    \<and> (\<forall>i < 4. \<forall>y x. inside img y x \<longrightarrow> plane_px ps (i, y, x) \<in> debayer_value img (i, y, x))"
proof -
  let ?W = "\<Union>y \<in> set (steps2 (im_height img - 1)). \<Union>x \<in> set (steps2 (im_width img - 1)). turn_squares img y x"
  obtain ps where ps: "expandDebayer img = Some ps" "planes_ok (im_height img) (im_width img) (im_depth img) ps"
    "\<And>q. if q \<in> ?W then plane_px ps q \<in> debayer_value img q else fst q < 4 \<longrightarrow> plane_px ps q = 0"
    using writes_new [OF turns_write [OF assms subset_refl subset_refl]] unfolding expandDebayer_def by blast
  have "(i, y, x) \<in> ?W" if "i < 4" "inside img y x" for i y x
  proof -
    have "y - y mod 2 \<in> set (steps2 (im_height img - 1))" "x - x mod 2 \<in> set (steps2 (im_width img - 1))"
      using that(2) assms(4,5) unfolding steps2_iff inside_def by presburger+
    then show ?thesis
      using in_turn [OF that] by blast
  qed
  then show ?thesis
    using ps(1,2) ps(3) by (metis (no_types, lifting))
qed

lemma fast_writes:
  assumes "pixels_fit img" "6 \<le> im_height img" "6 \<le> im_width img" "even (im_height img)" "even (im_width img)"
  defines "h \<equiv> im_height img" and "w \<equiv> im_width img"
  shows "debayer_writes img ((\<Union>y \<in> set (steps2 (h - 3)). \<Union>x \<in> set (steps2 (w - 3)). inner_squares img y x)
      \<union> ((\<Union>x \<in> set (steps2 (w - 1)). turn_squares img 0 x) \<union> ((\<Union>x \<in> set (steps2 (w - 1)). turn_squares img (h - 2) x)
      \<union> ((\<Union>y \<in> set (steps2 (h - 1)). turn_squares img y (w - 2)) \<union> (\<Union>y \<in> set (steps2 (h - 1)). turn_squares img y 0)))))
    (\<lambda>ps. Option.bind (each (\<lambda>y. each (inner_at img y) (steps2 (w - 3))) (steps2 (h - 3)) ps)
      (\<lambda>ps. Option.bind (each (debayer_at img 0) (steps2 (w - 1)) ps)
      (\<lambda>ps. Option.bind (each (debayer_at img (h - 2)) (steps2 (w - 1)) ps)
      (\<lambda>ps. Option.bind (each (\<lambda>y. debayer_at img y (w - 2)) (steps2 (h - 1)) ps) (each (\<lambda>y. debayer_at img y 0) (steps2 (h - 1)))))))"
  by (intro writes_bind writes_each debayer_at_writes inner_at_writes assms(1-3))
    (use assms(2-5) in \<open>auto simp: steps2_iff h_def w_def\<close>)

lemma expandDebayer_fast_planes:
  assumes "pixels_fit img" "6 \<le> im_height img" "6 \<le> im_width img" "even (im_height img)" "even (im_width img)"
  shows "\<exists>ps. expandDebayer_fast img = Some ps \<and> planes_ok (im_height img) (im_width img) (im_depth img) ps
    \<and> (\<forall>i < 4. \<forall>y x. inside img y x \<longrightarrow> plane_px ps (i, y, x) \<in> debayer_value img (i, y, x))"
proof -
  let ?h = "im_height img" and ?w = "im_width img"
  let ?W = "(\<Union>y \<in> set (steps2 (?h - 3)). \<Union>x \<in> set (steps2 (?w - 3)). inner_squares img y x)
      \<union> ((\<Union>x \<in> set (steps2 (?w - 1)). turn_squares img 0 x) \<union> ((\<Union>x \<in> set (steps2 (?w - 1)). turn_squares img (?h - 2) x)
      \<union> ((\<Union>y \<in> set (steps2 (?h - 1)). turn_squares img y (?w - 2)) \<union> (\<Union>y \<in> set (steps2 (?h - 1)). turn_squares img y 0))))"
  obtain ps where ps: "expandDebayer_fast img = Some ps" "planes_ok ?h ?w (im_depth img) ps"
    "\<And>q. if q \<in> ?W then plane_px ps q \<in> debayer_value img q else fst q < 4 \<longrightarrow> plane_px ps q = 0"
    using writes_new [OF fast_writes [OF assms]] unfolding expandDebayer_fast_def debayer_fast_at_same Let_def by blast
  have edge: "z = 0 \<or> z = n - 2 \<or> 2 \<le> z \<and> z < n - 3" if "z \<in> set (steps2 (n - 1))" "even n" for z n
    using that unfolding steps2_iff by presburger
  have "(i, y, x) \<in> ?W" if "i < 4" "inside img y x" for i y x
  proof -
    define Y X where "Y = y - y mod 2" and "X = x - x mod 2"
    have Y: "Y \<in> set (steps2 (?h - 1))" and X: "X \<in> set (steps2 (?w - 1))"
      using that(2) assms(4,5) unfolding Y_def X_def steps2_iff inside_def by presburger+
    note turn = in_turn [OF that, folded Y_def X_def]
    consider "Y = 0" | "Y = ?h - 2" | "X = ?w - 2" | "X = 0" | "2 \<le> Y" "Y < ?h - 3" "2 \<le> X" "X < ?w - 3"
      using edge [of Y ?h] edge [of X ?w] Y X assms(4,5) by blast
    then show ?thesis
    proof cases
      case 5
      then have "Y - 2 * angle_row i \<in> set (steps2 (?h - 3))" "X - 2 * angle_col i \<in> set (steps2 (?w - 3))"
        using Y X angle_bit [OF that(1)] by (auto simp: steps2_iff)
      then show ?thesis
        using in_inner [OF that, folded Y_def X_def] by blast
    qed (use turn Y X in blast)+
  qed
  then show ?thesis
    using ps(1,2) ps(3) by (metis (no_types, lifting))
qed



subsection \<open>Other versions\<close>

text \<open>Without boundaries: one call of the unguarded version for each inner square. The squares at the border stay zero.\<close>

lemma without_boundaries_planes:
  assumes "pixels_fit img"
  shows "\<exists>ps. expandDebayerWithoutBoundaries img = Some ps \<and> planes_ok (im_height img) (im_width img) (im_depth img) ps
    \<and> (\<forall>q. if q \<in> (\<Union>y \<in> set (steps2 (im_height img - 3)). \<Union>x \<in> set (steps2 (im_width img - 3)). inner_squares img y x)
       then plane_px ps q \<in> debayer_value img q else fst q < 4 \<longrightarrow> plane_px ps q = 0)"
  unfolding expandDebayerWithoutBoundaries_def
  by (intro writes_new writes_each inner_at_writes assms) (auto simp: steps2_iff)

text \<open>At the right border the corners come from one row: the pixels of the row below, which the square ends in, do not count.\<close>

lemma right_border_one_row:
  assumes "im_height img' = im_height img" "im_width img' = im_width img" "im_depth img' = im_depth img" "6 \<le> im_width img"
    and "0 \<le> y" "y < im_height img - 2" "im_px img' y = im_px img y"
  shows "calculateABCD img' (im_width img - 2) y = calculateABCD img (im_width img - 2) y"
  using assms by (simp add: calculateABCD_def selectCase_def Let_def px_at_def inside_def)

text \<open>Earlier helpers that are not called any more: the corners one by one, and all at once.\<close>

definition calculateA :: "image \<Rightarrow> int \<Rightarrow> int \<Rightarrow> int option" where
  "calculateA img x y = (let px = px_at img; val = calculateValue (im_depth img) in
     if x = -1 \<and> 0 \<le> y then do { a1 \<leftarrow> px y (x + 1); a2 \<leftarrow> px y (x + 3); Some (val a1 a2) }
     else if y = -1 \<and> 0 \<le> x then do { a1 \<leftarrow> px (y + 1) x; a2 \<leftarrow> px (y + 3) x; Some (val a1 a2) }
     else if y = -1 \<and> x = -1 then do { a1 \<leftarrow> px (y + 1) (x + 1); a2 \<leftarrow> px (y + 3) (x + 3); Some (val a1 a2) }
     else px y x)"

definition calculateB :: "image \<Rightarrow> int \<Rightarrow> int \<Rightarrow> int option" where
  "calculateB img x y = (let px = px_at img; val = calculateValue (im_depth img) in
     if x = -1 \<and> 0 \<le> y then px y (x + 1)
     else if y = -1 \<and> 0 \<le> x then do { b1 \<leftarrow> px (y + 1) (x + 2); b2 \<leftarrow> px (y + 3) (x + 2); Some (val b1 b2) }
     else if y = -1 \<and> x = -1 then do { b1 \<leftarrow> px (y + 1) (x + 1); b2 \<leftarrow> px (y + 3) (x + 1); Some (val b1 b2) }
     else px y (x + 2))"

definition calculateC :: "image \<Rightarrow> int \<Rightarrow> int \<Rightarrow> int option" where
  "calculateC img x y = (let px = px_at img; val = calculateValue (im_depth img) in
     if x = -1 \<and> 0 \<le> y then do { c1 \<leftarrow> px (y + 2) (x + 1); c2 \<leftarrow> px (y + 2) (x + 3); Some (val c1 c2) }
     else if y = -1 \<and> 0 \<le> x then px (y + 1) x
     else if y = -1 \<and> x = -1 then do { c1 \<leftarrow> px (y + 1) (x + 1); c2 \<leftarrow> px (y + 1) (x + 3); Some (val c1 c2) }
     else px (y + 2) x)"

definition calculateD :: "image \<Rightarrow> int \<Rightarrow> int \<Rightarrow> int option" where
  "calculateD img x y = (let px = px_at img in
     if x = -1 \<and> 0 \<le> y then px (y + 2) (x + 1)
     else if y = -1 \<and> 0 \<le> x then px (y + 1) (x + 2)
     else if y = -1 \<and> x = -1 then px (y + 1) (x + 1)
     else px (y + 2) (x + 2))"

definition calculateABCD1 :: "image \<Rightarrow> int \<Rightarrow> int \<Rightarrow> corners option" where
  "calculateABCD1 img x y = (let px = px_at img; val = calculateValue (im_depth img) in
     if x = -1 \<and> 0 \<le> y then do {
       a1 \<leftarrow> px y (x + 1); a2 \<leftarrow> px y (x + 3); b \<leftarrow> px y (x + 1);
       c1 \<leftarrow> px (y + 2) (x + 1); c2 \<leftarrow> px (y + 2) (x + 3); d \<leftarrow> px (y + 2) (x + 1);
       Some (val a1 a2, b, val c1 c2, d) }
     else if y = -1 \<and> 0 \<le> x then do {
       a1 \<leftarrow> px (y + 1) x; a2 \<leftarrow> px (y + 3) x; b1 \<leftarrow> px (y + 1) (x + 2); b2 \<leftarrow> px (y + 3) (x + 2);
       c \<leftarrow> px (y + 1) x; d \<leftarrow> px (y + 1) (x + 2);
       Some (val a1 a2, val b1 b2, c, d) }
     else if y = -1 \<and> x = -1 then do {
       a1 \<leftarrow> px (y + 1) (x + 1); a2 \<leftarrow> px (y + 3) (x + 3); b1 \<leftarrow> px (y + 1) (x + 1); b2 \<leftarrow> px (y + 3) (x + 1);
       c1 \<leftarrow> px (y + 1) (x + 1); c2 \<leftarrow> px (y + 1) (x + 3); d \<leftarrow> px (y + 1) (x + 1);
       Some (val a1 a2, val b1 b2, val c1 c2, d) }
     else do {
       a \<leftarrow> px y x; b \<leftarrow> px y (x + 2); c \<leftarrow> px (y + 2) x; d \<leftarrow> px (y + 2) (x + 2);
       Some (a, b, c, d) })"

lemma corners_one_by_one: "calculateABCD1 img x y = do {
    a \<leftarrow> calculateA img x y; b \<leftarrow> calculateB img x y; c \<leftarrow> calculateC img x y; d \<leftarrow> calculateD img x y; Some (a, b, c, d) }"
  by (simp add: calculateABCD1_def calculateA_def calculateB_def calculateC_def calculateD_def Let_def)

text \<open>Inside of the image they agree with the corners in use; there is no case for the lower and the right border.\<close>

lemma corners_inside_agree:
  assumes "0 \<le> y" "y < im_height img - 2" "0 \<le> x" "x < im_width img - 2"
  shows "calculateABCD1 img x y = calculateABCD img x y"
  using assms by (simp add: calculateABCD1_def calculateABCD_def selectCase_def Let_def)

lemma corners_border_fault: "calculateABCD1 img (im_width img - 2) y = None" if "0 \<le> y" "3 \<le> im_width img"
  using that by (auto simp: calculateABCD1_def Let_def px_at_def inside_def Option.bind_eq_None_conv)

end
