(* ===== verification/Intrusive_List.thy ===== *)
theory Intrusive_List imports Prelude begin

section \<open>The intrusive doubly linked list (misc/include/misc/list.h)\<close>

text \<open>
  A \<open>list_t\<close> node is embedded in every connection, pipeline module, device and interface.
  Its two fields are two maps from addresses (one map per struct field); an address outside a
  map's domain is not mapped, and dereferencing it is the fault \<open>None\<close>. So is the
  \<open>__builtin_trap\<close> of the insertion functions. The statements of each C function
  are kept one by one, in order, so that aliasing between the head, the neighbours and the new
  element is the code's own. \<open>is_list\<close> relates a heap and a head to the sequence of its
  elements; the lemmas show that each operation is the sequence operation it stands for.
\<close>

record list_heap =
  next_of :: "addr \<Rightarrow> addr option"
  prev_of :: "addr \<Rightarrow> addr option"

definition get_next :: "list_heap \<Rightarrow> addr \<Rightarrow> addr option" where
  "get_next h a = next_of h a"

definition get_prev :: "list_heap \<Rightarrow> addr \<Rightarrow> addr option" where
  "get_prev h a = prev_of h a"

definition set_next :: "addr \<Rightarrow> addr \<Rightarrow> list_heap \<Rightarrow> list_heap option" where
  "set_next a v h = (case next_of h a of None \<Rightarrow> None
     | Some _ \<Rightarrow> Some (h\<lparr>next_of := (next_of h)(a \<mapsto> v)\<rparr>))"

definition set_prev :: "addr \<Rightarrow> addr \<Rightarrow> list_heap \<Rightarrow> list_heap option" where
  "set_prev a v h = (case prev_of h a of None \<Rightarrow> None
     | Some _ \<Rightarrow> Some (h\<lparr>prev_of := (prev_of h)(a \<mapsto> v)\<rparr>))"

subsection \<open>The operations\<close>

definition list_first_elem :: "list_heap \<Rightarrow> addr \<Rightarrow> addr option" where
  "list_first_elem h l = get_next h l"

definition list_last_elem :: "list_heap \<Rightarrow> addr \<Rightarrow> addr option" where
  "list_last_elem h l = get_prev h l"

definition list_trap_if_linked :: "list_heap \<Rightarrow> addr \<Rightarrow> unit option" where
  "list_trap_if_linked h e = do {
     nx \<leftarrow> get_next h e;
     if nx \<noteq> NULL then None
     else do { pv \<leftarrow> get_prev h e; if pv \<noteq> NULL then None else Some () } }"

definition list_add_front :: "addr \<Rightarrow> addr \<Rightarrow> list_heap \<Rightarrow> list_heap option" where
  "list_add_front l e h = do {
     list_trap_if_linked h e;
     nx \<leftarrow> get_next h l;
     h \<leftarrow> set_next e nx h;
     h \<leftarrow> set_prev e l h;
     nx \<leftarrow> get_next h l;
     h \<leftarrow> set_prev nx e h;
     set_next l e h }"

definition list_add_back :: "addr \<Rightarrow> addr \<Rightarrow> list_heap \<Rightarrow> list_heap option" where
  "list_add_back l e h = do {
     list_trap_if_linked h e;
     h \<leftarrow> set_next e l h;
     pv \<leftarrow> get_prev h l;
     h \<leftarrow> set_prev e pv h;
     pv \<leftarrow> get_prev h l;
     h \<leftarrow> set_next pv e h;
     set_prev l e h }"

definition list_insert_after :: "addr \<Rightarrow> addr \<Rightarrow> addr \<Rightarrow> list_heap \<Rightarrow> list_heap option" where
  "list_insert_after l x e h = do {
     list_trap_if_linked h e;
     nx \<leftarrow> get_next h x;
     h \<leftarrow> set_next e nx h;
     h \<leftarrow> set_prev e x h;
     nx \<leftarrow> get_next h x;
     h \<leftarrow> set_prev nx e h;
     set_next x e h }"

definition list_insert_before :: "addr \<Rightarrow> addr \<Rightarrow> addr \<Rightarrow> list_heap \<Rightarrow> list_heap option" where
  "list_insert_before l x e h = do {
     list_trap_if_linked h e;
     h \<leftarrow> set_next e x h;
     pv \<leftarrow> get_prev h x;
     h \<leftarrow> set_prev e pv h;
     pv \<leftarrow> get_prev h x;
     h \<leftarrow> set_next pv e h;
     set_prev x e h }"

definition list_replace_elem :: "addr \<Rightarrow> addr \<Rightarrow> addr \<Rightarrow> list_heap \<Rightarrow> list_heap option" where
  "list_replace_elem l x e h = do {
     nx \<leftarrow> get_next h x;
     h \<leftarrow> set_next e nx h;
     pv \<leftarrow> get_prev h x;
     h \<leftarrow> set_prev e pv h;
     nx \<leftarrow> get_next h x;
     h \<leftarrow> set_prev nx e h;
     pv \<leftarrow> get_prev h x;
     h \<leftarrow> set_next pv e h;
     h \<leftarrow> set_prev x NULL h;
     set_next x NULL h }"

definition list_remove_elem :: "addr \<Rightarrow> addr \<Rightarrow> list_heap \<Rightarrow> list_heap option" where
  "list_remove_elem l e h = do {
     pv \<leftarrow> get_prev h e;
     nx \<leftarrow> get_next h e;
     h \<leftarrow> set_next pv nx h;
     nx \<leftarrow> get_next h e;
     pv \<leftarrow> get_prev h e;
     h \<leftarrow> set_prev nx pv h;
     h \<leftarrow> set_prev e NULL h;
     set_next e NULL h }"

definition list_is_empty :: "list_heap \<Rightarrow> addr \<Rightarrow> bool option" where
  "list_is_empty h l = do { nx \<leftarrow> get_next h l; Some (l = nx) }"

definition list_is_valid_elem :: "addr \<Rightarrow> addr \<Rightarrow> bool" where
  "list_is_valid_elem l e \<longleftrightarrow> e \<noteq> l"

definition list_init :: "addr \<Rightarrow> list_heap \<Rightarrow> list_heap option" where
  "list_init l h = do { h \<leftarrow> set_prev l l h; set_next l l h }"

lemmas list_ops = list_first_elem_def list_last_elem_def list_trap_if_linked_def
  list_add_front_def list_add_back_def list_insert_after_def list_insert_before_def
  list_replace_elem_def list_remove_elem_def list_is_empty_def list_init_def

subsection \<open>The loops of the callers\<close>

text \<open>
  Every list is read with the loop \<open>item = list_first_elem(l); while (list_is_valid_elem(l,
  item)) { ...; item = item->next; }\<close>, and freed with \<open>while (!list_is_empty(l)) {
  item = list_first_elem(l); list_remove_elem(l, item); ... }\<close>. Both may run forever on a
  corrupted heap, so they are partial functions.
\<close>

partial_function (option) list_walk :: "list_heap \<Rightarrow> addr \<Rightarrow> addr \<Rightarrow> addr list option" where
  "list_walk h l item =
     (if \<not> list_is_valid_elem l item then Some []
      else Option.bind (get_next h item) (\<lambda>nx.
        Option.bind (list_walk h l nx) (\<lambda>r. Some (item # r))))"

definition list_elems :: "list_heap \<Rightarrow> addr \<Rightarrow> addr list option" where
  "list_elems h l = Option.bind (list_first_elem h l) (list_walk h l)"

partial_function (option) list_drain :: "addr \<Rightarrow> list_heap \<Rightarrow> list_heap option" where
  "list_drain l h =
     Option.bind (list_is_empty h l) (\<lambda>e. if e then Some h
       else Option.bind (list_first_elem h l) (\<lambda>item.
         Option.bind (list_remove_elem l item h) (list_drain l)))"

subsection \<open>The list a heap represents\<close>

text \<open>
  \<open>chain h a xs b\<close>: following \<open>next\<close> from \<open>a\<close> visits \<open>xs\<close> and arrives at \<open>b\<close>, and
  every edge has its \<open>prev\<close> counterpart. A list is a chain from its head to its head.
\<close>

fun chain :: "list_heap \<Rightarrow> addr \<Rightarrow> addr list \<Rightarrow> addr \<Rightarrow> bool" where
  "chain h a [] b = (next_of h a = Some b \<and> prev_of h b = Some a)"
| "chain h a (x # xs) b = (next_of h a = Some x \<and> prev_of h x = Some a \<and> chain h x xs b)"

definition is_list :: "list_heap \<Rightarrow> addr \<Rightarrow> addr list \<Rightarrow> bool" where
  "is_list h l xs \<longleftrightarrow> distinct (l # xs) \<and> NULL \<notin> set (l # xs) \<and> chain h l xs l"

definition unlinked :: "list_heap \<Rightarrow> addr \<Rightarrow> bool" where
  "unlinked h e \<longleftrightarrow> e \<noteq> NULL \<and> next_of h e = Some NULL \<and> prev_of h e = Some NULL"

definition mapped :: "list_heap \<Rightarrow> addr \<Rightarrow> bool" where
  "mapped h e \<longleftrightarrow> next_of h e \<noteq> None \<and> prev_of h e \<noteq> None"

lemma chain_append [seq_simps]: "chain h a (xs @ x # ys) b \<longleftrightarrow> chain h a xs x \<and> chain h x ys b"
  by (induction xs arbitrary: a) auto

lemma chain_next: "chain h a xs b \<Longrightarrow> next_of h a = Some (hd (xs @ [b]))"
  by (cases xs) auto

lemma chain_prev: "chain h a xs b \<Longrightarrow> prev_of h b = Some (last (a # xs))"
  by (induction xs arbitrary: a) auto

lemma chain_frame:
  assumes "chain h a xs b"
    and "\<And>c. c \<in> set (a # xs) \<Longrightarrow> next_of h' c = next_of h c"
    and "\<And>c. c \<in> set (b # xs) \<Longrightarrow> prev_of h' c = prev_of h c"
  shows "chain h' a xs b"
  using assms by (induction xs arbitrary: a) auto

lemma chain_mapped: "chain h a xs a \<Longrightarrow> c \<in> set (a # xs) \<Longrightarrow> mapped h c"
proof -
  have "chain h a xs b \<Longrightarrow> c \<in> set xs \<Longrightarrow> mapped h c" for a b
    by (induction xs arbitrary: a) (auto simp: mapped_def dest: chain_next)
  then show "chain h a xs a \<Longrightarrow> c \<in> set (a # xs) \<Longrightarrow> mapped h c"
    using chain_next chain_prev by (fastforce simp: mapped_def)
qed

text \<open>The nodes before and after the gap between \<open>ys\<close> and \<open>zs\<close>.\<close>

definition gap_left :: "addr \<Rightarrow> addr list \<Rightarrow> addr" where
  "gap_left a ys = last (a # ys)"

definition gap_right :: "addr list \<Rightarrow> addr \<Rightarrow> addr" where
  "gap_right zs b = hd (zs @ [b])"

lemma gap_left_simps [simp]: "gap_left a [] = a" "gap_left a (ys @ [y]) = y"
    "gap_left a (x # ys) = gap_left x ys"
  by (auto simp: gap_left_def)

lemma gap_right_simps [simp]: "gap_right [] b = b" "gap_right (z # zs) b = z"
  by (auto simp: gap_right_def)

lemma gap_left_in: "gap_left a ys \<in> set (a # ys)"
  by (auto simp: gap_left_def)

lemma gap_right_in: "gap_right zs b \<in> set (b # zs)"
  by (cases zs) auto

lemma chain_gap:
  "chain h a (ys @ zs) b \<Longrightarrow> next_of h (gap_left a ys) = Some (gap_right zs b)
     \<and> prev_of h (gap_right zs b) = Some (gap_left a ys)"
proof (induction ys arbitrary: a)
  case Nil
  then show ?case by (cases zs) auto
qed simp

lemma chain_splice:
  assumes "chain h a (ys @ zs) b" "distinct (a # ys @ zs)" "b \<notin> set (ys @ zs)"
    and "next_of h' (gap_left a ys) = Some e" "prev_of h' e = Some (gap_left a ys)"
    and "next_of h' e = Some (gap_right zs b)" "prev_of h' (gap_right zs b) = Some e"
    and "\<And>c. c \<in> set (a # ys @ zs) \<Longrightarrow> c \<noteq> gap_left a ys \<Longrightarrow> next_of h' c = next_of h c"
    and "\<And>c. c \<in> set (b # ys @ zs) \<Longrightarrow> c \<noteq> gap_right zs b \<Longrightarrow> prev_of h' c = prev_of h c"
  shows "chain h' a (ys @ e # zs) b"
  using assms
proof (induction ys arbitrary: a)
  case Nil
  show ?case
  proof (cases zs)
    case (Cons z zs')
    have "chain h z zs' b" "z \<notin> set zs'" "a \<notin> set zs" "b \<notin> set zs"
      using Nil(1-3) Cons by simp_all
    moreover from this have "next_of h' c = next_of h c" if "c \<in> set (z # zs')" for c
      using Nil(8) [of c] Cons that by fastforce
    moreover have "prev_of h' c = prev_of h c" if "c \<in> set (b # zs')" for c
      using Nil(9) [of c] Cons that calculation(2,4) by fastforce
    ultimately have "chain h' z zs' b"
      by (blast intro: chain_frame)
    with Nil(1-7) Cons show ?thesis by simp
  qed (use Nil(1-7) in simp)
next
  case (Cons y ys)
  have "a \<noteq> gap_left y ys" "y \<noteq> gap_right zs b"
    using Cons.prems(2,3) gap_left_in [of y ys] gap_right_in [of zs b] by auto
  then have "next_of h' a = Some y" "prev_of h' y = Some a"
    using Cons.prems(1) Cons.prems(8) [of a] Cons.prems(9) [of y] by simp_all
  moreover have "chain h' y (ys @ e # zs) b"
    by (rule Cons.IH) (use Cons.prems(1-7) in simp_all, (rule Cons.prems(8,9); fastforce)+)
  ultimately show ?case by simp
qed

lemma chain_unsplice:
  assumes "chain h a (ys @ e # zs) b" "distinct (a # ys @ e # zs)" "b \<notin> set (ys @ e # zs)"
    and "next_of h' (gap_left a ys) = Some (gap_right zs b)"
    and "prev_of h' (gap_right zs b) = Some (gap_left a ys)"
    and "\<And>c. c \<in> set (a # ys @ zs) \<Longrightarrow> c \<noteq> gap_left a ys \<Longrightarrow> next_of h' c = next_of h c"
    and "\<And>c. c \<in> set (b # ys @ zs) \<Longrightarrow> c \<noteq> gap_right zs b \<Longrightarrow> prev_of h' c = prev_of h c"
  shows "chain h' a (ys @ zs) b"
  using assms
proof (induction ys arbitrary: a)
  case Nil
  show ?case
  proof (cases zs)
    case (Cons z zs')
    have "chain h z zs' b" "z \<notin> set zs'" "a \<notin> set zs" "b \<notin> set zs"
      using Nil(1-3) Cons by simp_all
    moreover from this have "next_of h' c = next_of h c" if "c \<in> set (z # zs')" for c
      using Nil(6) [of c] Cons that by fastforce
    moreover have "prev_of h' c = prev_of h c" if "c \<in> set (b # zs')" for c
      using Nil(7) [of c] Cons that calculation(2,4) by fastforce
    ultimately have "chain h' z zs' b"
      by (blast intro: chain_frame)
    with Nil(1-5) Cons show ?thesis by simp
  qed (use Nil(1-5) in simp)
next
  case (Cons y ys)
  have "a \<noteq> gap_left y ys" "y \<noteq> gap_right zs b"
    using Cons.prems(2,3) gap_left_in [of y ys] gap_right_in [of zs b] by auto
  then have "next_of h' a = Some y" "prev_of h' y = Some a"
    using Cons.prems(1) Cons.prems(6) [of a] Cons.prems(7) [of y] by simp_all
  moreover have "chain h' y (ys @ zs) b"
    by (rule Cons.IH) (use Cons.prems(1-5) in simp_all, (rule Cons.prems(6,7); fastforce)+)
  ultimately show ?case by simp
qed

subsection \<open>Every insertion is a splice, every removal an unsplice\<close>

definition splice :: "addr \<Rightarrow> addr \<Rightarrow> addr \<Rightarrow> list_heap \<Rightarrow> list_heap" where
  "splice x e y h = h\<lparr>next_of := (next_of h)(e \<mapsto> y, x \<mapsto> e),
                      prev_of := (prev_of h)(e \<mapsto> x, y \<mapsto> e)\<rparr>"

definition unsplice :: "addr \<Rightarrow> addr \<Rightarrow> addr \<Rightarrow> list_heap \<Rightarrow> list_heap" where
  "unsplice x e y h = h\<lparr>next_of := (next_of h)(x \<mapsto> y, e \<mapsto> NULL),
                        prev_of := (prev_of h)(y \<mapsto> x, e \<mapsto> NULL)\<rparr>"

lemma set_next_Some [simp]:
  "set_next a v h = Some h' \<longleftrightarrow> next_of h a \<noteq> None \<and> h' = h\<lparr>next_of := (next_of h)(a \<mapsto> v)\<rparr>"
  by (auto simp: set_next_def split: option.splits)

lemma set_prev_Some [simp]:
  "set_prev a v h = Some h' \<longleftrightarrow> prev_of h a \<noteq> None \<and> h' = h\<lparr>prev_of := (prev_of h)(a \<mapsto> v)\<rparr>"
  by (auto simp: set_prev_def split: option.splits)

lemmas heap_access = get_next_def get_prev_def list_trap_if_linked_def

lemma list_insert_after_splice:
  assumes "unlinked h e" "next_of h x = Some y" "prev_of h y = Some x" "e \<noteq> x" "e \<noteq> y"
  shows "list_insert_after l x e h = Some (splice x e y h)"
  using assms by (auto simp: list_insert_after_def heap_access unlinked_def splice_def)

lemma list_insert_before_splice:
  assumes "unlinked h e" "next_of h x = Some y" "prev_of h y = Some x" "e \<noteq> x" "e \<noteq> y"
  shows "list_insert_before l y e h = Some (splice x e y h)"
  using assms by (auto simp: list_insert_before_def heap_access unlinked_def splice_def)

lemma list_add_front_insert: "list_add_front l e h = list_insert_after k l e h"
  by (simp add: list_add_front_def list_insert_after_def)

lemma list_add_back_insert: "list_add_back l e h = list_insert_before k l e h"
  by (simp add: list_add_back_def list_insert_before_def)

lemma list_remove_elem_unsplice:
  assumes "next_of h x = Some e" "prev_of h e = Some x" "next_of h e = Some y"
    and "prev_of h y = Some e" "e \<noteq> x" "e \<noteq> y"
  shows "list_remove_elem l e h = Some (unsplice x e y h)"
  using assms by (auto simp: list_remove_elem_def heap_access unsplice_def)

lemma is_list_splice:
  assumes "is_list h l (ys @ zs)" "e \<noteq> NULL" "e \<notin> set (l # ys @ zs)"
  shows "is_list (splice (gap_left l ys) e (gap_right zs l) h) l (ys @ e # zs)"
proof -
  have "e \<noteq> gap_left l ys" "e \<noteq> gap_right zs l"
    using assms(3) gap_left_in [of l ys] gap_right_in [of zs l] by auto
  with assms have "chain (splice (gap_left l ys) e (gap_right zs l) h) l (ys @ e # zs) l"
    by (intro chain_splice [of h]) (auto simp: is_list_def splice_def)
  with assms show ?thesis
    by (auto simp: is_list_def)
qed

lemma is_list_unsplice:
  assumes "is_list h l (ys @ e # zs)"
  shows "is_list (unsplice (gap_left l ys) e (gap_right zs l) h) l (ys @ zs)"
proof -
  have "e \<noteq> gap_left l ys" "e \<noteq> gap_right zs l"
    using assms gap_left_in [of l ys] gap_right_in [of zs l] by (auto simp: is_list_def)
  with assms have "chain (unsplice (gap_left l ys) e (gap_right zs l) h) l (ys @ zs) l"
    by (intro chain_unsplice [of h l ys e zs l]) (auto simp: is_list_def unsplice_def)
  with assms show ?thesis
    by (auto simp: is_list_def)
qed

lemma is_list_gap:
  assumes "is_list h l (ys @ zs)"
  shows "next_of h (gap_left l ys) = Some (gap_right zs l)"
    and "prev_of h (gap_right zs l) = Some (gap_left l ys)"
  using assms chain_gap [of h l ys zs l] by (auto simp: is_list_def)

lemma is_list_insert_after:
  assumes "is_list h l (ys @ zs)" "unlinked h e" "e \<notin> set (l # ys @ zs)"
  shows "\<exists>h'. list_insert_after l (gap_left l ys) e h = Some h' \<and> is_list h' l (ys @ e # zs)"
  using assms gap_left_in [of l ys] gap_right_in [of zs l] is_list_gap [OF assms(1)]
    is_list_splice [of h l ys zs e]
  by (subst list_insert_after_splice) (auto simp: unlinked_def)

lemma is_list_insert_before:
  assumes "is_list h l (ys @ zs)" "unlinked h e" "e \<notin> set (l # ys @ zs)"
  shows "\<exists>h'. list_insert_before l (gap_right zs l) e h = Some h' \<and> is_list h' l (ys @ e # zs)"
  using assms gap_left_in [of l ys] gap_right_in [of zs l] is_list_gap [OF assms(1)]
    is_list_splice [of h l ys zs e]
  by (subst list_insert_before_splice) (auto simp: unlinked_def)

lemma is_list_remove:
  assumes "is_list h l (ys @ e # zs)"
  shows "list_remove_elem l e h = Some (unsplice (gap_left l ys) e (gap_right zs l) h)"
proof -
  have "e \<noteq> gap_left l ys" "e \<noteq> gap_right zs l"
    using assms gap_left_in [of l ys] gap_right_in [of zs l] by (auto simp: is_list_def)
  moreover have "next_of h (gap_left l ys) = Some e" "prev_of h e = Some (gap_left l ys)"
    using is_list_gap [OF assms] by simp_all
  moreover have "next_of h e = Some (gap_right zs l)" "prev_of h (gap_right zs l) = Some e"
    using is_list_gap [of h l "ys @ [e]" zs] assms by simp_all
  ultimately show ?thesis
    by (intro list_remove_elem_unsplice) auto
qed

subsection \<open>Functional behaviour on the represented sequence\<close>

lemma is_list_not_unlinked: "is_list h l xs \<Longrightarrow> e \<in> set (l # xs) \<Longrightarrow> \<not> unlinked h e"
proof -
  assume il: "is_list h l xs" and e: "e \<in> set (l # xs)"
  have "chain h a ys b \<Longrightarrow> c \<in> set (a # ys) \<Longrightarrow> NULL \<notin> set (b # ys) \<Longrightarrow> next_of h c \<noteq> Some NULL" for a b c ys
    by (induction ys arbitrary: a) auto
  from this [of l xs l e] il e show ?thesis
    by (auto simp: is_list_def unlinked_def)
qed

lemma list_init_is_list:
  assumes "mapped h l" "l \<noteq> NULL"
  shows "\<exists>h'. list_init l h = Some h' \<and> is_list h' l []"
  using assms by (auto simp: list_init_def is_list_def mapped_def)

lemma list_is_empty_is_list:
  assumes "is_list h l xs"
  shows "list_is_empty h l = Some (xs = [])"
  using assms chain_next [of h l xs l]
  by (cases xs) (auto simp: list_is_empty_def get_next_def is_list_def)

lemma list_first_elem_is_list:
  "is_list h l xs \<Longrightarrow> list_first_elem h l = Some (hd (xs @ [l]))"
  using chain_next [of h l xs l] by (auto simp: list_first_elem_def get_next_def is_list_def)

lemma list_last_elem_is_list:
  "is_list h l xs \<Longrightarrow> list_last_elem h l = Some (last (l # xs))"
  using chain_prev [of h l xs l] by (auto simp: list_last_elem_def get_prev_def is_list_def)

lemma list_add_front_is_list:
  assumes "is_list h l xs" "unlinked h e"
  shows "\<exists>h'. list_add_front l e h = Some h' \<and> is_list h' l (e # xs)"
  using is_list_insert_after [of h l "[]" xs e] is_list_not_unlinked [OF assms(1), of e] assms
  by (auto simp: list_add_front_insert [of l e h l])

lemma list_add_back_is_list:
  assumes "is_list h l xs" "unlinked h e"
  shows "\<exists>h'. list_add_back l e h = Some h' \<and> is_list h' l (xs @ [e])"
  using is_list_insert_before [of h l xs "[]" e] is_list_not_unlinked [OF assms(1), of e] assms
  by (auto simp: list_add_back_insert [of l e h l])

lemma chain_walk:
  assumes "chain h a xs l" "l \<notin> set xs"
  shows "Option.bind (get_next h a) (list_walk h l) = Some xs"
  using assms
proof (induction xs arbitrary: a)
  case Nil
  then show ?case
    by (simp add: get_next_def list_walk.simps [of h l l] list_is_valid_elem_def)
next
  case (Cons x xs)
  then have "Option.bind (get_next h x) (list_walk h l) = Some xs" "x \<noteq> l"
    by simp_all
  with Cons.prems show ?case
    by (auto simp: get_next_def list_walk.simps [of h l x] list_is_valid_elem_def)
qed

lemma list_elems_is_list: "is_list h l xs \<Longrightarrow> list_elems h l = Some xs"
  unfolding list_elems_def list_first_elem_def by (rule chain_walk) (auto simp: is_list_def)

text \<open>Removing an element leaves every other node's freshness alone and makes the element fresh.\<close>

lemma unlinked_unsplice:
  assumes "is_list h l (ys @ e # zs)"
  shows "unlinked (unsplice (gap_left l ys) e (gap_right zs l) h) d \<longleftrightarrow> d = e \<or> unlinked h d"
proof -
  have nn: "\<not> unlinked h (gap_left l ys)" "\<not> unlinked h (gap_right zs l)" "\<not> unlinked h e"
    using is_list_not_unlinked [OF assms] gap_left_in [of l ys] gap_right_in [of zs l] by auto
  have d: "gap_left l ys \<noteq> NULL" "gap_right zs l \<noteq> NULL" "e \<noteq> NULL"
    using assms gap_left_in [of l ys] gap_right_in [of zs l] by (auto simp: is_list_def)
  show ?thesis
    using nn d by (auto simp: unlinked_def unsplice_def)
qed

lemma unlinked_splice:
  assumes "is_list h l (ys @ zs)" "e \<noteq> NULL"
  shows "unlinked (splice (gap_left l ys) e (gap_right zs l) h) d \<longleftrightarrow> d \<noteq> e \<and> unlinked h d"
proof -
  have nn: "\<not> unlinked h (gap_left l ys)" "\<not> unlinked h (gap_right zs l)"
    using is_list_not_unlinked [OF assms(1)] gap_left_in [of l ys] gap_right_in [of zs l] by auto
  have d: "gap_left l ys \<noteq> NULL" "gap_right zs l \<noteq> NULL"
    using assms gap_left_in [of l ys] gap_right_in [of zs l] by (auto simp: is_list_def)
  show ?thesis
    using nn d assms(2) by (auto simp: unlinked_def splice_def)
qed

lemma list_replace_elem_is_list:
  assumes "is_list h l (ys @ x # zs)" "unlinked h e"
  shows "\<exists>h'. list_replace_elem l x e h = Some h' \<and> is_list h' l (ys @ e # zs) \<and> unlinked h' x"
proof -
  let ?a = "gap_left l ys" and ?b = "gap_right zs l"
  let ?h' = "splice ?a e ?b (unsplice ?a x ?b h)"
  have il: "is_list (unsplice ?a x ?b h) l (ys @ zs)"
    by (rule is_list_unsplice [OF assms(1)])
  have e: "e \<notin> set (l # ys @ x # zs)" "e \<noteq> NULL"
    using is_list_not_unlinked [OF assms(1), of e] assms(2) by (auto simp: unlinked_def)
  have ne: "x \<noteq> ?a" "x \<noteq> ?b" "e \<noteq> ?a" "e \<noteq> ?b" "x \<noteq> e" "x \<noteq> NULL"
    using assms(1) e gap_left_in [of l ys] gap_right_in [of zs l] by (auto simp: is_list_def)
  have nb: "next_of h ?a = Some x" "prev_of h x = Some ?a" "next_of h x = Some ?b" "prev_of h ?b = Some x"
    using is_list_gap [OF assms(1)] is_list_gap [of h l "ys @ [x]" zs] assms(1) by simp_all
  have "list_replace_elem l x e h = Some ?h'"
    using ne nb assms(2)
    by (auto simp: list_replace_elem_def heap_access unlinked_def splice_def unsplice_def fun_upd_twist)
  moreover have "is_list ?h' l (ys @ e # zs)"
    using il e by (intro is_list_splice) auto
  moreover have "unlinked ?h' x"
    using unlinked_splice [OF il e(2)] unlinked_unsplice [OF assms(1)] ne by simp
  ultimately show ?thesis by blast
qed

text \<open>The drain loop ends, leaves the list empty and every former element unlinked.\<close>

lemma list_drain_is_list:
  assumes "is_list h l xs"
  shows "\<exists>h'. list_drain l h = Some h' \<and> is_list h' l []
    \<and> (\<forall>d. unlinked h' d \<longleftrightarrow> d \<in> set xs \<or> unlinked h d)"
  using assms
proof (induction xs arbitrary: h)
  case Nil
  then show ?case
    by (subst list_drain.simps) (simp add: list_is_empty_is_list)
next
  case (Cons x xs)
  let ?h = "unsplice l x (gap_right xs l) h"
  have "is_list ?h l xs" "list_remove_elem l x h = Some ?h"
    and u: "\<And>d. unlinked ?h d \<longleftrightarrow> d = x \<or> unlinked h d"
    using is_list_unsplice [of h l "[]" x xs] is_list_remove [of h l "[]" x xs]
      unlinked_unsplice [of h l "[]" x xs] Cons.prems by simp_all
  moreover have "list_drain l h = Option.bind (list_remove_elem l x h) (list_drain l)"
    using Cons.prems
    by (subst list_drain.simps) (simp add: list_is_empty_is_list list_first_elem_is_list)
  ultimately show ?case
    using Cons.IH [of ?h] by auto
qed

text \<open>A heap that agrees on the head and the elements represents the same list.\<close>

lemma is_list_frame:
  assumes "is_list h l xs" "\<And>c. c \<in> set (l # xs) \<Longrightarrow> next_of h' c = next_of h c \<and> prev_of h' c = prev_of h c"
  shows "is_list h' l xs"
  using assms chain_frame [of h l xs l h'] by (auto simp: is_list_def)

subsection \<open>The interface the owners of lists rely on\<close>

text \<open>
  A server, a pipeline, a device or an interface only appends fresh nodes, removes members, walks
  and drains. Those operations and their laws are the locale; what an owner does with a whole
  batch of nodes is proved once, from the laws.
\<close>

locale node_list =
  fixes rep :: "'h \<Rightarrow> addr list \<Rightarrow> bool" and fresh :: "'h \<Rightarrow> addr \<Rightarrow> bool"
    and push :: "addr \<Rightarrow> 'h \<Rightarrow> 'h option" and del :: "addr \<Rightarrow> 'h \<Rightarrow> 'h option"
    and elems :: "'h \<Rightarrow> addr list option"
  assumes fresh_not_in: "rep h xs \<Longrightarrow> fresh h e \<Longrightarrow> e \<notin> set xs"
    and push_law: "rep h xs \<Longrightarrow> fresh h e \<Longrightarrow>
      \<exists>h'. push e h = Some h' \<and> rep h' (xs @ [e]) \<and> (\<forall>d. fresh h' d \<longleftrightarrow> d \<noteq> e \<and> fresh h d)"
    and del_law: "rep h (ys @ e # zs) \<Longrightarrow>
      \<exists>h'. del e h = Some h' \<and> rep h' (ys @ zs) \<and> (\<forall>d. fresh h' d \<longleftrightarrow> d = e \<or> fresh h d)"
    and elems_law: "rep h xs \<Longrightarrow> elems h = Some xs"
begin

definition push_all :: "addr list \<Rightarrow> 'h \<Rightarrow> 'h option" where
  "push_all es h = foldl (\<lambda>r e. Option.bind r (push e)) (Some h) es"

definition del_all :: "addr list \<Rightarrow> 'h \<Rightarrow> 'h option" where
  "del_all es h = foldl (\<lambda>r e. Option.bind r (del e)) (Some h) es"

lemma push_all_ok:
  assumes "rep h xs" "distinct es" "\<forall>e \<in> set es. fresh h e"
  shows "\<exists>h'. push_all es h = Some h' \<and> rep h' (xs @ es) \<and> (\<forall>d. fresh h' d \<longleftrightarrow> d \<notin> set es \<and> fresh h d)"
  using assms
proof (induction es arbitrary: h xs)
  case Nil
  then show ?case by (simp add: push_all_def)
next
  case (Cons e es)
  then obtain h1 where h1: "push e h = Some h1" "rep h1 (xs @ [e])" "\<forall>d. fresh h1 d \<longleftrightarrow> d \<noteq> e \<and> fresh h d"
    using push_law [of h xs e] by auto
  with Cons.prems have "\<forall>d \<in> set es. fresh h1 d" by auto
  from Cons.IH [OF h1(2) _ this] Cons.prems h1 show ?case
    by (auto simp: push_all_def)
qed

lemma del_in: "rep h xs \<Longrightarrow> e \<in> set xs \<Longrightarrow> distinct xs \<Longrightarrow>
    \<exists>h'. del e h = Some h' \<and> rep h' (remove1 e xs) \<and> (\<forall>d. fresh h' d \<longleftrightarrow> d = e \<or> fresh h d)"
  using del_law by (metis remove1_split split_list_first)

lemma del_all_front:
  assumes "rep h (es @ xs)"
  shows "\<exists>h'. del_all es h = Some h' \<and> rep h' xs \<and> (\<forall>d. fresh h' d \<longleftrightarrow> d \<in> set es \<or> fresh h d)"
  using assms
proof (induction es arbitrary: h)
  case Nil
  then show ?case by (simp add: del_all_def)
next
  case (Cons e es)
  then obtain h1 where h1: "del e h = Some h1" "rep h1 (es @ xs)" "\<forall>d. fresh h1 d \<longleftrightarrow> d = e \<or> fresh h d"
    using del_law [of h "[]" e "es @ xs"] by auto
  from Cons.IH [OF h1(2)] h1 show ?case
    by (auto simp: del_all_def)
qed

lemma push_del_all:
  assumes "rep h []" "distinct es" "\<forall>e \<in> set es. fresh h e"
  shows "\<exists>h1 h2. push_all es h = Some h1 \<and> elems h1 = Some es \<and> del_all es h1 = Some h2
    \<and> rep h2 [] \<and> fresh h2 = fresh h"
proof -
  obtain h1 where h1: "push_all es h = Some h1" "rep h1 es" "\<forall>d. fresh h1 d \<longleftrightarrow> d \<notin> set es \<and> fresh h d"
    using push_all_ok [OF assms] by auto
  obtain h2 where "del_all es h1 = Some h2" "rep h2 []" "\<forall>d. fresh h2 d \<longleftrightarrow> d \<in> set es \<or> fresh h1 d"
    using del_all_front [of h1 es "[]"] h1 by auto
  with h1 assms show ?thesis
    using elems_law by (intro exI [of _ h1] exI [of _ h2]) auto
qed

end

interpretation il: node_list "\<lambda>h. is_list h l" "\<lambda>h e. unlinked h e" "list_add_back l"
    "list_remove_elem l" "\<lambda>h. list_elems h l" for l
proof unfold_locales
  fix h xs e
  assume il: "is_list h l xs" and e: "unlinked h e"
  then show "e \<notin> set xs"
    using is_list_not_unlinked by fastforce
  have ne: "e \<notin> set (l # xs)" "e \<noteq> NULL"
    using il e is_list_not_unlinked unlinked_def by blast+
  have "list_add_back l e h = Some (splice (gap_left l xs) e l h)"
    using ne e is_list_gap [of h l xs "[]"] il gap_left_in [of l xs]
    by (subst list_add_back_insert, intro list_insert_before_splice) auto
  then show "\<exists>h'. list_add_back l e h = Some h' \<and> is_list h' l (xs @ [e])
      \<and> (\<forall>d. unlinked h' d \<longleftrightarrow> d \<noteq> e \<and> unlinked h d)"
    using is_list_splice [of h l xs "[]" e] unlinked_splice [of h l xs "[]" e] il ne by auto
next
  fix h ys e zs
  assume "is_list h l (ys @ e # zs)"
  then show "\<exists>h'. list_remove_elem l e h = Some h' \<and> is_list h' l (ys @ zs)
      \<and> (\<forall>d. unlinked h' d \<longleftrightarrow> d = e \<or> unlinked h d)"
    using is_list_remove is_list_unsplice unlinked_unsplice by blast
qed (rule list_elems_is_list)

subsection \<open>Properties\<close>

text \<open>
  Each insertion of the list splices a fresh element into the represented sequence at the place its
  name says, in front, at the back, after or before a given element, and does not trap.
\<close>

theorem list_insertions:
  assumes "is_list h l (ys @ x # zs)" "unlinked h e"
  shows "(\<exists>h'. list_add_front l e h = Some h' \<and> is_list h' l (e # ys @ x # zs))
    \<and> (\<exists>h'. list_add_back l e h = Some h' \<and> is_list h' l (ys @ x # zs @ [e]))
    \<and> (\<exists>h'. list_insert_after l x e h = Some h' \<and> is_list h' l (ys @ x # e # zs))
    \<and> (\<exists>h'. list_insert_before l x e h = Some h' \<and> is_list h' l (ys @ e # x # zs))"
proof -
  have e: "e \<notin> set (l # ys @ x # zs)"
    using is_list_not_unlinked [OF assms(1), of e] assms(2) by auto
  have "gap_left l (ys @ [x]) = x" "gap_right (x # zs) l = x"
    by (simp_all add: gap_left_def gap_right_def)
  then show ?thesis
    using list_add_front_is_list [OF assms] list_add_back_is_list [OF assms]
      is_list_insert_after [of h l "ys @ [x]" zs e] is_list_insert_before [of h l ys "x # zs" e] assms e
    by simp
qed

definition demo_list :: list_heap where
  "demo_list = \<lparr>next_of = [1 \<mapsto> 2, 2 \<mapsto> 3, 3 \<mapsto> 1, 4 \<mapsto> 0], prev_of = [1 \<mapsto> 3, 2 \<mapsto> 1, 3 \<mapsto> 2, 4 \<mapsto> 0]\<rparr>"

lemma demo_list_rep: "is_list demo_list 1 [2, 3]" "unlinked demo_list 4"
  by (simp_all add: demo_list_def is_list_def unlinked_def)

theorem list_insertions_witness: "\<exists>h'. list_insert_after 1 2 4 demo_list = Some h' \<and> is_list h' 1 [2, 4, 3]"
  using list_insertions [of demo_list 1 "[]" 2 "[3]" 4] demo_list_rep by simp

text \<open>
  Removal and replacement act on the sequence and give the element back: after either, the element
  that left the list is unlinked, as every insertion requires of it.
\<close>

theorem list_removal_replacement:
  assumes "is_list h l (ys @ x # zs)" "unlinked h e"
  shows "(\<exists>h'. list_remove_elem l x h = Some h' \<and> is_list h' l (ys @ zs) \<and> unlinked h' x)
    \<and> (\<exists>h'. list_replace_elem l x e h = Some h' \<and> is_list h' l (ys @ e # zs) \<and> unlinked h' x)"
  using il.del_law [OF assms(1)] list_replace_elem_is_list [OF assms] by blast

theorem list_removal_replacement_witness: "\<exists>h'. list_replace_elem 1 3 4 demo_list = Some h' \<and> is_list h' 1 [2, 4]"
  using list_removal_replacement [of demo_list 1 "[2]" 3 "[]" 4] demo_list_rep by fastforce

text \<open>
  Claim C40. The loops over a list end: the walk visits the elements in order, and the loop that frees a list
  leaves it empty with every former element unlinked.
\<close>

theorem list_loops_end:
  assumes "is_list h l xs"
  shows "list_elems h l = Some xs
    \<and> (\<exists>h'. list_drain l h = Some h' \<and> is_list h' l [] \<and> (\<forall>d \<in> set xs. unlinked h' d))"
  using list_elems_is_list [OF assms] list_drain_is_list [OF assms] by auto

theorem list_loops_end_witness: "list_elems demo_list 1 = Some [2, 3]"
  using list_loops_end [OF demo_list_rep(1)] by simp

text \<open>
  Appending a batch of fresh nodes to an empty list, as an owner of a list does at its start, and
  removing them again, as it does at its end, restores the empty list and the freshness of all nodes.
\<close>

theorem list_push_del_roundtrip:
  assumes "is_list h l []" "distinct es" "\<forall>e \<in> set es. unlinked h e"
  shows "\<exists>h1 h2. il.push_all l es h = Some h1 \<and> list_elems h1 l = Some es \<and> il.del_all l es h1 = Some h2
    \<and> is_list h2 l [] \<and> unlinked h2 = unlinked h"
  using il.push_del_all [OF assms] by blast

definition demo_nodes :: list_heap where
  "demo_nodes = \<lparr>next_of = [1 \<mapsto> 1, 2 \<mapsto> 0, 3 \<mapsto> 0], prev_of = [1 \<mapsto> 1, 2 \<mapsto> 0, 3 \<mapsto> 0]\<rparr>"

theorem list_push_del_roundtrip_witness:
  "\<exists>h1. il.push_all 1 [3, 2] demo_nodes = Some h1 \<and> list_elems h1 1 = Some [3, 2]"
  using list_push_del_roundtrip [of demo_nodes 1 "[3, 2]"]
  by (auto simp: demo_nodes_def is_list_def unlinked_def)

end
