(* ===== verification/Shared_Memory.thy ===== *)
theory Shared_Memory imports C_String begin

section \<open>The shared memory of a pipeline (shared_memory_map.h, shared_memory.c)\<close>

text \<open>
  \<open>memory_map_t\<close> as a record: an \<open>int\<close> is a 32-bit word read as signed, a \<open>size_t\<close> a 64-bit
  word, and the offsets are computed with the wrap-around of \<open>size_t\<close>. The operating system is a
  record: shared memory names refer to objects, an object is its bytes, a mapping is the object's
  number, and the environment is a map from names to texts. The argument \<open>fail\<close> says which of the
  system calls of a function fail. The header of the mapped region holds the bytes of the map; its
  padding bytes are indeterminate and are an argument.
\<close>

subsection \<open>The map\<close>

record memory_map =
  mm_process_cnt :: u32
  mm_process_size :: u64
  mm_data_cnt :: u32
  mm_data_size :: u64

definition int_to_size :: "u32 \<Rightarrow> u64" where
  "int_to_size i = scast i"

definition memory_align :: "u64 \<Rightarrow> u64" where
  "memory_align sz = push_bit 8 (drop_bit 8 (sz + 255))"

definition sizeof_memory_map :: nat where "sizeof_memory_map = 32"

definition MEMORY_MAP_SIZE :: u64 where
  "MEMORY_MAP_SIZE = memory_align (of_nat sizeof_memory_map)"

definition memory_map_create :: "u32 \<Rightarrow> u64 \<Rightarrow> u32 \<Rightarrow> u64 \<Rightarrow> memory_map" where
  "memory_map_create proc_cnt proc_size data_cnt data_size =
     \<lparr>mm_process_cnt = proc_cnt, mm_process_size = proc_size, mm_data_cnt = data_cnt,
      mm_data_size = data_size\<rparr>"

definition memory_get_size :: "memory_map \<Rightarrow> u64" where
  "memory_get_size m = MEMORY_MAP_SIZE
     + memory_align (mm_process_size m * int_to_size (mm_process_cnt m))
     + memory_align (mm_data_size m * int_to_size (mm_data_cnt m))"

definition memory_get_mapoffset :: "memory_map \<Rightarrow> u64" where
  "memory_get_mapoffset m = 0"

definition memory_get_processoffset :: "memory_map \<Rightarrow> u64" where
  "memory_get_processoffset m = MEMORY_MAP_SIZE"

definition memory_get_dataoffset :: "memory_map \<Rightarrow> u64" where
  "memory_get_dataoffset m = MEMORY_MAP_SIZE
     + memory_align (mm_process_size m * int_to_size (mm_process_cnt m))"

definition memory_get_datasize :: "memory_map \<Rightarrow> u64" where
  "memory_get_datasize m = memory_align (mm_data_size m * int_to_size (mm_data_cnt m))"

text \<open>\<open>(struct process_info *)(shmem + processoffset) + id\<close>, and the ring entry of chunk \<open>i\<close>.\<close>

definition PROCESS_INFO_SIZE :: u64 where "PROCESS_INFO_SIZE = 2208"

definition process_slot :: "memory_map \<Rightarrow> u32 \<Rightarrow> u64" where
  "process_slot m i = memory_get_processoffset m + int_to_size i * PROCESS_INFO_SIZE"

definition chunk_offset :: "memory_map \<Rightarrow> u32 \<Rightarrow> u64" where
  "chunk_offset m i = memory_get_dataoffset m + int_to_size i * mm_data_size m"

subsection \<open>Alignment and layout\<close>

lemma map_size_value [simp]: "MEMORY_MAP_SIZE = 256"
  by (simp add: MEMORY_MAP_SIZE_def memory_align_def sizeof_memory_map_def)

lemma unat_memory_align:
  assumes "unat s + 255 < 2 ^ 64"
  shows "unat (memory_align s) = (unat s + 255) div 256 * 256"
proof -
  have s: "unat (s + 255) = unat s + 255"
    using assms by (subst unat_add_lem [THEN iffD1]) auto
  have t: "take_bit 64 (unat s + 255) = unat s + 255"
    using assms by (rule take_bit_nat_eq_self)
  have "unat (memory_align s) = take_bit 64 ((unat s + 255) div 256 * 256)"
    unfolding memory_align_def unsigned_push_bit_eq unsigned_drop_bit_eq s
    by (simp add: push_bit_eq_mult drop_bit_eq_div t)
  also have "\<dots> = (unat s + 255) div 256 * 256"
  proof (rule take_bit_nat_eq_self)
    have "(unat s + 255) div 256 * 256 \<le> unat s + 255"
      by simp
    with assms show "(unat s + 255) div 256 * 256 < 2 ^ 64"
      by linarith
  qed
  finally show ?thesis .
qed

lemma align_ge: "(n :: nat) \<le> (n + 255) div 256 * 256"
  using div_mult_mod_eq [of "n + 255" 256] mod_less_divisor [of 256 "n + 255"] by linarith

text \<open>
  A layout is representable when the two counts are not negative and the three parts, with the
  padding of both, fit into \<open>size_t\<close>.
\<close>

definition layout_ok :: "memory_map \<Rightarrow> bool" where
  "layout_ok m \<longleftrightarrow> 0 \<le> sint (mm_process_cnt m) \<and> 0 \<le> sint (mm_data_cnt m)
     \<and> unat (mm_process_size m) * unat (mm_process_cnt m)
       + unat (mm_data_size m) * unat (mm_data_cnt m) + 1024 < 2 ^ 64"

lemma unat_int_to_size:
  assumes "0 \<le> sint i"
  shows "unat (int_to_size i) = unat i"
proof -
  have r: "sint i < 2 ^ 31" "sint (int_to_size i) = sint i"
    using sint_lt [of i] by (simp_all add: int_to_size_def sint_up_scast is_up)
  then have "uint (int_to_size i) = sint i" "uint i = sint i"
    using assms by (simp_all add: uint_sint take_bit_int_eq_self del: sint_uint)
  then show ?thesis
    by (metis unat_eq_nat_uint)
qed

lemma unat_mult_no_overflow:
  "unat a * unat b < 2 ^ 64 \<Longrightarrow> unat (a * b :: u64) = unat a * unat b"
  using unat_mult_lem [of a b] by simp

lemma layout_values:
  assumes "layout_ok m"
  defines "P \<equiv> unat (mm_process_size m) * unat (mm_process_cnt m)"
    and "D \<equiv> unat (mm_data_size m) * unat (mm_data_cnt m)"
  shows "unat (memory_get_dataoffset m) = 256 + (P + 255) div 256 * 256"
    and "unat (memory_get_datasize m) = (D + 255) div 256 * 256"
    and "unat (memory_get_size m) = 256 + (P + 255) div 256 * 256 + (D + 255) div 256 * 256"
proof -
  have b: "P + D + 1024 < 2 ^ 64"
    using assms by (simp add: layout_ok_def)
  have P: "unat (mm_process_size m * int_to_size (mm_process_cnt m)) = P"
    using assms(1) b by (subst unat_mult_no_overflow) (auto simp: unat_int_to_size layout_ok_def P_def)
  have D: "unat (mm_data_size m * int_to_size (mm_data_cnt m)) = D"
    using assms(1) b by (subst unat_mult_no_overflow) (auto simp: unat_int_to_size layout_ok_def D_def)
  have le: "(P + 255) div 256 * 256 \<le> P + 255" "(D + 255) div 256 * 256 \<le> D + 255"
    by simp_all
  have aP: "unat (memory_align (mm_process_size m * int_to_size (mm_process_cnt m))) = (P + 255) div 256 * 256"
    using b by (subst unat_memory_align) (simp_all add: P)
  have aD: "unat (memory_align (mm_data_size m * int_to_size (mm_data_cnt m))) = (D + 255) div 256 * 256"
    using b by (subst unat_memory_align) (simp_all add: D)
  show off: "unat (memory_get_dataoffset m) = 256 + (P + 255) div 256 * 256"
    unfolding memory_get_dataoffset_def
    using b le aP by (subst unat_add_lem [THEN iffD1]) auto
  show "unat (memory_get_datasize m) = (D + 255) div 256 * 256"
    by (simp add: memory_get_datasize_def aD)
  have "memory_get_size m = memory_get_dataoffset m
      + memory_align (mm_data_size m * int_to_size (mm_data_cnt m))"
    by (simp add: memory_get_size_def memory_get_dataoffset_def)
  then show "unat (memory_get_size m) = 256 + (P + 255) div 256 * 256 + (D + 255) div 256 * 256"
    using b le aD off by (simp, subst unat_add_lem [THEN iffD1]) auto
qed

lemma chunk_offset_value:
  assumes "layout_ok m" "0 \<le> sint j" "unat j < unat (mm_data_cnt m)"
  shows "unat (chunk_offset m j) = unat (memory_get_dataoffset m) + unat j * unat (mm_data_size m)"
    and "unat (chunk_offset m j) + unat (mm_data_size m) \<le> unat (memory_get_size m)"
proof -
  let ?P = "unat (mm_process_size m) * unat (mm_process_cnt m)"
  let ?D = "unat (mm_data_size m) * unat (mm_data_cnt m)"
  have b: "?P + ?D + 1024 < 2 ^ 64"
    using assms by (simp add: layout_ok_def)
  note v = layout_values [OF assms(1)]
  have le: "(?P + 255) div 256 * 256 \<le> ?P + 255"
    by simp
  have "(unat j + 1) * unat (mm_data_size m) \<le> unat (mm_data_cnt m) * unat (mm_data_size m)"
    using assms(3) by (intro mult_right_mono) auto
  then have jd: "unat j * unat (mm_data_size m) + unat (mm_data_size m) \<le> ?D"
    by (simp add: algebra_simps)
  then have "unat (int_to_size j * mm_data_size m) = unat j * unat (mm_data_size m)"
    using b assms(2) by (subst unat_mult_no_overflow) (auto simp: unat_int_to_size)
  then show c: "unat (chunk_offset m j) = unat (memory_get_dataoffset m) + unat j * unat (mm_data_size m)"
    unfolding chunk_offset_def using b jd v(1) le by (subst unat_add_lem [THEN iffD1]) auto
  show "unat (chunk_offset m j) + unat (mm_data_size m) \<le> unat (memory_get_size m)"
    using c v(1,3) jd align_ge [of ?D] by linarith
qed

lemma process_slot_value:
  assumes "layout_ok m" "mm_process_size m = PROCESS_INFO_SIZE"
    and "0 \<le> sint i" "unat i < unat (mm_process_cnt m)"
  shows "unat (process_slot m i) = 256 + unat i * 2208"
    and "unat (process_slot m i) + 2208 \<le> unat (memory_get_dataoffset m)"
proof -
  let ?P = "unat (mm_process_size m) * unat (mm_process_cnt m)"
  have b: "?P + 1024 < 2 ^ 64"
    using assms by (simp add: layout_ok_def)
  have ip: "unat i * 2208 + 2208 \<le> ?P"
    using assms(2,4) by (simp add: PROCESS_INFO_SIZE_def)
  then have "unat (int_to_size i * PROCESS_INFO_SIZE) = unat i * 2208"
    using b assms(3) by (subst unat_mult_no_overflow) (auto simp: unat_int_to_size PROCESS_INFO_SIZE_def)
  then show c: "unat (process_slot m i) = 256 + unat i * 2208"
    unfolding process_slot_def memory_get_processoffset_def
    using b ip by (subst unat_add_lem [THEN iffD1]) auto
  show "unat (process_slot m i) + 2208 \<le> unat (memory_get_dataoffset m)"
    using c layout_values(1) [OF assms(1)] ip align_ge [of ?P] by linarith
qed

subsection \<open>The bytes of a map\<close>

definition map_bytes :: "u8 list \<Rightarrow> u8 list \<Rightarrow> memory_map \<Rightarrow> u8 list" where
  "map_bytes pad1 pad2 m = le_bytes 4 (ucast (mm_process_cnt m)) @ pad1 @ le_bytes 8 (mm_process_size m)
     @ le_bytes 4 (ucast (mm_data_cnt m)) @ pad2 @ le_bytes 8 (mm_data_size m)"

definition read_map :: "u8 list \<Rightarrow> memory_map option" where
  "read_map bs = (if length bs < sizeof_memory_map then None
     else Some \<lparr>mm_process_cnt = ucast (of_le (take 4 bs)),
                mm_process_size = of_le (take 8 (drop 8 bs)),
                mm_data_cnt = ucast (of_le (take 4 (drop 16 bs))),
                mm_data_size = of_le (take 8 (drop 24 bs))\<rparr>)"

definition write_bytes :: "nat \<Rightarrow> u8 list \<Rightarrow> u8 list \<Rightarrow> u8 list option" where
  "write_bytes off new bs = (if off + length new \<le> length bs
     then Some (take off bs @ new @ drop (off + length new) bs) else None)"

definition read_bytes :: "nat \<Rightarrow> nat \<Rightarrow> u8 list \<Rightarrow> u8 list option" where
  "read_bytes off n bs = (if off + n \<le> length bs then Some (take n (drop off bs)) else None)"

lemma read_write_bytes: "write_bytes off new bs = Some bs' \<Longrightarrow> read_bytes off (length new) bs' = Some new"
  by (auto simp: write_bytes_def read_bytes_def split: if_splits)

lemma write_bytes_length: "write_bytes off new bs = Some bs' \<Longrightarrow> length bs' = length bs"
  by (auto simp: write_bytes_def split: if_splits)

lemma ucast_of_le_4: "ucast (of_le (le_bytes 4 (ucast w))) = (w :: u32)"
  by (simp add: of_le_bytes) (rule bit_eqI, auto simp: bit_simps)

lemma of_le_8: "of_le (le_bytes 8 w) = w"
  unfolding of_le_bytes by (rule bit_eqI) (auto simp: bit_simps)

lemma read_map_bytes:
  assumes "length pad1 = 4" "length pad2 = 4"
  shows "read_map (map_bytes pad1 pad2 m @ rest) = Some m"
proof -
  let ?b = "map_bytes pad1 pad2 m @ rest"
  have "take 4 ?b = le_bytes 4 (ucast (mm_process_cnt m))"
    "take 8 (drop 8 ?b) = le_bytes 8 (mm_process_size m)"
    "take 4 (drop 16 ?b) = le_bytes 4 (ucast (mm_data_cnt m))"
    "take 8 (drop 24 ?b) = le_bytes 8 (mm_data_size m)"
    using assms by (simp_all add: map_bytes_def)
  then show ?thesis
    using assms by (simp add: read_map_def sizeof_memory_map_def ucast_of_le_4 of_le_8)
      (simp add: map_bytes_def)
qed

subsection \<open>Creating, opening and removing the region\<close>

record os =
  os_names :: "string \<Rightarrow> nat option"
  os_objs :: "nat \<Rightarrow> u8 list option"
  os_next :: nat
  os_env :: "string \<Rightarrow> string option"

datatype os_call = Shm_open | Ftruncate | Mmap | Setenv_name | Setenv_size

definition shm_unlink :: "string \<Rightarrow> os \<Rightarrow> os" where
  "shm_unlink path os = os\<lparr>os_names := (os_names os)(path := None)\<rparr>"

definition shared_memory_server_init ::
  "(os_call \<Rightarrow> bool) \<Rightarrow> u8 list \<Rightarrow> u8 list \<Rightarrow> string \<Rightarrow> memory_map \<Rightarrow> os \<Rightarrow> (nat option \<times> os) run" where
  "shared_memory_server_init fail pad1 pad2 path m os =
     (if fail Shm_open \<or> os_names os path \<noteq> None then Done (None, os)
      else let fd = os_next os;
               os = os\<lparr>os_names := (os_names os)(path \<mapsto> fd), os_objs := (os_objs os)(fd \<mapsto> []),
                       os_next := Suc fd\<rparr>
           in if fail Ftruncate then Done (None, shm_unlink path os)
              else let obj = replicate (unat (memory_get_size m)) 0;
                       os = os\<lparr>os_objs := (os_objs os)(fd \<mapsto> obj)\<rparr>
                   in if fail Mmap \<or> memory_get_size m = 0 then Done (None, shm_unlink path os)
                      else case write_bytes 0 (map_bytes pad1 pad2 m) obj of
                          None \<Rightarrow> Fault
                        | Some obj \<Rightarrow> Done (Some fd, os\<lparr>os_objs := (os_objs os)(fd \<mapsto> obj)\<rparr>))"

definition shared_memory_client_init ::
  "(os_call \<Rightarrow> bool) \<Rightarrow> string \<Rightarrow> u64 \<Rightarrow> os \<Rightarrow> nat option \<times> os" where
  "shared_memory_client_init fail path shmsize os =
     (if fail Shm_open then (None, os)
      else case os_names os path of
          None \<Rightarrow> (None, os)
        | Some fd \<Rightarrow> if fail Mmap \<or> shmsize = 0 then (None, shm_unlink path os) else (Some fd, os))"

definition shared_memory_unlink :: "string \<Rightarrow> os \<Rightarrow> os" where
  "shared_memory_unlink path os = shm_unlink path os"

definition shared_memory_destroy :: "string \<Rightarrow> os \<Rightarrow> os" where
  "shared_memory_destroy path os = shm_unlink path os"

definition shared_memory_size :: "nat \<Rightarrow> os \<Rightarrow> u64 option" where
  "shared_memory_size shm os = do {
     bs \<leftarrow> os_objs os shm;
     m \<leftarrow> read_map bs;
     Some (memory_get_size m) }"

definition shared_memory_write_test_data :: "nat \<Rightarrow> u8 list \<Rightarrow> os \<Rightarrow> os option" where
  "shared_memory_write_test_data shm buf os = do {
     bs \<leftarrow> os_objs os shm;
     m \<leftarrow> read_map bs;
     bs' \<leftarrow> write_bytes (unat (memory_get_dataoffset m)) buf bs;
     Some (os\<lparr>os_objs := (os_objs os)(shm \<mapsto> bs')\<rparr>) }"

definition shared_memory_read_test_data :: "nat \<Rightarrow> nat \<Rightarrow> os \<Rightarrow> u8 list option" where
  "shared_memory_read_test_data shm n os = do {
     bs \<leftarrow> os_objs os shm;
     m \<leftarrow> read_map bs;
     read_bytes (unat (memory_get_dataoffset m)) n bs }"

subsection \<open>The environment of the children\<close>

text \<open>\<open>%zd\<close> prints the \<open>size_t\<close> as a signed number.\<close>

definition SHMEM_DATA_NAME_ENV :: string where "SHMEM_DATA_NAME_ENV = ''SHMEM_DATA_NAME''"
definition SHMEM_DATA_SIZE_ENV :: string where "SHMEM_DATA_SIZE_ENV = ''SHMEM_DATA_SIZE''"

definition setenv :: "string \<Rightarrow> string \<Rightarrow> os \<Rightarrow> os" where
  "setenv name v os = os\<lparr>os_env := (os_env os)(name \<mapsto> v)\<rparr>"

definition shared_memory_setenv :: "(os_call \<Rightarrow> bool) \<Rightarrow> string \<Rightarrow> memory_map \<Rightarrow> os \<Rightarrow> int \<times> os" where
  "shared_memory_setenv fail path m os =
     (let shm_size = memory_get_size m
      in if fail Setenv_name then (- 1, os)
         else let os = setenv SHMEM_DATA_NAME_ENV path os
              in if fail Setenv_size then (- 1, os)
                 else (0, setenv SHMEM_DATA_SIZE_ENV (show_int (sint shm_size)) os))"

text \<open>
  \<open>shared_memory_getenv\<close> stores the name in its own parameter, so of the two results only the size
  reaches the caller: the function returns the code and the caller's two variables.
\<close>

definition shared_memory_getenv :: "os \<Rightarrow> string \<times> u64 \<Rightarrow> int \<times> (string \<times> u64)" where
  "shared_memory_getenv os vars =
     (let (shmpath, shmsize) = vars; shm_size_str = os_env os SHMEM_DATA_SIZE_ENV;
          shmpath_local = os_env os SHMEM_DATA_NAME_ENV
      in case shmpath_local of
          None \<Rightarrow> (- 1, (shmpath, shmsize))
        | Some _ \<Rightarrow>
           (case shm_size_str of
              None \<Rightarrow> (- 1, (shmpath, shmsize))
            | Some s \<Rightarrow> (0, (shmpath, (case scan_int s of None \<Rightarrow> shmsize | Some v \<Rightarrow> word_of_int v)))))"

lemma server_init_ok:
  assumes "layout_ok m" "os_names os path = None" "\<And>c. \<not> fail c" "length pad1 = 4" "length pad2 = 4"
  obtains os' bs where "shared_memory_server_init fail pad1 pad2 path m os = Done (Some (os_next os), os')"
    "os_names os' path = Some (os_next os)" "os_objs os' (os_next os) = Some bs"
    "read_map bs = Some m" "length bs = unat (memory_get_size m)" "os_env os' = os_env os"
proof -
  let ?n = "unat (memory_get_size m)" and ?h = "map_bytes pad1 pad2 m"
  have big: "256 \<le> ?n"
    using layout_values(3) [OF assms(1)] by simp
  then have nz: "memory_get_size m \<noteq> 0"
    by (metis unat_0 le_zero_eq zero_neq_numeral)
  have lh: "length ?h = 32"
    using assms(4,5) by (simp add: map_bytes_def)
  then have w: "write_bytes 0 ?h (replicate ?n 0) = Some (?h @ replicate (?n - 32) 0)"
    using big by (simp add: write_bytes_def)
  let ?bs = "?h @ replicate (?n - 32) 0"
  let ?os = "os\<lparr>os_names := (os_names os)(path \<mapsto> os_next os), os_next := Suc (os_next os),
               os_objs := (os_objs os)(os_next os \<mapsto> ?bs)\<rparr>"
  show thesis
    by (rule that [of ?os ?bs]) (use assms nz w lh big in
        \<open>auto simp: shared_memory_server_init_def Let_def read_map_bytes\<close>)
qed

lemma test_data_roundtrip:
  assumes "os_objs os shm = Some bs" "read_map bs = Some m" "layout_ok m"
    and "length buf \<le> unat (memory_get_datasize m)" "length bs = unat (memory_get_size m)"
  shows "\<exists>os'. shared_memory_write_test_data shm buf os = Some os'
    \<and> shared_memory_read_test_data shm (length buf) os' = Some buf
    \<and> shared_memory_size shm os' = Some (memory_get_size m)"
proof -
  let ?o = "unat (memory_get_dataoffset m)"
  have le: "32 \<le> ?o" "?o + length buf \<le> length bs"
    using layout_values [OF assms(3)] assms(4,5) by simp_all
  then have w: "write_bytes ?o buf bs = Some (take ?o bs @ buf @ drop (?o + length buf) bs)"
    by (simp add: write_bytes_def)
  have p: "take n (take ?o bs @ rest) = take n bs" if "n \<le> 32" for n and rest :: "u8 list"
    using le that by (simp add: min_absorb2 min_absorb1)
  have t: "take k (drop j (take ?o bs @ rest)) = take k (drop j bs)" if "k + j \<le> 32"
    for j k and rest :: "u8 list"
    unfolding take_drop p [OF that] ..
  have "read_map (take ?o bs @ buf @ drop (?o + length buf) bs) = Some m"
    using assms(2) le t [of 4 0] t [of 8 8] t [of 4 16] t [of 8 24]
    by (simp add: read_map_def sizeof_memory_map_def del: take_append drop_append split: if_splits)
  then show ?thesis
    using assms(1,2) w read_write_bytes [OF w]
    by (simp add: shared_memory_write_test_data_def shared_memory_read_test_data_def shared_memory_size_def)
qed

subsection \<open>Properties\<close>



text \<open>
  A region made by the server starts with its map, and test data written into the region is read
  back unchanged while the map, and so the size every client computes from it, stays.
\<close>

theorem shared_memory_roundtrip:
  assumes "layout_ok m" "os_names os path = None" "\<And>c. \<not> fail c" "length pad1 = 4" "length pad2 = 4"
    and "length buf \<le> unat (memory_get_datasize m)"
  shows "\<exists>shm os1 os2. shared_memory_server_init fail pad1 pad2 path m os = Done (Some shm, os1)
    \<and> shared_memory_size shm os1 = Some (memory_get_size m)
    \<and> shared_memory_write_test_data shm buf os1 = Some os2
    \<and> shared_memory_read_test_data shm (length buf) os2 = Some buf
    \<and> shared_memory_size shm os2 = Some (memory_get_size m)"
proof -
  obtain os1 bs where s: "shared_memory_server_init fail pad1 pad2 path m os = Done (Some (os_next os), os1)"
    "os_names os1 path = Some (os_next os)" "os_objs os1 (os_next os) = Some bs" "read_map bs = Some m"
    "length bs = unat (memory_get_size m)" "os_env os1 = os_env os"
    by (rule server_init_ok [OF assms(1-5)])
  then have "shared_memory_size (os_next os) os1 = Some (memory_get_size m)"
    by (simp add: shared_memory_size_def)
  with s(1) test_data_roundtrip [OF s(3,4) assms(1,6) s(5)] show ?thesis by blast
qed

definition demo_os :: os where
  "demo_os = \<lparr>os_names = \<lambda>_. None, os_objs = \<lambda>_. None, os_next = 3, os_env = \<lambda>_. None\<rparr>"

theorem shared_memory_roundtrip_witness:
  "\<exists>shm os1 os2. shared_memory_server_init (\<lambda>_. False) [0, 0, 0, 0] [0, 0, 0, 0] ''/seg''
      (memory_map_create 4 PROCESS_INFO_SIZE 2 256) demo_os = Done (Some shm, os1)
    \<and> shared_memory_write_test_data shm [1, 2, 3] os1 = Some os2
    \<and> shared_memory_read_test_data shm 3 os2 = Some [1, 2, 3]"
proof -
  have l: "layout_ok (memory_map_create 4 PROCESS_INFO_SIZE 2 256)"
    by (simp add: memory_map_create_def layout_ok_def PROCESS_INFO_SIZE_def)
  have "length [1, 2, 3 :: u8] \<le> unat (memory_get_datasize (memory_map_create 4 PROCESS_INFO_SIZE 2 256))"
    using layout_values(2) [OF l] by (simp add: memory_map_create_def)
  with shared_memory_roundtrip [OF l, of demo_os "''/seg''" "\<lambda>_. False" "[0, 0, 0, 0]" "[0, 0, 0, 0]" "[1, 2, 3]"]
  show ?thesis by (auto simp: demo_os_def numeral_3_eq_3)
qed

end
