(* ===== verification/Pipeline_Description.thy ===== *)
theory Pipeline_Description imports Shared_Memory begin

section \<open>Descriptions of pipelines and modules\<close>

text \<open>
  pipeline_module_description.c, pipeline_description.c and examples/pipeline_examples.c. The
  structures are records that also carry the block numbers of the memory they own, so that leaks and
  double frees of the clean-up functions are visible. An \<open>argv\<close> is NULL (\<open>None\<close>) or an array block
  with the blocks and texts of its strings up to the NULL entry. The printing functions return the
  text written to the standard output; dereferencing a NULL \<open>argv\<close> is a fault.
\<close>

subsection \<open>Module descriptions\<close>

datatype mt_mode = MT_MODE_INTERNAL | MT_MODE_EXTERNAL
datatype mt_type = MT_UNDEFINED | MT_FIRST | MT_MIDDLE | MT_LAST

fun mt_type_int :: "mt_type \<Rightarrow> int" where
  "mt_type_int MT_UNDEFINED = - 1"
| "mt_type_int MT_FIRST = 1"
| "mt_type_int MT_MIDDLE = 2"
| "mt_type_int MT_LAST = 0"

type_synonym argv = "addr \<times> (addr \<times> string) list"

record module_desc =
  md_addr :: addr
  md_id :: int
  md_type :: mt_type
  md_mode :: mt_mode
  md_next :: int
  md_argv :: "argv option"

definition md_block :: "module_desc option \<Rightarrow> mem \<Rightarrow> addr \<times> mem" where
  "md_block p m = (case p of Some d \<Rightarrow> (md_addr d, m) | None \<Rightarrow> mem_alloc m)"

fun strdup_all :: "string list \<Rightarrow> mem \<Rightarrow> (addr \<times> string) list \<times> mem" where
  "strdup_all [] m = ([], m)"
| "strdup_all (s # ss) m = (let (a, m) = mem_alloc m; (r, m) = strdup_all ss m in ((a, s) # r, m))"

definition create_initial_module_description ::
  "int \<Rightarrow> int \<Rightarrow> module_desc option \<Rightarrow> mem \<Rightarrow> module_desc \<times> mem" where
  "create_initial_module_description i nx p m =
     (let (a, m) = md_block p m
      in (\<lparr>md_addr = a, md_id = i, md_type = MT_FIRST, md_mode = MT_MODE_INTERNAL, md_next = nx,
           md_argv = None\<rparr>, m))"

definition create_first_module_description ::
  "int \<Rightarrow> int \<Rightarrow> string list \<Rightarrow> module_desc option \<Rightarrow> mem \<Rightarrow> module_desc \<times> mem" where
  "create_first_module_description i nx argv p m =
     (let (a, m) = md_block p m; (v, m) = mem_alloc m; (ss, m) = strdup_all argv m
      in (\<lparr>md_addr = a, md_id = i, md_type = MT_FIRST, md_mode = MT_MODE_EXTERNAL, md_next = nx,
           md_argv = Some (v, ss)\<rparr>, m))"

definition create_middle_module_description ::
  "int \<Rightarrow> int \<Rightarrow> string list \<Rightarrow> module_desc option \<Rightarrow> mem \<Rightarrow> module_desc \<times> mem" where
  "create_middle_module_description i nx argv p m =
     (let (a, m) = md_block p m; (v, m) = mem_alloc m; (ss, m) = strdup_all argv m
      in (\<lparr>md_addr = a, md_id = i, md_type = MT_MIDDLE, md_mode = MT_MODE_EXTERNAL, md_next = nx,
           md_argv = Some (v, ss)\<rparr>, m))"

definition create_last_module_description ::
  "int \<Rightarrow> int \<Rightarrow> module_desc option \<Rightarrow> mem \<Rightarrow> module_desc \<times> mem" where
  "create_last_module_description i nx p m =
     (let (a, m) = md_block p m; (v, m) = mem_alloc m
      in (\<lparr>md_addr = a, md_id = i, md_type = MT_LAST, md_mode = MT_MODE_INTERNAL, md_next = nx,
           md_argv = Some (v, [])\<rparr>, m))"

fun out_argv :: "nat \<Rightarrow> string list \<Rightarrow> string" where
  "out_argv i [] = []"
| "out_argv i (s # ss) = ''argv['' @ show_int (int i) @ '']='' @ s @ '' '' @ out_argv (Suc i) ss"

definition out_pipeline_module_description :: "module_desc option \<Rightarrow> string option" where
  "out_pipeline_module_description p = (case p of
     None \<Rightarrow> Some []
   | Some d \<Rightarrow> (case md_argv d of
       None \<Rightarrow> None
     | Some (_, ss) \<Rightarrow> Some (''['' @ show_int (md_id d) @ ''] Command string: '' @ out_argv 0 (map snd ss)
         @ ''id: '' @ show_int (md_id d) @ '', type: '' @ show_int (mt_type_int (md_type d))
         @ '', next_id: '' @ show_int (md_next d) @ [CHR 0x0A])))"

definition clean_pipeline_module_description :: "module_desc option \<Rightarrow> mem \<Rightarrow> mem option" where
  "clean_pipeline_module_description p m = (case p of
     None \<Rightarrow> Some m
   | Some d \<Rightarrow> (case md_argv d of
       None \<Rightarrow> Some m
     | Some (_, ss) \<Rightarrow> mem_free_all (map fst ss) m))"

subsection \<open>Pipeline descriptions\<close>

record pipeline_desc =
  pd_addr :: addr
  pd_shmpath :: "addr \<times> string"
  pd_shmem_size :: u64
  pd_modules_cnt :: int
  pd_mdescs_addr :: addr
  pd_mdescs :: "module_desc option list"
  pd_proc_cnt :: int
  pd_data_cnt :: int
  pd_data_size :: u64
  pd_wait_on_start :: int

text \<open>A negative count makes the array allocation fail, and its \<open>memset\<close> a fault.\<close>

definition pipeline_description_init :: "int \<Rightarrow> string \<Rightarrow> int \<Rightarrow> int \<Rightarrow> int \<Rightarrow>
    pipeline_desc option \<Rightarrow> mem \<Rightarrow> (pipeline_desc \<times> mem) option" where
  "pipeline_description_init wait_on_start shmpath data_cnt data_size modules_cnt p m =
     (let (a, m) = (case p of Some d \<Rightarrow> (pd_addr d, m) | None \<Rightarrow> mem_alloc m);
          (s, m) = mem_alloc m
      in Option.bind (c_int (modules_cnt + 1)) (\<lambda>proc_cnt.
         if modules_cnt < 0 then None
         else let (v, m) = mem_alloc m
              in Some (\<lparr>pd_addr = a, pd_shmpath = (s, shmpath), pd_shmem_size = 0,
                        pd_modules_cnt = modules_cnt, pd_mdescs_addr = v,
                        pd_mdescs = replicate (nat modules_cnt) None, pd_proc_cnt = proc_cnt,
                        pd_data_cnt = data_cnt, pd_data_size = word_of_int data_size,
                        pd_wait_on_start = wait_on_start\<rparr>, m)))"

fun out_modules :: "module_desc option list \<Rightarrow> string option" where
  "out_modules [] = Some []"
| "out_modules (d # ds) = do {
     t \<leftarrow> out_pipeline_module_description d; r \<leftarrow> out_modules ds; Some (t @ r) }"

definition out_pipeline_description :: "pipeline_desc option \<Rightarrow> string option" where
  "out_pipeline_description p = (case p of
     None \<Rightarrow> Some []
   | Some d \<Rightarrow> do {
       ms \<leftarrow> out_modules (take (nat (pd_modules_cnt d)) (pd_mdescs d));
       let tab = [CHR 0x09]; let nl = [CHR 0x0A];
       Some (''Pipeline description:'' @ nl
         @ tab @ ''shmem region path = '' @ [CHR 0x22] @ snd (pd_shmpath d) @ [CHR 0x22] @ nl
         @ tab @ ''shmem region size = '' @ show_int (sint (pd_shmem_size d)) @ nl
         @ tab @ ''data ring buffer count = '' @ show_int (pd_data_cnt d) @ nl
         @ tab @ ''data size = '' @ show_int (sint (pd_data_size d)) @ nl
         @ tab @ ''number of modules = '' @ show_int (pd_modules_cnt d) @ nl @ ms) })"

fun clean_all :: "module_desc option list \<Rightarrow> mem \<Rightarrow> mem option" where
  "clean_all [] m = Some m"
| "clean_all (d # ds) m = Option.bind (clean_pipeline_module_description d m) (clean_all ds)"

definition pipeline_description_destroy :: "pipeline_desc option \<Rightarrow> mem \<Rightarrow> mem option" where
  "pipeline_description_destroy p m = (case p of
     None \<Rightarrow> Some m
   | Some d \<Rightarrow> do {
       m \<leftarrow> clean_all (take (nat (pd_modules_cnt d)) (pd_mdescs d)) m;
       m \<leftarrow> mem_free (pd_mdescs_addr d) m;
       mem_free (pd_addr d) m })"

definition free_pipeline_description :: "pipeline_desc option \<Rightarrow> mem \<Rightarrow> (pipeline_desc option \<times> mem) option" where
  "free_pipeline_description p m = do {
     m \<leftarrow> pipeline_description_destroy p m;
     m \<leftarrow> mem_free (case p of None \<Rightarrow> NULL | Some d \<Rightarrow> pd_addr d) m;
     Some (None, m) }"

subsection \<open>The example pipelines\<close>

definition DEFAULT_WAIT_ON_START :: int where "DEFAULT_WAIT_ON_START = 3"

definition set_mdesc :: "nat \<Rightarrow> (module_desc option \<Rightarrow> mem \<Rightarrow> module_desc \<times> mem) \<Rightarrow>
    pipeline_desc \<times> mem \<Rightarrow> (pipeline_desc \<times> mem) option" where
  "set_mdesc i f dm = (let (d, m) = dm in
     if i < length (pd_mdescs d) then
       let (md, m) = f (pd_mdescs d ! i) m in Some (d\<lparr>pd_mdescs := (pd_mdescs d)[i := Some md]\<rparr>, m)
     else None)"

definition create_empty_pipeline_description :: "pipeline_desc option \<Rightarrow> mem \<Rightarrow> (pipeline_desc \<times> mem) option" where
  "create_empty_pipeline_description p m = do {
     let modules_cnt = (1 + 1 :: int);
     s \<leftarrow> pipeline_description_init DEFAULT_WAIT_ON_START ''/procsegment'' 512 256 modules_cnt p m;
     s \<leftarrow> set_mdesc 0 (create_initial_module_description 0 1) s;
     set_mdesc (nat (modules_cnt - 1)) (create_last_module_description (modules_cnt - 1) (- 1)) s }"

definition create_minimal_pipeline_description :: "pipeline_desc option \<Rightarrow> mem \<Rightarrow> (pipeline_desc \<times> mem) option" where
  "create_minimal_pipeline_description p m = do {
     let modules_cnt = (1 + 2 :: int);
     s \<leftarrow> pipeline_description_init DEFAULT_WAIT_ON_START ''/procsegment'' 512 256 modules_cnt p m;
     s \<leftarrow> set_mdesc (nat (modules_cnt - 1)) (create_last_module_description (modules_cnt - 1) (- 1)) s;
     s \<leftarrow> set_mdesc 0 (create_first_module_description 0 1 [''bin/psource'']) s;
     set_mdesc 1 (create_middle_module_description 1 2 [''bin/phandler'']) s }"

definition create_demo_pipeline_description :: "pipeline_desc option \<Rightarrow> mem \<Rightarrow> (pipeline_desc \<times> mem) option" where
  "create_demo_pipeline_description p m = do {
     let modules_cnt = (1 + 2 :: int);
     s \<leftarrow> pipeline_description_init DEFAULT_WAIT_ON_START ''/procsegment'' 512 256 modules_cnt p m;
     s \<leftarrow> set_mdesc (nat (modules_cnt - 1)) (create_last_module_description (modules_cnt - 1) (- 1)) s;
     s \<leftarrow> set_mdesc 0 (create_first_module_description 0 1 [''bin/tmk-demo-capturer'']) s;
     set_mdesc 1 (create_middle_module_description 1 2 [''bin/tmk-demo-filter'']) s }"

definition create_default_pipeline_description :: "pipeline_desc option \<Rightarrow> mem \<Rightarrow> (pipeline_desc \<times> mem) option" where
  "create_default_pipeline_description p m = do {
     let modules_cnt = (1 + 3 :: int);
     s \<leftarrow> pipeline_description_init DEFAULT_WAIT_ON_START ''/procsegment'' 512 256 modules_cnt p m;
     s \<leftarrow> set_mdesc (nat (modules_cnt - 1)) (create_last_module_description (modules_cnt - 1) (- 1)) s;
     s \<leftarrow> set_mdesc 0 (create_first_module_description 0 1 [''bin/tmk-first'']) s;
     s \<leftarrow> set_mdesc 1 (create_middle_module_description 1 2 [''bin/tmk-middle'']) s;
     set_mdesc 2 (create_middle_module_description 2 3 [''bin/tmk-last'']) s }"

definition create_pg_pipeline_description :: "pipeline_desc option \<Rightarrow> mem \<Rightarrow> (pipeline_desc \<times> mem) option" where
  "create_pg_pipeline_description p m = do {
     let modules_cnt = (1 + 3 :: int);
     s \<leftarrow> pipeline_description_init DEFAULT_WAIT_ON_START ''/procsegment'' 512 256 modules_cnt p m;
     s \<leftarrow> set_mdesc (nat (modules_cnt - 1)) (create_last_module_description (modules_cnt - 1) (- 1)) s;
     s \<leftarrow> set_mdesc 0 (create_first_module_description 0 1 [''bin/tmk-first'']) s;
     s \<leftarrow> set_mdesc 1 (create_middle_module_description 1 2 [''bin/tmk-pg'']) s;
     set_mdesc 3 (create_middle_module_description 2 3 [''bin/tmk-last'']) s }"

definition create_pipeline_description :: "string \<Rightarrow> pipeline_desc option \<Rightarrow> mem \<Rightarrow> (pipeline_desc option \<times> mem) option" where
  "create_pipeline_description init_string p m =
     (let wrap = map_option (\<lambda>(d, m). (Some d, m)) in
      if init_string = ''empty'' then wrap (create_empty_pipeline_description p m)
      else if init_string = ''minimal'' then wrap (create_minimal_pipeline_description p m)
      else if init_string = ''demo'' then wrap (create_demo_pipeline_description p m)
      else if init_string = ''default'' then wrap (create_default_pipeline_description p m)
      else if init_string = ''pg'' then wrap (create_default_pipeline_description p m)
      else Some (p, m))"

lemmas create_defs = create_initial_module_description_def create_first_module_description_def
  create_middle_module_description_def create_last_module_description_def md_block_def
  pipeline_description_init_def set_mdesc_def mem_alloc_def Let_def DEFAULT_WAIT_ON_START_def
  create_empty_pipeline_description_def create_minimal_pipeline_description_def
  create_demo_pipeline_description_def create_default_pipeline_description_def
  create_pg_pipeline_description_def

subsection \<open>What the examples describe\<close>

text \<open>A description's modules as \<open>(id, type, mode, next, argv)\<close>.\<close>

type_synonym module_key = "int \<times> mt_type \<times> mt_mode \<times> int \<times> string list option"

definition module_key :: "module_desc \<Rightarrow> module_key" where
  "module_key d = (md_id d, md_type d, md_mode d, md_next d, map_option (map snd \<circ> snd) (md_argv d))"

definition desc_keys :: "pipeline_desc \<Rightarrow> module_key option list" where
  "desc_keys d = map (map_option module_key) (pd_mdescs d)"

lemmas desc_eval = create_defs desc_keys_def module_key_def

lemma set_mdesc_eval: "i < length (pd_mdescs d) \<Longrightarrow> set_mdesc i f (d, m) =
    (case f (pd_mdescs d ! i) m of (md, m) \<Rightarrow> Some (d\<lparr>pd_mdescs := (pd_mdescs d)[i := Some md]\<rparr>, m))"
  by (simp add: set_mdesc_def)

lemma free_pipeline_description_double_free:
  assumes "pd_addr d \<noteq> NULL"
  shows "free_pipeline_description (Some d) m = None"
proof (cases "pipeline_description_destroy (Some d) m")
  case (Some m')
  then obtain m1 where "mem_free (pd_addr d) m1 = Some m'"
    by (auto simp: pipeline_description_destroy_def)
  then have "mem_free (pd_addr d) m' = None"
    using assms mem_free_twice mem_free_dead by blast
  with Some show ?thesis
    by (simp add: free_pipeline_description_def)
qed (simp add: free_pipeline_description_def)

lemma out_modules_fault:
  "Some d \<in> set ds \<Longrightarrow> md_argv d = None \<Longrightarrow> out_modules ds = None"
  by (induction ds) (auto simp: out_pipeline_module_description_def split: option.splits)

lemma out_modules_total:
  "(\<And>d. Some d \<in> set ds \<Longrightarrow> md_argv d \<noteq> None) \<Longrightarrow> out_modules ds \<noteq> None"
proof (induction ds)
  case (Cons x ds)
  then obtain r where "out_modules ds = Some r" by force
  with Cons.prems [of "the x"] show ?case
    by (cases x) (auto simp: out_pipeline_module_description_def split: option.splits)
qed simp

lemma out_pipeline_description_iff:
  assumes "pd_modules_cnt d = int (length (pd_mdescs d))"
  shows "out_pipeline_description (Some d) = None \<longleftrightarrow> (\<exists>md. Some md \<in> set (pd_mdescs d) \<and> md_argv md = None)"
proof -
  have t: "take (nat (pd_modules_cnt d)) (pd_mdescs d) = pd_mdescs d"
    using assms by simp
  show ?thesis
  proof (cases "\<exists>md. Some md \<in> set (pd_mdescs d) \<and> md_argv md = None")
    case True
    then have "out_modules (pd_mdescs d) = None"
      using out_modules_fault by blast
    with True show ?thesis
      by (simp add: out_pipeline_description_def t)
  next
    case False
    then obtain r where "out_modules (pd_mdescs d) = Some r"
      using out_modules_total [of "pd_mdescs d"] by auto
    with False show ?thesis
      by (auto simp: out_pipeline_description_def t Let_def)
  qed
qed

lemma empty_description:
  "\<exists>d m'. create_pipeline_description ''empty'' None m = Some (Some d, m')
     \<and> pd_modules_cnt d = int (length (pd_mdescs d)) \<and> desc_keys d =
       [Some (0, MT_FIRST, MT_MODE_INTERNAL, 1, None), Some (1, MT_LAST, MT_MODE_INTERNAL, - 1, Some [])]"
  by (simp add: create_pipeline_description_def desc_eval numeral_2_eq_2)

lemma minimal_description:
  "\<exists>d m'. create_pipeline_description ''minimal'' None m = Some (Some d, m')
     \<and> pd_modules_cnt d = int (length (pd_mdescs d)) \<and> desc_keys d =
       [Some (0, MT_FIRST, MT_MODE_EXTERNAL, 1, Some [''bin/psource'']),
        Some (1, MT_MIDDLE, MT_MODE_EXTERNAL, 2, Some [''bin/phandler'']),
        Some (2, MT_LAST, MT_MODE_INTERNAL, - 1, Some [])]"
  by (simp add: create_pipeline_description_def desc_eval eval_nat_numeral)

lemma default_description:
  "\<exists>d m'. create_pipeline_description ''default'' None m = Some (Some d, m')
     \<and> pd_modules_cnt d = int (length (pd_mdescs d)) \<and> desc_keys d =
       [Some (0, MT_FIRST, MT_MODE_EXTERNAL, 1, Some [''bin/tmk-first'']),
        Some (1, MT_MIDDLE, MT_MODE_EXTERNAL, 2, Some [''bin/tmk-middle'']),
        Some (2, MT_MIDDLE, MT_MODE_EXTERNAL, 3, Some [''bin/tmk-last'']),
        Some (3, MT_LAST, MT_MODE_INTERNAL, - 1, Some [])]"
  by (simp add: create_pipeline_description_def desc_eval eval_nat_numeral)

lemma pg_description:
  "\<exists>d m'. create_pg_pipeline_description None m = Some (d, m')
     \<and> pd_modules_cnt d = int (length (pd_mdescs d)) \<and> desc_keys d =
       [Some (0, MT_FIRST, MT_MODE_EXTERNAL, 1, Some [''bin/tmk-first'']),
        Some (1, MT_MIDDLE, MT_MODE_EXTERNAL, 2, Some [''bin/tmk-pg'']), None,
        Some (2, MT_MIDDLE, MT_MODE_EXTERNAL, 3, Some [''bin/tmk-last''])]"
  by (simp add: desc_eval eval_nat_numeral)

subsection \<open>Properties\<close>

text \<open>
  The default description: four modules in a line, with the ids 0 to 3, a source process, two filter
  processes and the internal finalization, each naming its successor and the last none.
\<close>

theorem default_pipeline_shape:
  "\<exists>d m'. create_pipeline_description ''default'' None m = Some (Some d, m')
     \<and> pd_modules_cnt d = int (length (pd_mdescs d)) \<and> desc_keys d =
       [Some (0, MT_FIRST, MT_MODE_EXTERNAL, 1, Some [''bin/tmk-first'']),
        Some (1, MT_MIDDLE, MT_MODE_EXTERNAL, 2, Some [''bin/tmk-middle'']),
        Some (2, MT_MIDDLE, MT_MODE_EXTERNAL, 3, Some [''bin/tmk-last'']),
        Some (3, MT_LAST, MT_MODE_INTERNAL, - 1, Some [])]"
  by (rule default_description)

text \<open>
  The description that \<open>create_pg_pipeline_description\<close> builds is not a line: its third entry stays
  NULL and the last entry, first written with the finalization module, is overwritten by a filter.
\<close>

theorem pg_pipeline_broken:
  "\<exists>d m'. create_pg_pipeline_description None m = Some (d, m')
     \<and> pd_modules_cnt d = int (length (pd_mdescs d)) \<and> desc_keys d =
       [Some (0, MT_FIRST, MT_MODE_EXTERNAL, 1, Some [''bin/tmk-first'']),
        Some (1, MT_MIDDLE, MT_MODE_EXTERNAL, 2, Some [''bin/tmk-pg'']), None,
        Some (2, MT_MIDDLE, MT_MODE_EXTERNAL, 3, Some [''bin/tmk-last''])]"
  by (rule pg_description)

text \<open>
  \<open>free_pipeline_description\<close> frees the description twice: \<open>pipeline_description_destroy\<close>, which it
  calls first, has freed it already.
\<close>

theorem free_description_faults:
  assumes "pd_addr d \<noteq> NULL"
  shows "free_pipeline_description (Some d) m = None"
  by (rule free_pipeline_description_double_free [OF assms])

theorem free_description_faults_witness:
  "\<exists>d m'. create_pipeline_description ''minimal'' None \<lparr>mem_live = [], mem_next = 1\<rparr> = Some (Some d, m')
     \<and> free_pipeline_description (Some d) m' = None"
proof -
  obtain d m' where d: "create_pipeline_description ''minimal'' None \<lparr>mem_live = [], mem_next = 1\<rparr> = Some (Some d, m')"
    "pd_addr d = 1"
    by (simp add: create_pipeline_description_def create_defs eval_nat_numeral)
  with free_description_faults [of d m'] show ?thesis by simp
qed

end
