(* ===== verification/Process_Mngr.thy ===== *)
theory Process_Mngr imports C_String begin

section \<open>The table of processes (process_mngr.c)\<close>

text \<open>
  One \<open>struct process_info\<close> per child in shared memory, and the statics of the parent: the number
  of slots handed out, their maximum, the usage array and the pointer to the table. The semaphores
  are counters; of the union only \<open>cmd_offs\<close> is used by the program. \<open>access\<close>, \<open>fork\<close> and
  \<open>sem_init\<close> answer through arguments.
\<close>

definition PROCESS_MAX_CNT :: nat where "PROCESS_MAX_CNT = 10"
definition PROCESS_CMD_STOP :: int where "PROCESS_CMD_STOP = 0"
definition PROCESS_CMD_JOB :: int where "PROCESS_CMD_JOB = 1"

record process_info =
  pi_sem_job :: nat
  pi_sem_result :: nat
  pi_pid :: int
  pi_state :: int
  pi_name :: string
  pi_cmd :: int
  pi_cmd_result :: int
  pi_cmd_offs :: u64

definition zero_process_info :: process_info where
  "zero_process_info = \<lparr>pi_sem_job = 0, pi_sem_result = 0, pi_pid = 0, pi_state = 0, pi_name = [],
     pi_cmd = 0, pi_cmd_result = 0, pi_cmd_offs = 0\<rparr>"

definition process_info_init :: "bool \<Rightarrow> bool \<Rightarrow> process_info \<Rightarrow> int \<times> process_info" where
  "process_info_init job_ok result_ok info =
     (let info = zero_process_info
      in if \<not> job_ok then (- 1, info)
         else if \<not> result_ok then (- 1, info)
         else (0, info\<lparr>pi_pid := - 1\<rparr>))"

definition process_info_destroy :: "process_info \<Rightarrow> process_info" where
  "process_info_destroy info = zero_process_info\<lparr>pi_pid := - 1\<rparr>"

record proc_mngr =
  pm_cnt :: int
  pm_cnt_max :: int
  pm_usage :: "int list"
  pm_info :: "process_info list option"

definition proc_mngr_static :: proc_mngr where
  "proc_mngr_static = \<lparr>pm_cnt = 0, pm_cnt_max = 0, pm_usage = replicate PROCESS_MAX_CNT 0, pm_info = None\<rparr>"

text \<open>\<open>memset(process_usage, -1, sizeof(int))\<close> writes the first entry only.\<close>

definition usage_memset :: "proc_mngr \<Rightarrow> proc_mngr" where
  "usage_memset s = s\<lparr>pm_usage := (pm_usage s)[0 := - 1]\<rparr>"

fun init_infos :: "(nat \<Rightarrow> bool \<times> bool) \<Rightarrow> nat \<Rightarrow> nat \<Rightarrow> process_info list \<Rightarrow> int \<times> process_info list" where
  "init_infos ok i 0 infos = (0, infos)"
| "init_infos ok i (Suc k) infos =
     (case process_info_init (fst (ok i)) (snd (ok i)) (infos ! i) of (rc, info) \<Rightarrow>
        let infos = infos[i := info]
        in if rc \<noteq> 0 then (- 1, map process_info_destroy (take i infos) @ drop i infos)
           else init_infos ok (Suc i) k infos)"

definition process_subsystem_init ::
  "(nat \<Rightarrow> bool \<times> bool) \<Rightarrow> process_info list \<Rightarrow> int \<Rightarrow> proc_mngr \<Rightarrow> (int \<times> process_info list \<times> proc_mngr) option" where
  "process_subsystem_init ok infos cnt s =
     (if int (length infos) < cnt then None
      else case init_infos ok 0 (nat cnt) infos of (rc, infos) \<Rightarrow>
        if rc \<noteq> 0 then Some (- 1, infos, s)
        else Some (0, infos, usage_memset (s\<lparr>pm_info := Some infos, pm_cnt_max := cnt\<rparr>)))"

definition process_subsystem_destroy :: "proc_mngr \<Rightarrow> proc_mngr option" where
  "process_subsystem_destroy s =
     (if pm_cnt_max s \<le> 0 then Some (usage_memset (s\<lparr>pm_info := None, pm_cnt_max := 0\<rparr>))
      else case pm_info s of
          None \<Rightarrow> None
        | Some infos \<Rightarrow> if int (length infos) < pm_cnt_max s then None
            else Some (usage_memset (s\<lparr>pm_info := None, pm_cnt_max := 0\<rparr>)))"

text \<open>
  The parent's side of \<open>process_start\<close>. The slot is taken under the mutex; a missing executable or a
  failed \<open>fork\<close> (\<open>None\<close>) returns -1 with the slot already counted. \<open>argv\<close> is NULL (\<open>None\<close>) or its
  strings; with no string \<open>argv[0]\<close> is NULL, and \<open>access\<close> then fails with \<open>EFAULT\<close>.
\<close>

definition process_start :: "(string \<Rightarrow> bool) \<Rightarrow> int option \<Rightarrow> string list option \<Rightarrow> proc_mngr \<Rightarrow>
    (int \<times> proc_mngr) option" where
  "process_start access_ok fork argv s =
     (if pm_cnt_max s \<le> pm_cnt s then Some (- 1, s)
      else Option.bind (c_int (pm_cnt s + 1)) (\<lambda>cnt.
        let pid_slot = pm_cnt s; s = s\<lparr>pm_cnt := cnt\<rparr>
        in case argv of
            None \<Rightarrow> Some (pid_slot, s)
          | Some [] \<Rightarrow> Some (- 1, s)
          | Some (exe # args) \<Rightarrow>
             if \<not> access_ok exe then Some (- 1, s)
             else case fork of
                 None \<Rightarrow> Some (- 1, s)
               | Some pid \<Rightarrow> Option.bind (pm_info s) (\<lambda>infos.
                   Option.bind (arr_get infos pid_slot) (\<lambda>info.
                     Option.bind (arr_set infos pid_slot (info\<lparr>pi_pid := pid, pi_name := take 79 exe\<rparr>))
                       (\<lambda>infos. Some (pid_slot, s\<lparr>pm_info := Some infos\<rparr>))))))"

text \<open>
  The child's side: the slot is passed in the environment as \<open>%d\<close> in a buffer of 10 bytes, and the
  program is replaced. \<open>None\<close> is a return of -1 in the child.
\<close>

definition PROCESS_ID_ENV :: string where "PROCESS_ID_ENV = ''SHMEM_PROCESS_ID''"

definition process_start_child ::
  "bool \<Rightarrow> bool \<Rightarrow> int \<Rightarrow> string list \<Rightarrow> (string \<Rightarrow> string option) \<Rightarrow> (string list \<times> (string \<Rightarrow> string option)) option" where
  "process_start_child setenv_ok exec_ok pid_slot argv env =
     (let id_str = take 9 (show_int pid_slot)
      in if \<not> setenv_ok then None
         else let env = env(PROCESS_ID_ENV \<mapsto> id_str)
              in if exec_ok then Some (argv, env) else None)"

fun kill_post :: "nat \<Rightarrow> nat \<Rightarrow> process_info list \<Rightarrow> process_info list option" where
  "kill_post i 0 infos = Some infos"
| "kill_post i (Suc k) infos =
     (if i < length infos then
        let infos = infos[i := (infos ! i)\<lparr>pi_cmd := PROCESS_CMD_STOP\<rparr>];
            infos = infos[0 := (infos ! 0)\<lparr>pi_sem_job := sem_post (pi_sem_job (infos ! 0))\<rparr>]
        in kill_post (Suc i) k infos
      else None)"

fun kill_wait :: "nat \<Rightarrow> process_info list \<Rightarrow> process_info list run" where
  "kill_wait 0 infos = Done infos"
| "kill_wait (Suc k) infos = (case infos of [] \<Rightarrow> Fault | info # r \<Rightarrow>
     (case sem_wait (pi_sem_result info) of None \<Rightarrow> Blocked
      | Some n \<Rightarrow> kill_wait k (info\<lparr>pi_sem_result := n\<rparr> # r)))"

definition process_kill_all :: "proc_mngr \<Rightarrow> proc_mngr run" where
  "process_kill_all s = (if pm_cnt s \<le> 0 then Done s else case pm_info s of
     None \<Rightarrow> Fault
   | Some infos \<Rightarrow> bind_run (run_of (kill_post 0 (nat (pm_cnt s)) infos)) (\<lambda>infos.
       bind_run (kill_wait (nat (pm_cnt s)) infos) (\<lambda>infos. Done (s\<lparr>pm_info := Some infos\<rparr>))))"

text \<open>\<open>waitpid(-1, NULL, WNOHANG)\<close> until it answers 0 or -1: the argument is the sequence of its answers.\<close>

fun process_cleanup :: "int list \<Rightarrow> int list" where
  "process_cleanup [] = []"
| "process_cleanup (pid # rest) = (if pid \<le> 0 then rest else process_cleanup rest)"

subsection \<open>Slots are handed out once\<close>

definition pm_ok :: "proc_mngr \<Rightarrow> bool" where
  "pm_ok s \<longleftrightarrow> 0 \<le> pm_cnt s \<and> pm_cnt_max s \<le> 2 ^ 30 \<and> length (pm_usage s) = PROCESS_MAX_CNT
     \<and> (case pm_info s of None \<Rightarrow> pm_cnt_max s \<le> 0 | Some infos \<Rightarrow> pm_cnt_max s \<le> int (length infos))"

lemma init_infos_ok:
  assumes "\<And>i. ok i = (True, True)" "i + k \<le> length infos"
  shows "init_infos ok i k infos
    = (0, take i infos @ replicate k (zero_process_info\<lparr>pi_pid := - 1\<rparr>) @ drop (i + k) infos)"
  using assms(2)
proof (induction k arbitrary: i infos)
  case (Suc k)
  then show ?case
    by (simp add: assms(1) process_info_init_def Let_def take_Suc_conv_app_nth)
qed (simp add: assms(1))

lemma process_subsystem_init_ok:
  assumes "\<And>i. ok i = (True, True)" "cnt \<le> int (length infos)" "0 \<le> cnt" "cnt \<le> 2 ^ 30" "pm_ok s"
  shows "\<exists>infos' s'. process_subsystem_init ok infos cnt s = Some (0, infos', s') \<and> pm_ok s'
    \<and> pm_cnt s' = pm_cnt s \<and> pm_cnt_max s' = cnt \<and> pm_info s' = Some infos'
    \<and> (\<forall>i < nat cnt. infos' ! i = zero_process_info\<lparr>pi_pid := - 1\<rparr>)"
proof -
  let ?i = "replicate (nat cnt) (zero_process_info\<lparr>pi_pid := - 1\<rparr>) @ drop (nat cnt) infos"
  have "init_infos ok 0 (nat cnt) infos = (0, ?i)"
    using init_infos_ok [of ok 0 "nat cnt" infos] assms by simp
  then show ?thesis
    using assms by (auto simp: process_subsystem_init_def usage_memset_def pm_ok_def nth_append)
qed

lemma process_start_full: "pm_cnt_max s \<le> pm_cnt s \<Longrightarrow> process_start a f argv s = Some (- 1, s)"
  by (simp add: process_start_def)

lemma process_start_total:
  assumes "pm_ok s"
  shows "process_start a f argv s \<noteq> None"
proof (cases "pm_cnt s < pm_cnt_max s")
  case True
  with assms obtain infos where i: "pm_info s = Some infos" "pm_cnt s < int (length infos)" "0 \<le> pm_cnt s"
    by (auto simp: pm_ok_def split: option.splits)
  have c: "c_int (pm_cnt s + 1) = Some (pm_cnt s + 1)"
    using assms True by (auto simp: pm_ok_def)
  show ?thesis
    using i c by (simp add: process_start_def Let_def arr_get_def arr_set_def split: option.split list.split)
qed (simp add: process_start_full)

lemma process_start_step:
  assumes "process_start a f argv s = Some (rc, s')" "pm_ok s"
  shows "pm_ok s'" "pm_cnt_max s' = pm_cnt_max s"
    and "pm_cnt s' = (if pm_cnt s < pm_cnt_max s then pm_cnt s + 1 else pm_cnt s)"
    and "rc = - 1 \<or> rc = pm_cnt s \<and> pm_cnt s < pm_cnt_max s"
    and "argv = None \<Longrightarrow> pm_cnt s < pm_cnt_max s \<Longrightarrow> rc = pm_cnt s"
  using assms
  by (auto simp: process_start_def Let_def pm_ok_def arr_set_def c_int_def
      split: option.splits list.splits if_splits)

text \<open>A sequence of starts, each with its own answers of the system.\<close>

type_synonym start_req = "(string \<Rightarrow> bool) \<times> int option \<times> string list option"

fun start_all :: "start_req list \<Rightarrow> proc_mngr \<Rightarrow> (int list \<times> proc_mngr) option" where
  "start_all [] s = Some ([], s)"
| "start_all ((a, f, argv) # rs) s = Option.bind (process_start a f argv s) (\<lambda>(rc, s).
     Option.bind (start_all rs s) (\<lambda>(rcs, s). Some (rc # rcs, s)))"

lemma start_all_slots:
  assumes "pm_ok s"
  shows "\<exists>rcs s'. start_all rs s = Some (rcs, s') \<and> pm_ok s' \<and> length rcs = length rs
    \<and> (\<forall>i < length rs. rcs ! i = - 1 \<or> rcs ! i = pm_cnt s + int i \<and> rcs ! i < pm_cnt_max s)
    \<and> (\<forall>i < length rs. snd (snd (rs ! i)) = None \<and> pm_cnt s + int i < pm_cnt_max s
         \<longrightarrow> rcs ! i = pm_cnt s + int i)
    \<and> pm_cnt_max s' = pm_cnt_max s \<and> pm_cnt s' = max (pm_cnt s) (min (pm_cnt_max s) (pm_cnt s + int (length rs)))"
  using assms
proof (induction rs arbitrary: s)
  case (Cons r rs)
  obtain a f argv where r: "r = (a, f, argv)"
    by (cases r)
  obtain rc s1 where p: "process_start a f argv s = Some (rc, s1)"
    using process_start_total [OF Cons.prems] by (metis option.exhaust surj_pair)
  note st = process_start_step [OF p Cons.prems]
  obtain rcs s' where ih: "start_all rs s1 = Some (rcs, s')" "pm_ok s'" "length rcs = length rs"
    "\<forall>i < length rs. rcs ! i = - 1 \<or> rcs ! i = pm_cnt s1 + int i \<and> rcs ! i < pm_cnt_max s1"
    "\<forall>i < length rs. snd (snd (rs ! i)) = None \<and> pm_cnt s1 + int i < pm_cnt_max s1
         \<longrightarrow> rcs ! i = pm_cnt s1 + int i"
    "pm_cnt_max s' = pm_cnt_max s1"
    "pm_cnt s' = max (pm_cnt s1) (min (pm_cnt_max s1) (pm_cnt s1 + int (length rs)))"
    using Cons.IH [OF st(1)] by blast
  have "(rc # rcs) ! i = - 1 \<or> (rc # rcs) ! i = pm_cnt s + int i \<and> (rc # rcs) ! i < pm_cnt_max s"
    if "i < length (r # rs)" for i
    using that st(2,3,4) ih(4) by (cases i) (auto split: if_splits)
  moreover have "(rc # rcs) ! i = pm_cnt s + int i"
    if "i < length (r # rs)" "snd (snd ((r # rs) ! i)) = None" "pm_cnt s + int i < pm_cnt_max s" for i
    using that st(2,3,5) ih(5) r by (cases i) (auto split: if_splits)
  moreover have "pm_cnt s' = max (pm_cnt s) (min (pm_cnt_max s) (pm_cnt s + int (length (r # rs))))"
    using ih(7) st(2,3) by (auto simp: max_def min_def)
  moreover have "pm_cnt_max s' = pm_cnt_max s" "length (rc # rcs) = length (r # rs)"
    using st(2) ih(3,6) by simp_all
  ultimately show ?case
    using ih(1,2) p r by (intro exI [of _ "rc # rcs"] exI [of _ s']) simp
qed simp

subsection \<open>The counter is never reset\<close>

lemma process_subsystem_destroy_ok:
  assumes "pm_ok s"
  shows "\<exists>s'. process_subsystem_destroy s = Some s' \<and> pm_cnt s' = pm_cnt s \<and> pm_cnt_max s' = 0
    \<and> pm_info s' = None \<and> pm_ok s'"
  using assms by (auto simp: process_subsystem_destroy_def usage_memset_def pm_ok_def split: option.splits)

lemma start_all_full:
  "pm_cnt_max s \<le> pm_cnt s \<Longrightarrow> start_all rs s = Some (replicate (length rs) (- 1), s)"
  by (induction rs) (auto simp: process_start_full split: prod.splits)

subsection \<open>\<open>process_kill_all\<close> signals the first child only\<close>

lemma kill_post_others:
  assumes "i + k \<le> length infos"
  shows "\<exists>infos'. kill_post i k infos = Some infos' \<and> length infos' = length infos
    \<and> (\<forall>j < length infos. pi_sem_job (infos' ! j) = pi_sem_job (infos ! j) + (if j = 0 then k else 0))
    \<and> (\<forall>j < length infos. pi_cmd (infos' ! j) = (if i \<le> j \<and> j < i + k then PROCESS_CMD_STOP else pi_cmd (infos ! j)))
    \<and> (\<forall>j < length infos. pi_sem_result (infos' ! j) = pi_sem_result (infos ! j))"
  using assms
proof (induction k arbitrary: i infos)
  case (Suc k)
  let ?a = "infos[i := (infos ! i)\<lparr>pi_cmd := PROCESS_CMD_STOP\<rparr>]"
  let ?b = "?a[0 := (?a ! 0)\<lparr>pi_sem_job := Suc (pi_sem_job (?a ! 0))\<rparr>]"
  obtain infos' where ih: "kill_post (Suc i) k ?b = Some infos'" "length infos' = length infos"
    "\<forall>j < length infos. pi_sem_job (infos' ! j) = pi_sem_job (?b ! j) + (if j = 0 then k else 0)"
    "\<forall>j < length infos. pi_cmd (infos' ! j) = (if Suc i \<le> j \<and> j < Suc i + k then PROCESS_CMD_STOP else pi_cmd (?b ! j))"
    "\<forall>j < length infos. pi_sem_result (infos' ! j) = pi_sem_result (?b ! j)"
    using Suc.IH [of "Suc i" ?b] Suc.prems by auto
  have "pi_sem_job (?b ! j) = pi_sem_job (infos ! j) + (if j = 0 then 1 else 0)"
    "pi_cmd (?b ! j) = (if j = i then PROCESS_CMD_STOP else pi_cmd (infos ! j))"
    "pi_sem_result (?b ! j) = pi_sem_result (infos ! j)" if "j < length infos" for j
    using that Suc.prems by (cases "j = 0"; auto simp: nth_list_update)+
  with ih Suc.prems show ?case
    by (intro exI [of _ infos']) (auto simp: sem_post_def Let_def)
qed simp

subsection \<open>Properties\<close>

text \<open>
  No two modules share a slot of the process table: in any sequence of starts, whatever the system
  answers, each start gives -1 or the next free slot, inside the table; an internal module gets its
  slot for certain while there is one; and a failed start uses its slot up.
\<close>

theorem process_slots_unique:
  assumes "pm_ok s"
  shows "\<exists>rcs s'. start_all rs s = Some (rcs, s') \<and> length rcs = length rs
    \<and> (\<forall>i < length rs. rcs ! i = - 1 \<or> rcs ! i = pm_cnt s + int i \<and> rcs ! i < pm_cnt_max s)
    \<and> (\<forall>i < length rs. snd (snd (rs ! i)) = None \<and> pm_cnt s + int i < pm_cnt_max s
         \<longrightarrow> rcs ! i = pm_cnt s + int i)
    \<and> pm_cnt s' = max (pm_cnt s) (min (pm_cnt_max s) (pm_cnt s + int (length rs)))"
  using start_all_slots [OF assms, of rs] by blast

theorem process_slots_unique_witness:
  "\<exists>rcs s'. start_all [(\<lambda>_. False, None, Some [''x'']), (\<lambda>_. True, None, None)]
     (proc_mngr_static\<lparr>pm_cnt_max := 2, pm_info := Some (replicate 2 zero_process_info)\<rparr>) = Some (rcs, s')
     \<and> length rcs = 2"
  using process_slots_unique [of "proc_mngr_static\<lparr>pm_cnt_max := 2, pm_info := Some (replicate 2 zero_process_info)\<rparr>"
      "[(\<lambda>_. False, None, Some [''x'']), (\<lambda>_. True, None, None)]"]
  by (auto simp: pm_ok_def proc_mngr_static_def)

text \<open>
  \<open>process_kill_all\<close> writes the stop command into every slot in use but posts every time the job
  semaphore of slot 0, and waits for slot 0's result: no other child is woken. With fewer results in
  slot 0 than children it waits.
\<close>

theorem process_kill_all_first_only:
  assumes "pm_info s = Some infos" "pm_cnt s = int (Suc k)" "Suc k \<le> length infos"
  shows "(case process_kill_all s of
      Done s' \<Rightarrow> Suc k \<le> pi_sem_result (infos ! 0) \<and> (\<exists>infos'. pm_info s' = Some infos'
        \<and> pi_sem_job (infos' ! 0) = pi_sem_job (infos ! 0) + Suc k
        \<and> (\<forall>j < length infos. j \<noteq> 0 \<longrightarrow> pi_sem_job (infos' ! j) = pi_sem_job (infos ! j)
             \<and> (j \<le> k \<longrightarrow> pi_cmd (infos' ! j) = PROCESS_CMD_STOP)))
    | Blocked \<Rightarrow> pi_sem_result (infos ! 0) < Suc k
    | Fault \<Rightarrow> False)"
proof -
  obtain infos1 where k: "kill_post 0 (Suc k) infos = Some infos1" "length infos1 = length infos"
    "\<forall>j < length infos. pi_sem_job (infos1 ! j) = pi_sem_job (infos ! j) + (if j = 0 then Suc k else 0)"
    "\<forall>j < length infos. pi_cmd (infos1 ! j) = (if 0 \<le> j \<and> j < 0 + Suc k then PROCESS_CMD_STOP else pi_cmd (infos ! j))"
    "\<forall>j < length infos. pi_sem_result (infos1 ! j) = pi_sem_result (infos ! j)"
    using kill_post_others [of 0 "Suc k" infos] assms(3) by auto
  have w: "kill_wait n (info # r) = (if n \<le> pi_sem_result info
      then Done (info\<lparr>pi_sem_result := pi_sem_result info - n\<rparr> # r) else Blocked)" for n info r
    by (induction n arbitrary: info) (auto simp: sem_wait_def)
  obtain info r where i1: "infos1 = info # r"
    using k(2) assms(3) by (cases infos1) auto
  have "process_kill_all s = (if Suc k \<le> pi_sem_result info
      then Done (s\<lparr>pm_info := Some (info\<lparr>pi_sem_result := pi_sem_result info - Suc k\<rparr> # r)\<rparr>) else Blocked)"
    using assms(1,2) k(1) w [of "Suc k" info r] by (simp add: process_kill_all_def i1 nat_int_add)
  moreover have l: "0 < length infos"
    using assms(3) by (rule less_le_trans [rotated]) simp
  moreover have "pi_sem_result info = pi_sem_result (infos ! 0)"
    using k(5) [rule_format, OF l] by (simp add: i1)
  moreover have "(info\<lparr>pi_sem_result := x\<rparr> # r) ! j = infos1 ! j" if "j \<noteq> 0" for x j
    using that by (simp add: i1 nth_Cons')
  moreover have "pi_sem_job info = pi_sem_job (infos ! 0) + Suc k"
    using k(3) [rule_format, OF l] by (simp add: i1)
  ultimately show ?thesis
    using k(3,4) by simp
qed

theorem process_kill_all_first_only_witness:
  "process_kill_all (proc_mngr_static\<lparr>pm_cnt := 2, pm_cnt_max := 2, pm_info := Some (replicate 2 zero_process_info)\<rparr>) = Blocked"
  using process_kill_all_first_only [of "proc_mngr_static\<lparr>pm_cnt := 2, pm_cnt_max := 2,
      pm_info := Some (replicate 2 zero_process_info)\<rparr>" "replicate 2 zero_process_info" 1]
  by (simp add: pm_ok_def proc_mngr_static_def zero_process_info_def split: run.splits)

end
