(* ===== verification/Pipeline_Module.thy ===== *)
theory Pipeline_Module imports Intrusive_List Pipeline_Description Process_Mngr begin

section \<open>The modules of a pipeline (pipeline_module.c)\<close>

text \<open>
  A \<open>struct pipeline_module\<close> is a record, stored at the address of its list node (the node is its
  first member). The store is the heap of list nodes together with the module records; an address
  outside it is not allocated, and using it is the fault \<open>None\<close>. The loops over \<open>modules_list\<close> are
  the loops of the source, over the heap; the lemmas give their meaning on the list of modules.
\<close>

datatype md_state = MD_STATE_UNKNOWN | MD_STATE_ERROR | MD_STATE_INIT | MD_STATE_LIVE | MD_STATE_CUSTOM int

fun state_string :: "md_state \<Rightarrow> string" where
  "state_string MD_STATE_UNKNOWN = ''MD_STATE_UNKNOWN''"
| "state_string MD_STATE_ERROR = ''MD_STATE_ERROR''"
| "state_string MD_STATE_INIT = ''MD_STATE_INIT''"
| "state_string MD_STATE_LIVE = ''MD_STATE_LIVE''"
| "state_string (MD_STATE_CUSTOM i) = ''MD_STATE_CUSTOM''"

datatype thread_method = No_thread | Initial_thread | Source_thread | Process_thread | Finalization_thread

record pmodule =
  mo_id :: int
  mo_idx :: int
  mo_mdesc :: "module_desc option"
  mo_shmem :: addr
  mo_data_ring :: addr
  mo_dataoffset :: u64
  mo_exit_flag :: addr
  mo_method :: thread_method
  mo_start_control :: addr
  mo_new_cmd :: nat
  mo_cmd :: int
  mo_result :: nat
  mo_last_cmd_result :: int
  mo_next :: addr
  mo_state :: md_state

definition zero_module :: pmodule where
  "zero_module = \<lparr>mo_id = 0, mo_idx = 0, mo_mdesc = None, mo_shmem = NULL, mo_data_ring = NULL,
     mo_dataoffset = 0, mo_exit_flag = NULL, mo_method = No_thread, mo_start_control = NULL,
     mo_new_cmd = 0, mo_cmd = 0, mo_result = 0, mo_last_cmd_result = 0, mo_next = NULL,
     mo_state = MD_STATE_INIT\<rparr>"

record module_store =
  ms_heap :: list_heap
  ms_mods :: "addr \<Rightarrow> pmodule option"

definition upd_module :: "addr \<Rightarrow> (pmodule \<Rightarrow> pmodule) \<Rightarrow> module_store \<Rightarrow> module_store option" where
  "upd_module a f st = Option.bind (ms_mods st a) (\<lambda>m. Some (st\<lparr>ms_mods := (ms_mods st)(a \<mapsto> f m)\<rparr>))"

subsection \<open>One module\<close>

definition pipeline_module_init :: "addr \<Rightarrow> addr \<Rightarrow> addr \<Rightarrow> addr \<Rightarrow> addr \<Rightarrow> module_store \<Rightarrow> (int \<times> module_store) option" where
  "pipeline_module_init a shmem data_ring exit_flag start_control st =
     (if a = NULL then Some (- 1, st)
      else Option.bind (upd_module a (\<lambda>m. m\<lparr>mo_idx := - 200, mo_state := MD_STATE_UNKNOWN,
          mo_start_control := start_control, mo_shmem := shmem, mo_new_cmd := 0, mo_result := 1,
          mo_cmd := PROCESS_CMD_JOB, mo_last_cmd_result := 0, mo_data_ring := data_ring,
          mo_exit_flag := exit_flag\<rparr>) st) (\<lambda>st. Some (0, st)))"

definition pipeline_module_destroy :: "addr \<Rightarrow> module_store \<Rightarrow> module_store option" where
  "pipeline_module_destroy a st =
     (if a = NULL then Some st
      else upd_module a (\<lambda>m. m\<lparr>mo_id := - 150, mo_idx := - 250, mo_state := MD_STATE_UNKNOWN\<rparr>) st)"

definition pipeline_module_set_state :: "md_state \<Rightarrow> pmodule \<Rightarrow> md_state \<times> pmodule" where
  "pipeline_module_set_state s m =
     (let old = mo_state m
      in if mo_state m = MD_STATE_ERROR then (MD_STATE_ERROR, m) else (old, m\<lparr>mo_state := s\<rparr>))"

definition thread_method_of :: "module_desc \<Rightarrow> thread_method" where
  "thread_method_of d =
     (if md_type d = MT_FIRST then
        (if md_mode d = MT_MODE_EXTERNAL then Source_thread else Initial_thread)
      else if md_type d = MT_LAST then Finalization_thread
      else if md_type d = MT_MIDDLE then Process_thread
      else No_thread)"

text \<open>\<open>a\<close> is the answer of \<open>malloc\<close>; the zeroed block is an unlinked node.\<close>

definition pipeline_module_add :: "addr \<Rightarrow> addr \<Rightarrow> int \<Rightarrow> module_desc \<Rightarrow> module_store \<Rightarrow> (addr \<times> int \<times> module_store) option" where
  "pipeline_module_add a l cnt mdesc st =
     (if a = NULL then Some (NULL, cnt, st)
      else let m = zero_module\<lparr>mo_id := md_id mdesc, mo_idx := - 1, mo_mdesc := Some mdesc,
                     mo_method := thread_method_of mdesc, mo_next := NULL\<rparr>;
               st = st\<lparr>ms_heap := (ms_heap st)\<lparr>next_of := (next_of (ms_heap st))(a \<mapsto> NULL),
                                           prev_of := (prev_of (ms_heap st))(a \<mapsto> NULL)\<rparr>,
                       ms_mods := (ms_mods st)(a \<mapsto> m)\<rparr>
           in if l = NULL then Some (a, cnt, st)
              else do {
                h \<leftarrow> list_add_back l a (ms_heap st);
                cnt \<leftarrow> c_int (cnt + 1);
                Some (a, cnt, st\<lparr>ms_heap := h\<rparr>) })"

definition pipeline_module_delete :: "addr \<Rightarrow> addr \<Rightarrow> int \<Rightarrow> module_store \<Rightarrow> (int \<times> module_store) option" where
  "pipeline_module_delete a l cnt st = do {
     (h, cnt) \<leftarrow> (if l = NULL then Some (ms_heap st, cnt) else do {
        h \<leftarrow> list_remove_elem l a (ms_heap st);
        cnt \<leftarrow> c_int (cnt - 1);
        Some (h, cnt) });
     m \<leftarrow> ms_mods st a;
     Some (cnt, st\<lparr>ms_heap := h\<lparr>next_of := (next_of h)(a := None), prev_of := (prev_of h)(a := None)\<rparr>,
                   ms_mods := (ms_mods st)(a := None)\<rparr>) }"

subsection \<open>The loops over the modules\<close>

partial_function (option) module_get_loop :: "int \<Rightarrow> addr \<Rightarrow> module_store \<Rightarrow> addr \<Rightarrow> addr option" where
  "module_get_loop i l st item =
     (if \<not> list_is_valid_elem l item then Some NULL
      else Option.bind (ms_mods st item) (\<lambda>m.
        if mo_id m = i then Some item
        else Option.bind (get_next (ms_heap st) item) (module_get_loop i l st)))"

definition pipeline_module_get :: "int \<Rightarrow> addr \<Rightarrow> module_store \<Rightarrow> addr option" where
  "pipeline_module_get i l st = Option.bind (list_first_elem (ms_heap st) l) (module_get_loop i l st)"

partial_function (option) modules_update_loop ::
  "addr \<Rightarrow> bool \<Rightarrow> addr \<Rightarrow> module_store \<Rightarrow> (int \<times> module_store) option" where
  "modules_update_loop l null_found item st =
     (if \<not> list_is_valid_elem l item then Some (0, st)
      else Option.bind (ms_mods st item) (\<lambda>m.
        Option.bind (mo_mdesc m) (\<lambda>d.
        Option.bind (pipeline_module_get (md_next d) l st) (\<lambda>nx.
        Option.bind (upd_module item (\<lambda>m. m\<lparr>mo_next := nx\<rparr>) st) (\<lambda>st.
        if nx = NULL \<and> null_found then
          Option.bind (upd_module item (\<lambda>m. m\<lparr>mo_state := MD_STATE_ERROR\<rparr>) st) (\<lambda>st. Some (- 1, st))
        else Option.bind (get_next (ms_heap st) item) (\<lambda>item'.
          modules_update_loop l (null_found \<or> nx = NULL) item' st))))))"

definition pipeline_modules_update :: "addr \<Rightarrow> module_store \<Rightarrow> (int \<times> module_store) option" where
  "pipeline_modules_update l st = Option.bind (list_first_elem (ms_heap st) l)
     (\<lambda>item. modules_update_loop l False item st)"

partial_function (option) modules_set_state_loop ::
  "md_state \<Rightarrow> addr \<Rightarrow> addr \<Rightarrow> module_store \<Rightarrow> module_store option" where
  "modules_set_state_loop s l item st =
     (if \<not> list_is_valid_elem l item then Some st
      else Option.bind (upd_module item (\<lambda>m. snd (pipeline_module_set_state s m)) st) (\<lambda>st.
        Option.bind (get_next (ms_heap st) item) (\<lambda>item'. modules_set_state_loop s l item' st)))"

definition pipeline_modules_set_state :: "md_state \<Rightarrow> addr \<Rightarrow> module_store \<Rightarrow> module_store option" where
  "pipeline_modules_set_state s l st = Option.bind (list_first_elem (ms_heap st) l)
     (\<lambda>item. modules_set_state_loop s l item st)"

subsection \<open>The list of modules a store represents\<close>

definition store_rep :: "addr \<Rightarrow> module_store \<Rightarrow> (addr \<times> pmodule) list \<Rightarrow> bool" where
  "store_rep l st ms \<longleftrightarrow> is_list (ms_heap st) l (map fst ms)
     \<and> (\<forall>a m. (a, m) \<in> set ms \<longrightarrow> ms_mods st a = Some m)"

lemma store_rep_distinct: "store_rep l st ms \<Longrightarrow> distinct (map fst ms) \<and> l \<notin> fst ` set ms \<and> 0 \<notin> fst ` set ms"
  by (auto simp: store_rep_def is_list_def)

lemma is_list_next:
  assumes "is_list h l (ys @ x # zs)"
  shows "get_next h x = Some (hd (zs @ [l]))"
  using is_list_gap(1) [of h l "ys @ [x]" zs] assms by (cases zs) (auto simp: get_next_def)

lemma module_get_loop_rest:
  assumes "store_rep l st (ps @ ms)"
  shows "module_get_loop i l st (hd (map fst ms @ [l]))
    = Some (case find (\<lambda>(a, m). mo_id m = i) ms of None \<Rightarrow> NULL | Some (a, m) \<Rightarrow> a)"
  using assms
proof (induction ms arbitrary: ps)
  case Nil
  then show ?case
    by (simp add: module_get_loop.simps [of i l st l] list_is_valid_elem_def)
next
  case (Cons p ms)
  obtain a m where p: "p = (a, m)"
    by (cases p)
  have "a \<noteq> l" "ms_mods st a = Some m"
    using Cons.prems p store_rep_distinct [OF Cons.prems] by (auto simp: store_rep_def)
  moreover have "get_next (ms_heap st) a = Some (hd (map fst ms @ [l]))"
    using Cons.prems p is_list_next [of "ms_heap st" l "map fst ps" a "map fst ms"]
    by (simp add: store_rep_def)
  moreover have "module_get_loop i l st (hd (map fst ms @ [l]))
    = Some (case find (\<lambda>(a, m). mo_id m = i) ms of None \<Rightarrow> NULL | Some (a, m) \<Rightarrow> a)"
    using Cons.IH [of "ps @ [p]"] Cons.prems by simp
  ultimately show ?case
    using p by (subst module_get_loop.simps) (simp add: list_is_valid_elem_def)
qed

text \<open>The address a module id resolves to: the first module with that id, NULL when there is none.\<close>

definition resolve :: "(addr \<times> pmodule) list \<Rightarrow> int \<Rightarrow> addr" where
  "resolve ms i = (case find (\<lambda>(a, m). mo_id m = i) ms of None \<Rightarrow> NULL | Some (a, m) \<Rightarrow> a)"

lemma pipeline_module_get_rep:
  assumes "store_rep l st ms"
  shows "pipeline_module_get i l st = Some (resolve ms i)"
  using module_get_loop_rest [of l st "[]" ms i] assms
  by (auto simp: pipeline_module_get_def store_rep_def resolve_def
      list_first_elem_is_list [of "ms_heap st" l "map fst ms"])

lemma resolve_upd: "mo_id (f m) = mo_id m \<Longrightarrow> resolve (ps @ (a, f m) # ms) i = resolve (ps @ (a, m) # ms) i"
  by (induction ps) (auto simp: resolve_def)

lemma store_rep_upd:
  assumes "store_rep l st (ps @ (a, m) # ms)"
  shows "\<exists>st'. upd_module a f st = Some st' \<and> store_rep l st' (ps @ (a, f m) # ms) \<and> ms_heap st' = ms_heap st"
proof -
  let ?st = "st\<lparr>ms_mods := (ms_mods st)(a \<mapsto> f m)\<rparr>"
  have "a \<notin> fst ` set ps" "a \<notin> fst ` set ms"
    using store_rep_distinct [OF assms] by auto
  then have "(b, k) \<in> set ps \<or> (b, k) \<in> set ms \<Longrightarrow> b \<noteq> a" for b k
    by force
  then have "store_rep l ?st (ps @ (a, f m) # ms)"
    using assms by (auto simp: store_rep_def)
  moreover have "upd_module a f st = Some ?st"
    using assms by (simp add: store_rep_def upd_module_def)
  ultimately show ?thesis by auto
qed

lemma store_rep_first:
  "store_rep l st ms \<Longrightarrow> list_first_elem (ms_heap st) l = Some (hd (map fst ms @ [l]))"
  by (simp add: store_rep_def list_first_elem_is_list)

lemma store_rep_next:
  "store_rep l st (ps @ (a, m) # ms) \<Longrightarrow> get_next (ms_heap st) a = Some (hd (map fst ms @ [l]))"
  using is_list_next [of "ms_heap st" l "map fst ps" a "map fst ms"] by (simp add: store_rep_def)

lemma store_rep_valid:
  "store_rep l st (ps @ (a, m) # ms) \<Longrightarrow> list_is_valid_elem l a \<and> ms_mods st a = Some m"
  using store_rep_distinct by (fastforce simp: store_rep_def list_is_valid_elem_def)

subsection \<open>Setting the state of every module\<close>

definition state_after :: "md_state \<Rightarrow> pmodule \<Rightarrow> pmodule" where
  "state_after s m = (if mo_state m = MD_STATE_ERROR then m else m\<lparr>mo_state := s\<rparr>)"

lemma set_state_after: "snd (pipeline_module_set_state s m) = state_after s m"
  by (simp add: pipeline_module_set_state_def state_after_def Let_def)

lemma modules_set_state_loop_rep:
  assumes "store_rep l st (ps @ ms)"
  shows "\<exists>st'. modules_set_state_loop s l (hd (map fst ms @ [l])) st = Some st'
    \<and> store_rep l st' (ps @ map (\<lambda>(a, m). (a, state_after s m)) ms)"
  using assms
proof (induction ms arbitrary: ps st)
  case Nil
  then show ?case
    by (simp add: modules_set_state_loop.simps [of s l l] list_is_valid_elem_def)
next
  case (Cons p ms)
  obtain a m where p: "p = (a, m)"
    by (cases p)
  with Cons.prems have r: "store_rep l st (ps @ (a, m) # ms)" by simp
  obtain st1 where st1: "upd_module a (\<lambda>m. state_after s m) st = Some st1"
      "store_rep l st1 (ps @ (a, state_after s m) # ms)"
    using store_rep_upd [OF r, of "state_after s"] by blast
  have "store_rep l st1 ((ps @ [(a, state_after s m)]) @ ms)"
    using st1(2) by simp
  from Cons.IH [OF this] st1 store_rep_next [OF st1(2)] store_rep_valid [OF r] p show ?case
    by (subst modules_set_state_loop.simps) (simp add: set_state_after)
qed

lemma pipeline_modules_set_state_rep:
  assumes "store_rep l st ms"
  shows "\<exists>st'. pipeline_modules_set_state s l st = Some st'
    \<and> store_rep l st' (map (\<lambda>(a, m). (a, state_after s m)) ms)"
  using modules_set_state_loop_rep [of l st "[]" ms s] assms store_rep_first [OF assms]
  by (auto simp: pipeline_modules_set_state_def)

subsection \<open>Linking the modules\<close>

definition module_next_id :: "pmodule \<Rightarrow> int" where
  "module_next_id m = (case mo_mdesc m of None \<Rightarrow> 0 | Some d \<Rightarrow> md_next d)"

definition link_module :: "(int \<Rightarrow> addr) \<Rightarrow> pmodule \<Rightarrow> pmodule" where
  "link_module R m = m\<lparr>mo_next := R (module_next_id m)\<rparr>"

definition null_links :: "(int \<Rightarrow> addr) \<Rightarrow> (addr \<times> pmodule) list \<Rightarrow> nat" where
  "null_links R ms = length (filter (\<lambda>(a, m). R (module_next_id m) = NULL) ms)"

lemma modules_update_loop_rep:
  assumes "store_rep l st (ps @ ms)" "\<forall>(a, m) \<in> set ms. mo_mdesc m \<noteq> None" "resolve (ps @ ms) = R"
  shows "\<exists>rc st'. modules_update_loop l nf (hd (map fst ms @ [l])) st = Some (rc, st')
    \<and> rc = (if null_links R ms + (if nf then 1 else 0) \<le> 1 \<or> null_links R ms = 0 then 0 else - 1)
    \<and> (rc = 0 \<longrightarrow> store_rep l st' (ps @ map (\<lambda>(a, m). (a, link_module R m)) ms))"
  using assms
proof (induction ms arbitrary: ps st nf)
  case Nil
  then show ?case
    by (simp add: modules_update_loop.simps [of l nf l] list_is_valid_elem_def null_links_def)
next
  case (Cons p ms)
  obtain a m where p: "p = (a, m)"
    by (cases p)
  obtain d where d: "mo_mdesc m = Some d"
    using Cons.prems(2) p by auto
  let ?m = "link_module R m" and ?n = "R (md_next d)"
  from Cons.prems p have r: "store_rep l st (ps @ (a, m) # ms)" by simp
  have ml: "?m = m\<lparr>mo_next := ?n\<rparr>"
    by (simp add: link_module_def module_next_id_def d)
  have res: "pipeline_module_get (md_next d) l st = Some ?n"
    using pipeline_module_get_rep [OF r] Cons.prems(3) p by simp
  obtain st1 where st1: "upd_module a (\<lambda>m. m\<lparr>mo_next := ?n\<rparr>) st = Some st1"
      "store_rep l st1 (ps @ (a, ?m) # ms)"
    using store_rep_upd [OF r, of "\<lambda>m. m\<lparr>mo_next := ?n\<rparr>"] ml by auto
  have n: "null_links R (p # ms) = null_links R ms + (if ?n = NULL then 1 else 0)"
    by (simp add: null_links_def p module_next_id_def d)
  show ?case
  proof (cases "?n = NULL \<and> nf")
    case True
    obtain st2 where "upd_module a (\<lambda>m. m\<lparr>mo_state := MD_STATE_ERROR\<rparr>) st1 = Some st2"
      using store_rep_upd [OF st1(2)] by blast
    with True p d res st1(1) store_rep_valid [OF r] n show ?thesis
      by (subst modules_update_loop.simps) simp
  next
    case False
    have "resolve ((ps @ [(a, ?m)]) @ ms) = R"
      using Cons.prems(3) resolve_upd [of "link_module R" m ps a ms] p
      by (auto simp: link_module_def fun_eq_iff)
    then obtain rc st' where ih: "modules_update_loop l (nf \<or> ?n = NULL) (hd (map fst ms @ [l])) st1 = Some (rc, st')"
      "rc = (if null_links R ms + (if nf \<or> ?n = NULL then 1 else 0) \<le> 1 \<or> null_links R ms = 0 then 0 else - 1)"
      "rc = 0 \<longrightarrow> store_rep l st' ((ps @ [(a, ?m)]) @ map (\<lambda>(a, m). (a, link_module R m)) ms)"
      using Cons.IH [of st1 "ps @ [(a, ?m)]" "nf \<or> ?n = NULL"] st1(2) Cons.prems(2) by auto
    have "modules_update_loop l nf (hd (map fst (p # ms) @ [l])) st = Some (rc, st')"
      using False p d res st1(1) store_rep_valid [OF r] store_rep_next [OF st1(2)] ih(1)
      by (subst modules_update_loop.simps) auto
    moreover have "rc = (if null_links R (p # ms) + (if nf then 1 else 0) \<le> 1 \<or> null_links R (p # ms) = 0 then 0 else - 1)"
      using ih(2) n False by auto
    ultimately show ?thesis
      using ih(3) p by auto
  qed
qed

lemma pipeline_modules_update_rep:
  assumes "store_rep l st ms" "\<forall>(a, m) \<in> set ms. mo_mdesc m \<noteq> None"
  shows "\<exists>rc st'. pipeline_modules_update l st = Some (rc, st')
    \<and> rc = (if null_links (resolve ms) ms \<le> 1 then 0 else - 1)
    \<and> (rc = 0 \<longrightarrow> store_rep l st' (map (\<lambda>(a, m). (a, link_module (resolve ms) m)) ms))"
  using modules_update_loop_rep [of l st "[]" ms "resolve ms" False] assms store_rep_first [OF assms(1)]
  by (auto simp: pipeline_modules_update_def)

subsection \<open>Adding and deleting modules\<close>

definition new_module :: "module_desc \<Rightarrow> pmodule" where
  "new_module mdesc = zero_module\<lparr>mo_id := md_id mdesc, mo_idx := - 1, mo_mdesc := Some mdesc,
     mo_method := thread_method_of mdesc, mo_next := NULL\<rparr>"

lemma pipeline_module_add_rep:
  assumes "store_rep l st ms" "a \<noteq> NULL" "a \<noteq> l" "ms_mods st a = None" "0 \<le> cnt" "cnt < 2 ^ 30"
  shows "\<exists>st'. pipeline_module_add a l cnt d st = Some (a, cnt + 1, st')
    \<and> store_rep l st' (ms @ [(a, new_module d)]) \<and> (\<forall>b. b \<noteq> a \<longrightarrow> ms_mods st' b = ms_mods st b)"
proof -
  let ?h = "(ms_heap st)\<lparr>next_of := (next_of (ms_heap st))(a \<mapsto> NULL), prev_of := (prev_of (ms_heap st))(a \<mapsto> NULL)\<rparr>"
  have a: "a \<notin> fst ` set ms"
    using assms(1,4) by (force simp: store_rep_def)
  then have b: "(b, k) \<in> set ms \<Longrightarrow> ms_mods st b = Some k \<and> b \<noteq> a" for b k
    using assms(1) by (force simp: store_rep_def)
  have "is_list ?h l (map fst ms)"
    by (rule is_list_frame [of "ms_heap st"]) (use assms(1,3) a in \<open>auto simp: store_rep_def\<close>)
  moreover have "unlinked ?h a"
    using assms(2) by (simp add: unlinked_def)
  ultimately obtain h where h: "list_add_back l a ?h = Some h" "is_list h l (map fst ms @ [a])"
    using list_add_back_is_list by blast
  have "l \<noteq> NULL"
    using assms(1) by (simp add: store_rep_def is_list_def)
  let ?st = "st\<lparr>ms_heap := h, ms_mods := (ms_mods st)(a \<mapsto> new_module d)\<rparr>"
  have "store_rep l ?st (ms @ [(a, new_module d)])"
    unfolding store_rep_def using h(2) by (auto simp: b)
  moreover have "pipeline_module_add a l cnt d st = Some (a, cnt + 1, ?st)"
    using h(1) assms(2,5,6) \<open>l \<noteq> NULL\<close> by (simp add: pipeline_module_add_def Let_def new_module_def)
  ultimately show ?thesis by auto
qed

lemma pipeline_module_delete_rep:
  assumes "store_rep l st (ps @ (a, m) # ms)" "0 \<le> cnt" "cnt < 2 ^ 30"
  shows "\<exists>st'. pipeline_module_delete a l cnt st = Some (cnt - 1, st')
    \<and> store_rep l st' (ps @ ms) \<and> ms_mods st' a = None"
proof -
  have il: "is_list (ms_heap st) l (map fst ps @ a # map fst ms)" "ms_mods st a = Some m"
    using assms(1) by (simp_all add: store_rep_def)
  obtain h where h: "list_remove_elem l a (ms_heap st) = Some h" "is_list h l (map fst ps @ map fst ms)"
    using il.del_law [OF il(1)] by blast
  let ?h = "h\<lparr>next_of := (next_of h)(a := None), prev_of := (prev_of h)(a := None)\<rparr>"
  have a: "a \<notin> fst ` set ps" "a \<notin> fst ` set ms" "a \<noteq> l" "l \<noteq> NULL"
    using store_rep_distinct [OF assms(1)] assms(1) by (auto simp: store_rep_def is_list_def)
  then have "is_list ?h l (map fst ps @ map fst ms)"
    by (intro is_list_frame [OF h(2)]) auto
  have b: "(b, k) \<in> set ps \<or> (b, k) \<in> set ms \<Longrightarrow> ms_mods st b = Some k \<and> b \<noteq> a" for b k
    using assms(1) a(1,2) by (force simp: store_rep_def)
  let ?st = "st\<lparr>ms_heap := ?h, ms_mods := (ms_mods st)(a := None)\<rparr>"
  have "store_rep l ?st (ps @ ms)"
    unfolding store_rep_def using \<open>is_list ?h l (map fst ps @ map fst ms)\<close> by (auto simp: b)
  moreover have "pipeline_module_delete a l cnt st = Some (cnt - 1, ?st)"
    using h(1) il(2) a(4) assms(2,3) by (simp add: pipeline_module_delete_def)
  ultimately show ?thesis by auto
qed

lemma pipeline_module_destroy_unallocated:
  "a \<noteq> NULL \<Longrightarrow> ms_mods st a = None \<Longrightarrow> pipeline_module_destroy a st = None"
  by (simp add: pipeline_module_destroy_def upd_module_def)

text \<open>A pipeline built from its descriptions: \<open>malloc\<close> answers with the given addresses.\<close>

fun modules_add_all :: "addr \<Rightarrow> (addr \<times> module_desc) list \<Rightarrow> int \<times> module_store \<Rightarrow> (int \<times> module_store) option" where
  "modules_add_all l [] s = Some s"
| "modules_add_all l ((a, d) # ds) s = (case s of (cnt, st) \<Rightarrow>
     Option.bind (pipeline_module_add a l cnt d st) (\<lambda>(_, cnt, st). modules_add_all l ds (cnt, st)))"

lemma modules_add_all_rep:
  assumes "store_rep l st ms" "distinct (map fst ds)"
    and "\<forall>a \<in> fst ` set ds. a \<noteq> NULL \<and> a \<noteq> l \<and> ms_mods st a = None"
    and "0 \<le> cnt" "cnt + int (length ds) < 2 ^ 30"
  shows "\<exists>st'. modules_add_all l ds (cnt, st) = Some (cnt + int (length ds), st')
    \<and> store_rep l st' (ms @ map (\<lambda>(a, d). (a, new_module d)) ds)"
  using assms
proof (induction ds arbitrary: st ms cnt)
  case (Cons p ds)
  obtain a d where p: "p = (a, d)"
    by (cases p)
  obtain st1 where st1: "pipeline_module_add a l cnt d st = Some (a, cnt + 1, st1)"
    "store_rep l st1 (ms @ [(a, new_module d)])" "\<forall>b. b \<noteq> a \<longrightarrow> ms_mods st1 b = ms_mods st b"
    using pipeline_module_add_rep [of l st ms a cnt d] Cons.prems p by auto
  have "\<forall>b \<in> fst ` set ds. b \<noteq> NULL \<and> b \<noteq> l \<and> ms_mods st1 b = None"
    using Cons.prems(2,3) st1(3) p by (fastforce simp: image_iff)
  with Cons.IH [OF st1(2), of "cnt + 1"] Cons.prems(2,4,5) p st1(1) show ?case
    by (simp add: add.assoc)
qed simp

subsection \<open>Properties\<close>

text \<open>
  Linking the modules: on a list of modules with descriptions, \<open>pipeline_modules_update\<close> returns 0
  exactly when at most one module names a successor that is not there, and then every module points
  to the first module with the id it names, or to NULL; otherwise it returns -1.
\<close>

theorem modules_update_links:
  assumes "store_rep l st ms" "\<forall>(a, m) \<in> set ms. mo_mdesc m \<noteq> None"
  shows "\<exists>rc st'. pipeline_modules_update l st = Some (rc, st')
    \<and> rc = (if null_links (resolve ms) ms \<le> 1 then 0 else - 1)
    \<and> (rc = 0 \<longrightarrow> store_rep l st' (map (\<lambda>(a, m). (a, link_module (resolve ms) m)) ms))"
  using pipeline_modules_update_rep [OF assms] by blast

definition demo_mdesc :: "int \<Rightarrow> module_desc" where
  "demo_mdesc i = \<lparr>md_addr = 1, md_id = i, md_type = MT_MIDDLE, md_mode = MT_MODE_EXTERNAL, md_next = i + 1, md_argv = None\<rparr>"

definition demo_store :: module_store where
  "demo_store = \<lparr>ms_heap = \<lparr>next_of = [1 \<mapsto> 2, 2 \<mapsto> 3, 3 \<mapsto> 1], prev_of = [1 \<mapsto> 3, 2 \<mapsto> 1, 3 \<mapsto> 2]\<rparr>,
     ms_mods = [2 \<mapsto> new_module (demo_mdesc 0), 3 \<mapsto> new_module (demo_mdesc 1)]\<rparr>"

lemma demo_store_rep: "store_rep 1 demo_store [(2, new_module (demo_mdesc 0)), (3, new_module (demo_mdesc 1))]"
  by (simp add: demo_store_def store_rep_def is_list_def)

theorem modules_update_links_witness: "\<exists>st'. pipeline_modules_update 1 demo_store = Some (0, st')"
  using modules_update_links [OF demo_store_rep]
  by (auto simp: null_links_def resolve_def module_next_id_def new_module_def demo_mdesc_def)

text \<open>
  Setting the state of all modules ends, changes every module but those in \<open>MD_STATE_ERROR\<close>, which
  is sticky, and nothing else of any module.
\<close>

theorem modules_set_state_sticky:
  assumes "store_rep l st ms"
  shows "\<exists>st'. pipeline_modules_set_state s l st = Some st'
    \<and> store_rep l st' (map (\<lambda>(a, m). (a, if mo_state m = MD_STATE_ERROR then m else m\<lparr>mo_state := s\<rparr>)) ms)"
  using pipeline_modules_set_state_rep [OF assms, of s] by (simp add: state_after_def)

theorem modules_set_state_sticky_witness: "\<exists>st'. pipeline_modules_set_state MD_STATE_LIVE 1 demo_store = Some st'"
  using modules_set_state_sticky [OF demo_store_rep] by blast

end
