(* ===== verification/Pipeline_Threads.thy ===== *)
theory Pipeline_Threads imports Ring_Buffer Pipeline_Module begin

section \<open>The threads of a running pipeline (pipeline.c, pipeline_client.c, pipeline_server.c)\<close>

text \<open>
  One thread per module, one child process per external module, and the main thread of the
  pipeline. A program counter names the next statement that touches shared data; one step executes
  it, so that every interleaving of such statements is a run. Semaphores are counters and a wait on
  zero is \<open>Blocked\<close>; the ring operations are single steps because they run under the mutex of the
  ring. The fields of the modules and of their \<open>process_info\<close> are maps from the position of the
  module in the pipeline; \<open>m_next\<close> is the position of \<open>module->next\<close>. The prints are left out.
\<close>

datatype pc =
    Head | ChkState | RdCmd | PopRing | Fill
  | WrCmd | WrOffs | PostJob | WaitRes | ChkResult | DropData
  | SendWait | SendCmd | SendOff | SendPost
  | RecvWait | RecvCmd | RecvOff | RecvPost
  | ClearData | PushRing
  | EndWait | EndCmd | EndPost | EndBranch | EndPCmd | EndPostJob | EndWaitRes | EndState | Finished

datatype child_pc = CWait | CRead | CStop | CAct | CPost | CDone

datatype main_pc = MLive nat | MJoin nat | MDone

record pl_state =
  n_mods :: nat
  role :: "nat \<Rightarrow> thread_method"
  pl_exit :: int
  pl_ring :: ring
  pl_mem :: "u64 \<Rightarrow> u8"
  m_state :: "nat \<Rightarrow> md_state"
  m_idx :: "nat \<Rightarrow> int"
  m_next :: "nat \<Rightarrow> nat option"
  m_cmd :: "nat \<Rightarrow> int"
  m_off :: "nat \<Rightarrow> u64"
  m_new_cmd :: "nat \<Rightarrow> nat"
  m_result :: "nat \<Rightarrow> nat"
  t_pc :: "nat \<Rightarrow> pc"
  l_cmd :: "nat \<Rightarrow> int"
  l_off :: "nat \<Rightarrow> u64"
  p_job :: "nat \<Rightarrow> nat"
  p_res :: "nat \<Rightarrow> nat"
  p_cmd :: "nat \<Rightarrow> int"
  p_cmd_result :: "nat \<Rightarrow> int"
  p_offs :: "nat \<Rightarrow> u64"
  c_pc :: "nat \<Rightarrow> child_pc"
  c_exit :: "nat \<Rightarrow> bool"
  c_status :: "nat \<Rightarrow> int"
  main_pc :: main_pc

definition goto :: "pc \<Rightarrow> nat \<Rightarrow> pl_state \<Rightarrow> pl_state" where
  "goto p i s = s\<lparr>t_pc := (t_pc s)(i := p)\<rparr>"

definition waiting :: "nat \<Rightarrow> (nat \<Rightarrow> pl_state) \<Rightarrow> pl_state run" where
  "waiting v f = (case sem_wait v of None \<Rightarrow> Blocked | Some v' \<Rightarrow> Done (f v'))"

definition with_next :: "nat \<Rightarrow> pl_state \<Rightarrow> (nat \<Rightarrow> pl_state run) \<Rightarrow> pl_state run" where
  "with_next i s f = (case m_next s i of None \<Rightarrow> Fault | Some j \<Rightarrow> f j)"

definition pop_ring :: "nat \<Rightarrow> pc \<Rightarrow> pl_state \<Rightarrow> pl_state run" where
  "pop_ring i p s = bind_run (ring_buffer_pop (pl_ring s))
     (\<lambda>(v, r). Done (goto p i (s\<lparr>pl_ring := r, l_off := (l_off s)(i := v)\<rparr>)))"

definition push_ring :: "nat \<Rightarrow> pc \<Rightarrow> pl_state \<Rightarrow> pl_state run" where
  "push_ring i p s = bind_run (ring_buffer_push (pl_ring s) (l_off s i))
     (\<lambda>r. Done (goto p i (s\<lparr>pl_ring := r\<rparr>)))"

definition thread_set_state :: "nat \<Rightarrow> md_state \<Rightarrow> pl_state \<Rightarrow> pl_state" where
  "thread_set_state i st s = (if m_state s i = MD_STATE_ERROR then s
     else s\<lparr>m_state := (m_state s)(i := st)\<rparr>)"

subsection \<open>The statements the thread bodies share\<close>

text \<open>Handing the chunk to the next module, the job to the own child, and stopping both.\<close>

definition send_step :: "nat \<Rightarrow> pc \<Rightarrow> pl_state \<Rightarrow> pl_state run" where
  "send_step i back s = with_next i s (\<lambda>j. case t_pc s i of
     SendWait \<Rightarrow> waiting (m_result s j) (\<lambda>v. goto SendCmd i (s\<lparr>m_result := (m_result s)(j := v)\<rparr>))
   | SendCmd \<Rightarrow> Done (goto SendOff i (s\<lparr>m_cmd := (m_cmd s)(j := PROCESS_CMD_JOB)\<rparr>))
   | SendOff \<Rightarrow> Done (goto SendPost i (s\<lparr>m_off := (m_off s)(j := l_off s i)\<rparr>))
   | _ \<Rightarrow> Done (goto back i (s\<lparr>m_new_cmd := (m_new_cmd s)(j := sem_post (m_new_cmd s j))\<rparr>)))"

definition job_step :: "nat \<Rightarrow> pc \<Rightarrow> pl_state \<Rightarrow> pl_state run" where
  "job_step i after s = (case t_pc s i of
     WrCmd \<Rightarrow> Done (goto WrOffs i (s\<lparr>p_cmd := (p_cmd s)(i := l_cmd s i)\<rparr>))
   | WrOffs \<Rightarrow> Done (goto PostJob i (s\<lparr>p_offs := (p_offs s)(i := l_off s i)\<rparr>))
   | PostJob \<Rightarrow> Done (goto WaitRes i (s\<lparr>p_job := (p_job s)(i := sem_post (p_job s i))\<rparr>))
   | _ \<Rightarrow> waiting (p_res s i) (\<lambda>v. goto after i (s\<lparr>p_res := (p_res s)(i := v)\<rparr>)))"

definition recv_step :: "nat \<Rightarrow> pc \<Rightarrow> pc \<Rightarrow> pl_state \<Rightarrow> pl_state run" where
  "recv_step i work stop s = (case t_pc s i of
     RecvWait \<Rightarrow> waiting (m_new_cmd s i) (\<lambda>v. goto RecvCmd i (s\<lparr>m_new_cmd := (m_new_cmd s)(i := v)\<rparr>))
   | RecvCmd \<Rightarrow> Done (goto RecvOff i (s\<lparr>l_cmd := (l_cmd s)(i := m_cmd s i)\<rparr>))
   | RecvOff \<Rightarrow> Done (goto RecvPost i (s\<lparr>l_off := (l_off s)(i := m_off s i)\<rparr>))
   | _ \<Rightarrow> Done (goto (if l_cmd s i = PROCESS_CMD_STOP then stop else work) i
        (s\<lparr>m_result := (m_result s)(i := sem_post (m_result s i))\<rparr>)))"

definition end_step :: "nat \<Rightarrow> pc \<Rightarrow> pc \<Rightarrow> pl_state \<Rightarrow> pl_state run" where
  "end_step i after_send after_child s = (case t_pc s i of
     EndWait \<Rightarrow> with_next i s (\<lambda>j. waiting (m_result s j)
        (\<lambda>v. goto EndCmd i (s\<lparr>m_result := (m_result s)(j := v)\<rparr>)))
   | EndCmd \<Rightarrow> with_next i s (\<lambda>j. Done (goto EndPost i (s\<lparr>m_cmd := (m_cmd s)(j := PROCESS_CMD_STOP)\<rparr>)))
   | EndPost \<Rightarrow> with_next i s (\<lambda>j. Done (goto after_send i
        (s\<lparr>m_new_cmd := (m_new_cmd s)(j := sem_post (m_new_cmd s j))\<rparr>)))
   | EndPCmd \<Rightarrow> Done (goto EndPostJob i (s\<lparr>p_cmd := (p_cmd s)(i := PROCESS_CMD_STOP)\<rparr>))
   | EndPostJob \<Rightarrow> Done (goto EndWaitRes i (s\<lparr>p_job := (p_job s)(i := sem_post (p_job s i))\<rparr>))
   | _ \<Rightarrow> waiting (p_res s i) (\<lambda>v. goto after_child i (s\<lparr>p_res := (p_res s)(i := v)\<rparr>)))"

lemmas shared_steps = send_step_def job_step_def recv_step_def end_step_def

subsection \<open>The four thread bodies\<close>

definition finalization_thread :: "nat \<Rightarrow> pl_state \<Rightarrow> pl_state run" where
  "finalization_thread i s = (case t_pc s i of
     ClearData \<Rightarrow> Done (goto PushRing i (s\<lparr>pl_mem := (pl_mem s)(l_off s i := 0)\<rparr>))
   | PushRing \<Rightarrow> push_ring i RecvWait s
   | EndState \<Rightarrow> Done (goto Finished i (thread_set_state i MD_STATE_INIT s))
   | Finished \<Rightarrow> Blocked
   | _ \<Rightarrow> recv_step i ClearData EndState s)"

text \<open>\<open>strcpy(data, "test")\<close> writes the four characters and the NUL.\<close>

definition write_test :: "u64 \<Rightarrow> (u64 \<Rightarrow> u8) \<Rightarrow> (u64 \<Rightarrow> u8)" where
  "write_test a m = m(a := 116, a + 1 := 101, a + 2 := 115, a + 3 := 116, a + 4 := 0)"

definition initial_thread :: "nat \<Rightarrow> pl_state \<Rightarrow> pl_state run" where
  "initial_thread i s = (case t_pc s i of
     Head \<Rightarrow> Done (goto (if pl_exit s \<noteq> 0 then EndWait else ChkState) i s)
   | ChkState \<Rightarrow> Done (goto (if m_state s i \<noteq> MD_STATE_LIVE then Head else RdCmd) i s)
   | RdCmd \<Rightarrow> Done (goto PopRing i (s\<lparr>l_cmd := (l_cmd s)(i := m_cmd s i)\<rparr>))
   | PopRing \<Rightarrow> pop_ring i Fill s
   | Fill \<Rightarrow> Done (goto WrCmd i (s\<lparr>pl_mem := write_test (l_off s i) (pl_mem s)\<rparr>))
   | WrCmd \<Rightarrow> Done (goto WrOffs i (s\<lparr>p_cmd := (p_cmd s)(i := l_cmd s i)\<rparr>))
   | WrOffs \<Rightarrow> Done (goto SendWait i (s\<lparr>p_offs := (p_offs s)(i := l_off s i)\<rparr>))
   | EndBranch \<Rightarrow> with_next i s (\<lambda>j. Done (goto (if 1 < m_idx s j then EndPCmd else EndState) i s))
   | EndState \<Rightarrow> Done (goto Finished i (thread_set_state i MD_STATE_INIT s))
   | Finished \<Rightarrow> Blocked
   | p \<Rightarrow> if p \<in> {SendWait, SendCmd, SendOff, SendPost} then send_step i Head s
         else end_step i EndBranch EndState s)"

definition source_thread :: "nat \<Rightarrow> pl_state \<Rightarrow> pl_state run" where
  "source_thread i s = (case t_pc s i of
     Head \<Rightarrow> Done (goto (if pl_exit s \<noteq> 0 then EndWait else ChkState) i s)
   | ChkState \<Rightarrow> Done (goto (if m_state s i \<noteq> MD_STATE_LIVE then Head else RdCmd) i s)
   | RdCmd \<Rightarrow> Done (goto PopRing i (s\<lparr>l_cmd := (l_cmd s)(i := m_cmd s i)\<rparr>))
   | PopRing \<Rightarrow> pop_ring i WrCmd s
   | EndState \<Rightarrow> Done (goto Finished i (thread_set_state i MD_STATE_INIT s))
   | Finished \<Rightarrow> Blocked
   | p \<Rightarrow> if p \<in> {WrCmd, WrOffs, PostJob, WaitRes} then job_step i SendWait s
         else if p \<in> {SendWait, SendCmd, SendOff, SendPost} then send_step i Head s
         else end_step i EndPCmd EndState s)"

definition process_thread :: "nat \<Rightarrow> pl_state \<Rightarrow> pl_state run" where
  "process_thread i s = (case t_pc s i of
     ChkResult \<Rightarrow> Done (goto (if p_cmd_result s i \<noteq> 0 then DropData else SendWait) i s)
   | DropData \<Rightarrow> push_ring i RecvWait s
   | Finished \<Rightarrow> Blocked
   | p \<Rightarrow> if p \<in> {RecvWait, RecvCmd, RecvOff, RecvPost} then recv_step i WrCmd EndWait s
         else if p \<in> {WrCmd, WrOffs, PostJob, WaitRes} then job_step i ChkResult s
         else if p \<in> {SendWait, SendCmd, SendOff, SendPost} then send_step i RecvWait s
         else end_step i EndPCmd Finished s)"

definition thread_step :: "nat \<Rightarrow> pl_state \<Rightarrow> pl_state run" where
  "thread_step i s = (case role s i of
     Source_thread \<Rightarrow> source_thread i s
   | Initial_thread \<Rightarrow> initial_thread i s
   | Process_thread \<Rightarrow> process_thread i s
   | Finalization_thread \<Rightarrow> finalization_thread i s
   | No_thread \<Rightarrow> Fault)"

subsection \<open>The child process of a module\<close>

text \<open>
  The loop of \<open>pipeline_process\<close>. The client's action is a parameter of the step: the status it
  stores, if it stores one, and the bytes it writes into its chunk (position and value). Without an
  action (\<open>None\<close>) the result is 0.
\<close>

type_synonym action_answer = "(int option \<times> (nat \<times> u8) list) option"

definition write_chunk :: "u64 \<Rightarrow> (nat \<times> u8) list \<Rightarrow> (u64 \<Rightarrow> u8) \<Rightarrow> (u64 \<Rightarrow> u8)" where
  "write_chunk a ws m = fold (\<lambda>(k, b) m. m(a + of_nat k := b)) ws m"

definition pipeline_process :: "nat \<Rightarrow> action_answer \<Rightarrow> pl_state \<Rightarrow> pl_state run" where
  "pipeline_process i act s = (case c_pc s i of
     CWait \<Rightarrow> waiting (p_job s i) (\<lambda>v. s\<lparr>p_job := (p_job s)(i := v), c_pc := (c_pc s)(i := CRead)\<rparr>)
   | CRead \<Rightarrow> Done (s\<lparr>c_pc := (c_pc s)(i := if p_cmd s i = PROCESS_CMD_STOP then CStop else CAct)\<rparr>)
   | CStop \<Rightarrow> Done (s\<lparr>c_exit := (c_exit s)(i := True), p_cmd_result := (p_cmd_result s)(i := 0),
                    c_pc := (c_pc s)(i := CPost)\<rparr>)
   | CAct \<Rightarrow> (case act of
        None \<Rightarrow> Done (s\<lparr>p_cmd_result := (p_cmd_result s)(i := 0), c_pc := (c_pc s)(i := CPost)\<rparr>)
      | Some (st, ws) \<Rightarrow>
          let status = (case st of None \<Rightarrow> c_status s i | Some v \<Rightarrow> v);
              s = s\<lparr>pl_mem := write_chunk (p_offs s i) ws (pl_mem s)\<rparr>;
              s = (if status = - 1 then s\<lparr>c_exit := (c_exit s)(i := True)\<rparr> else s);
              status = (if status = - 1 then 0 else status)
          in Done (s\<lparr>c_status := (c_status s)(i := status),
                     p_cmd_result := (p_cmd_result s)(i := status), c_pc := (c_pc s)(i := CPost)\<rparr>))
   | CPost \<Rightarrow> Done (s\<lparr>p_res := (p_res s)(i := sem_post (p_res s i)),
                    c_pc := (c_pc s)(i := if c_exit s i then CDone else CWait)\<rparr>)
   | CDone \<Rightarrow> Blocked)"

subsection \<open>The main thread of the pipeline\<close>

text \<open>
  The part of \<open>pipeline_thread\<close> after the modules are started: the state of every module becomes
  LIVE, then every thread is joined.
\<close>

definition pipeline_main :: "pl_state \<Rightarrow> pl_state run" where
  "pipeline_main s = (case main_pc s of
     MLive k \<Rightarrow> if k < n_mods s then Done ((thread_set_state k MD_STATE_LIVE s)\<lparr>main_pc := MLive (Suc k)\<rparr>)
       else Done (s\<lparr>main_pc := MJoin 0\<rparr>)
   | MJoin k \<Rightarrow> if k < n_mods s then
         (if t_pc s k = Finished then Done (s\<lparr>main_pc := MJoin (Suc k)\<rparr>) else Blocked)
       else Done (s\<lparr>main_pc := MDone\<rparr>)
   | MDone \<Rightarrow> Blocked)"

subsection \<open>Runs\<close>

datatype actor = Thread nat | Child nat action_answer | Main | Set_exit

definition external :: "thread_method \<Rightarrow> bool" where
  "external r \<longleftrightarrow> r = Source_thread \<or> r = Process_thread"

definition actor_step :: "actor \<Rightarrow> pl_state \<Rightarrow> pl_state run" where
  "actor_step a s = (case a of
     Thread i \<Rightarrow> if i < n_mods s then thread_step i s else Blocked
   | Child i act \<Rightarrow> if i < n_mods s \<and> external (role s i) then pipeline_process i act s else Blocked
   | Main \<Rightarrow> pipeline_main s
   | Set_exit \<Rightarrow> Done (s\<lparr>pl_exit := 1\<rparr>))"

inductive pl_step :: "pl_state \<Rightarrow> pl_state \<Rightarrow> bool" where
  pl_step_actor: "actor_step a s = Done t \<Longrightarrow> pl_step s t"

inductive_simps pl_step_iff: "pl_step s t"

text \<open>
  The start: the modules were started in order (so the slot of a module is its position), every
  thread is at the head of its loop, the result semaphore of every module is 1, and all the chunks
  are in the ring.
\<close>

definition first_role :: "thread_method \<Rightarrow> bool" where
  "first_role r \<longleftrightarrow> r = Source_thread \<or> r = Initial_thread"

definition chain_roles :: "nat \<Rightarrow> (nat \<Rightarrow> thread_method) \<Rightarrow> bool" where
  "chain_roles n r \<longleftrightarrow> 2 \<le> n \<and> first_role (r 0) \<and> r (n - 1) = Finalization_thread
     \<and> (\<forall>i. 0 < i \<and> i < n - 1 \<longrightarrow> r i = Process_thread)"

definition pl_init :: "u64 list \<Rightarrow> pl_state \<Rightarrow> bool" where
  "pl_init chunks s \<longleftrightarrow> chain_roles (n_mods s) (role s)
     \<and> m_next s = (\<lambda>i. if Suc i < n_mods s then Some (Suc i) else None)
     \<and> m_idx s = int
     \<and> pl_exit s = 0 \<and> ring_rep (pl_ring s) chunks \<and> length chunks = ring_cap (pl_ring s) \<and> chunks \<noteq> []
     \<and> m_state s = (\<lambda>_. MD_STATE_INIT) \<and> m_cmd s = (\<lambda>_. PROCESS_CMD_JOB)
     \<and> m_new_cmd s = (\<lambda>_. 0) \<and> m_result s = (\<lambda>_. 1)
     \<and> t_pc s = (\<lambda>i. if i = 0 then Head else RecvWait)
     \<and> p_job s = (\<lambda>_. 0) \<and> p_res s = (\<lambda>_. 0) \<and> c_pc s = (\<lambda>_. CWait) \<and> c_exit s = (\<lambda>_. False)
     \<and> main_pc s = MLive 0"

end
