(* ===== verification/Pipeline_Moves.thy ===== *)
theory Pipeline_Moves imports Pipeline_Threads begin

section \<open>The moves of the threads of a pipeline\<close>

text \<open>
  In a pipeline of the shape \<open>chain_roles\<close> (a source or initial module, process modules, a
  finalization module, each the next of the one before) a step of a thread is one of the moves below:
  the program counter moves within those of the role, and the effect no longer mentions the role. The
  invariants of \<open>Pipeline_Safety\<close> are proved move by move.
\<close>

subsection \<open>The program counters of a role\<close>

definition send_pcs :: "pc set" where "send_pcs = {SendWait, SendCmd, SendOff, SendPost}"
definition recv_pcs :: "pc set" where "recv_pcs = {RecvWait, RecvCmd, RecvOff, RecvPost}"
definition job_pcs :: "pc set" where "job_pcs = {WrCmd, WrOffs, PostJob, WaitRes}"

fun pcs_of :: "thread_method \<Rightarrow> pc set" where
  "pcs_of Source_thread = {Head, ChkState, RdCmd, PopRing, WrCmd, WrOffs, PostJob, WaitRes, SendWait,
     SendCmd, SendOff, SendPost, EndWait, EndCmd, EndPost, EndPCmd, EndPostJob, EndWaitRes, EndState, Finished}"
| "pcs_of Initial_thread = {Head, ChkState, RdCmd, PopRing, Fill, WrCmd, WrOffs, SendWait, SendCmd,
     SendOff, SendPost, EndWait, EndCmd, EndPost, EndBranch, EndState, Finished}"
| "pcs_of Process_thread = {RecvWait, RecvCmd, RecvOff, RecvPost, WrCmd, WrOffs, PostJob, WaitRes,
     ChkResult, DropData, SendWait, SendCmd, SendOff, SendPost, EndWait, EndCmd, EndPost, EndPCmd,
     EndPostJob, EndWaitRes, Finished}"
| "pcs_of Finalization_thread = {RecvWait, RecvCmd, RecvOff, RecvPost, ClearData, PushRing, EndState, Finished}"
| "pcs_of No_thread = {}"

definition shape_inv :: "pl_state \<Rightarrow> bool" where
  "shape_inv s \<longleftrightarrow> chain_roles (n_mods s) (role s)
     \<and> m_next s = (\<lambda>i. if Suc i < n_mods s then Some (Suc i) else None) \<and> m_idx s = int
     \<and> (\<forall>i < n_mods s. t_pc s i \<in> pcs_of (role s i))"

lemma shape_inv_pc: "shape_inv s \<Longrightarrow> i < n_mods s \<Longrightarrow> t_pc s i \<in> pcs_of (role s i)"
  by (simp add: shape_inv_def)

lemma chain_roles_cases:
  assumes "chain_roles n r" "i < n"
  obtains "i = 0" "r i = Source_thread" "Suc i < n" | "i = 0" "r i = Initial_thread" "Suc i < n"
  | "0 < i" "Suc i < n" "r i = Process_thread" | "Suc i = n" "0 < i" "r i = Finalization_thread"
proof -
  consider "i = 0" | "0 < i" "Suc i < n" | "Suc i = n" "0 < i"
    using assms by (cases "i = 0"; cases "Suc i = n") auto
  then show thesis
    using that assms by cases (auto simp: chain_roles_def first_role_def dest: sym)
qed

subsection \<open>The moves of a thread\<close>

inductive tmove :: "nat \<Rightarrow> pl_state \<Rightarrow> pl_state \<Rightarrow> bool" for i s where
  mv_head: "t_pc s i = Head \<Longrightarrow> p = (if pl_exit s \<noteq> 0 then EndWait else ChkState) \<Longrightarrow> tmove i s (goto p i s)"
| mv_chk: "t_pc s i = ChkState \<Longrightarrow> p = (if m_state s i \<noteq> MD_STATE_LIVE then Head else RdCmd) \<Longrightarrow> tmove i s (goto p i s)"
| mv_rdcmd: "t_pc s i = RdCmd \<Longrightarrow> tmove i s (goto PopRing i (s\<lparr>l_cmd := (l_cmd s)(i := m_cmd s i)\<rparr>))"
| mv_pop: "t_pc s i = PopRing \<Longrightarrow> ring_buffer_pop (pl_ring s) = Done (v, r) \<Longrightarrow> p = WrCmd \<or> p = Fill \<Longrightarrow>
    tmove i s (goto p i (s\<lparr>pl_ring := r, l_off := (l_off s)(i := v)\<rparr>))"
| mv_fill: "t_pc s i = Fill \<Longrightarrow> tmove i s (goto WrCmd i (s\<lparr>pl_mem := m\<rparr>))"
| mv_wrcmd: "t_pc s i = WrCmd \<Longrightarrow> tmove i s (goto WrOffs i (s\<lparr>p_cmd := (p_cmd s)(i := l_cmd s i)\<rparr>))"
| mv_wroffs: "t_pc s i = WrOffs \<Longrightarrow> p = PostJob \<and> external (role s i) \<or> p = SendWait \<and> \<not> external (role s i) \<Longrightarrow>
    tmove i s (goto p i (s\<lparr>p_offs := (p_offs s)(i := l_off s i)\<rparr>))"
| mv_postjob: "t_pc s i = PostJob \<Longrightarrow> tmove i s (goto WaitRes i (s\<lparr>p_job := (p_job s)(i := Suc (p_job s i))\<rparr>))"
| mv_waitres: "t_pc s i = WaitRes \<Longrightarrow> p_res s i = Suc v \<Longrightarrow> p = SendWait \<or> p = ChkResult \<Longrightarrow>
    tmove i s (goto p i (s\<lparr>p_res := (p_res s)(i := v)\<rparr>))"
| mv_chkres: "t_pc s i = ChkResult \<Longrightarrow> p = (if p_cmd_result s i \<noteq> 0 then DropData else SendWait) \<Longrightarrow> tmove i s (goto p i s)"
| mv_push: "t_pc s i = DropData \<or> t_pc s i = PushRing \<Longrightarrow> ring_buffer_push (pl_ring s) (l_off s i) = Done r \<Longrightarrow>
    tmove i s (goto RecvWait i (s\<lparr>pl_ring := r\<rparr>))"
| mv_sendwait: "t_pc s i = SendWait \<Longrightarrow> Suc i < n_mods s \<Longrightarrow> m_result s (Suc i) = Suc v \<Longrightarrow>
    tmove i s (goto SendCmd i (s\<lparr>m_result := (m_result s)(Suc i := v)\<rparr>))"
| mv_sendcmd: "t_pc s i = SendCmd \<Longrightarrow> Suc i < n_mods s \<Longrightarrow>
    tmove i s (goto SendOff i (s\<lparr>m_cmd := (m_cmd s)(Suc i := PROCESS_CMD_JOB)\<rparr>))"
| mv_sendoff: "t_pc s i = SendOff \<Longrightarrow> Suc i < n_mods s \<Longrightarrow>
    tmove i s (goto SendPost i (s\<lparr>m_off := (m_off s)(Suc i := l_off s i)\<rparr>))"
| mv_sendpost: "t_pc s i = SendPost \<Longrightarrow> Suc i < n_mods s \<Longrightarrow> p = Head \<or> p = RecvWait \<Longrightarrow>
    tmove i s (goto p i (s\<lparr>m_new_cmd := (m_new_cmd s)(Suc i := Suc (m_new_cmd s (Suc i)))\<rparr>))"
| mv_recvwait: "t_pc s i = RecvWait \<Longrightarrow> m_new_cmd s i = Suc v \<Longrightarrow>
    tmove i s (goto RecvCmd i (s\<lparr>m_new_cmd := (m_new_cmd s)(i := v)\<rparr>))"
| mv_recvcmd: "t_pc s i = RecvCmd \<Longrightarrow> tmove i s (goto RecvOff i (s\<lparr>l_cmd := (l_cmd s)(i := m_cmd s i)\<rparr>))"
| mv_recvoff: "t_pc s i = RecvOff \<Longrightarrow> tmove i s (goto RecvPost i (s\<lparr>l_off := (l_off s)(i := m_off s i)\<rparr>))"
| mv_recvpost: "t_pc s i = RecvPost \<Longrightarrow> l_cmd s i \<noteq> PROCESS_CMD_STOP \<Longrightarrow> p = WrCmd \<or> p = ClearData \<Longrightarrow>
    tmove i s (goto p i (s\<lparr>m_result := (m_result s)(i := Suc (m_result s i))\<rparr>))"
| mv_recvstop: "t_pc s i = RecvPost \<Longrightarrow> l_cmd s i = PROCESS_CMD_STOP \<Longrightarrow>
    p = EndWait \<and> Suc i < n_mods s \<or> p = EndState \<and> Suc i = n_mods s \<Longrightarrow>
    tmove i s (goto p i (s\<lparr>m_result := (m_result s)(i := Suc (m_result s i))\<rparr>))"
| mv_clear: "t_pc s i = ClearData \<Longrightarrow> tmove i s (goto PushRing i (s\<lparr>pl_mem := m\<rparr>))"
| mv_endwait: "t_pc s i = EndWait \<Longrightarrow> Suc i < n_mods s \<Longrightarrow> m_result s (Suc i) = Suc v \<Longrightarrow>
    tmove i s (goto EndCmd i (s\<lparr>m_result := (m_result s)(Suc i := v)\<rparr>))"
| mv_endcmd: "t_pc s i = EndCmd \<Longrightarrow> Suc i < n_mods s \<Longrightarrow>
    tmove i s (goto EndPost i (s\<lparr>m_cmd := (m_cmd s)(Suc i := PROCESS_CMD_STOP)\<rparr>))"
| mv_endpost: "t_pc s i = EndPost \<Longrightarrow> Suc i < n_mods s \<Longrightarrow> p = EndPCmd \<or> p = EndBranch \<Longrightarrow>
    tmove i s (goto p i (s\<lparr>m_new_cmd := (m_new_cmd s)(Suc i := Suc (m_new_cmd s (Suc i)))\<rparr>))"
| mv_endbranch: "t_pc s i = EndBranch \<Longrightarrow> tmove i s (goto EndState i s)"
| mv_endpcmd: "t_pc s i = EndPCmd \<Longrightarrow> tmove i s (goto EndPostJob i (s\<lparr>p_cmd := (p_cmd s)(i := PROCESS_CMD_STOP)\<rparr>))"
| mv_endpostjob: "t_pc s i = EndPostJob \<Longrightarrow> tmove i s (goto EndWaitRes i (s\<lparr>p_job := (p_job s)(i := Suc (p_job s i))\<rparr>))"
| mv_endwaitres: "t_pc s i = EndWaitRes \<Longrightarrow> p_res s i = Suc v \<Longrightarrow> p = EndState \<or> p = Finished \<Longrightarrow>
    tmove i s (goto p i (s\<lparr>p_res := (p_res s)(i := v)\<rparr>))"
| mv_endstate: "t_pc s i = EndState \<Longrightarrow> tmove i s (goto Finished i (thread_set_state i st s))"

lemma thread_set_state_eq: "thread_set_state i x s = s\<lparr>m_state :=
    (if m_state s i = MD_STATE_ERROR then m_state s else (m_state s)(i := x))\<rparr>"
  by (simp add: thread_set_state_def)

lemma waiting_Done: "waiting v f = Done t \<longleftrightarrow> (\<exists>w. v = Suc w \<and> t = f w)"
  by (cases v) (auto simp: waiting_def)

lemma with_next_Done: "with_next i s f = Done t \<longleftrightarrow> (\<exists>j. m_next s i = Some j \<and> f j = Done t)"
  by (auto simp: with_next_def split: option.splits)

lemmas move_simps = waiting_Done with_next_Done pop_ring_def push_ring_def bind_run_Done_iff
  sem_post_def

lemma source_move:
  assumes "source_thread i s = Done t" "shape_inv s" "i < n_mods s" "role s i = Source_thread"
  shows "tmove i s t \<and> t_pc t i \<in> pcs_of Source_thread"
proof -
  have n: "m_next s i = (if Suc i < n_mods s then Some (Suc i) else None)" "external (role s i)"
    using assms(2,4) by (auto simp: shape_inv_def external_def)
  have "t_pc s i \<in> pcs_of Source_thread"
    using assms(2-4) by (auto simp: shape_inv_def)
  then show ?thesis
    using assms(1) n
    by (cases "t_pc s i") (auto simp: source_thread_def shared_steps move_simps goto_def [of _ _ s, symmetric]
        intro: tmove.intros split: if_splits, auto simp: goto_def)
qed

lemma initial_move:
  assumes "initial_thread i s = Done t" "shape_inv s" "i = 0" "1 < n_mods s" "role s i = Initial_thread"
  shows "tmove i s t \<and> t_pc t i \<in> pcs_of Initial_thread"
proof -
  have n: "m_next s i = (if Suc i < n_mods s then Some (Suc i) else None)" "\<not> external (role s i)"
    "m_idx s = int"
    using assms(2,5) by (auto simp: shape_inv_def external_def)
  have "t_pc s i \<in> pcs_of (role s i)"
    using shape_inv_pc [OF assms(2), of i] assms(3,4) by simp
  then have "t_pc s i \<in> pcs_of Initial_thread"
    by (simp only: assms(5))
  then show ?thesis
    using assms(1,3,4) n
    by (cases "t_pc s i") (auto simp: initial_thread_def shared_steps move_simps goto_def [of _ _ s, symmetric]
        intro: tmove.intros split: if_splits, auto simp: goto_def)
qed

lemma process_move:
  assumes "process_thread i s = Done t" "shape_inv s" "i < n_mods s" "role s i = Process_thread"
    and "Suc i < n_mods s"
  shows "tmove i s t \<and> t_pc t i \<in> pcs_of Process_thread"
proof -
  have n: "m_next s i = (if Suc i < n_mods s then Some (Suc i) else None)" "external (role s i)"
    using assms(2,4) by (auto simp: shape_inv_def external_def)
  have "t_pc s i \<in> pcs_of Process_thread"
    using assms(2-4) by (auto simp: shape_inv_def)
  then show ?thesis
    using assms(1,5) n
    by (cases "t_pc s i") (auto simp: process_thread_def shared_steps move_simps goto_def [of _ _ s, symmetric]
        intro: tmove.intros split: if_splits, auto simp: goto_def)
qed

lemma finalization_move:
  assumes "finalization_thread i s = Done t" "shape_inv s" "i < n_mods s" "role s i = Finalization_thread"
    and "Suc i = n_mods s"
  shows "tmove i s t \<and> t_pc t i \<in> pcs_of Finalization_thread"
proof -
  have "t_pc s i \<in> pcs_of Finalization_thread"
    using assms(2-4) by (auto simp: shape_inv_def)
  then show ?thesis
    using assms(1,5)
    by (cases "t_pc s i") (auto simp: finalization_thread_def shared_steps move_simps goto_def [of _ _ s, symmetric]
        intro: tmove.intros split: if_splits, auto simp: goto_def)
qed

lemma thread_move:
  assumes "thread_step i s = Done t" "shape_inv s" "i < n_mods s"
  shows "tmove i s t" "t_pc t i \<in> pcs_of (role s i)"
proof -
  have "chain_roles (n_mods s) (role s)"
    using assms(2) by (simp add: shape_inv_def)
  then have "tmove i s t \<and> t_pc t i \<in> pcs_of (role s i)"
  proof (rule chain_roles_cases [OF _ assms(3)], goal_cases)
    case 1
    then show ?case using source_move [of i s t] assms by (simp add: thread_step_def)
  next
    case 2
    then show ?case using initial_move [of i s t] assms by (simp add: thread_step_def)
  next
    case 3
    then show ?case using process_move [of i s t] assms by (simp add: thread_step_def)
  next
    case 4
    then show ?case using finalization_move [of i s t] assms by (simp add: thread_step_def)
  qed
  then show "tmove i s t" "t_pc t i \<in> pcs_of (role s i)" by auto
qed

text \<open>What a move leaves alone.\<close>

lemma tmove_frame:
  assumes "tmove i s t"
  shows "n_mods t = n_mods s" "role t = role s" "m_next t = m_next s" "m_idx t = m_idx s"
    "pl_exit t = pl_exit s" "c_pc t = c_pc s" "c_exit t = c_exit s" "main_pc t = main_pc s"
    "j \<noteq> i \<Longrightarrow> t_pc t j = t_pc s j" "j \<noteq> i \<Longrightarrow> l_cmd t j = l_cmd s j" "j \<noteq> i \<Longrightarrow> l_off t j = l_off s j"
    "j \<noteq> i \<Longrightarrow> p_cmd t j = p_cmd s j" "j \<noteq> i \<Longrightarrow> p_offs t j = p_offs s j"
    "j \<noteq> i \<Longrightarrow> p_job t j = p_job s j" "j \<noteq> i \<Longrightarrow> p_res t j = p_res s j"
    "p_cmd_result t = p_cmd_result s"
  using assms by (cases; simp add: goto_def thread_set_state_eq)+

end
