(* ===== verification/Pipeline_Invariants.thy ===== *)
theory Pipeline_Invariants imports Pipeline_Moves begin

section \<open>Invariants of the threads, move by move\<close>

text \<open>
  Between neighbouring modules there is one token (\<open>new_cmd\<close> + \<open>result\<close> + who holds it), between a
  module and its child one job; the mailbox is written only by the holder of the token; a STOP is on
  its way exactly when the sender has stopped; what a module and its mailbox hold changes only when a
  chunk is taken, given back or handed on. Each lemma is about one move of one thread;
  \<open>Pipeline_Safety\<close> puts them together.
\<close>

subsection \<open>The invariants\<close>

definition send_tok :: "pc \<Rightarrow> bool" where
  "send_tok p \<longleftrightarrow> p \<in> {SendCmd, SendOff, SendPost, EndCmd, EndPost}"

definition recv_tok :: "pc \<Rightarrow> bool" where
  "recv_tok p \<longleftrightarrow> p \<in> {RecvCmd, RecvOff, RecvPost}"

definition after_send :: "pc \<Rightarrow> bool" where
  "after_send p \<longleftrightarrow> p \<in> {EndBranch, EndPCmd, EndPostJob, EndWaitRes, EndState, Finished}"

definition stopping :: "pc \<Rightarrow> bool" where
  "stopping p \<longleftrightarrow> p \<in> {EndWait, EndCmd, EndPost} \<or> after_send p"

definition working :: "pc \<Rightarrow> bool" where
  "working p \<longleftrightarrow> p \<in> {Fill, WrCmd, WrOffs, PostJob, WaitRes, ChkResult, DropData, SendWait, SendCmd,
     SendOff, SendPost, ClearData, PushRing}"

definition child_busy :: "child_pc \<Rightarrow> bool" where
  "child_busy c \<longleftrightarrow> c \<in> {CRead, CStop, CAct, CPost}"

lemmas pc_sets = send_tok_def recv_tok_def after_send_def stopping_def working_def

text \<open>Their values on the constructors; on other program counters they stay folded.\<close>

lemma send_tok_eval [simp]:
  "\<not> send_tok Head" "\<not> send_tok ChkState" "\<not> send_tok RdCmd"
    "\<not> send_tok PopRing" "\<not> send_tok Fill" "\<not> send_tok WrCmd"
    "\<not> send_tok WrOffs" "\<not> send_tok PostJob" "\<not> send_tok WaitRes"
    "\<not> send_tok ChkResult" "\<not> send_tok DropData" "\<not> send_tok SendWait"
    "send_tok SendCmd" "send_tok SendOff" "send_tok SendPost" "\<not> send_tok RecvWait"
    "\<not> send_tok RecvCmd" "\<not> send_tok RecvOff" "\<not> send_tok RecvPost"
    "\<not> send_tok ClearData" "\<not> send_tok PushRing" "\<not> send_tok EndWait"
    "send_tok EndCmd" "send_tok EndPost" "\<not> send_tok EndBranch" "\<not> send_tok EndPCmd"
    "\<not> send_tok EndPostJob" "\<not> send_tok EndWaitRes" "\<not> send_tok EndState"
    "\<not> send_tok Finished"
  by (simp_all add: pc_sets)

lemma recv_tok_eval [simp]:
  "\<not> recv_tok Head" "\<not> recv_tok ChkState" "\<not> recv_tok RdCmd"
    "\<not> recv_tok PopRing" "\<not> recv_tok Fill" "\<not> recv_tok WrCmd"
    "\<not> recv_tok WrOffs" "\<not> recv_tok PostJob" "\<not> recv_tok WaitRes"
    "\<not> recv_tok ChkResult" "\<not> recv_tok DropData" "\<not> recv_tok SendWait"
    "\<not> recv_tok SendCmd" "\<not> recv_tok SendOff" "\<not> recv_tok SendPost"
    "\<not> recv_tok RecvWait" "recv_tok RecvCmd" "recv_tok RecvOff" "recv_tok RecvPost"
    "\<not> recv_tok ClearData" "\<not> recv_tok PushRing" "\<not> recv_tok EndWait"
    "\<not> recv_tok EndCmd" "\<not> recv_tok EndPost" "\<not> recv_tok EndBranch"
    "\<not> recv_tok EndPCmd" "\<not> recv_tok EndPostJob" "\<not> recv_tok EndWaitRes"
    "\<not> recv_tok EndState" "\<not> recv_tok Finished"
  by (simp_all add: pc_sets)

lemma after_send_eval [simp]:
  "\<not> after_send Head" "\<not> after_send ChkState" "\<not> after_send RdCmd"
    "\<not> after_send PopRing" "\<not> after_send Fill" "\<not> after_send WrCmd"
    "\<not> after_send WrOffs" "\<not> after_send PostJob" "\<not> after_send WaitRes"
    "\<not> after_send ChkResult" "\<not> after_send DropData" "\<not> after_send SendWait"
    "\<not> after_send SendCmd" "\<not> after_send SendOff" "\<not> after_send SendPost"
    "\<not> after_send RecvWait" "\<not> after_send RecvCmd" "\<not> after_send RecvOff"
    "\<not> after_send RecvPost" "\<not> after_send ClearData" "\<not> after_send PushRing"
    "\<not> after_send EndWait" "\<not> after_send EndCmd" "\<not> after_send EndPost"
    "after_send EndBranch" "after_send EndPCmd" "after_send EndPostJob" "after_send EndWaitRes"
    "after_send EndState" "after_send Finished"
  by (simp_all add: pc_sets)

lemma stopping_eval [simp]:
  "\<not> stopping Head" "\<not> stopping ChkState" "\<not> stopping RdCmd"
    "\<not> stopping PopRing" "\<not> stopping Fill" "\<not> stopping WrCmd"
    "\<not> stopping WrOffs" "\<not> stopping PostJob" "\<not> stopping WaitRes"
    "\<not> stopping ChkResult" "\<not> stopping DropData" "\<not> stopping SendWait"
    "\<not> stopping SendCmd" "\<not> stopping SendOff" "\<not> stopping SendPost"
    "\<not> stopping RecvWait" "\<not> stopping RecvCmd" "\<not> stopping RecvOff"
    "\<not> stopping RecvPost" "\<not> stopping ClearData" "\<not> stopping PushRing"
    "stopping EndWait" "stopping EndCmd" "stopping EndPost" "stopping EndBranch"
    "stopping EndPCmd" "stopping EndPostJob" "stopping EndWaitRes" "stopping EndState"
    "stopping Finished"
  by (simp_all add: pc_sets)

lemma working_eval [simp]:
  "\<not> working Head" "\<not> working ChkState" "\<not> working RdCmd" "\<not> working PopRing"
    "working Fill" "working WrCmd" "working WrOffs" "working PostJob" "working WaitRes"
    "working ChkResult" "working DropData" "working SendWait" "working SendCmd" "working SendOff"
    "working SendPost" "\<not> working RecvWait" "\<not> working RecvCmd" "\<not> working RecvOff"
    "\<not> working RecvPost" "working ClearData" "working PushRing" "\<not> working EndWait"
    "\<not> working EndCmd" "\<not> working EndPost" "\<not> working EndBranch"
    "\<not> working EndPCmd" "\<not> working EndPostJob" "\<not> working EndWaitRes"
    "\<not> working EndState" "\<not> working Finished"
  by (simp_all add: pc_sets)

lemma child_busy_eval [simp]: "\<not> child_busy CWait" "child_busy CRead" "child_busy CStop" "child_busy CAct"
    "child_busy CPost" "\<not> child_busy CDone"
  by (simp_all add: child_busy_def)

definition link_inv :: "pl_state \<Rightarrow> nat \<Rightarrow> bool" where
  "link_inv s i \<longleftrightarrow> m_new_cmd s (Suc i) + m_result s (Suc i) + of_bool (send_tok (t_pc s i))
     + of_bool (recv_tok (t_pc s (Suc i))) = 1"

definition mail_inv :: "pl_state \<Rightarrow> nat \<Rightarrow> bool" where
  "mail_inv s i \<longleftrightarrow>
     (t_pc s i = SendOff \<or> t_pc s i = SendPost \<longrightarrow> m_cmd s (Suc i) = PROCESS_CMD_JOB)
     \<and> (t_pc s i = SendPost \<longrightarrow> m_off s (Suc i) = l_off s i)
     \<and> (t_pc s i = EndPost \<longrightarrow> m_cmd s (Suc i) = PROCESS_CMD_STOP)
     \<and> (t_pc s (Suc i) = RecvOff \<longrightarrow> l_cmd s (Suc i) = m_cmd s (Suc i))"

definition cmd_inv :: "pl_state \<Rightarrow> nat \<Rightarrow> bool" where
  "cmd_inv s i \<longleftrightarrow> m_cmd s i \<in> {PROCESS_CMD_JOB, PROCESS_CMD_STOP} \<and> (i = 0 \<longrightarrow> m_cmd s i = PROCESS_CMD_JOB \<and> m_new_cmd s i = 0)
     \<and> (t_pc s i = RecvOff \<or> t_pc s i = RecvPost \<longrightarrow> l_cmd s i \<in> {PROCESS_CMD_JOB, PROCESS_CMD_STOP})
     \<and> (working (t_pc s i) \<or> t_pc s i = PopRing \<longrightarrow> l_cmd s i = PROCESS_CMD_JOB)"

definition job_inv :: "pl_state \<Rightarrow> nat \<Rightarrow> bool" where
  "job_inv s i \<longleftrightarrow> p_job s i + p_res s i + of_bool (child_busy (c_pc s i))
     = of_bool (t_pc s i = WaitRes \<or> t_pc s i = EndWaitRes)"

definition content_inv :: "pl_state \<Rightarrow> nat \<Rightarrow> bool" where
  "content_inv s i \<longleftrightarrow>
     (t_pc s i \<in> {WrOffs, PostJob, WaitRes} \<longrightarrow> p_cmd s i = PROCESS_CMD_JOB)
     \<and> (t_pc s i \<in> {PostJob, WaitRes} \<longrightarrow> p_offs s i = l_off s i)
     \<and> (t_pc s i \<in> {EndPostJob, EndWaitRes} \<longrightarrow> p_cmd s i = PROCESS_CMD_STOP)
     \<and> (c_pc s i = CAct \<longrightarrow> t_pc s i = WaitRes) \<and> (c_pc s i = CStop \<longrightarrow> t_pc s i = EndWaitRes)"

text \<open>A STOP is on its way to module \<open>j\<close>, or has arrived.\<close>

definition stop_at :: "pl_state \<Rightarrow> nat \<Rightarrow> bool" where
  "stop_at s j \<longleftrightarrow> (0 < m_new_cmd s j \<or> t_pc s j = RecvCmd) \<and> m_cmd s j = PROCESS_CMD_STOP
     \<or> (t_pc s j = RecvOff \<or> t_pc s j = RecvPost) \<and> l_cmd s j = PROCESS_CMD_STOP \<or> stopping (t_pc s j)"

definition stop_inv :: "pl_state \<Rightarrow> nat \<Rightarrow> bool" where
  "stop_inv s i \<longleftrightarrow> after_send (t_pc s i) = stop_at s (Suc i)"

text \<open>What module \<open>i\<close> and its mailbox hold.\<close>

definition held :: "pl_state \<Rightarrow> nat \<Rightarrow> u64 multiset" where
  "held s i =
     (if working (t_pc s i) \<or> t_pc s i = RecvPost \<and> l_cmd s i \<noteq> PROCESS_CMD_STOP
      then {#l_off s i#} else {#})
   + (if (0 < m_new_cmd s i \<or> t_pc s i = RecvCmd) \<and> m_cmd s i \<noteq> PROCESS_CMD_STOP
          \<or> t_pc s i = RecvOff \<and> l_cmd s i \<noteq> PROCESS_CMD_STOP
      then {#m_off s i#} else {#})"

definition chunk_inv :: "u64 multiset \<Rightarrow> pl_state \<Rightarrow> bool" where
  "chunk_inv A s \<longleftrightarrow> (\<exists>q. ring_rep (pl_ring s) q \<and> size A = ring_cap (pl_ring s)
     \<and> mset q + (\<Sum>i<n_mods s. held s i) = A)"

definition pair_inv :: "pl_state \<Rightarrow> nat \<Rightarrow> bool" where
  "pair_inv s i \<longleftrightarrow> link_inv s i \<and> mail_inv s i \<and> stop_inv s i"

definition mod_inv :: "pl_state \<Rightarrow> nat \<Rightarrow> bool" where
  "mod_inv s i \<longleftrightarrow> cmd_inv s i \<and> job_inv s i \<and> content_inv s i"

definition pl_inv :: "u64 multiset \<Rightarrow> pl_state \<Rightarrow> bool" where
  "pl_inv A s \<longleftrightarrow> shape_inv s \<and> (\<forall>i. Suc i < n_mods s \<longrightarrow> pair_inv s i)
     \<and> (\<forall>i < n_mods s. mod_inv s i) \<and> chunk_inv A s"

subsection \<open>Threads preserve the invariants of one module and of one link\<close>

lemma cmd_neq [simp]: "PROCESS_CMD_STOP \<noteq> PROCESS_CMD_JOB" "PROCESS_CMD_JOB \<noteq> PROCESS_CMD_STOP"
  by (simp_all add: PROCESS_CMD_STOP_def PROCESS_CMD_JOB_def)

lemmas move_eval = goto_def thread_set_state_eq

lemma tmove_cases_at:
  assumes "k = i \<Longrightarrow> P" "k = Suc i \<Longrightarrow> P" "k \<noteq> i \<Longrightarrow> k \<noteq> Suc i \<Longrightarrow> P"
  shows P
  using assms by blast

definition link_sum :: "pl_state \<Rightarrow> nat \<Rightarrow> nat" where
  "link_sum s i = m_new_cmd s (Suc i) + m_result s (Suc i) + of_bool (send_tok (t_pc s i))
     + of_bool (recv_tok (t_pc s (Suc i)))"

lemma link_sum_move:
  assumes "tmove k s t"
  shows "link_sum t i = link_sum s i"
proof (rule tmove_cases_at [of k i])
  assume "k = i"
  with assms show ?thesis
    unfolding link_sum_def by (cases; (elim disjE)?; simp add: move_eval)
next
  assume "k = Suc i"
  with assms show ?thesis
    unfolding link_sum_def by (cases; (elim disjE)?; simp add: move_eval)
next
  assume "k \<noteq> i" "k \<noteq> Suc i"
  with assms show ?thesis
    unfolding link_sum_def by (cases; simp add: move_eval)
qed

lemma link_move: "tmove k s t \<Longrightarrow> link_inv s i \<Longrightarrow> link_inv t i"
  using link_sum_move [of k s t i] by (simp add: link_inv_def link_sum_def)

definition job_sum :: "pl_state \<Rightarrow> nat \<Rightarrow> nat" where
  "job_sum s i = p_job s i + p_res s i + of_bool (child_busy (c_pc s i))"

definition awaiting :: "pl_state \<Rightarrow> nat \<Rightarrow> nat" where
  "awaiting s i = of_bool (t_pc s i = WaitRes \<or> t_pc s i = EndWaitRes)"

lemma job_sum_move:
  assumes "tmove k s t"
  shows "job_sum t i + awaiting s i = job_sum s i + awaiting t i"
proof (cases "k = i")
  case True
  with assms show ?thesis
    unfolding job_sum_def awaiting_def
    by (cases; (elim disjE)?; simp add: goto_def thread_set_state_eq)
next
  case False
  with assms show ?thesis
    by (simp add: job_sum_def awaiting_def tmove_frame [OF assms])
qed

lemma job_inv_sum: "job_inv s i \<longleftrightarrow> job_sum s i = awaiting s i"
  by (simp add: job_inv_def job_sum_def awaiting_def)

lemma job_move: "tmove k s t \<Longrightarrow> job_inv s i \<Longrightarrow> job_inv t i"
  using job_sum_move [of k s t i] by (simp add: job_inv_sum)

text \<open>While a token is held at one end, the other end is not in its critical part.\<close>

lemma link_recv: "link_inv s i \<Longrightarrow> recv_tok (t_pc s (Suc i)) \<Longrightarrow>
    m_new_cmd s (Suc i) = 0 \<and> m_result s (Suc i) = 0 \<and> \<not> send_tok (t_pc s i)"
  by (auto simp: link_inv_def split: if_splits)

lemma link_send: "link_inv s i \<Longrightarrow> send_tok (t_pc s i) \<Longrightarrow>
    m_new_cmd s (Suc i) = 0 \<and> m_result s (Suc i) = 0 \<and> \<not> recv_tok (t_pc s (Suc i))"
  by (auto simp: link_inv_def split: if_splits)

lemma link_new_cmd: "link_inv s i \<Longrightarrow> 0 < m_new_cmd s (Suc i) \<Longrightarrow>
    m_result s (Suc i) = 0 \<and> \<not> send_tok (t_pc s i) \<and> \<not> recv_tok (t_pc s (Suc i))"
  by (auto simp: link_inv_def split: if_splits)

lemma mail_move:
  assumes "tmove k s t" "link_inv s i" "mail_inv s i"
  shows "mail_inv t i"
proof (rule tmove_cases_at [of k i])
  assume k: "k = i"
  show ?thesis
    using assms(1) assms(3) link_send [OF assms(2)] unfolding k mail_inv_def
    by (cases; (elim disjE)?; simp add: move_eval; auto)
next
  assume k: "k = Suc i"
  show ?thesis
    using assms(1) assms(3) link_recv [OF assms(2)] unfolding k mail_inv_def
    by (cases; (elim disjE)?; simp add: move_eval; auto)
next
  assume "k \<noteq> i" "k \<noteq> Suc i"
  with assms(1) assms(3) show ?thesis
    unfolding mail_inv_def by (cases; simp add: move_eval)
qed

text \<open>Only a first module reads its own command, only the others receive.\<close>

definition place_ok :: "pl_state \<Rightarrow> nat \<Rightarrow> bool" where
  "place_ok s i \<longleftrightarrow> (t_pc s i \<in> {Head, ChkState, RdCmd, PopRing} \<longrightarrow> i = 0)
     \<and> (t_pc s i = RecvWait \<or> recv_tok (t_pc s i) \<longrightarrow> 0 < i)"

lemma shape_place: "shape_inv s \<Longrightarrow> i < n_mods s \<Longrightarrow> place_ok s i"
proof -
  assume sh: "shape_inv s" and i: "i < n_mods s"
  have "chain_roles (n_mods s) (role s)" "t_pc s i \<in> pcs_of (role s i)"
    using sh i by (simp_all add: shape_inv_def)
  from chain_roles_cases [OF this(1) i] this(2) show ?thesis
    by cases (auto simp: place_ok_def)
qed

lemma cmd_move:
  assumes "tmove k s t" "cmd_inv s i" "place_ok s i"
  shows "cmd_inv t i"
proof -
  consider "k = i" | "i = Suc k" | "k \<noteq> i" "i \<noteq> Suc k" by blast
  then show ?thesis
  proof cases
    case 1
    show ?thesis
      using assms(1) assms(2,3) unfolding 1 cmd_inv_def place_ok_def
      by (cases; (elim disjE)?; simp add: move_eval)
  next
    case 2
    show ?thesis
      using assms(1) assms(2,3) unfolding 2 cmd_inv_def place_ok_def
      by (cases; (elim disjE)?; simp add: move_eval)
  next
    case 3
    show ?thesis
      using assms(1) assms(2,3) 3 unfolding cmd_inv_def by (cases; simp add: move_eval)
  qed
qed

lemma content_move:
  assumes "tmove k s t" "content_inv s i" "cmd_inv s i" "job_inv s i"
  shows "content_inv t i"
proof (cases "k = i")
  case True
  show ?thesis
    using assms(1) assms(2-4) unfolding True content_inv_def cmd_inv_def job_inv_def
    by (cases; (elim disjE)?; simp add: move_eval; auto)
next
  case False
  with assms(2) show ?thesis
    by (simp add: content_inv_def tmove_frame [OF assms(1)])
qed

lemma stop_move:
  assumes "tmove k s t" "stop_inv s i" "link_inv s i" "mail_inv s i" "place_ok s (Suc i)" "Suc i < n_mods s"
  shows "stop_inv t i"
proof (rule tmove_cases_at [of k i])
  assume k: "k = i"
  show ?thesis
    using assms(1) assms(2,4,6) link_send [OF assms(3)] unfolding k mail_inv_def stop_inv_def stop_at_def
    by (cases; (elim disjE)?; simp add: move_eval; auto)
next
  assume k: "k = Suc i"
  show ?thesis
    using assms(1) assms(2,5) link_recv [OF assms(3)] link_new_cmd [OF assms(3)]
    unfolding k place_ok_def stop_inv_def stop_at_def
    by (cases; (elim disjE)?; simp add: move_eval; auto)
next
  assume "k \<noteq> i" "k \<noteq> Suc i"
  with assms(1) assms(2) show ?thesis
    unfolding stop_inv_def stop_at_def by (cases; simp add: move_eval)
qed

subsection \<open>Every chunk has one owner\<close>

text \<open>
  A move changes what is held at the mover and at the next mailbox only. Taking from the ring adds
  a chunk to the mover, giving it back removes it, a post moves it to the next mailbox; every other
  move changes nothing.
\<close>

definition link_at :: "pl_state \<Rightarrow> nat \<Rightarrow> bool" where
  "link_at s i \<longleftrightarrow> (0 < i \<longrightarrow> link_inv s (i - 1)) \<and> (Suc i < n_mods s \<longrightarrow> link_inv s i \<and> mail_inv s i)"

lemma held_other:
  assumes "tmove k s t" "j \<noteq> k" "j \<noteq> Suc k"
  shows "held t j = held s j"
  using assms by (cases; simp add: held_def move_eval)

lemma held_next:
  assumes "tmove k s t" "t_pc s k \<noteq> SendPost" "link_at s k"
  shows "held t (Suc k) = held s (Suc k)"
  using assms(1) assms(2,3) link_send [of s k] unfolding held_def link_at_def mail_inv_def
  by (cases; (elim disjE)?; simp add: move_eval; auto)

lemma held_same:
  assumes "tmove k s t" "t_pc s k \<notin> {PopRing, DropData, PushRing, SendPost}"
    and "cmd_inv s k" "0 < k \<longrightarrow> link_inv s (k - 1)" "0 < k \<longrightarrow> mail_inv s (k - 1)" "place_ok s k"
  shows "held t k = held s k"
proof -
  have l: "recv_tok (t_pc s k) \<Longrightarrow> m_new_cmd s k = 0"
  proof -
    assume r: "recv_tok (t_pc s k)"
    then have k: "0 < k"
      using assms(6) unfolding place_ok_def by blast
    with r link_recv [of s "k - 1"] assms(4) show "m_new_cmd s k = 0" by simp
  qed
  have c: "t_pc s k = RecvOff \<Longrightarrow> l_cmd s k = m_cmd s k"
  proof -
    assume r: "t_pc s k = RecvOff"
    then have "0 < k"
      using assms(6) by (simp add: place_ok_def)
    with r assms(5) show "l_cmd s k = m_cmd s k" by (simp add: mail_inv_def)
  qed
  show ?thesis
    using assms(1) assms(2,3,6) l c unfolding held_def cmd_inv_def place_ok_def
    by (cases; (elim disjE)?; simp add: move_eval; auto)
qed

lemma held_pop:
  assumes "tmove k s t" "t_pc s k = PopRing"
  shows "\<exists>v r. ring_buffer_pop (pl_ring s) = Done (v, r) \<and> pl_ring t = r \<and> held t k = add_mset v (held s k)"
  using assms by (cases; (elim disjE)?; simp add: move_eval held_def)

lemma held_push:
  assumes "tmove k s t" "t_pc s k = DropData \<or> t_pc s k = PushRing"
  shows "\<exists>r. ring_buffer_push (pl_ring s) (l_off s k) = Done r \<and> pl_ring t = r
    \<and> held s k = add_mset (l_off s k) (held t k)"
  using assms by (cases; (elim disjE)?; simp add: move_eval held_def)

lemma held_send:
  assumes "tmove k s t" "t_pc s k = SendPost" "link_at s k" "Suc k < n_mods s"
  shows "held s k = add_mset (l_off s k) (held t k)"
    "held t (Suc k) = add_mset (l_off s k) (held s (Suc k))"
proof -
  show "held s k = add_mset (l_off s k) (held t k)"
    using assms(1) assms(2) by (cases; (elim disjE)?; simp add: move_eval held_def)
  have li: "link_inv s k" "mail_inv s k"
    using assms(3,4) by (simp_all add: link_at_def)
  have f: "m_new_cmd s (Suc k) = 0" "\<not> recv_tok (t_pc s (Suc k))"
    using link_send [OF li(1)] assms(2) by simp_all
  have g: "m_cmd s (Suc k) = PROCESS_CMD_JOB" "m_off s (Suc k) = l_off s k"
    using li(2) assms(2) by (simp_all add: mail_inv_def)
  show "held t (Suc k) = add_mset (l_off s k) (held s (Suc k))"
    using assms(1) assms(2) f g by (cases; (elim disjE)?; simp add: move_eval held_def; auto)
qed

lemma ring_kept:
  assumes "tmove k s t" "t_pc s k \<notin> {PopRing, DropData, PushRing}"
  shows "pl_ring t = pl_ring s"
  using assms by (cases; simp add: move_eval)

end
