(* ===== verification/Pipeline_Safety.thy ===== *)
theory Pipeline_Safety imports Pipeline_Invariants begin

section \<open>Safety of the running pipeline\<close>

text \<open>
  The invariants of \<open>Pipeline_Invariants\<close> hold in every reachable state: threads, children, the main
  thread and the exit flag preserve \<open>pl_inv\<close>. From it: no thread step has undefined behaviour (the
  ring is never overfilled), every chunk has exactly one owner, a child only runs its action on the
  chunk its module holds, and without the exit flag no thread ever ends.
\<close>

subsection \<open>Sums over the modules\<close>

lemma sum_add_at:
  fixes f :: "nat \<Rightarrow> 'a multiset"
  assumes "k < n" "f' k = add_mset v (f k)" "\<And>j. j < n \<Longrightarrow> j \<noteq> k \<Longrightarrow> f' j = f j"
  shows "sum f' {..<n} = add_mset v (sum f {..<n})"
proof -
  have "sum f' {..<n} = f' k + sum f' ({..<n} - {k})" "sum f {..<n} = f k + sum f ({..<n} - {k})"
    using assms(1) by (simp_all add: sum.remove)
  moreover have "sum f' ({..<n} - {k}) = sum f ({..<n} - {k})"
    using assms(3) by (intro sum.cong) auto
  ultimately show ?thesis
    using assms(2) by simp
qed

lemma sum_handover:
  fixes f :: "nat \<Rightarrow> 'a multiset"
  assumes "Suc k < n" "f k = add_mset v (f' k)" "f' (Suc k) = add_mset v (f (Suc k))"
    and "\<And>j. j < n \<Longrightarrow> j \<noteq> k \<Longrightarrow> j \<noteq> Suc k \<Longrightarrow> f' j = f j"
  shows "sum f' {..<n} = sum f {..<n}"
proof -
  let ?g = "f(k := f' k)"
  have "sum f {..<n} = add_mset v (sum ?g {..<n})"
    by (rule sum_add_at [of k]) (use assms in auto)
  moreover have "sum f' {..<n} = add_mset v (sum ?g {..<n})"
    by (rule sum_add_at [of "Suc k"]) (use assms in auto)
  ultimately show ?thesis by simp
qed

lemma sum_member_le:
  fixes f :: "nat \<Rightarrow> 'a multiset"
  assumes "k < n"
  shows "f k \<subseteq># sum f {..<n}"
  using assms by (simp add: sum.remove [of _ k])

subsection \<open>Threads keep the chunks\<close>

lemma pl_invD:
  assumes "pl_inv A s"
  shows "shape_inv s" "chunk_inv A s" "\<And>i. Suc i < n_mods s \<Longrightarrow> link_inv s i"
    "\<And>i. Suc i < n_mods s \<Longrightarrow> mail_inv s i" "\<And>i. Suc i < n_mods s \<Longrightarrow> stop_inv s i"
    "\<And>i. i < n_mods s \<Longrightarrow> cmd_inv s i" "\<And>i. i < n_mods s \<Longrightarrow> job_inv s i"
    "\<And>i. i < n_mods s \<Longrightarrow> content_inv s i" "\<And>i. i < n_mods s \<Longrightarrow> place_ok s i"
  using assms shape_place [of s] by (auto simp: pl_inv_def pair_inv_def mod_inv_def)

lemma pl_inv_link_at:
  assumes "pl_inv A s" "i < n_mods s"
  shows "link_at s i" "0 < i \<longrightarrow> link_inv s (i - 1)" "0 < i \<longrightarrow> mail_inv s (i - 1)"
  using pl_invD(3,4) [OF assms(1), of "i - 1"] pl_invD(3,4) [OF assms(1), of i] assms(2)
  by (simp_all add: link_at_def)

lemma chunk_thread:
  assumes "tmove k s t" "pl_inv A s" "k < n_mods s"
  shows "chunk_inv A t"
proof -
  note inv = pl_invD [OF assms(2)] and la = pl_inv_link_at [OF assms(2,3)]
  have n: "n_mods t = n_mods s"
    by (rule tmove_frame(1) [OF assms(1)])
  obtain q where q: "ring_rep (pl_ring s) q" "size A = ring_cap (pl_ring s)"
    "mset q + (\<Sum>i<n_mods s. held s i) = A"
    using inv(2) by (auto simp: chunk_inv_def)
  have oth: "\<And>j. j < n_mods s \<Longrightarrow> j \<noteq> k \<Longrightarrow> t_pc s k \<noteq> SendPost \<Longrightarrow> held t j = held s j"
    using held_other [OF assms(1)] held_next [OF assms(1) _ la(1)] by metis
  consider "t_pc s k = PopRing" | "t_pc s k = DropData \<or> t_pc s k = PushRing" | "t_pc s k = SendPost"
    | "t_pc s k \<notin> {PopRing, DropData, PushRing, SendPost}" by blast
  then show ?thesis
  proof cases
    case 1
    obtain v r where p: "ring_buffer_pop (pl_ring s) = Done (v, r)" "pl_ring t = r"
      "held t k = add_mset v (held s k)"
      using held_pop [OF assms(1) 1] by blast
    have "q \<noteq> []"
      using ring_pop_empty q(1) p(1) by (metis run.distinct(1))
    then obtain x q' where xq: "q = x # q'"
      by (cases q) auto
    then have q': "q = v # q'" "ring_rep r q'" "ring_cap r = ring_cap (pl_ring s)"
      using ring_pop_law [of "pl_ring s" x q'] q(1) p(1) by auto
    have "sum (held t) {..<n_mods s} = add_mset v (sum (held s) {..<n_mods s})"
      using oth 1 p(3) assms(3) by (intro sum_add_at [of k]) auto
    then show ?thesis
      using q q' p(2) n by (auto simp: chunk_inv_def intro!: exI [of _ q'])
  next
    case 2
    obtain r where p: "ring_buffer_push (pl_ring s) (l_off s k) = Done r" "pl_ring t = r"
      "held s k = add_mset (l_off s k) (held t k)"
      using held_push [OF assms(1) 2] by blast
    have sm: "sum (held s) {..<n_mods s} = add_mset (l_off s k) (sum (held t) {..<n_mods s})"
      using oth 2 p(3) assms(3) by (intro sum_add_at [of k]) auto
    then have "length q < ring_cap (pl_ring s)"
      using q(2,3) by (metis size_union size_mset size_add_mset add_Suc_right less_add_Suc1)
    then have "ring_rep r (q @ [l_off s k])" "ring_cap r = ring_cap (pl_ring s)"
      using ring_push_law [OF q(1), of "l_off s k"] p(1) by auto
    then show ?thesis
      using q sm p(2) n by (auto simp: chunk_inv_def intro!: exI [of _ "q @ [l_off s k]"])
  next
    case 3
    have sk: "Suc k < n_mods s"
      using assms(1) 3 by (cases; simp)
    have "sum (held t) {..<n_mods s} = sum (held s) {..<n_mods s}"
      using held_send [OF assms(1) 3 la(1) sk] held_other [OF assms(1)] sk
      by (intro sum_handover [of k]) auto
    then show ?thesis
      using q ring_kept [OF assms(1)] 3 n by (auto simp: chunk_inv_def)
  next
    case 4
    have "held t k = held s k"
      using 4 inv(6,9) [OF assms(3)] la(2,3) by (intro held_same [OF assms(1)]) auto
    then have "held t j = held s j" if "j < n_mods s" for j
      using oth [OF that] 4 by (cases "j = k") auto
    then have "sum (held t) {..<n_mods s} = sum (held s) {..<n_mods s}"
      by (intro sum.cong) auto
    then show ?thesis
      using q ring_kept [OF assms(1)] 4 n by (auto simp: chunk_inv_def)
  qed
qed

lemma pl_inv_thread:
  assumes "thread_step k s = Done t" "pl_inv A s" "k < n_mods s"
  shows "pl_inv A t"
proof -
  note inv = pl_invD [OF assms(2)]
  note mv = thread_move [OF assms(1) inv(1) assms(3)]
  note fr = tmove_frame [OF mv(1)]
  have "t_pc t j \<in> pcs_of (role s j)" if "j < n_mods s" for j
    using mv(2) fr(9) [of j] shape_inv_pc [OF inv(1) that] by (cases "j = k") auto
  then have "shape_inv t"
    using inv(1) fr(1-4) by (auto simp: shape_inv_def)
  moreover have "pair_inv t i" if "Suc i < n_mods t" for i
    using that fr(1) inv(3,4,5,9) link_move [OF mv(1)] mail_move [OF mv(1)] stop_move [OF mv(1)]
    by (simp add: pair_inv_def)
  moreover have "mod_inv t i" if "i < n_mods t" for i
    using that fr(1) inv(6-9) cmd_move [OF mv(1)] job_move [OF mv(1)] content_move [OF mv(1)]
    by (simp add: mod_inv_def)
  moreover have "chunk_inv A t"
    by (rule chunk_thread [OF mv(1) assms(2,3)])
  ultimately show ?thesis
    by (simp add: pl_inv_def)
qed

subsection \<open>Children, the main thread and the exit flag\<close>

lemma child_frame:
  assumes "pipeline_process k act s = Done t"
  shows "n_mods t = n_mods s" "role t = role s" "m_next t = m_next s" "m_idx t = m_idx s"
    "t_pc t = t_pc s" "m_cmd t = m_cmd s" "m_off t = m_off s" "m_new_cmd t = m_new_cmd s"
    "m_result t = m_result s" "l_cmd t = l_cmd s" "l_off t = l_off s" "p_cmd t = p_cmd s"
    "p_offs t = p_offs s" "pl_ring t = pl_ring s" "pl_exit t = pl_exit s" "m_state t = m_state s"
    "main_pc t = main_pc s" "j \<noteq> k \<Longrightarrow> c_pc t j = c_pc s j" "j \<noteq> k \<Longrightarrow> p_job t j = p_job s j"
    "j \<noteq> k \<Longrightarrow> p_res t j = p_res s j"
  using assms unfolding pipeline_process_def
  by (simp_all add: waiting_Done Let_def split: child_pc.splits option.splits prod.splits if_splits) auto

lemma child_job_sum:
  assumes "pipeline_process k act s = Done t"
  shows "job_sum t i = job_sum s i"
proof (cases "k = i")
  case True
  show ?thesis
    using assms unfolding True job_sum_def pipeline_process_def
    by (cases "c_pc s i") (auto simp: waiting_Done sem_post_def Let_def split: option.splits if_splits)
next
  case False
  then show ?thesis
    by (simp add: job_sum_def child_frame [OF assms])
qed

lemma child_job:
  assumes "pipeline_process k act s = Done t" "job_inv s i"
  shows "job_inv t i"
  using assms(2) child_job_sum [OF assms(1), of i] child_frame(5) [OF assms(1)]
  by (simp add: job_inv_sum awaiting_def)

text \<open>A child with a job pending or in hand has its module waiting for it.\<close>

lemma job_awaiting:
  assumes "job_inv s i" "0 < p_job s i \<or> 0 < p_res s i \<or> child_busy (c_pc s i)"
  shows "t_pc s i = WaitRes \<or> t_pc s i = EndWaitRes"
proof (rule ccontr)
  assume "\<not> ?thesis"
  then have "job_sum s i = 0"
    using assms(1) by (simp add: job_inv_sum awaiting_def)
  with assms(2) show False
    by (simp add: job_sum_def)
qed

lemma child_content:
  assumes "pipeline_process k act s = Done t" "job_inv s i" "content_inv s i"
  shows "content_inv t i"
proof (cases "k = i")
  case True
  have w: "child_busy (c_pc s i) \<Longrightarrow> t_pc s i = WaitRes \<or> t_pc s i = EndWaitRes"
    using job_awaiting [OF assms(2)] by blast
  have c: "t_pc s i = WaitRes \<Longrightarrow> p_cmd s i = PROCESS_CMD_JOB"
    "t_pc s i = EndWaitRes \<Longrightarrow> p_cmd s i = PROCESS_CMD_STOP"
    using assms(3) by (simp_all add: content_inv_def)
  have "(c_pc t i = CAct \<longrightarrow> t_pc s i = WaitRes) \<and> (c_pc t i = CStop \<longrightarrow> t_pc s i = EndWaitRes)"
  proof (cases "c_pc s i = CRead")
    case cr: True
    then have "t_pc s i = WaitRes \<or> t_pc s i = EndWaitRes" using w by simp
    then show ?thesis
      using assms(1) cr c unfolding True pipeline_process_def by auto
  next
    case False
    then have "c_pc t i \<noteq> CAct \<and> c_pc t i \<noteq> CStop"
      using assms(1) unfolding True pipeline_process_def
      by (cases "c_pc s i") (auto simp: waiting_Done Let_def split: option.splits if_splits)
    then show ?thesis by simp
  qed
  then show ?thesis
    using assms(3) child_frame [OF assms(1)] unfolding content_inv_def by simp
next
  case False
  then show ?thesis
    using assms(3) child_frame [OF assms(1)] by (simp add: content_inv_def)
qed

text \<open>The parts of the state the invariant does not read.\<close>

lemma pl_inv_cong:
  assumes "pl_inv A s"
    and "n_mods t = n_mods s" "role t = role s" "m_next t = m_next s" "m_idx t = m_idx s"
    "t_pc t = t_pc s" "m_cmd t = m_cmd s" "m_off t = m_off s" "m_new_cmd t = m_new_cmd s"
    "m_result t = m_result s" "l_cmd t = l_cmd s" "l_off t = l_off s" "pl_ring t = pl_ring s"
    and "\<And>i. i < n_mods s \<Longrightarrow> job_inv t i \<and> content_inv t i"
  shows "pl_inv A t"
proof -
  note inv = pl_invD [OF assms(1)]
  have h: "held t = held s"
    using assms(2-13) by (auto simp: held_def fun_eq_iff)
  have "shape_inv t" "chunk_inv A t"
    using inv(1,2) assms(2-13) by (simp_all add: shape_inv_def chunk_inv_def h)
  moreover have "pair_inv t i" if "Suc i < n_mods t" for i
    using inv(3-5) [of i] that assms(2-13)
    by (simp add: pair_inv_def link_inv_def mail_inv_def stop_inv_def stop_at_def)
  moreover have "mod_inv t i" if "i < n_mods t" for i
    using inv(6) [of i] that assms(2-14) by (simp add: mod_inv_def cmd_inv_def)
  ultimately show ?thesis
    by (simp add: pl_inv_def)
qed

lemma pl_inv_child:
  assumes "pipeline_process k act s = Done t" "pl_inv A s"
  shows "pl_inv A t"
proof (rule pl_inv_cong [OF assms(2)])
  fix i assume "i < n_mods s"
  then show "job_inv t i \<and> content_inv t i"
    using child_job [OF assms(1)] child_content [OF assms(1)] pl_invD(7,8) [OF assms(2)] by blast
qed (rule child_frame [OF assms(1)])+

lemma main_frame:
  assumes "pipeline_main s = Done t"
  shows "t = s\<lparr>m_state := m_state t, main_pc := main_pc t\<rparr>"
  using assms by (cases "main_pc s") (auto simp: pipeline_main_def thread_set_state_eq split: if_splits)

lemma pl_inv_main:
  assumes "pipeline_main s = Done t" "pl_inv A s"
  shows "pl_inv A t"
proof -
  obtain ms mp where "t = s\<lparr>m_state := ms, main_pc := mp\<rparr>"
    using main_frame [OF assms(1)] by blast
  then show ?thesis
    using pl_invD(7,8) [OF assms(2)]
    by (intro pl_inv_cong [OF assms(2)]) (simp_all add: job_inv_def content_inv_def)
qed

lemma pl_inv_exit: "pl_inv A s \<Longrightarrow> pl_inv A (s\<lparr>pl_exit := 1\<rparr>)"
  by (rule pl_inv_cong [of A s]) (use pl_invD(7,8) [of A s] in \<open>simp_all add: job_inv_def content_inv_def\<close>)

lemma pl_inv_step:
  assumes "pl_step s t" "pl_inv A s"
  shows "pl_inv A t"
proof -
  obtain a where a: "actor_step a s = Done t"
    using assms(1) by (auto simp: pl_step_iff)
  show ?thesis
    using a assms(2) pl_inv_thread pl_inv_child pl_inv_main pl_inv_exit
    by (cases a) (auto simp: actor_step_def split: if_splits)
qed

lemma pl_inv_init:
  assumes "pl_init chunks s"
  shows "pl_inv (mset chunks) s"
proof -
  have r: "chain_roles (n_mods s) (role s)"
    using assms by (simp add: pl_init_def)
  have "t_pc s i \<in> pcs_of (role s i)" if "i < n_mods s" for i
    using chain_roles_cases [OF r that] assms by cases (auto simp: pl_init_def)
  then have "shape_inv s"
    using assms by (simp add: shape_inv_def pl_init_def)
  moreover have "pair_inv s i" for i
    using assms by (simp add: pl_init_def pair_inv_def link_inv_def mail_inv_def stop_inv_def stop_at_def)
  moreover have "mod_inv s i" for i
    using assms by (simp add: pl_init_def mod_inv_def cmd_inv_def job_inv_def content_inv_def)
  moreover have "held s i = {#}" for i
    using assms by (simp add: pl_init_def held_def)
  then have "chunk_inv (mset chunks) s"
    using assms by (auto simp: pl_init_def chunk_inv_def)
  ultimately show ?thesis
    by (simp add: pl_inv_def)
qed

interpretation pls: safe_machine "pl_init chunks" pl_step "pl_inv (mset chunks)" for chunks
  by unfold_locales (auto intro: pl_inv_init pl_inv_step)

subsection \<open>No undefined behaviour\<close>

lemma pop_not_fault:
  assumes "chunk_inv A s"
  shows "ring_buffer_pop (pl_ring s) \<noteq> Fault"
proof -
  obtain q where q: "ring_rep (pl_ring s) q"
    using assms by (auto simp: chunk_inv_def)
  show ?thesis
    using ring_pop_empty ring_pop_law q by (cases q) fastforce+
qed

text \<open>A thread about to give a chunk back holds it, so the ring has room.\<close>

lemma push_not_fault:
  assumes "chunk_inv A s" "k < n_mods s" "working (t_pc s k)"
  shows "ring_buffer_push (pl_ring s) (l_off s k) \<noteq> Fault"
proof -
  obtain q where q: "ring_rep (pl_ring s) q" "size A = ring_cap (pl_ring s)"
    "mset q + (\<Sum>i<n_mods s. held s i) = A"
    using assms(1) by (auto simp: chunk_inv_def)
  have "{#l_off s k#} \<subseteq># held s k"
    using assms(3) by (simp add: held_def)
  then have "l_off s k \<in># (\<Sum>i<n_mods s. held s i)"
    using sum_member_le [OF assms(2), of "held s"] by (metis mset_subset_eqD single_subset_iff)
  then have "0 < size (\<Sum>i<n_mods s. held s i)"
    by (metis gr0I size_eq_0_iff_empty empty_iff set_mset_empty)
  then have "length q < ring_cap (pl_ring s)"
    using q(2,3) by (metis size_union size_mset less_add_same_cancel1)
  then show ?thesis
    using ring_push_law [OF q(1), of "l_off s k"] by auto
qed

lemma waiting_not_fault: "waiting v f \<noteq> Fault"
  by (simp add: waiting_def split: option.split)

lemma bind_run_Fault: "bind_run m (\<lambda>x. Done (f x)) = Fault \<longleftrightarrow> m = Fault"
  by (cases m) auto

lemma thread_not_fault:
  assumes "pl_inv A s" "k < n_mods s"
  shows "thread_step k s \<noteq> Fault"
proof -
  note inv = pl_invD [OF assms(1)]
  have r: "chain_roles (n_mods s) (role s)" and pc: "t_pc s k \<in> pcs_of (role s k)"
    using inv(1) assms(2) by (simp_all add: shape_inv_def)
  have nx: "m_next s = (\<lambda>i. if Suc i < n_mods s then Some (Suc i) else None)"
    using inv(1) by (simp add: shape_inv_def)
  have pop: "pop_ring k p s \<noteq> Fault" for p
    using pop_not_fault [OF inv(2)] by (cases "ring_buffer_pop (pl_ring s)") (auto simp: pop_ring_def)
  have push: "push_ring k p s \<noteq> Fault" if "working (t_pc s k)" for p
    using push_not_fault [OF inv(2) assms(2) that] by (simp add: push_ring_def bind_run_Fault)
  note eval = thread_step_def shared_steps with_next_def nx waiting_not_fault
  from chain_roles_cases [OF r assms(2)] pc pop push show ?thesis
  proof cases
    case 1
    with pc pop push show ?thesis
      by (cases "t_pc s k") (simp_all add: eval source_thread_def)
  next
    case 2
    with pc pop push show ?thesis
      by (cases "t_pc s k") (simp_all add: eval initial_thread_def)
  next
    case 3
    with pc pop push show ?thesis
      by (cases "t_pc s k") (simp_all add: eval process_thread_def)
  next
    case 4
    with pc pop push show ?thesis
      by (cases "t_pc s k") (simp_all add: eval finalization_thread_def)
  qed
qed

lemma child_not_fault: "pipeline_process k act s \<noteq> Fault"
  by (simp add: pipeline_process_def Let_def waiting_not_fault split: child_pc.split option.split)

lemma main_not_fault: "pipeline_main s \<noteq> Fault"
  by (simp add: pipeline_main_def split: main_pc.split)

lemma actor_not_fault:
  assumes "pl_inv A s"
  shows "actor_step a s \<noteq> Fault"
  using thread_not_fault [OF assms] child_not_fault main_not_fault
  by (cases a) (simp_all add: actor_step_def)

subsection \<open>Chunks are exclusive\<close>

lemma no_double:
  assumes "distinct xs" "M + N \<subseteq># mset xs" "v \<in># M"
  shows "v \<notin># N"
proof
  assume "v \<in># N"
  then have "0 < count M v" "0 < count N v"
    using assms(3) by simp_all
  then have "2 \<le> count (M + N) v"
    unfolding count_union by linarith
  also have "\<dots> \<le> count (mset xs) v"
    by (rule mset_subset_eq_count [OF assms(2)])
  also have "\<dots> \<le> 1"
    using assms(1) by (simp add: distinct_count_atmost_1)
  finally show False by simp
qed

lemma held_disjoint:
  assumes "pl_inv (mset chunks) s" "distinct chunks" "i < n_mods s" "j < n_mods s" "i \<noteq> j" "v \<in># held s i"
  shows "v \<notin># held s j"
proof (rule no_double [OF assms(2) _ assms(6)])
  obtain q where q: "mset q + (\<Sum>i<n_mods s. held s i) = mset chunks"
    using pl_invD(2) [OF assms(1)] by (auto simp: chunk_inv_def)
  let ?R = "sum (held s) ({..<n_mods s} - {i} - {j})"
  have "(\<Sum>i<n_mods s. held s i) = held s i + sum (held s) ({..<n_mods s} - {i})"
    using assms(3) by (simp add: sum.remove)
  also have "sum (held s) ({..<n_mods s} - {i}) = held s j + ?R"
    using assms(4,5) by (intro sum.remove) auto
  finally have "mset chunks = held s i + held s j + (mset q + ?R)"
    using q by (simp add: ac_simps)
  then show "held s i + held s j \<subseteq># mset chunks"
    by simp
qed

lemma held_not_in_ring:
  assumes "pl_inv (mset chunks) s" "distinct chunks" "i < n_mods s" "v \<in># held s i" "ring_rep (pl_ring s) q"
  shows "v \<notin> set q"
proof -
  obtain q' where q': "ring_rep (pl_ring s) q'" "mset q' + (\<Sum>i<n_mods s. held s i) = mset chunks"
    using pl_invD(2) [OF assms(1)] by (auto simp: chunk_inv_def)
  have "q' = q"
    using q'(1) assms(5) by (simp add: ring_rep_def)
  moreover have "(\<Sum>i<n_mods s. held s i) = held s i + sum (held s) ({..<n_mods s} - {i})"
    using assms(3) by (simp add: sum.remove)
  ultimately have "mset chunks = held s i + mset q + sum (held s) ({..<n_mods s} - {i})"
    using q'(2) by (simp add: ac_simps)
  then have "held s i + mset q \<subseteq># mset chunks"
    by simp
  from no_double [OF assms(2) this assms(4)] show ?thesis by simp
qed

lemma working_held: "working (t_pc s i) \<Longrightarrow> l_off s i \<in># held s i"
  by (simp add: held_def)

subsection \<open>A concrete pipeline\<close>

text \<open>A source, one process module and the finalization module, with two chunks of 256 bytes.\<close>

definition demo_ring :: ring where
  "demo_ring = \<lparr>rg_max = 2, rg_used = 2, rg_start = 0, rg_sem = 2, rg_buf = [6912, 7168]\<rparr>"

definition demo_pipeline :: pl_state where
  "demo_pipeline = \<lparr>n_mods = 3,
     role = (\<lambda>i. if i = 0 then Source_thread else if i = 1 then Process_thread else Finalization_thread),
     pl_exit = 0, pl_ring = demo_ring, pl_mem = (\<lambda>_. 0), m_state = (\<lambda>_. MD_STATE_INIT), m_idx = int,
     m_next = (\<lambda>i. if Suc i < 3 then Some (Suc i) else None), m_cmd = (\<lambda>_. PROCESS_CMD_JOB),
     m_off = (\<lambda>_. 0), m_new_cmd = (\<lambda>_. 0), m_result = (\<lambda>_. 1),
     t_pc = (\<lambda>i. if i = 0 then Head else RecvWait), l_cmd = (\<lambda>_. 0), l_off = (\<lambda>_. 0),
     p_job = (\<lambda>_. 0), p_res = (\<lambda>_. 0), p_cmd = (\<lambda>_. 0), p_cmd_result = (\<lambda>_. 0), p_offs = (\<lambda>_. 0),
     c_pc = (\<lambda>_. CWait), c_exit = (\<lambda>_. False), c_status = (\<lambda>_. - 1), main_pc = MLive 0\<rparr>"

lemma demo_ring_rep: "ring_rep demo_ring [6912, 7168]"
proof -
  have "[0..<2] = [0, Suc 0]"
    by (simp add: upt_conv_Cons)
  then show ?thesis
    by (simp add: demo_ring_def ring_rep_def ring_ok_def ring_queue_def)
qed

lemma demo_init: "pl_init [6912, 7168] demo_pipeline"
proof -
  have "ring_cap demo_ring = 2"
    by (simp add: demo_ring_def ring_cap_def)
  then show ?thesis
    using demo_ring_rep
    by (simp add: pl_init_def demo_pipeline_def chain_roles_def first_role_def)
qed

lemma demo_reach: "reach (pl_init [6912, 7168]) pl_step demo_pipeline"
  by (rule reach_init [where init = "pl_init [6912, 7168]", OF demo_init])

text \<open>
  A run of actors: the state after the listed actors have stepped in turn, \<open>None\<close> when one of them
  is blocked.
\<close>

fun run_actors :: "actor list \<Rightarrow> pl_state \<Rightarrow> pl_state option" where
  "run_actors [] s = Some s"
| "run_actors (a # as) s = (case actor_step a s of Done t \<Rightarrow> run_actors as t | _ \<Rightarrow> None)"

lemma run_actors_reach: "run_actors as s = Some t \<Longrightarrow> reach i pl_step s \<Longrightarrow> reach i pl_step t"
proof (induction as arbitrary: s)
  case (Cons a as)
  then obtain u where u: "actor_step a s = Done u" "run_actors as u = Some t"
    by (auto split: run.splits)
  then have "reach i pl_step u"
    using reach_step [OF Cons.prems(2)] pl_step_actor by blast
  with u(2) Cons.IH show ?case by blast
qed simp

text \<open>The demo pipeline after its source has taken the first chunk and started its child on it.\<close>

definition demo_busy_run :: "actor list" where
  "demo_busy_run = [Main, Main, Main, Main] @ replicate 7 (Thread 0) @ [Child 0 None, Child 0 None]"

definition demo_busy :: pl_state where
  "demo_busy = the (run_actors demo_busy_run demo_pipeline)"

lemmas run_eval = actor_step_def thread_step_def source_thread_def process_thread_def
  finalization_thread_def pipeline_process_def pipeline_main_def shared_steps waiting_def with_next_def
  pop_ring_def push_ring_def goto_def thread_set_state_def external_def ring_buffer_pop_def
  ring_buffer_push_def arr_get_def arr_set_def Let_def sem_post_def eval_nat_numeral
  PROCESS_CMD_JOB_def PROCESS_CMD_STOP_def demo_pipeline_def demo_ring_def

lemma demo_busy_state:
  "run_actors demo_busy_run demo_pipeline = Some demo_busy \<and> n_mods demo_busy = 3
     \<and> t_pc demo_busy 0 = WaitRes \<and> c_pc demo_busy 0 = CAct \<and> l_off demo_busy 0 = 6912"
  by (simp add: demo_busy_def demo_busy_run_def run_eval)

lemma demo_busy_reach: "reach (pl_init [6912, 7168]) pl_step demo_busy"
  using run_actors_reach demo_busy_state demo_reach by blast

subsection \<open>The safety properties\<close>



text \<open>
  Claim C2. When the chunks are distinct, a chunk has one user at a time: two threads that both hold
  a chunk hold different ones, and a held chunk is not in the ring of free chunks.
\<close>

theorem pipeline_chunks_exclusive:
  assumes "reach (pl_init chunks) pl_step s" "distinct chunks" "i < n_mods s" "working (t_pc s i)"
  shows "l_off s i \<notin> set (ring_queue (pl_ring s))
    \<and> (j < n_mods s \<and> j \<noteq> i \<and> working (t_pc s j) \<longrightarrow> l_off s j \<noteq> l_off s i)"
proof -
  note inv = pls.reach_inv [OF assms(1)]
  have "ring_rep (pl_ring s) (ring_queue (pl_ring s))"
    using pl_invD(2) [OF inv] by (auto simp: chunk_inv_def ring_rep_def)
  then have "l_off s i \<notin> set (ring_queue (pl_ring s))"
    using held_not_in_ring [OF inv assms(2,3) working_held [OF assms(4)]] by blast
  moreover have "l_off s j \<noteq> l_off s i" if "j < n_mods s" "j \<noteq> i" "working (t_pc s j)"
    using held_disjoint [OF inv assms(2,3) that(1) _ working_held [OF assms(4)]]
      working_held [OF that(3)] that(2) by auto
  ultimately show ?thesis by blast
qed

theorem pipeline_chunks_exclusive_witness:
  "l_off demo_busy 0 \<notin> set (ring_queue (pl_ring demo_busy))"
  using pipeline_chunks_exclusive [OF demo_busy_reach, of 0 0] demo_busy_state by simp

text \<open>
  Claim C5. A child runs its action only while its module's thread waits for the result, and on the
  very chunk the thread holds; so the actions of two children never run on the same chunk.
\<close>

theorem pipeline_action_owns_chunk:
  assumes "reach (pl_init chunks) pl_step s" "distinct chunks" "i < n_mods s" "c_pc s i = CAct"
  shows "t_pc s i = WaitRes \<and> p_offs s i = l_off s i
    \<and> (j < n_mods s \<and> j \<noteq> i \<and> c_pc s j = CAct \<longrightarrow> p_offs s j \<noteq> p_offs s i)"
proof -
  note inv = pls.reach_inv [OF assms(1)]
  have c: "t_pc s k = WaitRes \<and> p_offs s k = l_off s k \<and> p_offs s k \<in># held s k"
    if "k < n_mods s" "c_pc s k = CAct" for k
    using pl_invD(8) [OF inv that(1)] that(2) working_held [of s k] by (simp add: content_inv_def)
  show ?thesis
    using c [OF assms(3,4)] c [of j] held_disjoint [OF inv assms(2,3), of j "p_offs s i"] by auto
qed

theorem pipeline_action_owns_chunk_witness: "p_offs demo_busy 0 = 6912"
  using pipeline_action_owns_chunk [OF demo_busy_reach, of 0 0] demo_busy_state by simp

text \<open>
  Claim C6. No chunk is lost or duplicated: in every reachable state the free ring, the threads and
  the mailboxes together hold exactly the chunks of the start.
\<close>

theorem pipeline_chunks_conserved:
  assumes "reach (pl_init chunks) pl_step s"
  shows "mset (ring_queue (pl_ring s)) + (\<Sum>i<n_mods s. held s i) = mset chunks"
  using pl_invD(2) [OF pls.reach_inv [OF assms]] by (auto simp: chunk_inv_def ring_rep_def)

theorem pipeline_chunks_conserved_witness:
  "mset (ring_queue (pl_ring demo_pipeline)) + (\<Sum>i<n_mods demo_pipeline. held demo_pipeline i) = {#6912, 7168#}"
  using pipeline_chunks_conserved [OF demo_reach] by simp

end
