(* ===== verification/Pipeline_Liveness.thy ===== *)
theory Pipeline_Liveness imports Pipeline_Safety begin

section \<open>Stopping a pipeline\<close>

text \<open>
  When the threads end and when they do not. Without the exit flag no thread leaves its loop, so the
  main thread stays in its joins. No reachable state is stuck as long as no child has left its loop
  before its STOP. Once the exit flag is set every step decreases \<open>work_left\<close>, so the pipeline drains
  and the main thread finishes. A child that left early blocks its module for ever.
\<close>

subsection \<open>The exit flag and the joins\<close>

definition exit_inv :: "pl_state \<Rightarrow> bool" where
  "exit_inv s \<longleftrightarrow> (stopping (t_pc s 0) \<longrightarrow> pl_exit s \<noteq> 0)
     \<and> (\<forall>k. main_pc s = MJoin k \<longrightarrow> (\<forall>j < min k (n_mods s). t_pc s j = Finished))
     \<and> (main_pc s = MDone \<longrightarrow> (\<forall>j < n_mods s. t_pc s j = Finished))"

lemma tmove_finished: "tmove k s t \<Longrightarrow> t_pc s j = Finished \<Longrightarrow> t_pc t j = Finished"
  using tmove_frame(9) [of k s t j] by (cases "j = k") (auto elim: tmove.cases)

lemma exit_thread_first:
  assumes "tmove k s t" "stopping (t_pc s 0) \<longrightarrow> pl_exit s \<noteq> 0" "place_ok s 0"
  shows "stopping (t_pc t 0) \<longrightarrow> pl_exit t \<noteq> 0"
proof (cases "k = 0")
  case True
  show ?thesis
    using assms unfolding True place_ok_def by (cases; (elim disjE)?; simp add: move_eval)
next
  case False
  then show ?thesis
    using assms(2) tmove_frame [OF assms(1)] by simp
qed

lemma exit_inv_step:
  assumes "pl_step s t" "pl_inv A s" "exit_inv s"
  shows "exit_inv t"
proof -
  obtain a where a: "actor_step a s = Done t"
    using assms(1) by (auto simp: pl_step_iff)
  have n: "0 < n_mods s"
    using pl_invD(1) [OF assms(2)] by (simp add: shape_inv_def chain_roles_def)
  show ?thesis
  proof (cases a)
    case (Thread k)
    with a have k: "k < n_mods s" "thread_step k s = Done t"
      by (auto simp: actor_step_def split: if_splits)
    note mv = thread_move(1) [OF k(2) pl_invD(1) [OF assms(2)] k(1)]
    show ?thesis
      using assms(3) exit_thread_first [OF mv _ pl_invD(9) [OF assms(2) n]] tmove_frame(1,8) [OF mv]
        tmove_finished [OF mv]
      unfolding exit_inv_def by simp
  next
    case (Child k act)
    with a have "pipeline_process k act s = Done t"
      by (auto simp: actor_step_def split: if_splits)
    from child_frame [OF this] assms(3) show ?thesis
      unfolding exit_inv_def by simp
  next
    case Main
    with a have m: "pipeline_main s = Done t"
      by (simp add: actor_step_def)
    then obtain ms where t: "t = s\<lparr>m_state := ms, main_pc := main_pc t\<rparr>"
      using main_frame by blast
    have "t_pc t = t_pc s" "pl_exit t = pl_exit s" "n_mods t = n_mods s"
      by (subst t, simp)+
    then show ?thesis
      using m assms(3) unfolding exit_inv_def pipeline_main_def
      by (auto simp: less_Suc_eq split: main_pc.splits if_splits)
  next
    case Set_exit
    with a assms(3) show ?thesis
      by (auto simp: actor_step_def exit_inv_def)
  qed
qed

interpretation pll: safe_machine "pl_init chunks" pl_step "\<lambda>s. pl_inv (mset chunks) s \<and> exit_inv s" for chunks
proof unfold_locales
  fix s assume "pl_init chunks s"
  then show "pl_inv (mset chunks) s \<and> exit_inv s"
    using pl_inv_init by (auto simp: exit_inv_def pl_init_def)
next
  fix s t assume "pl_inv (mset chunks) s \<and> exit_inv s" "pl_step s t"
  then show "pl_inv (mset chunks) t \<and> exit_inv t"
    using pl_inv_step exit_inv_step by blast
qed

text \<open>A module stops only after the one before it.\<close>

lemma not_stopping_all:
  assumes "pl_inv A s" "\<not> stopping (t_pc s 0)" "i < n_mods s"
  shows "\<not> stopping (t_pc s i)"
  using assms(3)
proof (induction i)
  case (Suc i)
  then have "\<not> after_send (t_pc s i)"
    by (auto simp: stopping_def)
  then have "\<not> stop_at s (Suc i)"
    using pl_invD(5) [OF assms(1) Suc.prems] by (simp add: stop_inv_def)
  then show ?case
    by (simp add: stop_at_def)
qed (use assms(2) in simp)

lemma no_exit_no_stop:
  assumes "pl_inv A s" "exit_inv s" "pl_exit s = 0" "i < n_mods s"
  shows "\<not> stopping (t_pc s i)" "main_pc s \<noteq> MDone"
proof -
  have "\<not> stopping (t_pc s 0)"
    using assms(2,3) by (auto simp: exit_inv_def)
  then show n: "\<not> stopping (t_pc s i)"
    by (rule not_stopping_all [OF assms(1) _ assms(4)])
  show "main_pc s \<noteq> MDone"
    using n assms(2,4) by (auto simp: exit_inv_def)
qed

subsection \<open>No state is stuck\<close>

definition children_alive :: "pl_state \<Rightarrow> bool" where
  "children_alive s \<longleftrightarrow> (\<forall>i < n_mods s. c_exit s i \<or> c_pc s i = CDone \<longrightarrow>
     t_pc s i \<in> {EndWaitRes, EndState, Finished} \<and> p_job s i = 0)"

lemma waiting_Blocked: "waiting v f = Blocked \<longleftrightarrow> v = 0"
  by (cases v) (auto simp: waiting_def)

lemma push_not_blocked: "push_ring k p s \<noteq> Blocked"
proof -
  have "ring_buffer_push r v \<noteq> Blocked" for r v
    by (simp add: ring_buffer_push_def run_of_def split: option.split)
  then show ?thesis
    by (cases "ring_buffer_push (pl_ring s) (l_off s k)") (auto simp: push_ring_def)
qed

definition blocked_at :: "pl_state \<Rightarrow> nat \<Rightarrow> bool" where
  "blocked_at s i \<longleftrightarrow> (t_pc s i = PopRing \<and> ring_buffer_pop (pl_ring s) = Blocked)
     \<or> (t_pc s i = WaitRes \<or> t_pc s i = EndWaitRes) \<and> p_res s i = 0 \<and> external (role s i)
     \<or> (t_pc s i = SendWait \<or> t_pc s i = EndWait) \<and> Suc i < n_mods s \<and> m_result s (Suc i) = 0
     \<or> t_pc s i = RecvWait \<and> m_new_cmd s i = 0 \<or> t_pc s i = Finished"

lemma thread_blocked:
  assumes "pl_inv A s" "k < n_mods s" "thread_step k s = Blocked"
  shows "blocked_at s k"
proof -
  note inv = pl_invD [OF assms(1)]
  have r: "chain_roles (n_mods s) (role s)" and pc: "t_pc s k \<in> pcs_of (role s k)"
    using inv(1) assms(2) by (simp_all add: shape_inv_def)
  have nx: "m_next s = (\<lambda>i. if Suc i < n_mods s then Some (Suc i) else None)"
    using inv(1) by (simp add: shape_inv_def)
  have pop: "pop_ring k p s = Blocked \<Longrightarrow> ring_buffer_pop (pl_ring s) = Blocked" for p
    by (cases "ring_buffer_pop (pl_ring s)") (auto simp: pop_ring_def)
  note eval = thread_step_def shared_steps with_next_def nx waiting_Blocked push_not_blocked blocked_at_def
    external_def
  from chain_roles_cases [OF r assms(2)] show ?thesis
  proof cases
    case 1
    with pc pop assms(3) show ?thesis
      by (cases "t_pc s k") (auto simp: eval source_thread_def)
  next
    case 2
    with pc pop assms(3) show ?thesis
      by (cases "t_pc s k") (auto simp: eval initial_thread_def)
  next
    case 3
    with pc pop assms(3) show ?thesis
      by (cases "t_pc s k") (auto simp: eval process_thread_def)
  next
    case 4
    with pc pop assms(3) show ?thesis
      by (cases "t_pc s k") (auto simp: eval finalization_thread_def)
  qed
qed

lemma child_blocked:
  "pipeline_process i None s = Blocked \<Longrightarrow> \<not> child_busy (c_pc s i) \<and> (c_pc s i = CWait \<longrightarrow> p_job s i = 0)"
  by (cases "c_pc s i") (auto simp: pipeline_process_def waiting_Blocked)

text \<open>No child has left its loop before its STOP: that is \<open>children_alive\<close>.\<close>

text \<open>The facts of a state in which every thread and every child is blocked.\<close>

definition all_blocked :: "pl_state \<Rightarrow> bool" where
  "all_blocked s \<longleftrightarrow> (\<forall>i < n_mods s. thread_step i s = Blocked
     \<and> (external (role s i) \<longrightarrow> pipeline_process i None s = Blocked))"

lemma blocked_not_awaiting:
  assumes "pl_inv A s" "children_alive s" "all_blocked s" "i < n_mods s"
  shows "t_pc s i \<noteq> WaitRes" "t_pc s i \<noteq> EndWaitRes"
proof -
  have b: "blocked_at s i"
    using thread_blocked [OF assms(1,4)] assms(3,4) by (simp add: all_blocked_def)
  have "\<not> (t_pc s i = WaitRes \<or> t_pc s i = EndWaitRes)"
  proof
    assume w: "t_pc s i = WaitRes \<or> t_pc s i = EndWaitRes"
    then have x: "external (role s i)" "p_res s i = 0"
      using b by (auto simp: blocked_at_def)
    then have c: "\<not> child_busy (c_pc s i)" "c_pc s i = CWait \<longrightarrow> p_job s i = 0"
      using assms(3,4) child_blocked [of i s] by (simp_all add: all_blocked_def)
    then have "p_job s i = 0"
      using assms(2,4) by (cases "c_pc s i") (simp_all add: children_alive_def)
    then show False
      using pl_invD(7) [OF assms(1,4)] w x(2) c(1) by (simp add: job_inv_def)
  qed
  then show "t_pc s i \<noteq> WaitRes" "t_pc s i \<noteq> EndWaitRes" by auto
qed

lemma blocked_not_sending:
  assumes "pl_inv A s" "children_alive s" "all_blocked s" "i < n_mods s"
  shows "t_pc s i \<noteq> SendWait \<and> t_pc s i \<noteq> EndWait"
  using assms(4)
proof (induction "n_mods s - i" arbitrary: i)
  case (Suc d)
  have b: "blocked_at s j" if "j < n_mods s" for j
    using thread_blocked [OF assms(1) that] assms(3) that by (simp add: all_blocked_def)
  show ?case
  proof (rule ccontr)
    assume "\<not> ?thesis"
    then have w: "t_pc s i = SendWait \<or> t_pc s i = EndWait" by blast
    with b [OF Suc.prems] have n: "Suc i < n_mods s" "m_result s (Suc i) = 0"
      by (auto simp: blocked_at_def)
    have "t_pc s (Suc i) \<noteq> SendWait \<and> t_pc s (Suc i) \<noteq> EndWait"
      using Suc.hyps(1) [of "Suc i"] Suc.hyps(2) n(1) by simp
    moreover have "t_pc s (Suc i) \<noteq> PopRing"
      using pl_invD(9) [OF assms(1) n(1)] by (auto simp: place_ok_def)
    moreover note blocked_not_awaiting [OF assms(1-3) n(1)]
    ultimately have rf: "t_pc s (Suc i) = RecvWait \<and> m_new_cmd s (Suc i) = 0 \<or> t_pc s (Suc i) = Finished"
      using b [OF n(1)] by (auto simp: blocked_at_def)
    have "\<not> recv_tok (t_pc s (Suc i))" "\<not> send_tok (t_pc s i)" "\<not> after_send (t_pc s i)"
      using rf w by auto
    then have "m_new_cmd s (Suc i) = 1" "\<not> stop_at s (Suc i)"
      using pl_invD(3,5) [OF assms(1) n(1)] n(2) by (simp_all add: link_inv_def stop_inv_def)
    with rf show False
      by (auto simp: stop_at_def)
  qed
qed simp

lemma blocked_cases:
  assumes "pl_inv A s" "children_alive s" "all_blocked s" "i < n_mods s"
  shows "t_pc s i = PopRing \<and> i = 0 \<and> ring_buffer_pop (pl_ring s) = Blocked
    \<or> t_pc s i = RecvWait \<and> 0 < i \<and> m_new_cmd s i = 0 \<or> t_pc s i = Finished"
proof -
  have "blocked_at s i"
    using thread_blocked [OF assms(1,4)] assms(3,4) by (simp add: all_blocked_def)
  then show ?thesis
    using blocked_not_awaiting [OF assms] blocked_not_sending [OF assms] pl_invD(9) [OF assms(1,4)]
    by (auto simp: blocked_at_def place_ok_def)
qed

lemma blocked_finished:
  assumes "pl_inv A s" "children_alive s" "all_blocked s" "A \<noteq> {#}" "i < n_mods s"
  shows "t_pc s i = Finished"
proof -
  note bc = blocked_cases [OF assms(1-3)]
  have n0: "0 < n_mods s"
    using assms(5) by simp
  have "t_pc s 0 \<noteq> PopRing"
  proof
    assume p: "t_pc s 0 = PopRing"
    have ns: "t_pc s j = RecvWait \<and> m_new_cmd s j = 0" if "j < n_mods s" "0 < j" for j
    proof -
      have "\<not> stopping (t_pc s j)"
        by (rule not_stopping_all [OF assms(1) _ that(1)]) (simp add: p)
      then show ?thesis
        using bc [OF that(1)] that(2) by auto
    qed
    have "held s j = {#}" if "j < n_mods s" for j
      using ns [OF that] p pl_invD(6) [OF assms(1) that] by (cases "j = 0") (auto simp: held_def cmd_inv_def)
    then have h: "(\<Sum>i<n_mods s. held s i) = {#}"
      by simp
    obtain q where q: "ring_rep (pl_ring s) q" "mset q + (\<Sum>i<n_mods s. held s i) = A"
      using pl_invD(2) [OF assms(1)] by (auto simp: chunk_inv_def)
    have "q = []"
    proof (cases q)
      case (Cons v q')
      then show ?thesis
        using ring_pop_law [of "pl_ring s" v q'] q(1) bc [OF n0] p by auto
    qed
    with q(2) assms(4) h show False by simp
  qed
  then have f0: "t_pc s 0 = Finished"
    using bc [OF n0] by auto
  show ?thesis
    using assms(5)
  proof (induction i)
    case (Suc i)
    then have "stop_at s (Suc i)"
      using pl_invD(5) [OF assms(1) Suc.prems] by (simp add: stop_inv_def)
    then show ?case
      using bc [OF Suc.prems] by (auto simp: stop_at_def)
  qed (rule f0)
qed

lemma deadlock_free:
  assumes "pl_inv A s" "exit_inv s" "children_alive s" "A \<noteq> {#}" "main_pc s \<noteq> MDone"
  shows "\<exists>a t. a \<noteq> Set_exit \<and> (\<forall>i act. a = Child i act \<longrightarrow> act = None) \<and> actor_step a s = Done t"
proof (rule ccontr)
  assume none: "\<not> ?thesis"
  have blk: "actor_step a s = Blocked" if "a \<noteq> Set_exit" "\<forall>i act. a = Child i act \<longrightarrow> act = None" for a
    using none that actor_not_fault [OF assms(1), of a] by (cases "actor_step a s") auto
  have "thread_step i s = Blocked" if "i < n_mods s" for i
    using blk [of "Thread i"] that by (simp add: actor_step_def)
  moreover have "pipeline_process i None s = Blocked" if "i < n_mods s" "external (role s i)" for i
    using blk [of "Child i None"] that by (simp add: actor_step_def)
  ultimately have "all_blocked s"
    by (simp add: all_blocked_def)
  then have f: "t_pc s i = Finished" if "i < n_mods s" for i
    using blocked_finished [OF assms(1,3) _ assms(4) that] by blast
  have "pipeline_main s = Blocked"
    using blk [of Main] by (simp add: actor_step_def)
  with f assms(5) show False
    by (auto simp: pipeline_main_def split: main_pc.splits if_splits)
qed

subsection \<open>Once the exit flag is set the pipeline drains\<close>

text \<open>
  The steps a thread has left in its current round, with what it will hand on worth less than one
  step of its own: a mail for module \<open>i\<close> weighs 40 steps of module \<open>i\<close>, and a step of a module weighs
  100 steps of the next one. A job in the mailbox of a child weighs 5, less than the 10 of posting it.
\<close>

fun pc_rank :: "pc \<Rightarrow> nat" where
  "pc_rank RecvCmd = 39" | "pc_rank RecvOff = 38" | "pc_rank RecvPost = 37"
| "pc_rank ChkState = 36" | "pc_rank RdCmd = 35" | "pc_rank PopRing = 34" | "pc_rank Fill = 33"
| "pc_rank WrCmd = 32" | "pc_rank WrOffs = 31" | "pc_rank PostJob = 30" | "pc_rank WaitRes = 29"
| "pc_rank ChkResult = 28" | "pc_rank DropData = 27" | "pc_rank SendWait = 26" | "pc_rank SendCmd = 25"
| "pc_rank SendOff = 24" | "pc_rank SendPost = 23" | "pc_rank ClearData = 22" | "pc_rank PushRing = 21"
| "pc_rank Head = 20" | "pc_rank EndWait = 19" | "pc_rank EndCmd = 18" | "pc_rank EndPost = 17"
| "pc_rank EndBranch = 16" | "pc_rank EndPCmd = 15" | "pc_rank EndPostJob = 14" | "pc_rank EndWaitRes = 13"
| "pc_rank EndState = 12" | "pc_rank RecvWait = 0" | "pc_rank Finished = 0"

fun child_rank :: "child_pc \<Rightarrow> nat" where
  "child_rank CRead = 4" | "child_rank CStop = 3" | "child_rank CAct = 3" | "child_rank CPost = 2"
| "child_rank CWait = 0" | "child_rank CDone = 0"

definition mod_work :: "pl_state \<Rightarrow> nat \<Rightarrow> nat" where
  "mod_work s i = (10 * (pc_rank (t_pc s i) + 40 * m_new_cmd s i)) * 100 ^ (n_mods s - i)
     + 5 * p_job s i + child_rank (c_pc s i)"

fun main_work :: "nat \<Rightarrow> main_pc \<Rightarrow> nat" where
  "main_work n (MLive k) = 2 * n + 3 - min k n"
| "main_work n (MJoin k) = n + 1 - min k n"
| "main_work n MDone = 0"

definition work_left :: "pl_state \<Rightarrow> nat" where
  "work_left s = (\<Sum>i<n_mods s. mod_work s i) + main_work (n_mods s) (main_pc s)"

lemma sum_decrease:
  fixes f g :: "nat \<Rightarrow> nat"
  assumes "k < n" "\<And>j. j < n \<Longrightarrow> j \<noteq> k \<Longrightarrow> j \<noteq> Suc k \<Longrightarrow> g j = f j"
    and "if Suc k < n then g k + g (Suc k) < f k + f (Suc k) else g k < f k"
  shows "sum g {..<n} < sum f {..<n}"
proof (cases "Suc k < n")
  case True
  have "sum h {..<n} = h k + (h (Suc k) + sum h ({..<n} - {k} - {Suc k}))" for h :: "nat \<Rightarrow> nat"
    using True assms(1) by (simp add: sum.remove [of _ k] sum.remove [of _ "Suc k"])
  moreover have "sum g ({..<n} - {k} - {Suc k}) = sum f ({..<n} - {k} - {Suc k})"
    using assms(2) by (intro sum.cong) auto
  ultimately show ?thesis
    using assms(3) True by (metis add.assoc add_less_cancel_right)
next
  case False
  have "sum h {..<n} = h k + sum h ({..<n} - {k})" for h :: "nat \<Rightarrow> nat"
    using assms(1) by (simp add: sum.remove)
  moreover have "sum g ({..<n} - {k}) = sum f ({..<n} - {k})"
    using assms(1,2) False by (intro sum.cong) auto
  ultimately show ?thesis
    using assms(3) False by simp
qed

lemma work_other:
  assumes "tmove k s t" "j \<noteq> k" "j \<noteq> Suc k"
  shows "mod_work t j = mod_work s j"
  using assms by (cases; simp add: mod_work_def move_eval)

text \<open>The own work decreases by at least 10 steps of the module, or 5 when a job is posted; the next
  module's grows by 40 of its own steps at most.\<close>

lemma work_own:
  assumes "tmove k s t" "pl_exit s \<noteq> 0" "k < n_mods s"
  shows "mod_work t k + 5 * 100 ^ (n_mods s - k) \<le> mod_work s k"
proof -
  have p: "1 \<le> (100 :: nat) ^ (n_mods s - k)"
    by simp
  show ?thesis
    using assms(1) assms(2) p unfolding mod_work_def
    by (cases; (elim disjE)?; simp add: move_eval algebra_simps)
qed

lemma work_next:
  assumes "tmove k s t" "Suc k < n_mods s"
  shows "mod_work t (Suc k) \<le> mod_work s (Suc k) + 400 * 100 ^ (n_mods s - Suc k)"
  using assms by (cases; simp add: mod_work_def move_eval algebra_simps)

lemma thread_work:
  assumes "tmove k s t" "pl_exit s \<noteq> 0" "k < n_mods s"
  shows "work_left t < work_left s"
proof -
  have n: "n_mods t = n_mods s" "main_pc t = main_pc s"
    using tmove_frame [OF assms(1)] by simp_all
  have "sum (mod_work t) {..<n_mods s} < sum (mod_work s) {..<n_mods s}"
  proof (rule sum_decrease [OF assms(3)])
    have own: "mod_work t k + 5 * 100 ^ (n_mods s - k) \<le> mod_work s k"
      by (rule work_own [OF assms])
    have pos: "0 < (5 :: nat) * 100 ^ (n_mods s - k)"
      by simp
    show "if Suc k < n_mods s then mod_work t k + mod_work t (Suc k) < mod_work s k + mod_work s (Suc k)
      else mod_work t k < mod_work s k"
    proof (cases "Suc k < n_mods s")
      case True
      then have "(100 :: nat) ^ (n_mods s - k) = 100 * 100 ^ (n_mods s - Suc k)"
        by (metis Suc_diff_Suc Suc_lessD power_Suc)
      moreover have "0 < (100 :: nat) ^ (n_mods s - Suc k)"
        by simp
      ultimately show ?thesis
        unfolding if_P [OF True] using own work_next [OF assms(1) True] by linarith
    next
      case False
      show ?thesis
        unfolding if_not_P [OF False] using own pos by linarith
    qed
  qed (rule work_other [OF assms(1)])
  then show ?thesis
    by (simp add: work_left_def n)
qed

lemma child_work:
  assumes "pipeline_process k act s = Done t" "k < n_mods s"
  shows "work_left t < work_left s"
proof -
  have "mod_work t j = mod_work s j" if "j \<noteq> k" for j
    using that child_frame [OF assms(1)] by (simp add: mod_work_def)
  moreover have "5 * p_job t k + child_rank (c_pc t k) < 5 * p_job s k + child_rank (c_pc s k)"
    using assms(1) unfolding pipeline_process_def
    by (cases "c_pc s k") (auto simp: waiting_Done Let_def split: option.splits)
  then have "mod_work t k < mod_work s k"
    using child_frame [OF assms(1)] by (simp add: mod_work_def)
  moreover from calculation have "mod_work t j \<le> mod_work s j" for j
    by (cases "j = k") auto
  ultimately have "sum (mod_work t) {..<n_mods s} < sum (mod_work s) {..<n_mods s}"
    using assms(2) by (intro sum_strict_mono_ex1) auto
  then show ?thesis
    using child_frame [OF assms(1)] by (simp add: work_left_def)
qed

lemma main_work:
  assumes "pipeline_main s = Done t"
  shows "work_left t < work_left s"
proof -
  obtain ms where t: "t = s\<lparr>m_state := ms, main_pc := main_pc t\<rparr>"
    using main_frame [OF assms] by blast
  have "mod_work t = mod_work s" "n_mods t = n_mods s"
    by (subst t, simp add: mod_work_def fun_eq_iff)+
  moreover have "main_work (n_mods s) (main_pc t) < main_work (n_mods s) (main_pc s)"
    using assms by (auto simp: pipeline_main_def split: main_pc.splits if_splits)
  ultimately show ?thesis
    by (simp add: work_left_def)
qed

lemma actor_work:
  assumes "actor_step a s = Done t" "a \<noteq> Set_exit" "pl_inv A s" "pl_exit s \<noteq> 0"
  shows "work_left t < work_left s" "pl_exit t = pl_exit s"
proof -
  have "work_left t < work_left s \<and> pl_exit t = pl_exit s"
  proof (cases a)
    case (Thread k)
    with assms(1) have k: "k < n_mods s" "thread_step k s = Done t"
      by (auto simp: actor_step_def split: if_splits)
    note mv = thread_move(1) [OF k(2) pl_invD(1) [OF assms(3)] k(1)]
    show ?thesis
      using thread_work [OF mv assms(4) k(1)] tmove_frame(5) [OF mv] by simp
  next
    case (Child k act)
    with assms(1) have k: "k < n_mods s" "pipeline_process k act s = Done t"
      by (auto simp: actor_step_def split: if_splits)
    show ?thesis
      using child_work [OF k(2,1)] child_frame(15) [OF k(2)] by simp
  next
    case Main
    with assms(1) have m: "pipeline_main s = Done t"
      by (simp add: actor_step_def)
    then have "pl_exit t = pl_exit s"
      using main_frame [OF m] by (metis pl_state.select_convs(3) pl_state.surjective
          pl_state.update_convs(6,24))
    with main_work [OF m] show ?thesis by simp
  qed (use assms(2) in simp)
  then show "work_left t < work_left s" "pl_exit t = pl_exit s" by auto
qed

text \<open>Children stay alive under the steps of the threads and of well behaved actions.\<close>

lemma alive_thread:
  assumes "tmove k s t" "children_alive s"
  shows "children_alive t"
  unfolding children_alive_def
proof (intro allI impI)
  fix i assume i: "i < n_mods t" "c_exit t i \<or> c_pc t i = CDone"
  then have "i < n_mods s" "c_exit s i \<or> c_pc s i = CDone"
    using tmove_frame [OF assms(1)] by simp_all
  then have a: "t_pc s i \<in> {EndWaitRes, EndState, Finished}" "p_job s i = 0"
    using assms(2) unfolding children_alive_def by blast+
  show "t_pc t i \<in> {EndWaitRes, EndState, Finished} \<and> p_job t i = 0"
  proof (cases "k = i")
    case True
    show ?thesis
      using assms(1) a unfolding True by (cases; (elim disjE)?; simp add: move_eval)
  next
    case False
    with a show ?thesis
      using tmove_frame [OF assms(1)] by simp
  qed
qed

lemma alive_child:
  assumes "pipeline_process k None s = Done t" "children_alive s" "job_inv s k" "content_inv s k"
  shows "children_alive t"
  unfolding children_alive_def
proof (intro allI impI)
  fix i assume i: "i < n_mods t" "c_exit t i \<or> c_pc t i = CDone"
  note fr = child_frame [OF assms(1)]
  show "t_pc t i \<in> {EndWaitRes, EndState, Finished} \<and> p_job t i = 0"
  proof (cases "i = k")
    case False
    have "c_exit t i = c_exit s i"
      using assms(1) False unfolding pipeline_process_def
      by (cases "c_pc s k") (auto simp: waiting_Done)
    then have "c_exit s i \<or> c_pc s i = CDone" "i < n_mods s"
      using False i fr by simp_all
    then have "t_pc s i \<in> {EndWaitRes, EndState, Finished} \<and> p_job s i = 0"
      using assms(2) unfolding children_alive_def by blast
    then show ?thesis
      using fr(5,19) False by simp
  next
    case True
    have "c_exit t k \<longrightarrow> c_exit s k \<or> c_pc s k = CStop" "c_pc t k = CDone \<longrightarrow> c_exit s k"
      "p_job t k \<le> p_job s k"
      using assms(1) unfolding pipeline_process_def
      by (cases "c_pc s k"; auto simp: waiting_Done split: if_splits)+
    moreover have "t_pc s k = EndWaitRes \<and> p_job s k = 0" if "c_pc s k = CStop"
      using assms(3,4) that by (simp add: content_inv_def job_inv_def)
    moreover have "t_pc s k \<in> {EndWaitRes, EndState, Finished} \<and> p_job s k = 0" if "c_exit s k"
      using assms(2) that i(1) True fr(1) unfolding children_alive_def by metis
    ultimately show ?thesis
      using i True fr by auto
  qed
qed

lemma alive_main: "pipeline_main s = Done t \<Longrightarrow> children_alive s \<Longrightarrow> children_alive t"
  using main_frame [of s t] unfolding children_alive_def
  by (metis (no_types, lifting) pl_state.surjective pl_state.update_convs(6,24) pl_state.select_convs)

lemma drains:
  assumes "pl_inv A s" "exit_inv s" "children_alive s" "A \<noteq> {#}" "pl_exit s \<noteq> 0"
  shows "\<exists>t. pl_step\<^sup>*\<^sup>* s t \<and> main_pc t = MDone"
  using assms
proof (induction "work_left s" arbitrary: s rule: less_induct)
  case less
  show ?case
  proof (cases "main_pc s = MDone")
    case False
    obtain a t where a: "a \<noteq> Set_exit" "\<forall>i act. a = Child i act \<longrightarrow> act = None" "actor_step a s = Done t"
      using deadlock_free [OF less.prems(1-4) False] by blast
    have st: "pl_step s t"
      using a(3) by (auto simp: pl_step_iff)
    have "children_alive t"
    proof (cases a)
      case (Thread k)
      with a(3) have k: "k < n_mods s" "thread_step k s = Done t"
        by (auto simp: actor_step_def split: if_splits)
      show ?thesis
        by (rule alive_thread [OF thread_move(1) [OF k(2) pl_invD(1) [OF less.prems(1)] k(1)] less.prems(3)])
    next
      case (Child k act)
      with a(2,3) have k: "k < n_mods s" "pipeline_process k None s = Done t"
        by (auto simp: actor_step_def split: if_splits)
      show ?thesis
        by (rule alive_child [OF k(2) less.prems(3) pl_invD(7,8) [OF less.prems(1) k(1)]])
    next
      case Main
      with a(3) show ?thesis
        using alive_main less.prems(3) by (simp add: actor_step_def)
    qed (use a(1) in simp)
    moreover note actor_work [OF a(3,1) less.prems(1,5)] pl_inv_step [OF st less.prems(1)]
      exit_inv_step [OF st less.prems(1,2)]
    ultimately obtain u where "pl_step\<^sup>*\<^sup>* t u" "main_pc u = MDone"
      using less.hyps [of t] less.prems(4,5) by auto
    then show ?thesis
      using st by (meson converse_rtranclp_into_rtranclp)
  qed auto
qed

subsection \<open>A child that left early\<close>

definition child_lost :: "pl_state \<Rightarrow> nat \<Rightarrow> bool" where
  "child_lost s i \<longleftrightarrow> i < n_mods s \<and> c_pc s i = CDone \<and> t_pc s i = WaitRes \<and> p_res s i = 0"

lemma child_lost_step:
  assumes "pl_step s t" "pl_inv A s" "child_lost s i"
  shows "child_lost t i"
proof -
  obtain a where a: "actor_step a s = Done t"
    using assms(1) by (auto simp: pl_step_iff)
  show ?thesis
  proof (cases a)
    case (Thread k)
    with a have k: "k < n_mods s" "thread_step k s = Done t"
      by (auto simp: actor_step_def split: if_splits)
    note mv = thread_move(1) [OF k(2) pl_invD(1) [OF assms(2)] k(1)]
    have "k \<noteq> i"
    proof
      assume "k = i"
      with mv assms(3) show False
        by (auto simp: child_lost_def elim: tmove.cases)
    qed
    then show ?thesis
      using assms(3) tmove_frame [OF mv] by (simp add: child_lost_def)
  next
    case (Child k act)
    with a have k: "pipeline_process k act s = Done t"
      by (auto simp: actor_step_def split: if_splits)
    have "k \<noteq> i"
      using k assms(3) by (auto simp: child_lost_def pipeline_process_def)
    then show ?thesis
      using assms(3) child_frame [OF k] by (simp add: child_lost_def)
  next
    case Main
    with a have "pipeline_main s = Done t"
      by (simp add: actor_step_def)
    then obtain ms mp where "t = s\<lparr>m_state := ms, main_pc := mp\<rparr>"
      using main_frame by blast
    with assms(3) show ?thesis
      by (simp add: child_lost_def)
  next
    case Set_exit
    with a assms(3) show ?thesis
      by (auto simp: actor_step_def child_lost_def)
  qed
qed

lemma child_lost_forever:
  assumes "pl_step\<^sup>*\<^sup>* s t" "pl_inv A s" "child_lost s i"
  shows "child_lost t i"
proof -
  have "pl_inv A t \<and> child_lost t i"
    using assms
  proof (induction rule: rtranclp_induct)
    case (step u v)
    then show ?case
      using pl_inv_step child_lost_step by blast
  qed simp
  then show ?thesis by simp
qed

subsection \<open>The liveness properties\<close>

lemma reach_exit_inv:
  assumes "reach (pl_init chunks) pl_step s"
  shows "pl_inv (mset chunks) s" "exit_inv s"
  using pll.reach_inv [OF assms] by auto

lemma reach_chunks:
  assumes "reach (pl_init chunks) pl_step s"
  shows "chunks \<noteq> []"
  using assms by (induction rule: reach.induct) (auto simp: pl_init_def)

text \<open>
  While the exit flag is 0 no thread of the pipeline leaves its loop and the main thread
  never gets through its joins. \<open>pipeline_destroy\<close> joins the main thread before it sets the flag, so
  on a healthy running pipeline the call never returns.
\<close>

theorem pipeline_runs_until_exit:
  assumes "reach (pl_init chunks) pl_step s" "pl_exit s = 0"
  shows "main_pc s \<noteq> MDone \<and> (\<forall>i < n_mods s. t_pc s i \<noteq> Finished)"
proof -
  note inv = reach_exit_inv [OF assms(1)]
  have n: "0 < n_mods s"
    using pl_invD(1) [OF inv(1)] by (simp add: shape_inv_def chain_roles_def)
  show ?thesis
    using no_exit_no_stop [OF inv assms(2)] n by force
qed

theorem pipeline_runs_until_exit_witness: "main_pc demo_busy \<noteq> MDone"
proof -
  have "pl_exit demo_busy = 0"
    by (simp add: demo_busy_def demo_busy_run_def run_eval)
  from pipeline_runs_until_exit [OF demo_busy_reach this] show ?thesis by blast
qed

text \<open>
  Claim C3. No deadlock: in every reachable state in which no child has left its loop before its
  STOP, the main thread is done or some thread, child or the main thread can step.
\<close>

theorem pipeline_not_stuck:
  assumes "reach (pl_init chunks) pl_step s" "children_alive s" "main_pc s \<noteq> MDone"
  shows "\<exists>a t. a \<noteq> Set_exit \<and> actor_step a s = Done t"
  using deadlock_free [OF reach_exit_inv [OF assms(1)] assms(2) _ assms(3)] reach_chunks [OF assms(1)]
  by auto

lemma demo_busy_alive: "children_alive demo_busy"
  by (simp add: children_alive_def demo_busy_def demo_busy_run_def run_eval)

theorem pipeline_not_stuck_witness: "\<exists>a t. a \<noteq> Set_exit \<and> actor_step a demo_busy = Done t"
proof -
  have "main_pc demo_busy \<noteq> MDone"
    by (simp add: demo_busy_def demo_busy_run_def run_eval)
  from pipeline_not_stuck [OF demo_busy_reach demo_busy_alive this] show ?thesis .
qed


definition demo_exit :: pl_state where
  "demo_exit = demo_busy\<lparr>pl_exit := 1\<rparr>"

lemma demo_exit_reach: "reach (pl_init [6912, 7168]) pl_step demo_exit"
  by (rule reach_step [OF demo_busy_reach])
    (auto simp: pl_step_iff actor_step_def demo_exit_def intro: exI [of _ Set_exit])


text \<open>
  When a child leaves its loop because its action reported -1, and its module then sends
  the next chunk, the module's thread waits for the result for ever: in every later state it is still
  at that wait, with or without the exit flag, and the main thread never finishes.
\<close>

theorem lost_child_blocks_pipeline:
  assumes "reach (pl_init chunks) pl_step s" "child_lost s i" "pl_step\<^sup>*\<^sup>* s t"
  shows "t_pc t i = WaitRes \<and> main_pc t \<noteq> MDone"
proof -
  note inv = reach_exit_inv [OF assms(1)]
  have "child_lost t i"
    by (rule child_lost_forever [OF assms(3) inv(1) assms(2)])
  moreover have "exit_inv t"
    using pll.steps_inv [OF assms(3)] inv by blast
  ultimately show ?thesis
    by (auto simp: child_lost_def exit_inv_def)
qed

text \<open>The first action of the source's child reports -1; the source then sends its second chunk.\<close>

definition demo_lost_run :: "actor list" where
  "demo_lost_run = [Main, Main, Main, Main] @ replicate 7 (Thread 0)
     @ [Child 0 None, Child 0 None, Child 0 (Some (Some (- 1), [])), Child 0 None]
     @ replicate 12 (Thread 0)"

definition demo_lost :: pl_state where
  "demo_lost = the (run_actors demo_lost_run demo_pipeline)"

lemma demo_lost_state: "run_actors demo_lost_run demo_pipeline = Some demo_lost \<and> child_lost demo_lost 0"
  by (simp add: demo_lost_def demo_lost_run_def run_eval child_lost_def write_chunk_def)

theorem lost_child_blocks_pipeline_witness: "t_pc demo_lost 0 = WaitRes \<and> main_pc demo_lost \<noteq> MDone"
proof -
  have "reach (pl_init [6912, 7168]) pl_step demo_lost"
    using run_actors_reach demo_lost_state demo_reach by blast
  from lost_child_blocks_pipeline [OF this conjunct2 [OF demo_lost_state]] show ?thesis by blast
qed

end
