(* ===== verification/Pipeline_Client.thy ===== *)
theory Pipeline_Client imports Shared_Memory Process_Mngr begin

section \<open>The client side of a pipeline (pipeline_client.c)\<close>

text \<open>
  \<open>pipeline_process_init\<close> finds the shared memory and the slot of the child in its environment; the
  loop of the child is \<open>pipeline_process\<close> in \<open>Pipeline_Threads\<close>. The environment is set up by
  \<open>shared_memory_setenv\<close> in the parent and \<open>process_start_child\<close> between \<open>fork\<close> and \<open>execv\<close>; the
  round trip is the main lemma. The calls that are not supported yet return 0.
\<close>

text \<open>
  \<open>None\<close> in the first component is \<open>exit(EXIT_FAILURE)\<close>. The size is read with \<open>%zd\<close> into a
  \<open>size_t\<close>, the slot with \<open>%d\<close>; an unparsable text leaves the variable as it was (\<open>size0\<close>, \<open>id0\<close>).
\<close>

definition pipeline_process_init ::
  "(os_call \<Rightarrow> bool) \<Rightarrow> u64 \<Rightarrow> int \<Rightarrow> os \<Rightarrow> (nat \<times> int) option \<times> os" where
  "pipeline_process_init fail size0 id0 os =
     (case os_env os ''SHMEM_DATA_NAME'' of None \<Rightarrow> (None, os) | Some shm_path \<Rightarrow>
      (case os_env os ''SHMEM_DATA_SIZE'' of None \<Rightarrow> (None, os) | Some shm_size_str \<Rightarrow>
       (case os_env os ''SHMEM_PROCESS_ID'' of None \<Rightarrow> (None, os) | Some shm_id_str \<Rightarrow>
         (let shm_size = (case scan_int shm_size_str of None \<Rightarrow> size0 | Some v \<Rightarrow> word_of_int v);
              shm_id = (case scan_int shm_id_str of None \<Rightarrow> id0 | Some v \<Rightarrow> v)
          in case shared_memory_client_init fail shm_path shm_size os of
               (None, os) \<Rightarrow> (None, os)
             | (Some shmem, os) \<Rightarrow> (Some (shmem, shm_id), os)))))"

definition pipeline_module_attach :: "int \<Rightarrow> int \<Rightarrow> int" where
  "pipeline_module_attach id_before id_after = 0"

definition pipeline_module_detach :: "int \<Rightarrow> int" where
  "pipeline_module_detach i = 0"

definition pipeline_module_kill :: "int \<Rightarrow> int" where
  "pipeline_module_kill i = 0"

definition pipeline_module_start :: "int \<Rightarrow> int" where
  "pipeline_module_start i = 0"

definition pipeline_module_stop :: "int \<Rightarrow> int" where
  "pipeline_module_stop i = 0"

lemma slot_text:
  assumes "0 \<le> i" "i < 10 ^ 9"
  shows "take 9 (show_int i) = show_int i"
  using show_base_length [of 10 "nat i" 8] assms by (simp add: show_int_def nat_less_iff)

lemma process_init_ok:
  assumes "os_env os ''SHMEM_DATA_NAME'' = Some path"
    and "os_env os ''SHMEM_DATA_SIZE'' = Some (show_int (sint sz))"
    and "os_env os ''SHMEM_PROCESS_ID'' = Some (show_int slot)"
    and "shared_memory_client_init fail path sz os = (Some shm, os)"
  shows "pipeline_process_init fail size0 id0 os = (Some (shm, slot), os)"
  using assms by (simp add: pipeline_process_init_def scan_show_int)

lemma child_environment:
  assumes "layout_ok m" "os_names os path = None" "\<And>c. \<not> fail c" "length pad1 = 4" "length pad2 = 4"
    and "0 \<le> slot" "slot < 10 ^ 9"
  shows "\<exists>shm os1 os2 bs argv' env.
      shared_memory_server_init fail pad1 pad2 path m os = Done (Some shm, os1)
    \<and> shared_memory_setenv fail path m os1 = (0, os2)
    \<and> process_start_child True True slot argv (os_env os2) = Some (argv', env)
    \<and> fst (pipeline_process_init fail size0 id0 (os2\<lparr>os_env := env\<rparr>)) = Some (shm, slot)
    \<and> os_objs os2 shm = Some bs \<and> read_map bs = Some m"
proof -
  obtain os1 bs where s: "shared_memory_server_init fail pad1 pad2 path m os = Done (Some (os_next os), os1)"
    "os_names os1 path = Some (os_next os)" "os_objs os1 (os_next os) = Some bs" "read_map bs = Some m"
    by (rule server_init_ok [OF assms(1-5)])
  have "256 \<le> unat (memory_get_size m)"
    using layout_values(3) [OF assms(1)] by simp
  then have nz: "memory_get_size m \<noteq> 0"
    by (metis unat_0 le_zero_eq zero_neq_numeral)
  let ?os2 = "setenv SHMEM_DATA_SIZE_ENV (show_int (sint (memory_get_size m))) (setenv SHMEM_DATA_NAME_ENV path os1)"
  let ?env = "(os_env ?os2)(''SHMEM_PROCESS_ID'' \<mapsto> show_int slot)"
  have se: "shared_memory_setenv fail path m os1 = (0, ?os2)"
    by (simp add: shared_memory_setenv_def assms(3) Let_def)
  have ch: "process_start_child True True slot argv (os_env ?os2) = Some (argv, ?env)"
    by (simp add: process_start_child_def PROCESS_ID_ENV_def slot_text [OF assms(6,7)] Let_def)
  have env: "?env ''SHMEM_DATA_NAME'' = Some path" "?env ''SHMEM_PROCESS_ID'' = Some (show_int slot)"
    "?env ''SHMEM_DATA_SIZE'' = Some (show_int (sint (memory_get_size m)))"
    by (simp_all add: setenv_def SHMEM_DATA_SIZE_ENV_def SHMEM_DATA_NAME_ENV_def)
  have op: "shared_memory_client_init fail path (memory_get_size m) (?os2\<lparr>os_env := ?env\<rparr>)
      = (Some (os_next os), ?os2\<lparr>os_env := ?env\<rparr>)"
    using nz s(2) by (simp add: shared_memory_client_init_def assms(3) setenv_def)
  have "fst (pipeline_process_init fail size0 id0 (?os2\<lparr>os_env := ?env\<rparr>)) = Some (os_next os, slot)"
    by (subst process_init_ok [OF _ _ _ op]) (use env in simp_all)
  moreover have "os_objs ?os2 (os_next os) = Some bs"
    using s(3) by (simp add: setenv_def)
  ultimately show ?thesis
    using s(1,4) se ch by blast
qed

subsection \<open>Properties\<close>

text \<open>
  Claim C34. What the parent passes on, the child finds: with the region created and the environment set by the
  parent, and the slot's number put into the environment between \<open>fork\<close> and \<open>execv\<close>,
  \<open>pipeline_process_init\<close> in the child opens the same region and answers the same slot.
\<close>

theorem child_finds_its_slot:
  assumes "layout_ok m" "os_names os path = None" "\<And>c. \<not> fail c" "length pad1 = 4" "length pad2 = 4"
    and "0 \<le> slot" "slot < 10 ^ 9"
  shows "\<exists>shm os1 os2 bs argv' env.
      shared_memory_server_init fail pad1 pad2 path m os = Done (Some shm, os1)
    \<and> shared_memory_setenv fail path m os1 = (0, os2)
    \<and> process_start_child True True slot argv (os_env os2) = Some (argv', env)
    \<and> fst (pipeline_process_init fail size0 id0 (os2\<lparr>os_env := env\<rparr>)) = Some (shm, slot)
    \<and> os_objs os2 shm = Some bs \<and> read_map bs = Some m"
  by (rule child_environment [OF assms])

theorem child_finds_its_slot_witness:
  "\<exists>shm os2 env. fst (pipeline_process_init (\<lambda>_. False) 0 0 (os2\<lparr>os_env := env\<rparr>)) = Some (shm, 2)"
proof -
  have "layout_ok (memory_map_create 4 PROCESS_INFO_SIZE 2 256)"
    by (simp add: memory_map_create_def layout_ok_def PROCESS_INFO_SIZE_def)
  from child_finds_its_slot [OF this, of demo_os "''/seg''" "\<lambda>_. False" "[0, 0, 0, 0]" "[0, 0, 0, 0]" 2 "[]" 0 0]
  show ?thesis by (auto simp: demo_os_def)
qed

end
