(* ===== verification/Pipeline_Config.thy ===== *)
theory Pipeline_Config imports Pipeline_Description begin

section \<open>Pipeline descriptions from a configuration file (config.cpp)\<close>

text \<open>
  The JSON library parses the file: a file that is there gives the list of its module objects, or an
  exception of the library. A field of the wrong type is such an exception too (\<open>None\<close> in a field that
  must be present). The function catches \<open>std::logic_error\<close>; whether the exceptions of the library are of
  that class depends on its version and is the argument \<open>logic\<close>. Of the allocator the
  model knows how many bytes it really provides for a request: the texts are copied, with their
  terminator, into blocks requested without room for it.
\<close>

record jmodule =
  jm_id :: "int option"
  jm_name :: "string option"
  jm_parameters :: "string list option"
  jm_next_id :: "int option"
  jm_type :: string

datatype json_file = No_file | Ill_formed | Modules "jmodule list"

text \<open>
  The result of the parser: a fault, an exception that leaves the function, or the code with the modules
  (\<open>module_t\<close> is \<open>struct pipeline_module_description\<close>; \<open>mode\<close> is not written and keeps the memory's value).
\<close>

datatype 'a outcome = Fine 'a | Exception | Undefined

record cmodule =
  cm_id :: int
  cm_next :: int
  cm_mt :: mt_type
  cm_argv :: "string list"

definition copied :: "(nat \<Rightarrow> nat) \<Rightarrow> string list \<Rightarrow> bool" where
  "copied usable ss \<longleftrightarrow> (\<forall>s \<in> set ss. length s + 1 \<le> usable (length s))"

text \<open>Without a name the parameters start at \<open>argv[0]\<close>, but are read from \<open>params[-1]\<close> on.\<close>

definition make_argv :: "(nat \<Rightarrow> nat) \<Rightarrow> string option \<Rightarrow> string list \<Rightarrow> string list option" where
  "make_argv usable name params = (case name of
     None \<Rightarrow> if params = [] then Some [] else None
   | Some n \<Rightarrow> if copied usable (n # params) then Some (n # params) else None)"

text \<open>The type of a module from its fields; \<open>None\<close> is a thrown \<open>std::logic_error\<close>. \<open>first\<close> is the index of the first.\<close>

definition module_type :: "nat \<Rightarrow> jmodule \<Rightarrow> int \<Rightarrow> (int \<times> mt_type \<times> int) option" where
  "module_type i j first =
     Option.bind (case jm_next_id j of
         Some nx \<Rightarrow> if jm_type j = ''LAST'' then None else Some (nx, MT_MIDDLE)
       | None \<Rightarrow> if jm_type j \<noteq> ''LAST'' then None else Some (- 1, MT_LAST)) (\<lambda>(nx, t).
       if jm_type j = ''FIRST'' then (if first \<noteq> - 1 then None else Some (nx, MT_FIRST, int i))
       else Some (nx, t, first))"

fun parse_modules :: "(nat \<Rightarrow> nat) \<Rightarrow> nat \<Rightarrow> jmodule list \<Rightarrow> bool \<Rightarrow> int \<Rightarrow> (cmodule list \<times> int) option outcome" where
  "parse_modules usable i [] null_name first = Fine (Some ([], first))"
| "parse_modules usable i (j # js) null_name first =
     (case (jm_id j, jm_parameters j) of
        (Some k, Some params) \<Rightarrow>
         (if jm_name j = None \<and> null_name then Fine None
          else case make_argv usable (jm_name j) params of
              None \<Rightarrow> Undefined
            | Some argv \<Rightarrow>
               (case module_type i j first of
                  None \<Rightarrow> Fine None
                | Some (nx, t, first) \<Rightarrow>
                   (case parse_modules usable (Suc i) js (null_name \<or> jm_name j = None) first of
                      Fine (Some (ms, first)) \<Rightarrow>
                        Fine (Some (\<lparr>cm_id = k, cm_next = nx, cm_mt = t, cm_argv = argv\<rparr> # ms, first))
                    | r \<Rightarrow> r)))
      | _ \<Rightarrow> Exception)"

subsection \<open>The check of the chain\<close>

definition idx_map :: "cmodule list \<Rightarrow> int \<Rightarrow> nat option" where
  "idx_map ms = map_of (rev (map (\<lambda>i. (cm_id (ms ! i), i)) [0..<length ms]))"

text \<open>\<open>idx_map[k]\<close> of a missing key inserts 0.\<close>

definition idx_get :: "cmodule list \<Rightarrow> int \<Rightarrow> nat" where
  "idx_get ms k = (case idx_map ms k of None \<Rightarrow> 0 | Some i \<Rightarrow> i)"

lemma count_unvisited_less:
  "now < length was \<Longrightarrow> \<not> was ! now \<Longrightarrow>
     length (filter Not (was[now := True])) < length (filter Not was)"
proof (induction was arbitrary: now)
  case (Cons w was)
  then show ?case by (cases now) auto
qed simp

function dfs_check :: "cmodule list \<Rightarrow> bool list \<Rightarrow> nat \<Rightarrow> int" where
  "dfs_check ms was now =
     (if length was \<le> now \<or> length ms \<le> now then - 1
      else if was ! now then - 1
      else let was = was[now := True]
           in if cm_next (ms ! now) = - 1 then (if False \<in> set was then - 1 else 0)
              else dfs_check ms was (idx_get ms (cm_next (ms ! now))))"
  by pat_completeness auto
termination
  by (relation "measure (\<lambda>(ms, was, now). length (filter Not was))") (auto intro: count_unvisited_less)

declare dfs_check.simps [simp del]

subsection \<open>Reading\<close>

definition read_modules_configuration ::
  "bool \<Rightarrow> (nat \<Rightarrow> nat) \<Rightarrow> string option \<Rightarrow> (string \<Rightarrow> json_file) \<Rightarrow> (int \<times> cmodule list) outcome" where
  "read_modules_configuration logic usable name files =
     (case name of None \<Rightarrow> Fine (- 1, []) | Some [] \<Rightarrow> Fine (- 1, [])
      | Some path \<Rightarrow> (case files path of
          No_file \<Rightarrow> Fine (- 1, [])
        | Ill_formed \<Rightarrow> if logic then Fine (- 1, []) else Exception
        | Modules js \<Rightarrow> (case parse_modules usable 0 js False (- 1) of
            Undefined \<Rightarrow> Undefined
          | Exception \<Rightarrow> if logic then Fine (- 1, []) else Exception
          | Fine None \<Rightarrow> Fine (- 1, [])
          | Fine (Some (ms, first)) \<Rightarrow>
             (if first = - 1 then Fine (- 1, [])
              else if dfs_check ms (replicate (length ms) False) (nat first) \<noteq> 0 then Fine (- 1, [])
              else Fine (int (length ms), ms)))))"

text \<open>
  The description is made from the modules: \<open>memcpy\<close> copies the whole structure over the one just created,
  with the indeterminate \<open>mode\<close> of the memory the modules were parsed into, which stays for the last one.
\<close>

fun place_modules :: "mt_mode \<Rightarrow> nat \<Rightarrow> cmodule list \<Rightarrow> pipeline_desc \<times> mem \<Rightarrow> (pipeline_desc \<times> mem) option" where
  "place_modules mode i [] s = Some s"
| "place_modules mode i (c # cs) s = do {
     (d, m) \<leftarrow> set_mdesc i (create_initial_module_description (cm_id c) (cm_next c)) s;
     let (ss, m) = strdup_all (cm_argv c) m;
     let (v, m) = mem_alloc m;
     md \<leftarrow> pd_mdescs d ! i;
     let md = md\<lparr>md_id := cm_id c, md_next := cm_next c, md_type := cm_mt c, md_argv := Some (v, ss),
                 md_mode := (if cm_next c \<noteq> - 1 then MT_MODE_EXTERNAL else mode)\<rparr>;
     place_modules mode (Suc i) cs (d\<lparr>pd_mdescs := (pd_mdescs d)[i := Some md]\<rparr>, m) }"

definition read_pipeline_configuration ::
  "bool \<Rightarrow> (nat \<Rightarrow> nat) \<Rightarrow> mt_mode \<Rightarrow> string option \<Rightarrow> (string \<Rightarrow> json_file) \<Rightarrow> mem \<Rightarrow>
     (int \<times> pipeline_desc option \<times> mem) outcome" where
  "read_pipeline_configuration logic usable mode name files m =
     (case read_modules_configuration logic usable name files of
        Undefined \<Rightarrow> Undefined
      | Exception \<Rightarrow> Exception
      | Fine (cnt, ms) \<Rightarrow>
         (if cnt < 1 then Fine (- 1, None, m)
          else case pipeline_description_init 3 ''/procsegment'' 512 256 cnt None m of
              None \<Rightarrow> Undefined
            | Some s \<Rightarrow> (case place_modules mode 0 ms s of
                None \<Rightarrow> Undefined
              | Some (d, m) \<Rightarrow>
                 (let d = d\<lparr>pd_modules_cnt := cnt\<rparr>
                  in case out_pipeline_description (Some d) of None \<Rightarrow> Undefined
                     | Some _ \<Rightarrow> Fine (cnt, Some d, m)))))"

subsection \<open>What the check accepts\<close>

text \<open>The modules visited from an index by following the names of the successors.\<close>

fun walk_ok :: "cmodule list \<Rightarrow> nat list \<Rightarrow> bool" where
  "walk_ok ms [] = False"
| "walk_ok ms [i] = (i < length ms \<and> cm_next (ms ! i) = - 1)"
| "walk_ok ms (i # j # is) = (i < length ms \<and> cm_next (ms ! i) \<noteq> - 1 \<and> idx_get ms (cm_next (ms ! i)) = j \<and> walk_ok ms (j # is))"

lemma dfs_check_walk:
  assumes "length was = length ms"
  shows "dfs_check ms was i = 0 \<longleftrightarrow> (\<exists>is. walk_ok ms (i # is) \<and> distinct (i # is)
    \<and> set (i # is) = {k. k < length ms \<and> \<not> was ! k})"
  using assms
proof (induction ms was i rule: dfs_check.induct)
  case (1 ms was i)
  show ?case
  proof (cases "i < length ms \<and> \<not> was ! i")
    case False
    then have "dfs_check ms was i \<noteq> 0"
      using 1(2) by (subst dfs_check.simps) auto
    moreover have "\<not> walk_ok ms (i # is) \<or> \<not> set (i # is) = {k. k < length ms \<and> \<not> was ! k}" for "is"
      using False by auto
    ultimately show ?thesis by blast
  next
    case True
    let ?was = "was[i := True]" and ?j = "idx_get ms (cm_next (ms ! i))"
    have left: "{k. k < length ms \<and> \<not> was ! k} = insert i {k. k < length ms \<and> \<not> ?was ! k}"
      "i \<notin> {k. k < length ms \<and> \<not> ?was ! k}"
      using True 1(2) by (auto simp: nth_list_update)
    show ?thesis
    proof (cases "cm_next (ms ! i) = - 1")
      case stop: True
      have "walk_ok ms (i # is) \<longleftrightarrow> is = []" for "is"
        using True stop by (cases "is") auto
      moreover have "dfs_check ms was i = 0 \<longleftrightarrow> False \<notin> set ?was"
        using True stop 1(2) by (subst dfs_check.simps) auto
      moreover have "False \<notin> set ?was \<longleftrightarrow> {k. k < length ms \<and> \<not> ?was ! k} = {}"
        using 1(2) by (auto simp: in_set_conv_nth)
      ultimately show ?thesis
        using left by auto
    next
      case False
      have "dfs_check ms was i = dfs_check ms ?was ?j"
        using True False 1(2) by (subst dfs_check.simps) (simp add: Let_def)
      moreover have "dfs_check ms ?was ?j = 0 \<longleftrightarrow> (\<exists>is. walk_ok ms (?j # is) \<and> distinct (?j # is)
          \<and> set (?j # is) = {k. k < length ms \<and> \<not> ?was ! k})"
        using 1(1) [of ?was] True False 1(2) by simp
      moreover have "(\<exists>is. walk_ok ms (i # is) \<and> distinct (i # is) \<and> set (i # is) = {k. k < length ms \<and> \<not> was ! k})
          \<longleftrightarrow> (\<exists>is. walk_ok ms (?j # is) \<and> distinct (?j # is) \<and> set (?j # is) = {k. k < length ms \<and> \<not> ?was ! k})"
        (is "?L \<longleftrightarrow> ?R")
      proof
        assume ?L
        then obtain "is" where l: "walk_ok ms (i # is)" "distinct (i # is)" "set (i # is) = {k. k < length ms \<and> \<not> was ! k}"
          by blast
        then obtain js where "is = ?j # js"
          using False by (cases "is") auto
        moreover have "insert i (set is) = insert i {k. k < length ms \<and> \<not> ?was ! k}"
          using l(3) left(1) by (simp only: list.set(2))
        then have "set is = {k. k < length ms \<and> \<not> ?was ! k}"
          using l(2) left(2) by (metis insert_ident distinct.simps(2))
        ultimately show ?R
          using l by auto
      next
        assume ?R
        then obtain "is" where r: "walk_ok ms (?j # is)" "distinct (?j # is)" "set (?j # is) = {k. k < length ms \<and> \<not> ?was ! k}"
          by blast
        then have "walk_ok ms (i # ?j # is)"
          using True False by simp
        moreover have "distinct (i # ?j # is)"
          using r(2,3) left(2) by (metis distinct.simps(2))
        moreover have "set (i # ?j # is) = {k. k < length ms \<and> \<not> was ! k}"
          using r(3) left(1) by (simp only: list.set(2))
        ultimately show ?L by blast
      qed
      ultimately show ?thesis by simp
    qed
  qed
qed

lemma parse_modules_ok:
  assumes "parse_modules usable i js nn f = Fine (Some (ms, f'))"
  shows "length ms = length js
    \<and> (f' = f \<and> (\<forall>k < length ms. cm_mt (ms ! k) \<noteq> MT_FIRST)
      \<or> f = - 1 \<and> (\<exists>k < length ms. f' = int (i + k) \<and> (\<forall>k' < length ms. cm_mt (ms ! k') = MT_FIRST \<longleftrightarrow> k' = k)))"
  using assms
proof (induction usable i js nn f arbitrary: ms f' rule: parse_modules.induct)
  case (1 usable i nn f)
  then show ?case by simp
next
  case (2 usable i j js nn f)
  obtain k ps where kp: "jm_id j = Some k" "jm_parameters j = Some ps"
    using 2(2) by (auto split: option.splits)
  have nn: "\<not> (jm_name j = None \<and> nn)"
    using 2(2) kp by (auto split: if_splits)
  obtain av where av: "make_argv usable (jm_name j) ps = Some av"
    using 2(2) kp nn by (auto split: option.splits if_splits)
  obtain nx t f1 where mt: "module_type i j f = Some (nx, t, f1)"
    using 2(2) kp nn av by (auto split: option.splits if_splits)
  obtain ms1 where r: "parse_modules usable (Suc i) js (nn \<or> jm_name j = None) f1 = Fine (Some (ms1, f'))"
    "ms = \<lparr>cm_id = k, cm_next = nx, cm_mt = t, cm_argv = av\<rparr> # ms1"
    using 2(2) kp nn av mt by (auto split: outcome.splits option.splits if_splits)
  have ih: "length ms1 = length js \<and> (f' = f1 \<and> (\<forall>k < length ms1. cm_mt (ms1 ! k) \<noteq> MT_FIRST)
      \<or> f1 = - 1 \<and> (\<exists>k < length ms1. f' = int (Suc i + k) \<and> (\<forall>k' < length ms1. cm_mt (ms1 ! k') = MT_FIRST \<longleftrightarrow> k' = k)))"
    by (rule 2(1) [OF refl kp nn av mt refl refl r(1)])
  have ty: "(t = MT_FIRST \<longrightarrow> f = - 1 \<and> f1 = int i) \<and> (t \<noteq> MT_FIRST \<longrightarrow> f1 = f)"
    using mt by (auto simp: module_type_def split: option.splits if_splits)
  show ?case
  proof (cases "t = MT_FIRST")
    case True
    with ty have f: "f = - 1" "f1 = int i"
      by simp_all
    with ih have "f' = f1" "\<forall>k < length ms1. cm_mt (ms1 ! k) \<noteq> MT_FIRST"
      by auto
    then have "\<forall>k' < length ms. cm_mt (ms ! k') = MT_FIRST \<longleftrightarrow> k' = 0"
      using r(2) True by (auto simp: less_Suc_eq_0_disj)
    with f ih r(2) \<open>f' = f1\<close> show ?thesis by auto
  next
    case False
    then have f: "f1 = f"
      using ty by simp
    have z: "(\<forall>k < length ms. P (ms ! k) k) \<longleftrightarrow> P (hd ms) 0 \<and> (\<forall>k < length ms1. P (ms1 ! k) (Suc k))" for P
      using r(2) by (auto simp: less_Suc_eq_0_disj)
    from ih show ?thesis
    proof (elim conjE disjE exE)
      assume "f' = f1" "\<forall>k < length ms1. cm_mt (ms1 ! k) \<noteq> MT_FIRST" "length ms1 = length js"
      then show ?thesis
        using f r(2) False by (auto simp: less_Suc_eq_0_disj)
    next
      fix k'
      assume k': "f1 = - 1" "k' < length ms1" "f' = int (Suc i + k')" "length ms1 = length js"
        "\<forall>k < length ms1. cm_mt (ms1 ! k) = MT_FIRST \<longleftrightarrow> k = k'"
      have "\<forall>k < length ms. cm_mt (ms ! k) = MT_FIRST \<longleftrightarrow> k = Suc k'"
        using z [of "\<lambda>m k. cm_mt m = MT_FIRST \<longleftrightarrow> k = Suc k'"] k'(5) False r(2) by simp
      with k' f r(2) show ?thesis
        by (auto intro!: exI [of _ "Suc k'"])
    qed
  qed
qed

lemma filter_index_upt: "i < n \<Longrightarrow> filter (\<lambda>k. k = i) [0..<n] = [i]"
proof (induction n)
  case (Suc n)
  then show ?case
    by (cases "i = n") (auto simp: filter_empty_conv)
qed simp

lemma dfs_check_chain:
  "dfs_check ms (replicate (length ms) False) i = 0 \<longleftrightarrow>
     (\<exists>is. walk_ok ms (i # is) \<and> distinct (i # is) \<and> set (i # is) = {..<length ms})"
proof -
  have "{k. k < length ms \<and> \<not> replicate (length ms) False ! k} = {..<length ms}"
    by auto
  then show ?thesis
    using dfs_check_walk [of "replicate (length ms) False" ms i] by simp
qed

subsection \<open>Properties\<close>


text \<open>
  A configuration that is read has a single first module, and the walk from it visits every module; any
  other file gives -1, an exception of the library or, through the texts copied into blocks that are too
  small, undefined behaviour.
\<close>

theorem config_accepts_lines:
  assumes "read_modules_configuration logic usable name files = Fine (cnt, ms)" "1 \<le> cnt"
  shows "cnt = int (length ms) \<and> (\<exists>i is. walk_ok ms (i # is) \<and> distinct (i # is) \<and> set (i # is) = {..<length ms}
    \<and> filter (\<lambda>k. cm_mt (ms ! k) = MT_FIRST) [0..<length ms] = [i])"
proof -
  obtain js f where p: "parse_modules usable 0 js False (- 1) = Fine (Some (ms, f))" "f \<noteq> - 1"
    "dfs_check ms (replicate (length ms) False) (nat f) = 0" "cnt = int (length ms)"
    using assms by (auto simp: read_modules_configuration_def split: option.splits list.splits json_file.splits
        outcome.splits if_splits)
  then obtain i where i: "i < length ms" "f = int i" "\<forall>k < length ms. cm_mt (ms ! k) = MT_FIRST \<longleftrightarrow> k = i"
    using parse_modules_ok [OF p(1)] by auto
  have "filter (\<lambda>k. cm_mt (ms ! k) = MT_FIRST) [0..<length ms] = filter (\<lambda>k. k = i) [0..<length ms]"
    by (rule filter_cong) (use i(3) in auto)
  also have "\<dots> = [i]"
    using i(1) by (rule filter_index_upt)
  finally show ?thesis
    using p(3,4) i(2) dfs_check_chain [of ms i] by auto
qed

definition demo_json :: "jmodule list" where
  "demo_json = [\<lparr>jm_id = Some 0, jm_name = Some ''psource'', jm_parameters = Some [], jm_next_id = Some 1, jm_type = ''FIRST''\<rparr>,
     \<lparr>jm_id = Some 1, jm_name = None, jm_parameters = Some [], jm_next_id = None, jm_type = ''LAST''\<rparr>]"

definition demo_files :: "string \<Rightarrow> json_file" where
  "demo_files path = (if path = ''p.json'' then Modules demo_json else No_file)"

lemma demo_read: "\<exists>ms. read_modules_configuration True (\<lambda>n. n + 8) (Some ''p.json'') demo_files = Fine (2, ms)"
proof -
  have d: "dfs_check [\<lparr>cm_id = 0, cm_next = 1, cm_mt = MT_FIRST, cm_argv = [''psource'']\<rparr>,
      \<lparr>cm_id = 1, cm_next = - 1, cm_mt = MT_LAST, cm_argv = []\<rparr>] [False, False] 0 = 0"
    by (simp add: dfs_check.simps idx_get_def idx_map_def)
  show ?thesis
    using d by (simp add: read_modules_configuration_def demo_files_def demo_json_def make_argv_def copied_def
        module_type_def numeral_2_eq_2)
qed

theorem config_accepts_lines_witness:
  "\<exists>ms i. read_modules_configuration True (\<lambda>n. n + 8) (Some ''p.json'') demo_files = Fine (2, ms)
     \<and> filter (\<lambda>k. cm_mt (ms ! k) = MT_FIRST) [0..<length ms] = [i]"
proof -
  obtain ms where ms: "read_modules_configuration True (\<lambda>n. n + 8) (Some ''p.json'') demo_files = Fine (2, ms)"
    using demo_read by blast
  from config_accepts_lines [OF ms] ms show ?thesis by auto
qed

text \<open>
  With an allocator that provides exactly what is asked for, a configuration whose first module has a
  name overruns the block of the name: it is requested without room for the terminator.
\<close>

theorem config_name_overflows:
  assumes "files path = Modules (j # js)" "path \<noteq> []" "jm_id j \<noteq> None" "jm_parameters j \<noteq> None" "jm_name j \<noteq> None"
  shows "read_modules_configuration logic (\<lambda>n. n) (Some path) files = Undefined"
  using assms by (auto simp: read_modules_configuration_def make_argv_def copied_def neq_Nil_conv)

theorem config_name_overflows_witness:
  "read_modules_configuration True (\<lambda>n. n) (Some ''p.json'') demo_files = Undefined"
  using config_name_overflows [of demo_files "''p.json''" "hd demo_json" "tl demo_json" True]
  by (simp add: demo_files_def demo_json_def)

text \<open>
  A successor that names no module is taken for the first entry of the file: the check accepts a
  configuration whose first module names module 99, which does not exist.
\<close>

theorem config_dangling_next_accepted:
  "dfs_check [\<lparr>cm_id = 5, cm_next = - 1, cm_mt = MT_LAST, cm_argv = []\<rparr>,
     \<lparr>cm_id = 0, cm_next = 99, cm_mt = MT_FIRST, cm_argv = []\<rparr>] [False, False] 1 = 0"
  by (simp add: dfs_check.simps idx_get_def idx_map_def)

end
