(* ===== verification/Pipeline_Server.thy ===== *)
theory Pipeline_Server imports Pipeline_Threads begin

section \<open>Building, starting and destroying a pipeline (pipeline_server.c)\<close>

text \<open>
  \<open>pipeline_init\<close> builds the pipeline from its description and starts the main thread,
  \<open>pipeline_thread\<close> starts the modules one after the other (its joins are \<open>pipeline_main\<close> in
  \<open>Pipeline_Threads\<close>), \<open>pipeline_destroy\<close> joins and frees. The answers of the system (failing calls,
  addresses of \<open>malloc\<close>, executables, forks) are arguments.
\<close>

subsection \<open>The pipeline structure\<close>

record pipeline =
  pp_desc :: "pipeline_desc option"
  pp_exit_flag :: int
  pp_proc_cnt :: int
  pp_shmpath :: string
  pp_shmem :: "nat option"
  pp_data_cnt :: int
  pp_data_size :: int
  pp_modules_cnt :: int
  pp_head :: addr
  pp_modules :: module_store
  pp_state :: md_state
  pp_need_to_free :: bool
  pp_thread :: bool

text \<open>A zeroed structure whose list head is at address \<open>h\<close>.\<close>

definition zero_pipeline :: "addr \<Rightarrow> pipeline" where
  "zero_pipeline h = \<lparr>pp_desc = None, pp_exit_flag = 0, pp_proc_cnt = 0, pp_shmpath = [], pp_shmem = None,
     pp_data_cnt = 0, pp_data_size = 0, pp_modules_cnt = 0, pp_head = h,
     pp_modules = \<lparr>ms_heap = \<lparr>next_of = [h \<mapsto> NULL], prev_of = [h \<mapsto> NULL]\<rparr>, ms_mods = \<lambda>_. None\<rparr>,
     pp_state = MD_STATE_INIT, pp_need_to_free = False, pp_thread = False\<rparr>"

record sys_answers =
  sy_fail :: "os_call \<Rightarrow> bool"
  sy_pad1 :: "u8 list"
  sy_pad2 :: "u8 list"
  sy_head :: addr
  sy_addrs :: "addr list"
  sy_thread_ok :: bool

fun add_descs :: "addr \<Rightarrow> addr list \<Rightarrow> module_desc option list \<Rightarrow> int \<times> module_store \<Rightarrow> (int \<times> module_store) option" where
  "add_descs l as [] s = Some s"
| "add_descs l (a # as) (Some d # ds) (cnt, st) =
     Option.bind (pipeline_module_add a l cnt d st) (\<lambda>(_, cnt, st). add_descs l as ds (cnt, st))"
| "add_descs l as ds s = None"

partial_function (option) destroy_loop :: "addr \<Rightarrow> int \<Rightarrow> module_store \<Rightarrow> (int \<times> module_store) option" where
  "destroy_loop l cnt st =
     Option.bind (list_is_empty (ms_heap st) l) (\<lambda>e. if e then Some (cnt, st)
       else Option.bind (list_first_elem (ms_heap st) l) (\<lambda>a.
         Option.bind (pipeline_module_delete a l cnt st) (\<lambda>(cnt, st).
           Option.bind (pipeline_module_destroy a st) (\<lambda>st. destroy_loop l cnt st))))"

text \<open>
  \<open>main_done\<close> says whether the main thread has finished: the join waits for it. Joining a thread
  that was never created is undefined.
\<close>

definition pipeline_destroy :: "bool \<Rightarrow> pipeline \<Rightarrow> os \<Rightarrow> (pipeline option \<times> os) run" where
  "pipeline_destroy main_done pl os =
     (if \<not> pp_thread pl then Fault
      else if \<not> main_done then Blocked
      else run_of (do {
        st \<leftarrow> pipeline_modules_set_state MD_STATE_UNKNOWN (pp_head pl) (pp_modules pl);
        let pl = pl\<lparr>pp_modules := st, pp_state := MD_STATE_UNKNOWN, pp_exit_flag := 1, pp_desc := None\<rparr>;
        let os = shared_memory_destroy (pp_shmpath pl) os;
        (cnt, st) \<leftarrow> destroy_loop (pp_head pl) (pp_modules_cnt pl) (pp_modules pl);
        Some (if pp_need_to_free pl then None else Some (pl\<lparr>pp_modules_cnt := cnt, pp_modules := st\<rparr>), os) }))"

text \<open>The two conversions between \<open>size_t\<close> and the \<open>int data_size\<close> of the pipeline.\<close>

definition size_to_int :: "u64 \<Rightarrow> int" where
  "size_to_int w = sint (ucast w :: u32)"

definition pipeline_init :: "sys_answers \<Rightarrow> pipeline option \<Rightarrow> pipeline_desc option \<Rightarrow> os \<Rightarrow>
    (int \<times> pipeline option \<times> os) run" where
  "pipeline_init sy p_pl pdesc os = (case pdesc of
     None \<Rightarrow> Done (- 1, p_pl, os)
   | Some d \<Rightarrow>
     (let pl = (case p_pl of Some pl \<Rightarrow> pl | None \<Rightarrow> (zero_pipeline (sy_head sy))\<lparr>pp_need_to_free := True\<rparr>)
      in case out_pipeline_description (Some d) of None \<Rightarrow> Fault | Some _ \<Rightarrow>
      (let pl = pl\<lparr>pp_desc := Some d, pp_state := MD_STATE_UNKNOWN, pp_exit_flag := 0,
             pp_proc_cnt := pd_proc_cnt d, pp_data_cnt := pd_data_cnt d,
             pp_data_size := size_to_int (pd_data_size d), pp_shmpath := snd (pd_shmpath d)\<rparr>;
           m = memory_map_create (word_of_int (pp_proc_cnt pl)) PROCESS_INFO_SIZE
             (word_of_int (pp_data_cnt pl)) (word_of_int (pp_data_size pl));
           os = shared_memory_unlink (pp_shmpath pl) os
       in case shared_memory_server_init (sy_fail sy) (sy_pad1 sy) (sy_pad2 sy) (pp_shmpath pl) m os of
           Fault \<Rightarrow> Fault | Blocked \<Rightarrow> Blocked
         | Done (None, os) \<Rightarrow> Done (- 1, None, os)
         | Done (Some shm, os) \<Rightarrow>
           (let os = snd (shared_memory_setenv (sy_fail sy) (pp_shmpath pl) m os);
                pl = pl\<lparr>pp_shmem := Some shm\<rparr>
            in case (do {
                 h \<leftarrow> list_init (pp_head pl) (ms_heap (pp_modules pl));
                 (cnt, st) \<leftarrow> add_descs (pp_head pl) (sy_addrs sy)
                   (take (nat (pd_modules_cnt d)) (pd_mdescs d))
                   (pp_modules_cnt pl, (pp_modules pl)\<lparr>ms_heap := h\<rparr>);
                 (rc, st) \<leftarrow> pipeline_modules_update (pp_head pl) st;
                 Some (rc, pl\<lparr>pp_modules_cnt := cnt, pp_modules := st\<rparr>) }) of
                None \<Rightarrow> Fault
              | Some (rc, pl) \<Rightarrow>
                if rc \<noteq> 0 then bind_run (pipeline_destroy False pl os) (\<lambda>(_, os). Done (- 1, None, os))
                else Done (0, Some (pl\<lparr>pp_thread := sy_thread_ok sy\<rparr>), os)))))"

definition pipeline_start :: "pipeline \<Rightarrow> int" where "pipeline_start pl = 0"
definition pipeline_stop :: "pipeline \<Rightarrow> int" where "pipeline_stop pl = 0"

subsection \<open>Starting the modules\<close>

text \<open>
  The start of one module: \<open>pipeline_module_init\<close>, then the beginning of its thread up to the post of
  \<open>start_control\<close>. A failed start makes a source or process thread set the exit flag and return; the
  two internal threads do not look at the result, and the join of the main thread waits for them.
\<close>

type_synonym exec_answer = "(string \<Rightarrow> bool) \<times> int option"

definition module_argv :: "pmodule \<Rightarrow> string list option" where
  "module_argv m = (if external (mo_method m)
     then (case mo_mdesc m of None \<Rightarrow> None | Some d \<Rightarrow> map_option (map snd \<circ> snd) (md_argv d)) else None)"

definition started_module :: "pmodule \<Rightarrow> pmodule" where
  "started_module m = m\<lparr>mo_idx := - 200, mo_state := MD_STATE_UNKNOWN, mo_new_cmd := 0, mo_result := 1,
     mo_cmd := PROCESS_CMD_JOB, mo_last_cmd_result := 0\<rparr>"

lemma started_method [simp]: "mo_method (started_module m) = mo_method m"
  by (simp add: started_module_def)

fun start_modules :: "exec_answer list \<Rightarrow> pmodule list \<Rightarrow> proc_mngr \<Rightarrow> int \<Rightarrow>
    (pmodule list \<times> proc_mngr \<times> int \<times> nat) run" where
  "start_modules ans [] pm ex = Done ([], pm, ex, 0)"
| "start_modules ((a, f) # ans) (m # ms) pm ex =
     (if mo_method m = No_thread \<or> external (mo_method m) \<and> module_argv m = None then Fault
      else case process_start a f (module_argv m) pm of
        None \<Rightarrow> Fault
      | Some (idx, pm) \<Rightarrow>
        (let m = (started_module m)\<lparr>mo_idx := idx\<rparr>
         in if idx = - 1 then
              (if external (mo_method m) then Done (m\<lparr>mo_state := MD_STATE_ERROR\<rparr> # ms, pm, 1, 0) else Blocked)
            else bind_run (start_modules ans ms pm ex) (\<lambda>(ms, pm, ex, k).
              Done (m\<lparr>mo_state := MD_STATE_INIT\<rparr> # ms, pm, ex, Suc k))))"
| "start_modules [] (m # ms) pm ex = Fault"

text \<open>The offsets of the chunks fill the ring, which is created full.\<close>

definition data_ring_init :: "memory_map \<Rightarrow> ring option" where
  "data_ring_init m =
     map_option (\<lambda>r. r\<lparr>rg_buf := map (\<lambda>i. chunk_offset m (of_nat i)) [0..<nat (sint (mm_data_cnt m))]\<rparr>)
       (ring_buffer_create True True (sint (mm_data_cnt m)) False)"

definition pipeline_thread :: "exec_answer list \<Rightarrow> memory_map \<Rightarrow> process_info list \<Rightarrow> pmodule list \<Rightarrow> proc_mngr \<Rightarrow>
    (md_state \<times> pmodule list \<times> proc_mngr \<times> int \<times> ring) run" where
  "pipeline_thread ans m infos ms pm =
     (case process_subsystem_init (\<lambda>_. (True, True)) infos (sint (mm_process_cnt m)) pm of
        None \<Rightarrow> Fault
      | Some (_, infos, pm) \<Rightarrow>
        (case data_ring_init m of
           None \<Rightarrow> Fault
         | Some r \<Rightarrow> bind_run (start_modules ans ms pm 0) (\<lambda>(ms, pm, ex, real_started).
             let st = (if 2 \<le> real_started then MD_STATE_INIT else MD_STATE_ERROR)
             in if st = MD_STATE_INIT
                then Done (MD_STATE_LIVE, map (state_after MD_STATE_LIVE) ms, pm, ex, r)
                else Done (st, ms, pm, ex, r))))"

subsection \<open>The ring of chunks\<close>

definition map_chunks :: "memory_map \<Rightarrow> u64 list" where
  "map_chunks m = map (\<lambda>i. chunk_offset m (of_nat i)) [0..<nat (sint (mm_data_cnt m))]"

lemma cnt_index:
  assumes p: "0 \<le> sint (w :: u32)" and i: "i < nat (sint w)"
  shows "0 \<le> sint (of_nat i :: u32)" "unat (of_nat i :: u32) = i" "i < unat w"
proof -
  have b: "int i < sint w" "sint w < 2 ^ 31"
    using i p sint_lt [of w] by simp_all
  then have lt: "int i < 2 ^ 31"
    by (rule less_trans)
  have u: "uint (of_nat i :: u32) = int i"
    using lt by (simp add: unsigned_of_nat take_bit_nat_eq_self)
  then show "unat (of_nat i :: u32) = i"
    by (simp add: unat_eq_nat_uint del: unsigned_of_nat)
  have "sint (of_nat i :: u32) = int i"
    using u lt by (simp add: sint_uint signed_take_bit_int_eq_self del: unsigned_of_nat)
  then show "0 \<le> sint (of_nat i :: u32)" by (simp del: signed_of_nat)
  have "signed_take_bit 31 (uint w) \<le> uint w"
    by (rule signed_take_bit_int_less_eq_self_iff [THEN iffD2]) (simp add: order.trans [OF _ uint_ge_0])
  then have "sint w \<le> uint w"
    by (simp add: sint_uint)
  with b(1) have "int i < uint w"
    by (rule less_le_trans)
  then show "i < unat w"
    by (simp only: unat_eq_nat_uint zless_nat_eq_int_zless)
qed

lemma map_chunks_distinct:
  assumes "layout_ok m" "mm_data_size m \<noteq> 0"
  shows "distinct (map_chunks m)"
proof -
  have d: "0 < unat (mm_data_size m)"
    using assms(2) by (simp add: unat_gt_0)
  have "chunk_offset m (of_nat i) \<noteq> chunk_offset m (of_nat j)"
    if "i < nat (sint (mm_data_cnt m))" "j < nat (sint (mm_data_cnt m))" "i \<noteq> j" for i j
  proof
    assume e: "chunk_offset m (of_nat i) = chunk_offset m (of_nat j)"
    have p: "0 \<le> sint (mm_data_cnt m)"
      using assms(1) by (simp add: layout_ok_def)
    note ci = cnt_index [OF p that(1)] and cj = cnt_index [OF p that(2)]
    have "unat (chunk_offset m (of_nat i)) = unat (memory_get_dataoffset m) + i * unat (mm_data_size m)"
      using chunk_offset_value(1) [OF assms(1) ci(1)] ci by simp
    moreover have "unat (chunk_offset m (of_nat j)) = unat (memory_get_dataoffset m) + j * unat (mm_data_size m)"
      using chunk_offset_value(1) [OF assms(1) cj(1)] cj by simp
    ultimately have "i * unat (mm_data_size m) = j * unat (mm_data_size m)"
      using e by (metis add_left_cancel)
    with d that(3) show False
      by (metis mult_cancel2 less_not_refl)
  qed
  then show ?thesis
    by (auto simp: map_chunks_def distinct_conv_nth)
qed

lemma data_ring_init_ok:
  assumes "0 < sint (mm_data_cnt m)" "sint (mm_data_cnt m) \<le> 2 ^ 30"
  shows "\<exists>r. data_ring_init m = Some r \<and> ring_rep r (map_chunks m)
    \<and> length (map_chunks m) = ring_cap r \<and> map_chunks m \<noteq> []"
proof -
  let ?n = "nat (sint (mm_data_cnt m))"
  have q: "ring_seq 0 (length xs) xs = xs" if "xs \<noteq> []" for xs :: "u64 list"
    using that by (auto intro: nth_equalityI)
  have "length (map_chunks m) = ?n" "map_chunks m \<noteq> []"
    using assms by (simp_all add: map_chunks_def)
  with assms q [of "map_chunks m"] show ?thesis
    by (auto simp: data_ring_init_def ring_buffer_create_def ring_rep_def ring_ok_def ring_cap_def
        ring_queue_def map_chunks_def [symmetric] simp del: ring_seq.simps)
qed

subsection \<open>Starting: the slots are the positions\<close>

definition can_start :: "exec_answer \<Rightarrow> pmodule \<Rightarrow> bool" where
  "can_start af m \<longleftrightarrow> mo_method m \<noteq> No_thread \<and> (external (mo_method m) \<longrightarrow>
     (\<exists>exe args. module_argv m = Some (exe # args) \<and> fst af exe) \<and> (\<exists>pid. snd af = Some pid))"

definition cannot_start :: "exec_answer \<Rightarrow> pmodule \<Rightarrow> bool" where
  "cannot_start af m \<longleftrightarrow> external (mo_method m) \<and> (\<exists>exe args. module_argv m = Some (exe # args) \<and> \<not> fst af exe)"

lemma process_start_can:
  assumes "can_start (a, f) m" "pm_ok pm" "pm_cnt pm < pm_cnt_max pm"
  shows "\<exists>pm'. process_start a f (module_argv m) pm = Some (pm_cnt pm, pm') \<and> pm_ok pm'
    \<and> pm_cnt pm' = pm_cnt pm + 1 \<and> pm_cnt_max pm' = pm_cnt_max pm"
proof -
  obtain rc pm' where p: "process_start a f (module_argv m) pm = Some (rc, pm')"
    using process_start_total [OF assms(2)] by (metis option.exhaust surj_pair)
  note st = process_start_step [OF p assms(2)]
  have "rc = pm_cnt pm"
  proof (cases "external (mo_method m)")
    case True
    with assms(1) obtain exe args pid where x: "module_argv m = Some (exe # args)" "a exe" "f = Some pid"
      by (auto simp: can_start_def)
    have "c_int (pm_cnt pm + 1) = Some (pm_cnt pm + 1)"
      using assms(2,3) by (auto simp: pm_ok_def)
    then show ?thesis
      using p x assms(3) by (auto simp: process_start_def Let_def)
  next
    case False
    then show ?thesis
      using st(5) assms(3) by (simp add: module_argv_def)
  qed
  with p st(1-3) assms(3) show ?thesis by auto
qed

lemma process_start_cannot:
  assumes "cannot_start (a, f) m" "pm_ok pm"
  shows "\<exists>pm'. process_start a f (module_argv m) pm = Some (- 1, pm')"
proof -
  obtain exe args where x: "module_argv m = Some (exe # args)" "\<not> a exe"
    using assms(1) by (auto simp: cannot_start_def)
  show ?thesis
  proof (cases "pm_cnt_max pm \<le> pm_cnt pm")
    case True
    then show ?thesis
      by (simp add: process_start_full)
  next
    case False
    then have "c_int (pm_cnt pm + 1) = Some (pm_cnt pm + 1)"
      using assms(2) by (auto simp: pm_ok_def)
    with x False show ?thesis
      by (simp add: process_start_def Let_def)
  qed
qed

definition module_running :: "int \<Rightarrow> md_state \<Rightarrow> pmodule \<Rightarrow> pmodule" where
  "module_running i st m = (started_module m)\<lparr>mo_idx := i, mo_state := st\<rparr>"

lemma start_modules_prefix:
  assumes "list_all2 can_start ans ms" "pm_ok pm" "pm_cnt pm + int (length ms) \<le> pm_cnt_max pm"
  shows "\<exists>pm'. start_modules (ans @ ans') (ms @ ms') pm ex = bind_run (start_modules ans' ms' pm' ex)
      (\<lambda>(ms'', pm'', ex', k). Done (map (\<lambda>i. module_running (pm_cnt pm + int i) MD_STATE_INIT (ms ! i)) [0..<length ms]
         @ ms'', pm'', ex', length ms + k))
    \<and> pm_ok pm' \<and> pm_cnt pm' = pm_cnt pm + int (length ms) \<and> pm_cnt_max pm' = pm_cnt_max pm"
  using assms
proof (induction ans ms arbitrary: pm rule: list_all2_induct)
  case Nil
  have "bind_run x (\<lambda>(ms'', pm'', ex', k). Done (ms'', pm'', ex', k)) = x"
    for x :: "(pmodule list \<times> proc_mngr \<times> int \<times> nat) run"
    by (cases x) auto
  with Nil show ?case by (intro exI [of _ pm]) simp
next
  case (Cons af ans m ms)
  obtain a f where af: "af = (a, f)"
    by (cases af)
  obtain pm1 where p: "process_start a f (module_argv m) pm = Some (pm_cnt pm, pm1)" "pm_ok pm1"
    "pm_cnt pm1 = pm_cnt pm + 1" "pm_cnt_max pm1 = pm_cnt_max pm"
    using process_start_can [of a f m pm] Cons.hyps(1) Cons.prems af by auto
  obtain pm' where ih: "start_modules (ans @ ans') (ms @ ms') pm1 ex = bind_run (start_modules ans' ms' pm' ex)
      (\<lambda>(ms'', pm'', ex', k). Done (map (\<lambda>i. module_running (pm_cnt pm1 + int i) MD_STATE_INIT (ms ! i)) [0..<length ms]
         @ ms'', pm'', ex', length ms + k))"
    "pm_ok pm'" "pm_cnt pm' = pm_cnt pm1 + int (length ms)" "pm_cnt_max pm' = pm_cnt_max pm1"
    using Cons.IH [of pm1] Cons.prems p by auto
  have nf: "\<not> (mo_method m = No_thread \<or> external (mo_method m) \<and> module_argv m = None)" "pm_cnt pm \<noteq> - 1"
    using Cons.hyps(1) Cons.prems(1) af by (auto simp: can_start_def pm_ok_def)
  have e: "map (\<lambda>i. module_running (pm_cnt pm + int i) MD_STATE_INIT ((m # ms) ! i)) [0..<length (m # ms)]
      = module_running (pm_cnt pm) MD_STATE_INIT m
        # map (\<lambda>i. module_running (pm_cnt pm1 + int i) MD_STATE_INIT (ms ! i)) [0..<length ms]"
    by (simp add: upt_conv_Cons map_Suc_upt [symmetric] p(3) add.assoc del: upt_Suc)
  show ?case
    using ih p nf unfolding e af
    by (intro exI [of _ pm'], cases "start_modules ans' ms' pm' ex")
      (auto simp: Let_def module_running_def)
qed

subsection \<open>The main thread of a pipeline\<close>

lemma state_after_running: "state_after MD_STATE_LIVE (module_running i MD_STATE_INIT m) = module_running i MD_STATE_LIVE m"
  by (simp add: state_after_def module_running_def)

text \<open>The map of a pipeline whose counts are positive, and a table of the right length.\<close>

definition main_ready :: "memory_map \<Rightarrow> process_info list \<Rightarrow> proc_mngr \<Rightarrow> bool" where
  "main_ready m infos pm \<longleftrightarrow> layout_ok m \<and> 0 < sint (mm_data_cnt m) \<and> sint (mm_data_cnt m) \<le> 2 ^ 30
     \<and> 0 \<le> sint (mm_process_cnt m) \<and> sint (mm_process_cnt m) \<le> 2 ^ 30
     \<and> sint (mm_process_cnt m) \<le> int (length infos) \<and> pm_ok pm"

lemma pipeline_thread_prefix:
  assumes "main_ready m infos pm" "list_all2 can_start ans ms"
    and "pm_cnt pm + int (length ms) \<le> sint (mm_process_cnt m)"
  shows "\<exists>r pm'. ring_rep r (map_chunks m) \<and> length (map_chunks m) = ring_cap r \<and> pm_ok pm'
    \<and> pm_cnt pm' = pm_cnt pm + int (length ms) \<and> pm_cnt_max pm' = sint (mm_process_cnt m)
    \<and> pipeline_thread (ans @ ans') m infos (ms @ ms') pm =
      bind_run (start_modules ans' ms' pm' 0) (\<lambda>(ms'', pm'', ex', k).
        if 2 \<le> length ms + k
        then Done (MD_STATE_LIVE, map (\<lambda>i. module_running (pm_cnt pm + int i) MD_STATE_LIVE (ms ! i)) [0..<length ms]
               @ map (state_after MD_STATE_LIVE) ms'', pm'', ex', r)
        else Done (MD_STATE_ERROR, map (\<lambda>i. module_running (pm_cnt pm + int i) MD_STATE_INIT (ms ! i)) [0..<length ms]
               @ ms'', pm'', ex', r))"
proof -
  obtain infos' pm1 where init: "process_subsystem_init (\<lambda>_. (True, True)) infos (sint (mm_process_cnt m)) pm = Some (0, infos', pm1)"
    "pm_ok pm1" "pm_cnt pm1 = pm_cnt pm" "pm_cnt_max pm1 = sint (mm_process_cnt m)"
    using process_subsystem_init_ok [of "\<lambda>_. (True, True)" "sint (mm_process_cnt m)" infos pm] assms(1)
    by (auto simp: main_ready_def)
  obtain r where r: "data_ring_init m = Some r" "ring_rep r (map_chunks m)" "length (map_chunks m) = ring_cap r"
    using data_ring_init_ok [of m] assms(1) by (auto simp: main_ready_def)
  obtain pm' where st: "start_modules (ans @ ans') (ms @ ms') pm1 0 = bind_run (start_modules ans' ms' pm' 0)
      (\<lambda>(ms'', pm'', ex', k). Done (map (\<lambda>i. module_running (pm_cnt pm + int i) MD_STATE_INIT (ms ! i)) [0..<length ms]
         @ ms'', pm'', ex', length ms + k))" "pm_ok pm'" "pm_cnt pm' = pm_cnt pm + int (length ms)"
     "pm_cnt_max pm' = sint (mm_process_cnt m)"
    using start_modules_prefix [OF assms(2) init(2), of ans' ms' 0] init(3,4) assms(3) by auto
  show ?thesis
    by (intro exI [of _ r] exI [of _ pm'], cases "start_modules ans' ms' pm' 0")
      (auto simp: pipeline_thread_def init r st Let_def state_after_running)
qed

text \<open>
  Claim C8. The main thread of a pipeline whose modules can all be started (two at least, and slots left
  for all) gives the modules consecutive slots in the order of the list, ends with every module and
  the pipeline in \<open>MD_STATE_LIVE\<close>, leaves the exit flag at 0 and creates the ring of chunks full,
  holding each chunk of the map once.
\<close>

theorem pipeline_thread_starts:
  assumes "main_ready m infos pm" "mm_data_size m \<noteq> 0" "list_all2 can_start ans ms" "2 \<le> length ms"
    and "pm_cnt pm + int (length ms) \<le> sint (mm_process_cnt m)"
  shows "\<exists>r pm'. pipeline_thread ans m infos ms pm = Done (MD_STATE_LIVE,
      map (\<lambda>i. module_running (pm_cnt pm + int i) MD_STATE_LIVE (ms ! i)) [0..<length ms], pm', 0, r)
    \<and> pm_cnt pm' = pm_cnt pm + int (length ms)
    \<and> ring_rep r (map_chunks m) \<and> length (map_chunks m) = ring_cap r \<and> distinct (map_chunks m)"
proof -
  have "distinct (map_chunks m)"
    using map_chunks_distinct assms(1,2) by (simp add: main_ready_def)
  then show ?thesis
    using pipeline_thread_prefix [OF assms(1,3,5), of "[]" "[]"] assms(4) by auto
qed

definition demo_map :: memory_map where
  "demo_map = memory_map_create 4 PROCESS_INFO_SIZE 2 256"

definition demo_module :: "int \<Rightarrow> mt_type \<Rightarrow> mt_mode \<Rightarrow> string list \<Rightarrow> pmodule" where
  "demo_module i t mode ss = new_module
     \<lparr>md_addr = 1, md_id = i, md_type = t, md_mode = mode, md_next = i + 1, md_argv = Some (2, map (Pair 3) ss)\<rparr>"

definition demo_modules :: "pmodule list" where
  "demo_modules = [demo_module 0 MT_FIRST MT_MODE_EXTERNAL [''bin/psource''],
     demo_module 1 MT_MIDDLE MT_MODE_EXTERNAL [''bin/phandler''], demo_module 2 MT_LAST MT_MODE_INTERNAL []]"

definition demo_infos :: "process_info list" where "demo_infos = replicate 4 zero_process_info"

lemma demo_ready: "main_ready demo_map demo_infos proc_mngr_static"
  by (simp add: main_ready_def demo_map_def memory_map_create_def layout_ok_def PROCESS_INFO_SIZE_def
      demo_infos_def pm_ok_def proc_mngr_static_def)

lemmas demo_module_eval = demo_modules_def demo_module_def new_module_def can_start_def cannot_start_def module_argv_def
  thread_method_of_def zero_module_def external_def

theorem pipeline_thread_starts_witness:
  "\<exists>ms pm r. pipeline_thread (replicate 3 (\<lambda>_. True, Some 100)) demo_map demo_infos demo_modules proc_mngr_static
     = Done (MD_STATE_LIVE, ms, pm, 0, r)"
  using pipeline_thread_starts [OF demo_ready, of "replicate 3 (\<lambda>_. True, Some 100)" demo_modules]
  by (auto simp: demo_module_eval demo_map_def memory_map_create_def proc_mngr_static_def numeral_3_eq_3)

text \<open>
  A module that cannot be started after two or more that could: the exit flag is set and the
  module stays in \<open>MD_STATE_ERROR\<close>, but the pipeline's own state ends as \<open>MD_STATE_LIVE\<close>, and the
  modules behind it, whose threads were never created, are reported as \<open>MD_STATE_LIVE\<close> too.
\<close>

theorem pipeline_thread_masks_failure:
  assumes "main_ready m infos pm" "list_all2 can_start ans ms" "2 \<le> length ms"
    and "pm_cnt pm + int (length ms) \<le> sint (mm_process_cnt m)" "cannot_start (a, f) bad"
  shows "\<exists>bad' r pm'. pipeline_thread (ans @ (a, f) # ans') m infos (ms @ bad # rest) pm = Done (MD_STATE_LIVE,
      map (\<lambda>i. module_running (pm_cnt pm + int i) MD_STATE_LIVE (ms ! i)) [0..<length ms]
        @ bad' # map (state_after MD_STATE_LIVE) rest, pm', 1, r)
    \<and> mo_state bad' = MD_STATE_ERROR \<and> mo_idx bad' = - 1"
proof -
  obtain r pm' where t: "pm_ok pm'"
    "pipeline_thread (ans @ (a, f) # ans') m infos (ms @ bad # rest) pm =
      bind_run (start_modules ((a, f) # ans') (bad # rest) pm' 0) (\<lambda>(ms'', pm'', ex', k).
        if 2 \<le> length ms + k
        then Done (MD_STATE_LIVE, map (\<lambda>i. module_running (pm_cnt pm + int i) MD_STATE_LIVE (ms ! i)) [0..<length ms]
               @ map (state_after MD_STATE_LIVE) ms'', pm'', ex', r)
        else Done (MD_STATE_ERROR, map (\<lambda>i. module_running (pm_cnt pm + int i) MD_STATE_INIT (ms ! i)) [0..<length ms]
               @ ms'', pm'', ex', r))"
    using pipeline_thread_prefix [OF assms(1,2,4), of "(a, f) # ans'" "bad # rest"] by blast
  obtain pm2 where "process_start a f (module_argv bad) pm' = Some (- 1, pm2)"
    using process_start_cannot [OF assms(5) t(1)] by blast
  moreover have "external (mo_method bad)" "module_argv bad \<noteq> None" "mo_method bad \<noteq> No_thread"
    using assms(5) by (auto simp: cannot_start_def external_def)
  ultimately show ?thesis
    using t(2) assms(3) by (auto simp: Let_def state_after_def)
qed

theorem pipeline_thread_masks_failure_witness:
  "\<exists>ms pm r bad. pipeline_thread [(\<lambda>_. True, Some 100), (\<lambda>_. True, Some 101), (\<lambda>_. False, None)] demo_map demo_infos
     (take 2 demo_modules @ [demo_modules ! 1]) proc_mngr_static = Done (MD_STATE_LIVE, ms @ [bad], pm, 1, r)
     \<and> mo_state bad = MD_STATE_ERROR"
proof -
  have t: "take 2 demo_modules = [demo_modules ! 0, demo_modules ! 1]"
    by (simp add: demo_modules_def numeral_2_eq_2)
  have c: "list_all2 can_start [(\<lambda>_. True, Some 100), (\<lambda>_. True, Some 101)] (take 2 demo_modules)"
    "cannot_start (\<lambda>_. False, None) (demo_modules ! 1)"
    "pm_cnt proc_mngr_static + int (length (take 2 demo_modules)) \<le> sint (mm_process_cnt demo_map)"
    by (simp_all add: t) (simp_all add: demo_module_eval demo_map_def memory_map_create_def proc_mngr_static_def)
  from pipeline_thread_masks_failure [OF demo_ready c(1) _ c(3) c(2), of "[]" "[]"] t show ?thesis
    by fastforce
qed

text \<open>
  The number of slots handed out survives \<open>process_subsystem_destroy\<close>: when it has reached the
  size of the new pipeline's table, the first module of that pipeline is refused, the exit flag is
  set and the pipeline ends in \<open>MD_STATE_ERROR\<close>. The second pipeline of a program does not start.
\<close>

theorem second_pipeline_fails:
  assumes "main_ready m infos pm" "external (mo_method bad)" "module_argv bad \<noteq> None"
    and "sint (mm_process_cnt m) \<le> pm_cnt pm"
  shows "\<exists>bad' pm' r. pipeline_thread ((a, f) # ans) m infos (bad # rest) pm
      = Done (MD_STATE_ERROR, bad' # rest, pm', 1, r) \<and> mo_state bad' = MD_STATE_ERROR
    \<and> (\<exists>pm''. process_subsystem_destroy pm' = Some pm'' \<and> pm_cnt pm'' = pm_cnt pm)"
proof -
  obtain infos' pm1 where init: "process_subsystem_init (\<lambda>_. (True, True)) infos (sint (mm_process_cnt m)) pm = Some (0, infos', pm1)"
    "pm_ok pm1" "pm_cnt pm1 = pm_cnt pm" "pm_cnt_max pm1 = sint (mm_process_cnt m)"
    using process_subsystem_init_ok [of "\<lambda>_. (True, True)" "sint (mm_process_cnt m)" infos pm] assms(1)
    by (auto simp: main_ready_def)
  obtain r where r: "data_ring_init m = Some r"
    using data_ring_init_ok [of m] assms(1) by (auto simp: main_ready_def)
  have "process_start a f (module_argv bad) pm1 = Some (- 1, pm1)"
    using assms(4) init by (intro process_start_full) simp
  moreover have "mo_method bad \<noteq> No_thread"
    using assms(2) by (auto simp: external_def)
  moreover have "\<exists>pm''. process_subsystem_destroy pm1 = Some pm'' \<and> pm_cnt pm'' = pm_cnt pm"
    using process_subsystem_destroy_ok [OF init(2)] init(3) by auto
  ultimately show ?thesis
    using assms(2,3) init(1) r by (auto simp: pipeline_thread_def Let_def)
qed

theorem second_pipeline_fails_witness:
  "\<exists>ms pm r. pipeline_thread [(\<lambda>_. True, Some 100)] demo_map demo_infos demo_modules
     (proc_mngr_static\<lparr>pm_cnt := 4\<rparr>) = Done (MD_STATE_ERROR, ms, pm, 1, r)"
proof -
  have "main_ready demo_map demo_infos (proc_mngr_static\<lparr>pm_cnt := 4\<rparr>)"
    using demo_ready by (simp add: main_ready_def pm_ok_def proc_mngr_static_def)
  moreover have "demo_modules = demo_modules ! 0 # tl demo_modules" "external (mo_method (demo_modules ! 0))"
    "module_argv (demo_modules ! 0) \<noteq> None" "sint (mm_process_cnt demo_map) \<le> pm_cnt (proc_mngr_static\<lparr>pm_cnt := 4\<rparr>)"
    by (simp_all add: demo_module_eval demo_map_def memory_map_create_def)
  ultimately show ?thesis
    using second_pipeline_fails [of demo_map demo_infos "proc_mngr_static\<lparr>pm_cnt := 4\<rparr>" "demo_modules ! 0"
        "\<lambda>_. True" "Some 100" "[]" "tl demo_modules"] by force
qed

subsection \<open>Destroying a pipeline\<close>

lemma pipeline_destroy_after_main:
  assumes "pp_thread pl" "store_rep (pp_head pl) (pp_modules pl) ms" "ms \<noteq> []"
    and "pp_modules_cnt pl = int (length ms)" "length ms < 2 ^ 30"
  shows "pipeline_destroy True pl os = Fault"
proof -
  obtain st where st: "pipeline_modules_set_state MD_STATE_UNKNOWN (pp_head pl) (pp_modules pl) = Some st"
    "store_rep (pp_head pl) st (map (\<lambda>(a, m). (a, state_after MD_STATE_UNKNOWN m)) ms)"
    using pipeline_modules_set_state_rep [OF assms(2)] by blast
  obtain a m rest where ms: "map (\<lambda>(a, m). (a, state_after MD_STATE_UNKNOWN m)) ms = (a, m) # rest"
    using assms(3) by (cases ms) auto
  from st(2) have r: "store_rep (pp_head pl) st ([] @ (a, m) # rest)"
    by (simp add: ms)
  obtain st' where st': "pipeline_module_delete a (pp_head pl) (pp_modules_cnt pl) st = Some (pp_modules_cnt pl - 1, st')"
    "ms_mods st' a = None"
    using pipeline_module_delete_rep [OF r, of "pp_modules_cnt pl"] assms(4,5) by auto
  have il: "is_list (ms_heap st) (pp_head pl) (a # map fst rest)"
    using r by (simp add: store_rep_def)
  have "a \<noteq> NULL"
    using il by (auto simp: is_list_def)
  then have "pipeline_module_destroy a st' = None"
    using st'(2) by (rule pipeline_module_destroy_unallocated)
  then have "destroy_loop (pp_head pl) (pp_modules_cnt pl) st = None"
    using st'(1) list_is_empty_is_list [OF il] list_first_elem_is_list [OF il]
    by (subst destroy_loop.simps) simp
  then show ?thesis
    using assms(1) st(1) by (simp add: pipeline_destroy_def)
qed

text \<open>
  \<open>pipeline_destroy\<close> joins the main thread before it sets the exit flag, so it waits as long
  as the main thread runs; and when the main thread has finished, a pipeline with a module in its
  list makes it write to the module after \<open>pipeline_module_delete\<close> has freed it.
\<close>

theorem pipeline_destroy_faults:
  assumes "pp_thread pl" "store_rep (pp_head pl) (pp_modules pl) ms" "ms \<noteq> []"
    and "pp_modules_cnt pl = int (length ms)" "length ms < 2 ^ 30"
  shows "pipeline_destroy main_done pl os = (if main_done then Fault else Blocked)"
  using pipeline_destroy_after_main [OF assms] assms(1) by (simp add: pipeline_destroy_def)

definition demo_built :: pipeline where
  "demo_built = (zero_pipeline 1)\<lparr>pp_modules_cnt := 1, pp_thread := True,
     pp_modules := \<lparr>ms_heap = \<lparr>next_of = [1 \<mapsto> 2, 2 \<mapsto> 1], prev_of = [1 \<mapsto> 2, 2 \<mapsto> 1]\<rparr>,
       ms_mods = [2 \<mapsto> demo_modules ! 0]\<rparr>\<rparr>"

theorem pipeline_destroy_faults_witness: "pipeline_destroy True demo_built demo_os = Fault"
proof -
  have "store_rep (pp_head demo_built) (pp_modules demo_built) [(2, demo_modules ! 0)]"
    by (simp add: demo_built_def zero_pipeline_def store_rep_def is_list_def)
  then show ?thesis
    using pipeline_destroy_faults [of demo_built "[(2, demo_modules ! 0)]" True demo_os]
    by (simp add: demo_built_def zero_pipeline_def)
qed

subsection \<open>Building a pipeline from its description\<close>

text \<open>Descriptions in a line: the ids are the positions, each names its successor.\<close>

definition desc_line :: "module_desc list \<Rightarrow> bool" where
  "desc_line ds \<longleftrightarrow> (\<forall>i < length ds. md_id (ds ! i) = int i
     \<and> md_next (ds ! i) = (if Suc i < length ds then int (Suc i) else - 1))"

lemma add_descs_add_all:
  "length as = length ds \<Longrightarrow> add_descs l as (map Some ds) s = modules_add_all l (zip as ds) s"
proof (induction as ds arbitrary: s rule: list_induct2)
  case (Cons a as d ds)
  then show ?case by (cases s) simp
qed simp

lemma find_index:
  "k < length ms \<Longrightarrow> P (ms ! k) \<Longrightarrow> (\<And>j. j < k \<Longrightarrow> \<not> P (ms ! j)) \<Longrightarrow> find P ms = Some (ms ! k)"
proof (induction ms arbitrary: k)
  case (Cons x ms)
  show ?case
  proof (cases k)
    case (Suc j)
    have "\<not> P x" "\<And>i. i < j \<Longrightarrow> \<not> P (ms ! i)"
      using Cons.prems(3) [of 0] Cons.prems(3) [of "Suc i" for i] Suc by auto
    with Cons.IH [of j] Cons.prems(1,2) Suc show ?thesis by simp
  qed (use Cons.prems in simp)
qed simp

lemma resolve_line:
  assumes "desc_line ds" "length as = length ds"
  shows "resolve (map (\<lambda>(a, d). (a, new_module d)) (zip as ds)) i
    = (if 0 \<le> i \<and> i < int (length ds) then as ! nat i else NULL)"
proof (cases "0 \<le> i \<and> i < int (length ds)")
  case True
  let ?ms = "map (\<lambda>(a, d). (a, new_module d)) (zip as ds)"
  have m: "?ms ! j = (as ! j, new_module (ds ! j))" "mo_id (new_module (ds ! j)) = int j" if "j < length ds" for j
    using that assms by (simp_all add: desc_line_def new_module_def)
  obtain k where k: "i = int k" "k < length ds"
    using True by (metis nat_less_iff nat_0_le)
  then have "find (\<lambda>(a, m). mo_id m = i) ?ms = Some (?ms ! nat i)"
    by (intro find_index) (use m assms(2) in simp_all)
  with k assms(2) show ?thesis
    by (simp add: resolve_def)
next
  case False
  have "find (\<lambda>(a, m). mo_id m = i) (map (\<lambda>(a, d). (a, new_module d)) (zip as ds)) = None"
    using False assms by (auto simp: find_None_iff set_zip desc_line_def new_module_def)
  with False show ?thesis
    by (auto simp: resolve_def)
qed

definition linked_line :: "addr list \<Rightarrow> module_desc list \<Rightarrow> (addr \<times> pmodule) list" where
  "linked_line as ds = map (\<lambda>i. (as ! i, (new_module (ds ! i))\<lparr>mo_next :=
     (if Suc i < length ds then as ! Suc i else NULL)\<rparr>)) [0..<length ds]"

lemma link_line:
  assumes "desc_line ds" "length as = length ds" "NULL \<notin> set as"
  defines "ms \<equiv> map (\<lambda>(a, d). (a, new_module d)) (zip as ds)"
  shows "map (\<lambda>(a, m). (a, link_module (resolve ms) m)) ms = linked_line as ds"
    and "null_links (resolve ms) ms \<le> 1"
proof -
  have R: "resolve ms (module_next_id (new_module (ds ! i))) = (if Suc i < length ds then as ! Suc i else NULL)"
    if "i < length ds" for i
    using that assms(1) unfolding ms_def resolve_line [OF assms(1,2)]
    by (auto simp: desc_line_def module_next_id_def new_module_def nat_add_distrib)
  show "map (\<lambda>(a, m). (a, link_module (resolve ms) m)) ms = linked_line as ds"
    by (rule nth_equalityI) (use assms(2) R in \<open>simp_all add: linked_line_def link_module_def, simp_all add: ms_def\<close>)
  have "filter (\<lambda>(a, m). resolve ms (module_next_id m) = NULL) ms = drop (length ds - 1) ms"
  proof (cases "ds = []")
    case False
    have l: "length ms = length ds"
      using assms(2) by (simp add: ms_def)
    have "\<forall>x \<in> set (take (length ds - 1) ms). \<not> (\<lambda>(a, m). resolve ms (module_next_id m) = NULL) x"
    proof
      fix x
      assume "x \<in> set (take (length ds - 1) ms)"
      then obtain i where i: "i < length ds - 1" "x = ms ! i"
        using l by (auto simp: in_set_conv_nth)
      have lt: "i < length ds" "Suc i < length ds"
        using i(1) by simp_all
      then have "as ! Suc i \<noteq> NULL"
        using assms(2,3) nth_mem [of "Suc i" as] by metis
      moreover have "snd x = new_module (ds ! i)"
        using i(2) lt(1) assms(2) by (simp add: ms_def)
      ultimately show "\<not> (\<lambda>(a, m). resolve ms (module_next_id m) = NULL) x"
        using R [of i] lt by (simp add: split_beta)
    qed
    moreover have "\<forall>x \<in> set (drop (length ds - 1) ms). (\<lambda>(a, m). resolve ms (module_next_id m) = NULL) x"
    proof
      fix x
      assume "x \<in> set (drop (length ds - 1) ms)"
      then have "x = ms ! (length ds - 1)"
        using False l by (cases ds) (auto simp: in_set_conv_nth)
      then have "snd x = new_module (ds ! (length ds - 1))"
        using False assms(2) by (simp add: ms_def)
      with R [of "length ds - 1"] False show "(\<lambda>(a, m). resolve ms (module_next_id m) = NULL) x"
        by (cases x) auto
    qed
    ultimately have "filter (\<lambda>(a, m). resolve ms (module_next_id m) = NULL)
        (take (length ds - 1) ms @ drop (length ds - 1) ms) = drop (length ds - 1) ms"
      by (simp only: filter_append filter_False filter_True append_Nil)
    then show ?thesis
      by (simp only: append_take_drop_id)
  qed (simp add: ms_def)
  then show "null_links (resolve ms) ms \<le> 1"
    using assms(2) by (simp add: null_links_def, simp add: ms_def)
qed

text \<open>What \<open>pipeline_init\<close> asks of its description and of the system's answers.\<close>

definition desc_map :: "pipeline_desc \<Rightarrow> memory_map" where
  "desc_map d = memory_map_create (word_of_int (pd_proc_cnt d)) PROCESS_INFO_SIZE
     (word_of_int (pd_data_cnt d)) (word_of_int (size_to_int (pd_data_size d)))"

definition buildable :: "sys_answers \<Rightarrow> pipeline_desc \<Rightarrow> module_desc list \<Rightarrow> bool" where
  "buildable sy d ds \<longleftrightarrow> pd_mdescs d = map Some ds \<and> pd_modules_cnt d = int (length ds) \<and> length ds < 2 ^ 30
     \<and> desc_line ds \<and> (\<forall>md \<in> set ds. md_argv md \<noteq> None) \<and> layout_ok (desc_map d)
     \<and> length (sy_addrs sy) = length ds \<and> distinct (sy_head sy # sy_addrs sy) \<and> NULL \<notin> set (sy_head sy # sy_addrs sy)
     \<and> length (sy_pad1 sy) = 4 \<and> length (sy_pad2 sy) = 4"

lemma build_modules:
  assumes "buildable sy d ds"
  shows "\<exists>st. (do {
       h \<leftarrow> list_init (sy_head sy) (ms_heap (pp_modules (zero_pipeline (sy_head sy))));
       (cnt, st) \<leftarrow> add_descs (sy_head sy) (sy_addrs sy) (take (nat (pd_modules_cnt d)) (pd_mdescs d))
         (0, (pp_modules (zero_pipeline (sy_head sy)))\<lparr>ms_heap := h\<rparr>);
       (rc, st) \<leftarrow> pipeline_modules_update (sy_head sy) st;
       Some (rc, cnt, st) }) = Some (0, int (length ds), st)
    \<and> store_rep (sy_head sy) st (linked_line (sy_addrs sy) ds)"
proof -
  let ?h = "sy_head sy" and ?as = "sy_addrs sy"
  let ?ms = "map (\<lambda>(a, d). (a, new_module d)) (zip ?as ds)"
  have b: "length ?as = length ds" "distinct ?as" "?h \<notin> set ?as" "NULL \<notin> set ?as" "?h \<noteq> NULL" "desc_line ds"
    using assms by (auto simp: buildable_def)
  have "mapped (ms_heap (pp_modules (zero_pipeline ?h))) ?h"
    by (simp add: zero_pipeline_def mapped_def)
  then obtain h where h: "list_init ?h (ms_heap (pp_modules (zero_pipeline ?h))) = Some h" "is_list h ?h []"
    using list_init_is_list b(5) by blast
  let ?st = "(pp_modules (zero_pipeline ?h))\<lparr>ms_heap := h\<rparr>"
  have r0: "store_rep ?h ?st []"
    using h(2) by (simp add: store_rep_def)
  have fr: "\<forall>a \<in> fst ` set (zip ?as ds). a \<noteq> NULL \<and> a \<noteq> ?h \<and> ms_mods ?st a = None"
  proof
    fix a
    assume "a \<in> fst ` set (zip ?as ds)"
    then have "a \<in> set ?as"
      by (auto dest: set_zip_leftD)
    then have "a \<noteq> NULL" "a \<noteq> ?h"
      using b(3,4) by metis+
    then show "a \<noteq> NULL \<and> a \<noteq> ?h \<and> ms_mods ?st a = None"
      by (simp add: zero_pipeline_def)
  qed
  obtain st1 where st1: "modules_add_all ?h (zip ?as ds) (0, ?st) = Some (int (length ds), st1)"
    "store_rep ?h st1 ?ms"
    using modules_add_all_rep [OF r0 _ fr, of 0] b(1,2) assms by (auto simp: buildable_def)
  have "\<forall>(a, m) \<in> set ?ms. mo_mdesc m \<noteq> None"
    by (auto simp: new_module_def)
  then obtain st2 where st2: "pipeline_modules_update ?h st1 = Some (0, st2)"
    "store_rep ?h st2 (linked_line ?as ds)"
    using pipeline_modules_update_rep [OF st1(2)] link_line [OF b(6,1,4)] by auto
  have "add_descs ?h ?as (take (nat (pd_modules_cnt d)) (pd_mdescs d)) (0, ?st) = Some (int (length ds), st1)"
    using assms st1(1) add_descs_add_all [OF b(1)] by (simp add: buildable_def)
  with h(1) st2 show ?thesis by simp
qed

text \<open>
  Claim C7. \<open>pipeline_init\<close> on a description whose modules stand in a line builds the pipeline it describes:
  one module per description, in order, each linked to its successor and the last to none, with the
  thread its type asks for; the region of the shared memory exists under the description's path and
  holds the map; and the children will find path and size in the environment.
\<close>

theorem pipeline_init_builds:
  assumes "buildable sy d ds" "\<And>c. \<not> sy_fail sy c"
  shows "\<exists>pl os' shm bs. pipeline_init sy None (Some d) os = Done (0, Some pl, os')
    \<and> store_rep (sy_head sy) (pp_modules pl) (linked_line (sy_addrs sy) ds)
    \<and> pp_modules_cnt pl = int (length ds) \<and> pp_exit_flag pl = 0 \<and> pp_state pl = MD_STATE_UNKNOWN
    \<and> pp_shmem pl = Some shm \<and> os_names os' (snd (pd_shmpath d)) = Some shm
    \<and> os_objs os' shm = Some bs \<and> read_map bs = Some (desc_map d)
    \<and> os_env os' SHMEM_DATA_NAME_ENV = Some (snd (pd_shmpath d))
    \<and> os_env os' SHMEM_DATA_SIZE_ENV = Some (show_int (sint (memory_get_size (desc_map d))))"
proof -
  let ?path = "snd (pd_shmpath d)" and ?m = "desc_map d" and ?os = "shared_memory_unlink (snd (pd_shmpath d)) os"
  have o: "os_names ?os ?path = None"
    by (simp add: shared_memory_unlink_def shm_unlink_def)
  have bd: "layout_ok ?m" "length (sy_pad1 sy) = 4" "length (sy_pad2 sy) = 4"
    using assms(1) by (simp_all add: buildable_def)
  obtain os1 bs where s: "shared_memory_server_init (sy_fail sy) (sy_pad1 sy) (sy_pad2 sy) ?path ?m ?os
      = Done (Some (os_next ?os), os1)" "os_names os1 ?path = Some (os_next ?os)"
    "os_objs os1 (os_next ?os) = Some bs" "read_map bs = Some ?m"
    by (rule server_init_ok [OF bd(1) o assms(2) bd(2,3)])
  have "out_pipeline_description (Some d) \<noteq> None"
    using out_pipeline_description_iff [of d] assms(1) by (auto simp: buildable_def)
  then obtain t where t: "out_pipeline_description (Some d) = Some t" by auto
  obtain st where st: "(do {
       h \<leftarrow> list_init (sy_head sy) (ms_heap (pp_modules (zero_pipeline (sy_head sy))));
       (cnt, st) \<leftarrow> add_descs (sy_head sy) (sy_addrs sy) (take (nat (pd_modules_cnt d)) (pd_mdescs d))
         (0, (pp_modules (zero_pipeline (sy_head sy)))\<lparr>ms_heap := h\<rparr>);
       (rc, st) \<leftarrow> pipeline_modules_update (sy_head sy) st;
       Some (rc, cnt, st) }) = Some (0, int (length ds), st)"
    "store_rep (sy_head sy) st (linked_line (sy_addrs sy) ds)"
    using build_modules [OF assms(1)] by blast
  have z: "pp_head (zero_pipeline h) = h" "pp_modules_cnt (zero_pipeline h) = 0" for h
    by (simp_all add: zero_pipeline_def)
  from st(1) obtain h cnt st1 where m: "list_init (sy_head sy) (ms_heap (pp_modules (zero_pipeline (sy_head sy)))) = Some h"
     "add_descs (sy_head sy) (sy_addrs sy) (take (nat (pd_modules_cnt d)) (pd_mdescs d))
         (0, (pp_modules (zero_pipeline (sy_head sy)))\<lparr>ms_heap := h\<rparr>) = Some (int (length ds), st1)"
     "pipeline_modules_update (sy_head sy) st1 = Some (0, st)"
    by (auto simp: bind_eq_Some_conv)
  have i: "\<exists>pl. pipeline_init sy None (Some d) os = Done (0, Some pl,
        setenv SHMEM_DATA_SIZE_ENV (show_int (sint (memory_get_size ?m))) (setenv SHMEM_DATA_NAME_ENV ?path os1))
    \<and> pp_modules pl = st \<and> pp_modules_cnt pl = int (length ds) \<and> pp_exit_flag pl = 0
    \<and> pp_state pl = MD_STATE_UNKNOWN \<and> pp_shmem pl = Some (os_next ?os)"
    using s(1) m by (simp add: pipeline_init_def t z Let_def desc_map_def [symmetric]
        shared_memory_setenv_def assms(2))
  then show ?thesis
    using s st(2) by (fastforce simp: setenv_def SHMEM_DATA_NAME_ENV_def SHMEM_DATA_SIZE_ENV_def)
qed

definition demo_mem :: mem where "demo_mem = \<lparr>mem_live = [], mem_next = 10\<rparr>"

definition demo_answers :: sys_answers where
  "demo_answers = \<lparr>sy_fail = \<lambda>_. False, sy_pad1 = [0, 0, 0, 0], sy_pad2 = [0, 0, 0, 0], sy_head = 1,
     sy_addrs = [2, 3, 4], sy_thread_ok = True\<rparr>"

definition minimal_desc :: "pipeline_desc \<times> mem" where
  "minimal_desc = the (create_minimal_pipeline_description None demo_mem)"

definition minimal_modules :: "module_desc list" where
  "minimal_modules = map the (pd_mdescs (fst minimal_desc))"

lemma minimal_buildable: "buildable demo_answers (fst minimal_desc) minimal_modules"
proof -
  obtain d m where d: "create_minimal_pipeline_description None demo_mem = Some (d, m)"
    "pd_modules_cnt d = 3" "pd_proc_cnt d = 4" "pd_data_cnt d = 512" "pd_data_size d = 256"
    "\<exists>x y z. pd_mdescs d = [Some x, Some y, Some z] \<and> md_id x = 0 \<and> md_id y = 1 \<and> md_id z = 2
      \<and> md_next x = 1 \<and> md_next y = 2 \<and> md_next z = - 1
      \<and> md_argv x \<noteq> None \<and> md_argv y \<noteq> None \<and> md_argv z \<noteq> None"
    by (simp add: create_defs demo_mem_def numeral_2_eq_2 numeral_3_eq_3)
  then have m: "fst minimal_desc = d"
    by (simp add: minimal_desc_def)
  from d(6) obtain x y z where x: "pd_mdescs d = [Some x, Some y, Some z]" "md_id x = 0" "md_id y = 1" "md_id z = 2"
     "md_next x = 1" "md_next y = 2" "md_next z = - 1" "md_argv x \<noteq> None" "md_argv y \<noteq> None" "md_argv z \<noteq> None"
    by blast
  have l: "layout_ok (desc_map d)"
    by (simp add: desc_map_def memory_map_create_def d size_to_int_def layout_ok_def PROCESS_INFO_SIZE_def)
  have "desc_line [x, y, z]"
    using x by (auto simp: desc_line_def less_Suc_eq)
  with x l d(2) show ?thesis
    by (auto simp: buildable_def minimal_modules_def m demo_answers_def)
qed

theorem pipeline_init_builds_witness:
  "\<exists>pl demo_os'. pipeline_init demo_answers None (Some (fst minimal_desc)) demo_os = Done (0, Some pl, demo_os')
     \<and> pp_modules_cnt pl = int (length minimal_modules)"
  using pipeline_init_builds [OF minimal_buildable, of demo_os] by (auto simp: demo_answers_def)

text \<open>
  The \<open>empty\<close> description, which \<open>create_pipeline_description\<close> builds without an error, cannot be
  used: \<open>pipeline_init\<close> prints it first, and the printing of the initial module dereferences its NULL
  argument vector.
\<close>

theorem pipeline_init_empty_faults:
  assumes "create_pipeline_description ''empty'' None m = Some (Some d, m')"
  shows "pipeline_init sy p (Some d) os = Fault"
proof -
  obtain d' m'' where e: "create_pipeline_description ''empty'' None m = Some (Some d', m'')"
    "pd_modules_cnt d' = int (length (pd_mdescs d'))" "desc_keys d' =
       [Some (0, MT_FIRST, MT_MODE_INTERNAL, 1, None), Some (1, MT_LAST, MT_MODE_INTERNAL, - 1, Some [])]"
    using empty_description by blast
  then have [simp]: "d' = d"
    using assms by simp
  from e(3) obtain md r where "pd_mdescs d = Some md # r" "md_argv md = None"
    by (auto simp: desc_keys_def module_key_def)
  then have "out_pipeline_description (Some d) = None"
    using out_pipeline_description_iff [of d] e(2) by auto
  then show ?thesis
    by (simp add: pipeline_init_def Let_def)
qed

theorem pipeline_init_empty_faults_witness:
  "\<exists>d. pipeline_init demo_answers None (Some d) demo_os = Fault"
proof -
  obtain d m' where "create_pipeline_description ''empty'' None demo_mem = Some (Some d, m')"
    using empty_description [of demo_mem] by blast
  from pipeline_init_empty_faults [OF this] show ?thesis by blast
qed

end
