(* ===== verification/Command_Server.thy ===== *)
theory Command_Server imports C_Buffer Ring_Buffer Pipeline_Config Pipeline_Server begin

section \<open>The command server (tcp/src/command_server.c)\<close>

text \<open>
  Requests are put into a ring by the threads that read the network and are executed one after the other by
  the command thread. The state is the static variables of the file (\<open>cmd_ring\<close>, \<open>command_ready\<close>, which
  starts as zeroed memory, and \<open>pl\<close>), the commands that are allocated, and what the execution changes.
  The answers of the system are in \<open>api_env\<close>, one for every command that is executed. An exception that
  leaves the configuration parser ends the program; it counts as a fault.
\<close>

definition COMMAND_QUEUE_SIZE :: int where "COMMAND_QUEUE_SIZE = 20"
definition COMMAND_BUF_LEN :: nat where "COMMAND_BUF_LEN = 512"

record command =
  cc_fd :: int
  cc_full :: string
  cc_with_reply :: int
  cc_reply :: string

definition zero_command :: command where
  "zero_command = \<lparr>cc_fd = 0, cc_full = replicate COMMAND_BUF_LEN NUL, cc_with_reply = 0,
     cc_reply = replicate COMMAND_BUF_LEN NUL\<rparr>"

record api_state =
  ap_pl :: "pipeline option"
  ap_exit_flag :: int
  ap_os :: os
  ap_mem :: mem

record api_env =
  ae_main_done :: bool
  ae_logic :: bool
  ae_usable :: "nat \<Rightarrow> nat"
  ae_mode :: mt_mode
  ae_files :: "string \<Rightarrow> json_file"
  ae_answers :: sys_answers

record command_server =
  cs_ring :: "ring option"
  cs_ready :: nat
  cs_commands :: "addr \<Rightarrow> command option"
  cs_api :: api_state

subsection \<open>Executing a command\<close>

definition is_stop :: "string \<Rightarrow> bool" where
  "is_stop s \<longleftrightarrow> str_case_eq s (''STOP'' @ [NL]) \<or> str_case_eq s (''S'' @ [NL]) \<or> str_case_eq s ''STOP'' \<or> str_case_eq s ''S''"

definition is_init :: "string \<Rightarrow> bool" where
  "is_init s \<longleftrightarrow> str_case_eq s (''INIT'' @ [NL]) \<or> str_case_eq s (''I'' @ [NL]) \<or> str_case_eq s ''INIT'' \<or> str_case_eq s ''I''"

text \<open>\<open>cmd\<close> is the whole array: the name of the file is what stands behind its first seven bytes.\<close>

definition executeAPICommand :: "api_env \<Rightarrow> string \<Rightarrow> api_state \<Rightarrow> (int \<times> api_state) run" where
  "executeAPICommand e cmd st = (case cstr cmd of None \<Rightarrow> Fault | Some s \<Rightarrow>
     if is_stop s then
       (let st = st\<lparr>ap_exit_flag := 1\<rparr>
        in case ap_pl st of
             None \<Rightarrow> Done (0, st)
           | Some pl \<Rightarrow> bind_run (pipeline_destroy (ae_main_done e) pl (ap_os st))
               (\<lambda>(_, os). Done (0, st\<lparr>ap_pl := None, ap_os := os\<rparr>)))
     else if is_init s then Done (0, st)
     else if strcasestr s ''CONFIG'' \<noteq> None then
       (case cstr (drop (length ''CONFIG:'') cmd) of None \<Rightarrow> Fault | Some path \<Rightarrow>
         (case read_pipeline_configuration (ae_logic e) (ae_usable e) (ae_mode e) (Some path) (ae_files e) (ap_mem st) of
            Fine (_, pdesc, m) \<Rightarrow> bind_run (pipeline_init (ae_answers e) (ap_pl st) pdesc (ap_os st))
              (\<lambda>(_, pl, os). Done (0, st\<lparr>ap_pl := pl, ap_os := os, ap_mem := m\<rparr>))
          | _ \<Rightarrow> Fault))
     else Done (- 1, st))"

subsection \<open>The queue\<close>

text \<open>
  \<open>strlen(full_command - 1)\<close> starts at the last byte of \<open>fd\<close>, which lies in front of the text. Index
  \<open>n - 1\<close> of the text is index \<open>n\<close> of the bytes from there.
\<close>

definition fd_last_byte :: "int \<Rightarrow> char" where
  "fd_last_byte fd = char_of (nat (fd mod 2 ^ 32) div 2 ^ 24)"

definition strip_newline :: "command \<Rightarrow> command option" where
  "strip_newline c = (let bytes = fd_last_byte (cc_fd c) # cc_full c in do {
     s \<leftarrow> cstr bytes;
     let n = length s;
     Some (if bytes ! n = NL then c\<lparr>cc_full := tl (bytes[n := NUL])\<rparr> else c) })"

text \<open>\<open>a\<close> is the block \<open>malloc\<close> returns; NULL is written through by \<open>memset\<close>.\<close>

definition push_new_command :: "addr \<Rightarrow> int \<Rightarrow> string \<Rightarrow> command_server \<Rightarrow> command_server run" where
  "push_new_command a fd request st =
     (if a = NULL then Fault
      else bind_run (run_of (do {
          full \<leftarrow> strcpy_to 0 request (cc_full zero_command);
          c \<leftarrow> strip_newline (zero_command\<lparr>cc_full := full\<rparr>);
          r \<leftarrow> cs_ring st;
          Some (c\<lparr>cc_fd := fd\<rparr>, r) })) (\<lambda>(c, r).
        bind_run (ring_buffer_push r (of_nat a)) (\<lambda>r.
          Done (st\<lparr>cs_ring := Some r, cs_ready := sem_post (cs_ready st), cs_commands := (cs_commands st)(a \<mapsto> c)\<rparr>))))"

definition pop_next_command :: "command_server \<Rightarrow> (addr \<times> command_server) run" where
  "pop_next_command st = (case sem_wait (cs_ready st) of
     None \<Rightarrow> Blocked
   | Some n \<Rightarrow> (case cs_ring st of None \<Rightarrow> Fault
     | Some r \<Rightarrow> bind_run (ring_buffer_pop r) (\<lambda>(v, r). Done (unat v, st\<lparr>cs_ring := Some r, cs_ready := n\<rparr>))))"

text \<open>
  One turn of the thread: the requests other threads have put in since the last one, and the environment in
  which the command is executed. The result tells whether the thread has left its loop.
\<close>

fun push_texts :: "(addr \<times> int \<times> string) list \<Rightarrow> command_server \<Rightarrow> command_server run" where
  "push_texts [] st = Done st"
| "push_texts ((a, fd, req) # rs) st = bind_run (push_new_command a fd req st) (push_texts rs)"

definition command_turn :: "api_env \<Rightarrow> command_server \<Rightarrow> command_server run" where
  "command_turn e st = bind_run (pop_next_command st) (\<lambda>(a, st).
     if a = NULL then Done st
     else case cs_commands st a of None \<Rightarrow> Fault
       | Some c \<Rightarrow> bind_run (executeAPICommand e (cc_full c) (cs_api st))
           (\<lambda>(_, ap). Done (st\<lparr>cs_commands := (cs_commands st)(a := None), cs_api := ap\<rparr>)))"

fun command_thread :: "((addr \<times> int \<times> string) list \<times> api_env) list \<Rightarrow> command_server \<Rightarrow> (bool \<times> command_server) run" where
  "command_thread ts st =
     (if ap_exit_flag (cs_api st) \<noteq> 0 then Done (True, st)
      else case ts of [] \<Rightarrow> Done (False, st)
        | (rs, e) # ts \<Rightarrow> bind_run (push_texts rs st) (\<lambda>st. bind_run (command_turn e st) (command_thread ts)))"

declare command_thread.simps [simp del]

subsection \<open>Beginning and end\<close>

text \<open>The ring is created with \<open>empty = 0\<close>, that is full. Without a ring the exit flag is set.\<close>

definition command_server_init :: "bool \<Rightarrow> bool \<Rightarrow> command_server \<Rightarrow> (bool \<times> command_server)" where
  "command_server_init alloc sem_ok st = (case ring_buffer_create alloc sem_ok COMMAND_QUEUE_SIZE False of
     None \<Rightarrow> (False, st\<lparr>cs_ring := None, cs_api := (cs_api st)\<lparr>ap_exit_flag := 1\<rparr>\<rparr>)
   | Some r \<Rightarrow> (True, st\<lparr>cs_ring := Some r\<rparr>))"

text \<open>
  The last command wakes a thread that waits in \<open>pop_next_command\<close>, which then executes what it finds; a
  thread that is not there (\<open>parked\<close> false) reads the flag and ends. The join waits for it.
\<close>

definition command_server_destroy :: "addr \<Rightarrow> bool \<Rightarrow> api_env \<Rightarrow> command_server \<Rightarrow> command_server run" where
  "command_server_destroy a parked e st =
     (let st = st\<lparr>cs_api := (cs_api st)\<lparr>ap_exit_flag := 1\<rparr>\<rparr>
      in bind_run (push_new_command a 0 (''STOP'' @ [NL]) st) (\<lambda>st.
        bind_run (if parked then command_turn e st else Done st) (\<lambda>st. Done (st\<lparr>cs_ring := None\<rparr>))))"

subsection \<open>The queue is in order\<close>

text \<open>
  The ring stands for the commands that wait: it always holds twenty entries more than that, so that the
  next value is stored behind the waiting ones only up to the end of the array.
\<close>

definition queue_rep :: "command_server \<Rightarrow> nat \<Rightarrow> addr list \<Rightarrow> bool" where
  "queue_rep st k q \<longleftrightarrow> k < 20 \<and> k + length q \<le> 20 \<and> cs_ready st = length q \<and> (\<exists>r. cs_ring st = Some r
     \<and> rg_max r = 20 \<and> rg_start r = int k \<and> rg_used r = int (20 + length q) \<and> rg_sem r = 20 + length q
     \<and> length (rg_buf r) = 20 \<and> (\<forall>i < length q. q ! i < 2 ^ 64 \<and> rg_buf r ! (k + i) = of_nat (q ! i)))"

definition stored_command :: "int \<Rightarrow> string \<Rightarrow> command" where
  "stored_command fd req = zero_command\<lparr>cc_fd := fd, cc_full := req @ replicate (COMMAND_BUF_LEN - length req) NUL\<rparr>"

lemma newline_kept: "strip_newline c = (if NUL \<in> set (fd_last_byte (cc_fd c) # cc_full c) then Some c else None)"
proof -
  have "(xs @ NUL # r) ! length xs \<noteq> NL" for xs r
    by (simp add: nth_append)
  then show ?thesis
    using cstr_None_iff [of "fd_last_byte (cc_fd c) # cc_full c"]
    by (cases "cstr (fd_last_byte (cc_fd c) # cc_full c)") (auto simp: strip_newline_def Let_def cstr_split)
qed

lemma push_fields:
  assumes "a \<noteq> NULL" "length req < COMMAND_BUF_LEN" "cs_ring st = Some r"
  shows "push_new_command a fd req st = bind_run (ring_buffer_push r (of_nat a)) (\<lambda>r.
    Done (st\<lparr>cs_ring := Some r, cs_ready := Suc (cs_ready st), cs_commands := (cs_commands st)(a \<mapsto> stored_command fd req)\<rparr>))"
proof -
  have "strcpy_to 0 req (cc_full zero_command) = Some (req @ replicate (COMMAND_BUF_LEN - length req) NUL)"
    using assms(2) by (simp add: strcpy_to_0 zero_command_def Suc_diff_Suc flip: replicate_Suc)
  then show ?thesis
    using assms by (simp add: push_new_command_def newline_kept sem_post_def stored_command_def zero_command_def)
qed

lemma push_too_long: "COMMAND_BUF_LEN \<le> length req \<Longrightarrow> push_new_command a fd req st = Fault"
  by (simp add: push_new_command_def zero_command_def strcpy_to_0_None)

lemma queue_push:
  assumes "queue_rep st k q" "a \<noteq> NULL" "a < 2 ^ 64" "length req < COMMAND_BUF_LEN" "k + length q < 20"
  shows "\<exists>r. push_new_command a fd req st = Done (st\<lparr>cs_ring := Some r, cs_ready := Suc (cs_ready st),
      cs_commands := (cs_commands st)(a \<mapsto> stored_command fd req)\<rparr>)
    \<and> queue_rep (st\<lparr>cs_ring := Some r, cs_ready := Suc (cs_ready st), cs_commands := (cs_commands st)(a \<mapsto> stored_command fd req)\<rparr>) k (q @ [a])"
proof -
  obtain r where r: "cs_ring st = Some r" "rg_max r = 20" "rg_start r = int k" "rg_used r = int (20 + length q)"
    "rg_sem r = 20 + length q" "length (rg_buf r) = 20" "\<forall>i < length q. q ! i < 2 ^ 64 \<and> rg_buf r ! (k + i) = of_nat (q ! i)"
    using assms(1) by (auto simp: queue_rep_def)
  have "ring_buffer_push r (of_nat a) = Done (r\<lparr>rg_used := int (20 + Suc (length q)),
      rg_buf := (rg_buf r)[k + length q := of_nat a], rg_sem := Suc (rg_sem r)\<rparr>)"
    using ring_push_full [of r 20 k "length q"] r assms(1,5) by (simp add: queue_rep_def)
  then show ?thesis
    using assms r by (auto simp: push_fields queue_rep_def nth_append nth_list_update less_Suc_eq)
qed

lemma queue_push_full:
  assumes "queue_rep st k q" "20 \<le> k + length q" "length req < COMMAND_BUF_LEN"
  shows "push_new_command a fd req st = Fault"
proof (cases "a = NULL")
  case True
  then show ?thesis by (simp add: push_new_command_def)
next
  case False
  obtain r where r: "cs_ring st = Some r" "rg_max r = 20" "rg_start r = int k" "rg_used r = int (20 + length q)"
    "length (rg_buf r) = 20"
    using assms(1) by (auto simp: queue_rep_def)
  then show ?thesis
    using assms False ring_push_overflow [of r 20 k "length q"] by (simp add: push_fields)
qed

lemma queue_pop:
  assumes "queue_rep st k (a # q)"
  shows "\<exists>r. pop_next_command st = Done (a, st\<lparr>cs_ring := Some r, cs_ready := length q\<rparr>)
    \<and> queue_rep (st\<lparr>cs_ring := Some r, cs_ready := length q\<rparr>) (if k = 19 then 0 else Suc k) q"
proof -
  obtain r where r: "cs_ring st = Some r" "rg_max r = 20" "rg_start r = int k" "rg_used r = int (20 + Suc (length q))"
    "rg_sem r = 20 + Suc (length q)" "length (rg_buf r) = 20"
    "\<forall>i < Suc (length q). (a # q) ! i < 2 ^ 64 \<and> rg_buf r ! (k + i) = of_nat ((a # q) ! i)"
    "cs_ready st = Suc (length q)" "k < 20" "k + Suc (length q) \<le> 20"
    using assms by (auto simp: queue_rep_def)
  have a: "a < 2 ^ 64" "rg_buf r ! k = of_nat a"
    using r(7) by force+
  have q: "q ! i < 2 ^ 64 \<and> rg_buf r ! (Suc k + i) = of_nat (q ! i)" if "i < length q" for i
    using r(7) that by (metis Suc_less_eq add_Suc_shift nth_Cons_Suc)
  let ?r = "r\<lparr>rg_sem := 20 + length q, rg_start := (if k = 19 then 0 else int (Suc k)), rg_used := int (20 + length q)\<rparr>"
  have "ring_buffer_pop r = Done (of_nat a, ?r)"
    using r(2-6,9,10) a arr_get_nat [of k "rg_buf r"] sem_wait_Suc [of "20 + length q"] by (simp add: ring_buffer_pop_def)
  moreover have "unat (of_nat a :: u64) = a"
    using a by (simp add: unat_of_nat)
  ultimately have p: "pop_next_command st = Done (a, st\<lparr>cs_ring := Some ?r, cs_ready := length q\<rparr>)"
    using r(1,8) by (simp add: pop_next_command_def)
  have "queue_rep (st\<lparr>cs_ring := Some ?r, cs_ready := length q\<rparr>) (if k = 19 then 0 else Suc k) q"
    using r q by (auto simp: queue_rep_def)
  with p show ?thesis by blast
qed

subsection \<open>The thread\<close>

text \<open>What executing the texts one after the other does, until one sets the exit flag.\<close>

fun exec_all :: "(string \<times> api_env) list \<Rightarrow> api_state \<Rightarrow> (bool \<times> api_state) run" where
  "exec_all xs ap = (if ap_exit_flag ap \<noteq> 0 then Done (True, ap)
     else case xs of [] \<Rightarrow> Done (False, ap)
       | (s, e) # xs \<Rightarrow> bind_run (executeAPICommand e s ap) (\<lambda>(_, ap). exec_all xs ap))"

declare exec_all.simps [simp del]

definition text_of :: "string \<Rightarrow> string" where
  "text_of req = req @ replicate (COMMAND_BUF_LEN - length req) NUL"

lemma turn_idle:
  assumes "queue_rep st k []" "a \<noteq> NULL" "a < 2 ^ 64" "length req < COMMAND_BUF_LEN"
  shows "\<exists>st'. bind_run (push_texts [(a, fd, req)] st) (\<lambda>st. bind_run (command_turn e st) f)
      = bind_run (executeAPICommand e (text_of req) (cs_api st)) (\<lambda>(_, ap). f (st'\<lparr>cs_api := ap\<rparr>))
    \<and> (\<forall>ap. queue_rep (st'\<lparr>cs_api := ap\<rparr>) (if k = 19 then 0 else Suc k) [])"
proof -
  have k: "k + length [] < 20"
    using assms(1) by (auto simp: queue_rep_def)
  obtain st1 r where r: "push_new_command a fd req st = Done st1" "queue_rep st1 k [a]"
    and st1: "st1 = st\<lparr>cs_ring := Some r, cs_ready := Suc (cs_ready st), cs_commands := (cs_commands st)(a \<mapsto> stored_command fd req)\<rparr>"
    using queue_push [OF assms(1-4) k, of fd] by auto
  obtain r' where r': "pop_next_command st1 = Done (a, st1\<lparr>cs_ring := Some r', cs_ready := 0\<rparr>)"
    "queue_rep (st1\<lparr>cs_ring := Some r', cs_ready := 0\<rparr>) (if k = 19 then 0 else Suc k) []"
    using queue_pop [OF r(2)] by auto
  have full: "cc_full (stored_command fd req) = text_of req"
    by (simp add: stored_command_def text_of_def)
  let ?st' = "st\<lparr>cs_ring := Some r', cs_ready := 0, cs_commands := (cs_commands st)(a := None)\<rparr>"
  have "command_turn e st1 = bind_run (executeAPICommand e (text_of req) (cs_api st)) (\<lambda>(_, ap). Done (?st'\<lparr>cs_api := ap\<rparr>))"
    using assms(2) r'(1) full st1 by (simp add: command_turn_def)
  then have "bind_run (push_texts [(a, fd, req)] st) (\<lambda>st. bind_run (command_turn e st) f)
      = bind_run (executeAPICommand e (text_of req) (cs_api st)) (\<lambda>(_, ap). f (?st'\<lparr>cs_api := ap\<rparr>))"
    using r(1) by (cases "executeAPICommand e (text_of req) (cs_api st)") (auto simp: split_beta)
  moreover have "queue_rep (?st'\<lparr>cs_api := ap\<rparr>) (if k = 19 then 0 else Suc k) []" for ap
    using r'(2) st1 by (auto simp: queue_rep_def)
  ultimately show ?thesis by blast
qed

lemma thread_one_by_one:
  assumes "queue_rep st k []" "\<forall>(a, fd, req, e) \<in> set ts. a \<noteq> NULL \<and> a < 2 ^ 64 \<and> length req < COMMAND_BUF_LEN"
  shows "bind_run (command_thread (map (\<lambda>(a, fd, req, e). ([(a, fd, req)], e)) ts) st) (\<lambda>(ended, st). Done (ended, cs_api st))
    = exec_all (map (\<lambda>(a, fd, req, e). (text_of req, e)) ts) (cs_api st)"
  using assms
proof (induction ts arbitrary: st k)
  case Nil
  then show ?case by (simp add: command_thread.simps exec_all.simps)
next
  case (Cons t ts)
  obtain a fd req e where t: "t = (a, fd, req, e)"
    by (cases t)
  show ?case
  proof (cases "ap_exit_flag (cs_api st) = 0")
    case True
    let ?f = "command_thread (map (\<lambda>(a, fd, req, e). ([(a, fd, req)], e)) ts)"
    obtain st' where st': "bind_run (push_texts [(a, fd, req)] st) (\<lambda>st. bind_run (command_turn e st) ?f)
        = bind_run (executeAPICommand e (text_of req) (cs_api st)) (\<lambda>(_, ap). ?f (st'\<lparr>cs_api := ap\<rparr>))"
      "\<And>ap. queue_rep (st'\<lparr>cs_api := ap\<rparr>) (if k = 19 then 0 else Suc k) []"
      using turn_idle [OF Cons.prems(1), of a req fd e ?f] Cons.prems(2) t by auto
    have "bind_run (?f (st'\<lparr>cs_api := ap\<rparr>)) (\<lambda>(ended, st). Done (ended, cs_api st))
        = exec_all (map (\<lambda>(a, fd, req, e). (text_of req, e)) ts) ap" for ap
      using Cons.IH [OF st'(2) [of ap]] Cons.prems(2) by simp
    then show ?thesis
      using True t st'(1) by (subst command_thread.simps, subst exec_all.simps)
        (cases "executeAPICommand e (text_of req) (cs_api st)", auto simp: split_beta)
  qed (simp add: command_thread.simps exec_all.simps)
qed

lemma init_queue: "cs_ready st = 0 \<Longrightarrow> \<exists>st'. command_server_init True True st = (True, st') \<and> queue_rep st' 0 []
    \<and> cs_api st' = cs_api st"
  by (auto simp: command_server_init_def ring_buffer_create_def COMMAND_QUEUE_SIZE_def queue_rep_def Let_def)

subsection \<open>Properties\<close>

text \<open>
  Claim C16. Commands that arrive one at a time are executed completely and in the order of their arrival, any
  number of them: the thread does what executing their texts one after the other does, up to the command that sets the
  exit flag, although the ring of commands is made full and not empty.
\<close>

theorem commands_in_order:
  assumes "cs_ready st = 0" "command_server_init True True st = (ok, st')"
    and "\<forall>(a, fd, req, e) \<in> set ts. a \<noteq> NULL \<and> a < 2 ^ 64 \<and> length req < COMMAND_BUF_LEN"
  shows "ok \<and> bind_run (command_thread (map (\<lambda>(a, fd, req, e). ([(a, fd, req)], e)) ts) st') (\<lambda>(ended, st). Done (ended, cs_api st))
    = exec_all (map (\<lambda>(a, fd, req, e). (text_of req, e)) ts) (cs_api st)"
  using init_queue [OF assms(1)] thread_one_by_one [of st' 0 ts] assms(2,3) by auto

definition demo_command_server :: command_server where
  "demo_command_server = \<lparr>cs_ring = None, cs_ready = 0, cs_commands = \<lambda>_. None,
     cs_api = \<lparr>ap_pl = None, ap_exit_flag = 0, ap_os = demo_os, ap_mem = demo_mem\<rparr>\<rparr>"

definition demo_env :: api_env where
  "demo_env = \<lparr>ae_main_done = True, ae_logic = True, ae_usable = \<lambda>n. n + 8, ae_mode = MT_MODE_INTERNAL,
     ae_files = \<lambda>_. No_file, ae_answers = demo_answers\<rparr>"

theorem commands_in_order_witness:
  "\<exists>st'. command_server_init True True demo_command_server = (True, st')
     \<and> (\<exists>ap. bind_run (command_thread [([(7, 3, ''hello'')], demo_env), ([(8, 3, ''stop'')], demo_env), ([(9, 3, ''never'')], demo_env)] st')
         (\<lambda>(ended, st). Done (ended, cs_api st)) = Done (True, ap) \<and> ap_exit_flag ap = 1)"
proof -
  obtain st' where st': "command_server_init True True demo_command_server = (True, st')"
    using init_queue [of demo_command_server] by (auto simp: demo_command_server_def)
  have e: "executeAPICommand demo_env (text_of ''hello'') ap = Done (- 1, ap)"
    "ap_pl ap = None \<Longrightarrow> executeAPICommand demo_env (text_of ''stop'') ap = Done (0, ap\<lparr>ap_exit_flag := 1\<rparr>)" for ap
    by (simp_all add: executeAPICommand_def text_of_def COMMAND_BUF_LEN_def cstr_def NUL_def NL_def is_stop_def is_init_def
        str_case_eq_def strcasestr_code takeWhile_append)
  show ?thesis
    using commands_in_order [OF _ st', of "[(7, 3, ''hello'', demo_env), (8, 3, ''stop'', demo_env), (9, 3, ''never'', demo_env)]"] st' e
    by (simp add: demo_command_server_def COMMAND_BUF_LEN_def exec_all.simps)
qed

text \<open>
  With \<open>q\<close> the commands that wait and \<open>k\<close> the start of the ring, one more command is stored behind the
  others while \<open>k\<close> and their number stay inside the twenty entries. The next one is written outside the
  ring, and so is the text of a command that does not fit: two waiting commands are enough.
\<close>

theorem command_push_cases:
  assumes "queue_rep st k q" "a \<noteq> NULL" "a < 2 ^ 64"
  shows "if length req < COMMAND_BUF_LEN \<and> k + length q < 20
    then \<exists>st'. push_new_command a fd req st = Done st' \<and> queue_rep st' k (q @ [a])
      \<and> cs_commands st' = (cs_commands st)(a \<mapsto> stored_command fd req)
    else push_new_command a fd req st = Fault"
proof (cases "length req < COMMAND_BUF_LEN \<and> k + length q < 20")
  case True
  then show ?thesis
    using queue_push [OF assms(1-3), of req fd] by force
next
  case False
  then show ?thesis
    using queue_push_full [OF assms(1), of req a fd] push_too_long [of req a fd st]
    by (cases "length req < COMMAND_BUF_LEN") auto
qed

definition demo_last_slot :: command_server where
  "demo_last_slot = demo_command_server\<lparr>cs_ring := Some \<lparr>rg_max = 20, rg_used = 21, rg_start = 19, rg_sem = 21,
     rg_buf = replicate 19 0 @ [7]\<rparr>, cs_ready := 1\<rparr>"

theorem command_push_cases_witness: "push_new_command 8 3 ''stop'' demo_last_slot = Fault"
proof -
  have "queue_rep demo_last_slot 19 [7]"
    by (simp add: queue_rep_def demo_last_slot_def nth_append)
  from command_push_cases [OF this, of 8 "''stop''" 3] show ?thesis
    by simp
qed

end
