(* ===== verification/Connection.thy ===== *)
theory Connection imports C_Buffer Intrusive_List begin

section \<open>Connections (tcp/connection.h, connection.c)\<close>

text \<open>
  A \<open>struct connection\<close> is a record, stored at the address of its list node, which is its first
  member. \<open>net\<close> is what the owner of a list of connections (a server or a client) shares with the
  functions here: the heap of nodes, the records, the counter, and what the system was asked to do
  with descriptors: closed ones, those registered with epoll together with \<open>data.ptr\<close>, and the texts
  written. \<open>size_t\<close> offsets into the buffers are naturals, as they stay below the buffer's size.
\<close>

definition MAX_MSG_LEN :: nat where "MAX_MSG_LEN = 512"
definition NI_MAXHOST :: nat where "NI_MAXHOST = 1025"
definition NI_MAXSERV :: nat where "NI_MAXSERV = 32"

record conn =
  cn_broken :: int
  cn_host :: string
  cn_service :: string
  cn_fd :: int
  cn_epoll_fd :: int
  cn_buffer_size :: nat
  cn_offset :: nat
  cn_buffer :: string
  cn_request :: string
  cn_request_used :: nat
  cn_reply :: string
  cn_reply_used :: nat

definition zero_conn :: conn where
  "zero_conn = \<lparr>cn_broken = 0, cn_host = replicate NI_MAXHOST NUL, cn_service = replicate NI_MAXSERV NUL,
     cn_fd = 0, cn_epoll_fd = 0, cn_buffer_size = 0, cn_offset = 0,
     cn_buffer = replicate (MAX_MSG_LEN + 1) NUL, cn_request = replicate (MAX_MSG_LEN + 1) NUL, cn_request_used = 0,
     cn_reply = replicate (MAX_MSG_LEN + 1) NUL, cn_reply_used = 0\<rparr>"

record net =
  nt_heap :: list_heap
  nt_conns :: "addr \<Rightarrow> conn option"
  nt_cnt :: int
  nt_closed :: "int list"
  nt_epoll :: "(int \<times> addr) list"
  nt_sent :: "(int \<times> string) list"

definition close_fd :: "int \<Rightarrow> net \<Rightarrow> net" where
  "close_fd fd nt = nt\<lparr>nt_closed := nt_closed nt @ [fd], nt_epoll := filter (\<lambda>(f, _). f \<noteq> fd) (nt_epoll nt)\<rparr>"

definition write_fd :: "int \<Rightarrow> string \<Rightarrow> net \<Rightarrow> net" where
  "write_fd fd s nt = nt\<lparr>nt_sent := nt_sent nt @ [(fd, s)]\<rparr>"

definition upd_conn :: "addr \<Rightarrow> (conn \<Rightarrow> conn option) \<Rightarrow> net \<Rightarrow> net option" where
  "upd_conn a f nt = do { c \<leftarrow> nt_conns nt a; c \<leftarrow> f c; Some (nt\<lparr>nt_conns := (nt_conns nt)(a \<mapsto> c)\<rparr>) }"

text \<open>\<open>a\<close> is the answer of \<open>malloc\<close>; a client of the old protocol passes no list (\<open>l\<close> is NULL).\<close>

definition connection_add :: "addr \<Rightarrow> addr \<Rightarrow> int \<Rightarrow> net \<Rightarrow> (addr \<times> net) option" where
  "connection_add a l fd nt =
     (if a = NULL then Some (NULL, nt)
      else let nt = nt\<lparr>nt_heap := (nt_heap nt)\<lparr>next_of := (next_of (nt_heap nt))(a \<mapsto> NULL),
                                             prev_of := (prev_of (nt_heap nt))(a \<mapsto> NULL)\<rparr>,
                       nt_conns := (nt_conns nt)(a \<mapsto> zero_conn\<lparr>cn_fd := fd\<rparr>)\<rparr>
           in if l = NULL then Some (a, nt)
              else do {
                h \<leftarrow> list_add_back l a (nt_heap nt);
                cnt \<leftarrow> c_int (nt_cnt nt + 1);
                Some (a, nt\<lparr>nt_heap := h, nt_cnt := cnt\<rparr>) })"

definition free_conn :: "addr \<Rightarrow> net \<Rightarrow> net option" where
  "free_conn a nt = (case nt_conns nt a of None \<Rightarrow> None
     | Some _ \<Rightarrow> Some (nt\<lparr>nt_heap := (nt_heap nt)\<lparr>next_of := (next_of (nt_heap nt))(a := None),
                                               prev_of := (prev_of (nt_heap nt))(a := None)\<rparr>,
                        nt_conns := (nt_conns nt)(a := None)\<rparr>))"

definition connection_delete :: "addr \<Rightarrow> addr \<Rightarrow> net \<Rightarrow> net option" where
  "connection_delete a l nt = do {
     nt \<leftarrow> (if l = NULL then Some nt else do {
        h \<leftarrow> list_remove_elem l a (nt_heap nt);
        cnt \<leftarrow> c_int (nt_cnt nt - 1);
        Some (nt\<lparr>nt_heap := h, nt_cnt := cnt\<rparr>) });
     c \<leftarrow> nt_conns nt a;
     free_conn a (close_fd (cn_fd c) nt) }"

text \<open>The search prints both texts of every connection it visits, and compares them.\<close>

partial_function (option) connection_get_loop :: "string \<Rightarrow> string \<Rightarrow> addr \<Rightarrow> net \<Rightarrow> addr \<Rightarrow> addr option" where
  "connection_get_loop host port l nt item =
     (if \<not> list_is_valid_elem l item then Some NULL
      else Option.bind (nt_conns nt item) (\<lambda>c.
        Option.bind (cstr (cn_host c)) (\<lambda>h. Option.bind (cstr (cn_service c)) (\<lambda>s.
        if s = port \<and> h = host then Some item
        else Option.bind (get_next (nt_heap nt) item) (connection_get_loop host port l nt)))))"

definition connection_get :: "string \<Rightarrow> string \<Rightarrow> addr \<Rightarrow> net \<Rightarrow> addr option" where
  "connection_get host port l nt =
     Option.bind (list_first_elem (nt_heap nt) l) (connection_get_loop host port l nt)"

text \<open>The loop that deletes every connection of a list.\<close>

partial_function (option) connections_drain :: "addr \<Rightarrow> net \<Rightarrow> net option" where
  "connections_drain l nt =
     Option.bind (list_is_empty (nt_heap nt) l) (\<lambda>e. if e then Some nt
       else Option.bind (list_first_elem (nt_heap nt) l) (\<lambda>item.
         Option.bind (connection_delete item l nt) (connections_drain l)))"

subsection \<open>The connections a net represents\<close>

definition conn_rep :: "addr \<Rightarrow> net \<Rightarrow> (addr \<times> conn) list \<Rightarrow> bool" where
  "conn_rep l nt cs \<longleftrightarrow> is_list (nt_heap nt) l (map fst cs) \<and> nt_cnt nt = int (length cs) \<and> length cs < 2 ^ 31
     \<and> (\<forall>a c. (a, c) \<in> set cs \<longrightarrow> nt_conns nt a = Some c)"

lemma conn_rep_distinct: "conn_rep l nt cs \<Longrightarrow> distinct (map fst cs) \<and> l \<notin> fst ` set cs \<and> 0 \<notin> fst ` set cs \<and> l \<noteq> 0"
  by (auto simp: conn_rep_def is_list_def)

lemma conn_rep_at: "conn_rep l nt (xs @ (a, c) # ys) \<Longrightarrow> nt_conns nt a = Some c \<and> a \<noteq> l \<and> a \<noteq> NULL"
  using conn_rep_distinct [of l nt "xs @ (a, c) # ys"] by (force simp: conn_rep_def)

lemma conn_rep_first: "conn_rep l nt cs \<Longrightarrow> list_first_elem (nt_heap nt) l = Some (hd (map fst cs @ [l]))"
  by (simp add: conn_rep_def list_first_elem_is_list)

lemma conn_rep_next:
  "conn_rep l nt (xs @ (a, c) # ys) \<Longrightarrow> get_next (nt_heap nt) a = Some (hd (map fst ys @ [l]))"
  using is_list_gap(1) [of "nt_heap nt" l "map fst xs @ [a]" "map fst ys"]
  by (cases ys) (auto simp: conn_rep_def get_next_def)

lemma conn_rep_upd:
  assumes "conn_rep l nt (xs @ (a, c) # ys)" "f c = Some c'"
  shows "\<exists>nt'. upd_conn a f nt = Some nt' \<and> conn_rep l nt' (xs @ (a, c') # ys) \<and> nt_heap nt' = nt_heap nt
    \<and> nt_closed nt' = nt_closed nt \<and> nt_epoll nt' = nt_epoll nt \<and> nt_sent nt' = nt_sent nt"
proof -
  let ?nt = "nt\<lparr>nt_conns := (nt_conns nt)(a \<mapsto> c')\<rparr>"
  have "a \<notin> fst ` set xs" "a \<notin> fst ` set ys"
    using conn_rep_distinct [OF assms(1)] by auto
  then have "(b, k) \<in> set xs \<or> (b, k) \<in> set ys \<Longrightarrow> b \<noteq> a" for b k
    by force
  then have "conn_rep l ?nt (xs @ (a, c') # ys)"
    using assms(1) by (auto simp: conn_rep_def)
  moreover have "upd_conn a f nt = Some ?nt"
    using conn_rep_at [OF assms(1)] assms(2) by (simp add: upd_conn_def)
  ultimately show ?thesis by auto
qed

lemma connection_add_rep:
  assumes "conn_rep l nt cs" "a \<noteq> NULL" "a \<noteq> l" "nt_conns nt a = None" "Suc (length cs) < 2 ^ 31"
  shows "\<exists>nt'. connection_add a l fd nt = Some (a, nt') \<and> conn_rep l nt' (cs @ [(a, zero_conn\<lparr>cn_fd := fd\<rparr>)])
    \<and> nt_closed nt' = nt_closed nt \<and> nt_epoll nt' = nt_epoll nt \<and> nt_sent nt' = nt_sent nt
    \<and> (\<forall>b. b \<noteq> a \<longrightarrow> nt_conns nt' b = nt_conns nt b)"
proof -
  let ?h = "(nt_heap nt)\<lparr>next_of := (next_of (nt_heap nt))(a \<mapsto> NULL), prev_of := (prev_of (nt_heap nt))(a \<mapsto> NULL)\<rparr>"
  have a: "a \<notin> fst ` set cs"
    using assms(1,4) by (force simp: conn_rep_def)
  then have b: "(b, k) \<in> set cs \<Longrightarrow> nt_conns nt b = Some k \<and> b \<noteq> a" for b k
    using assms(1) by (force simp: conn_rep_def)
  have "is_list ?h l (map fst cs)"
    by (rule is_list_frame [of "nt_heap nt"]) (use assms(1,3) a in \<open>auto simp: conn_rep_def\<close>)
  moreover have "unlinked ?h a"
    using assms(2) by (simp add: unlinked_def)
  ultimately obtain h where h: "list_add_back l a ?h = Some h" "is_list h l (map fst cs @ [a])"
    using list_add_back_is_list by blast
  have l: "l \<noteq> NULL"
    using conn_rep_distinct [OF assms(1)] by simp
  let ?nt = "nt\<lparr>nt_heap := h, nt_conns := (nt_conns nt)(a \<mapsto> zero_conn\<lparr>cn_fd := fd\<rparr>), nt_cnt := nt_cnt nt + 1\<rparr>"
  have "conn_rep l ?nt (cs @ [(a, zero_conn\<lparr>cn_fd := fd\<rparr>)])"
    using assms(1,5) h(2) unfolding conn_rep_def by (auto simp: b)
  moreover have "c_int (nt_cnt nt + 1) = Some (nt_cnt nt + 1)"
    using assms(1,5) by (auto simp: conn_rep_def)
  ultimately show ?thesis
    using h(1) assms(2) l by (intro exI [of _ ?nt]) (simp add: connection_add_def Let_def)
qed

lemma connection_delete_rep:
  assumes "conn_rep l nt (xs @ (a, c) # ys)"
  shows "\<exists>nt'. connection_delete a l nt = Some nt' \<and> conn_rep l nt' (xs @ ys) \<and> nt_conns nt' a = None
    \<and> nt_closed nt' = nt_closed nt @ [cn_fd c] \<and> nt_epoll nt' = filter (\<lambda>(f, _). f \<noteq> cn_fd c) (nt_epoll nt)
    \<and> nt_sent nt' = nt_sent nt"
proof -
  note at = conn_rep_at [OF assms(1)]
  have il: "is_list (nt_heap nt) l (map fst xs @ a # map fst ys)"
    using assms(1) by (simp add: conn_rep_def)
  obtain h where h: "list_remove_elem l a (nt_heap nt) = Some h" "is_list h l (map fst xs @ map fst ys)"
    using il.del_law [OF il] by blast
  let ?h = "h\<lparr>next_of := (next_of h)(a := None), prev_of := (prev_of h)(a := None)\<rparr>"
  have a: "a \<notin> fst ` set xs" "a \<notin> fst ` set ys" "a \<noteq> l" "l \<noteq> NULL"
    using conn_rep_distinct [OF assms(1)] by auto
  have i: "is_list ?h l (map fst xs @ map fst ys)"
    by (rule is_list_frame [OF h(2)]) (use a in auto)
  have b: "(b, k) \<in> set xs \<or> (b, k) \<in> set ys \<Longrightarrow> nt_conns nt b = Some k \<and> b \<noteq> a" for b k
    using assms(1) image_eqI [of b fst "(b, k)" "set xs"] image_eqI [of b fst "(b, k)" "set ys"] a(1,2)
    by (auto simp: conn_rep_def)
  have c: "nt_cnt nt = 1 + int (length (xs @ ys))" "length (xs @ ys) < 2 ^ 31"
    using assms(1) by (auto simp: conn_rep_def)
  then have ci: "c_int (nt_cnt nt - 1) = Some (nt_cnt nt - 1)"
    by auto
  let ?nt = "(close_fd (cn_fd c) nt)\<lparr>nt_heap := ?h, nt_cnt := nt_cnt nt - 1, nt_conns := (nt_conns nt)(a := None)\<rparr>"
  have "conn_rep l ?nt (xs @ ys)"
    unfolding conn_rep_def using i c by (auto simp: b close_fd_def)
  moreover have "connection_delete a l nt = Some ?nt"
    using h(1) a(4) at ci by (simp add: connection_delete_def free_conn_def close_fd_def)
  ultimately show ?thesis
    by (intro exI [of _ ?nt]) (simp add: close_fd_def)
qed

lemma connections_drain_rep:
  assumes "conn_rep l nt cs"
  shows "\<exists>nt'. connections_drain l nt = Some nt' \<and> conn_rep l nt' []
    \<and> nt_closed nt' = nt_closed nt @ map (cn_fd \<circ> snd) cs"
  using assms
proof (induction cs arbitrary: nt)
  case Nil
  then have "list_is_empty (nt_heap nt) l = Some True"
    using list_is_empty_is_list [of "nt_heap nt" l "[]"] by (simp add: conn_rep_def)
  with Nil show ?case
    by (subst connections_drain.simps) simp
next
  case (Cons x cs)
  obtain a c where x: "x = (a, c)"
    by (cases x)
  have r: "conn_rep l nt ([] @ (a, c) # cs)"
    using Cons.prems x by simp
  have "list_is_empty (nt_heap nt) l = Some False"
    using list_is_empty_is_list [of "nt_heap nt" l "a # map fst cs"] r by (simp add: conn_rep_def)
  moreover have "list_first_elem (nt_heap nt) l = Some a"
    using conn_rep_first [OF r] by simp
  moreover obtain nt1 where "connection_delete a l nt = Some nt1" "conn_rep l nt1 cs"
    "nt_closed nt1 = nt_closed nt @ [cn_fd c]"
    using connection_delete_rep [OF r] by auto
  ultimately show ?case
    using Cons.IH [of nt1] x by (subst connections_drain.simps) auto
qed

subsection \<open>The search\<close>

definition conn_named :: "string \<Rightarrow> string \<Rightarrow> conn \<Rightarrow> bool" where
  "conn_named host port c \<longleftrightarrow> cstr (cn_host c) = Some host \<and> cstr (cn_service c) = Some port"

definition conn_texts :: "conn \<Rightarrow> bool" where
  "conn_texts c \<longleftrightarrow> NUL \<in> set (cn_host c) \<and> NUL \<in> set (cn_service c)"

definition conn_lookup :: "string \<Rightarrow> string \<Rightarrow> (addr \<times> conn) list \<Rightarrow> addr" where
  "conn_lookup host port cs = (case find (\<lambda>(a, c). conn_named host port c) cs of None \<Rightarrow> NULL | Some (a, c) \<Rightarrow> a)"

lemma connection_get_loop_rep:
  assumes "conn_rep l nt (xs @ cs)" "\<forall>(a, c) \<in> set cs. conn_texts c"
  shows "connection_get_loop host port l nt (hd (map fst cs @ [l])) = Some (conn_lookup host port cs)"
  using assms
proof (induction cs arbitrary: xs)
  case Nil
  then show ?case
    by (subst connection_get_loop.simps) (simp add: list_is_valid_elem_def conn_lookup_def)
next
  case (Cons x cs)
  obtain a c where x: "x = (a, c)"
    by (cases x)
  have r: "conn_rep l nt (xs @ (a, c) # cs)"
    using Cons.prems x by simp
  obtain h s where t: "cstr (cn_host c) = Some h" "cstr (cn_service c) = Some s"
    using Cons.prems(2) x by (auto simp: conn_texts_def cstr_def)
  have ih: "connection_get_loop host port l nt (hd (map fst cs @ [l])) = Some (conn_lookup host port cs)"
    using Cons.IH [of "xs @ [x]"] Cons.prems by simp
  show ?case
    using x conn_rep_at [OF r] conn_rep_next [OF r] t ih
    by (subst connection_get_loop.simps) (auto simp: list_is_valid_elem_def conn_lookup_def conn_named_def)
qed

lemma connection_get_rep:
  assumes "conn_rep l nt cs" "\<forall>(a, c) \<in> set cs. conn_texts c"
  shows "connection_get host port l nt = Some (conn_lookup host port cs)"
  using connection_get_loop_rep [of l nt "[]" cs] assms conn_rep_first [OF assms(1)]
  by (simp add: connection_get_def)

end
