(* ===== verification/Messenger.thy ===== *)
theory Messenger imports Connection begin

section \<open>Messages, the client loop and the server loop (tcp/messenger.h, messenger.c)\<close>

text \<open>
  A \<open>struct message\<close> comes from \<open>malloc\<close> and is not cleared: the memory it is made of is an argument,
  and the fields keep what they held until they are written, so an enumeration may hold any integer.
  The answers of the system (sockets, \<open>read\<close>, \<open>epoll_pwait\<close>, \<open>malloc\<close>, the name service) are arguments, and so
  are the callbacks. A thread that waits on epoll takes one \<open>turn\<close> after another: what the wait
  returned, and whether another thread had set the exit flag by then.
\<close>

subsection \<open>Data\<close>

datatype msg_type = MSG_UNKNOWN | MSG_REQUEST | MSG_REPLY | MSG_TYPE_OTHER int

datatype msg_cmd = MSG_CMD_QUIT | MSG_CMD_STATUS | MSG_CMD_SET | MSG_CMD_GET | MSG_CMD_START | MSG_CMD_STOP
  | MSG_CMD_INIT | MSG_CMD_CONFIG | MSG_CMD_CONNECT | MSG_CMD_OTHER int

record message =
  me_cmd :: msg_cmd
  me_cmd_len :: int
  me_type :: msg_type
  me_src_id :: int
  me_dst_id :: int
  me_len :: nat
  me_string :: string

record client =
  cl_head :: addr
  cl_net :: net
  cl_exit_flag :: int
  cl_max_events :: int
  cl_epoll_fd :: int
  cl_signalled :: bool

record server =
  sv_head :: addr
  sv_net :: net
  sv_port :: string
  sv_exit_flag :: int
  sv_max_events :: int
  sv_listen_fd :: int
  sv_epoll_fd :: int
  sv_signalled :: bool

subsection \<open>Connections of a server and of a client\<close>

definition name_conn :: "string \<Rightarrow> string \<Rightarrow> conn \<Rightarrow> conn option" where
  "name_conn host service c = do {
     h \<leftarrow> strncpy NI_MAXHOST host (cn_host c);
     s \<leftarrow> strncpy NI_MAXSERV service (cn_service c);
     Some (c\<lparr>cn_host := h, cn_service := s\<rparr>) }"

definition epoll_add :: "int \<Rightarrow> addr \<Rightarrow> net \<Rightarrow> net" where
  "epoll_add fd a nt = nt\<lparr>nt_epoll := nt_epoll nt @ [(fd, a)]\<rparr>"

text \<open>When epoll refuses, the connection is freed by \<open>connection_delete\<close> and once more.\<close>

definition server_add_connection :: "addr \<Rightarrow> bool \<Rightarrow> string \<Rightarrow> string \<Rightarrow> server \<Rightarrow> int \<Rightarrow> (int \<times> server) option" where
  "server_add_connection a epoll_ok host service srv fd = do {
     (new_conn, nt) \<leftarrow> connection_add a (sv_head srv) fd (sv_net srv);
     if new_conn = NULL then Some (1, srv\<lparr>sv_net := close_fd fd nt\<rparr>)
     else do {
       nt \<leftarrow> upd_conn new_conn (name_conn host service) nt;
       if \<not> epoll_ok then do {
         nt \<leftarrow> connection_delete new_conn (sv_head srv) nt;
         nt \<leftarrow> free_conn new_conn nt;
         Some (1, srv\<lparr>sv_net := nt\<rparr>) }
       else Some (0, srv\<lparr>sv_net := epoll_add fd new_conn nt\<rparr>) } }"

record dial =
  di_gai :: int
  di_socks :: "(int \<times> bool) list"
  di_conn :: addr
  di_epoll_ok :: bool

fun connect_loop :: "(int \<times> bool) list \<Rightarrow> net \<Rightarrow> int option \<times> net" where
  "connect_loop [] nt = (None, nt)"
| "connect_loop ((fd, connected) # rest) nt =
     (if fd = - 1 then connect_loop rest nt
      else if connected then (Some fd, nt)
      else connect_loop rest (close_fd fd nt))"

definition client_add_connection :: "dial \<Rightarrow> string \<Rightarrow> string \<Rightarrow> client \<Rightarrow> (int \<times> client) option" where
  "client_add_connection d host port cli =
     (if di_gai d \<noteq> 0 then Some (- 1, cli)
      else case connect_loop (di_socks d) (cl_net cli) of
          (None, nt) \<Rightarrow> Some (- 1, cli\<lparr>cl_net := nt\<rparr>)
        | (Some fd, nt) \<Rightarrow> do {
            (new_conn, nt) \<leftarrow> connection_add (di_conn d) (cl_head cli) fd nt;
            if new_conn = NULL then Some (1, cli\<lparr>cl_net := close_fd fd nt\<rparr>)
            else do {
              nt \<leftarrow> upd_conn new_conn (name_conn host port) nt;
              nt \<leftarrow> upd_conn new_conn (\<lambda>c. Some (c\<lparr>cn_fd := fd\<rparr>)) nt;
              if \<not> di_epoll_ok d then do {
                nt \<leftarrow> connection_delete new_conn (cl_head cli) nt;
                nt \<leftarrow> free_conn new_conn nt;
                Some (- 1, cli\<lparr>cl_net := nt\<rparr>) }
              else Some (fd, cli\<lparr>cl_net := epoll_add fd new_conn nt\<rparr>) } })"

subsection \<open>Reading\<close>

text \<open>\<open>rd\<close> is what \<open>read\<close> delivers: \<open>None\<close> an error, the empty text the end of the stream.\<close>

definition read_connection_data :: "string option \<Rightarrow> conn option \<Rightarrow> (int \<times> conn option) option" where
  "read_connection_data rd p = (case p of
     None \<Rightarrow> Some (1, None)
   | Some conn \<Rightarrow>
     (let remainder = int (MAX_MSG_LEN + 1) - int (cn_offset conn)
      in if remainder \<le> 0 then Some (1, Some conn)
         else case rd of
             None \<Rightarrow> Some (1, Some conn)
           | Some [] \<Rightarrow> Some (1, Some conn)
           | Some bytes \<Rightarrow> do {
               buf \<leftarrow> buf_put (cn_offset conn) bytes (cn_buffer conn);
               Some (0, Some (conn\<lparr>cn_buffer := buf, cn_offset := cn_offset conn + length bytes\<rparr>)) }))"

text \<open>
  \<open>scanf("%[^\n]%*c", s)\<close>: an empty line matches nothing and stays in the input. The line is stored with
  a terminator, and one more character is consumed.
\<close>

definition scanf_line :: "string \<Rightarrow> string \<Rightarrow> (string \<times> string) option" where
  "scanf_line stdin a =
     (let line = takeWhile (\<lambda>c. c \<noteq> NL) stdin
      in if line = [] then Some (stdin, a)
         else Option.bind (buf_put 0 (line @ [NUL]) a) (\<lambda>a. Some (drop (Suc (length line)) stdin, a)))"

definition default_read_action :: "message \<Rightarrow> string \<Rightarrow> (string \<times> message) option" where
  "default_read_action msg stdin = do {
     (stdin, s) \<leftarrow> scanf_line stdin (me_string msg);
     s \<leftarrow> strcat s [NL];
     t \<leftarrow> cstr s;
     Some (stdin, msg\<lparr>me_type := MSG_UNKNOWN, me_string := s, me_len := length t\<rparr>) }"

subsection \<open>Parsing\<close>

text \<open>The body of one \<open>if\<close>: command and length of its keyword.\<close>

definition on_word :: "bool \<Rightarrow> msg_cmd \<Rightarrow> int \<Rightarrow> message \<Rightarrow> message" where
  "on_word b c k msg = (if b then msg\<lparr>me_cmd := c, me_cmd_len := k\<rparr> else msg)"

definition parse_api_request :: "message \<Rightarrow> message option" where
  "parse_api_request msg =
     (if me_len msg = 0 then Some msg
      else Option.bind (cstr (me_string msg)) (\<lambda>buf.
        let has = (\<lambda>w. strcasestr buf w \<noteq> None);
            msg = msg\<lparr>me_type := MSG_REQUEST\<rparr>;
            msg = (if has ''RE'' \<or> has ''ER'' then msg\<lparr>me_type := MSG_REPLY, me_cmd_len := 2\<rparr> else msg);
            msg = on_word (has ''CONNECT'') MSG_CMD_CONNECT 7 msg;
            msg = on_word (has ''INIT'') MSG_CMD_START 5 msg;
            msg = on_word (has ''START'') MSG_CMD_START 5 msg;
            msg = on_word (has ''STOP'') MSG_CMD_STOP 4 msg;
            msg = on_word (has ''STATUS'') MSG_CMD_STATUS 6 msg;
            msg = on_word (has ''SET'') MSG_CMD_SET 3 msg;
            msg = on_word (has ''GET'') MSG_CMD_GET 3 msg;
            msg = on_word (has ''CONFIG'') MSG_CMD_CONFIG 6 msg
        in Some (on_word (has ''QUIT'' \<or> str_case_eq buf ''Q'' \<or> str_case_eq buf (''Q'' @ [NL])) MSG_CMD_QUIT 4 msg)))"

text \<open>
  The text behind the command and one more character is split at its last blank; the last character
  of the port is cut off. The result is the code with host and port.
\<close>

definition msg_get_connect_information :: "message \<Rightarrow> (int \<times> (string \<times> string) option) option" where
  "msg_get_connect_information msg =
     (let k = me_cmd_len msg + 1
      in if k < 0 \<or> int (length (me_string msg)) < k then None
         else Option.bind (cstr (drop (nat k) (me_string msg))) (\<lambda>result.
           case strrchr result CHR '' '' of
             None \<Rightarrow> Some (- 1, None)
           | Some i \<Rightarrow> Some (0, Some (take i result, butlast (drop (Suc i) result)))))"

text \<open>
  The text of the buffer up to its first newline becomes the message. Nothing is taken out of the
  buffer. Without a newline \<open>endl\<close> is NULL, is incremented, and \<open>memmove\<close> reads from address 1.
\<close>

definition connection_extract_message :: "conn \<Rightarrow> message option \<Rightarrow> (int \<times> conn \<times> message option) option" where
  "connection_extract_message conn p = (case p of
     None \<Rightarrow> Some (0, conn, None)
   | Some msg \<Rightarrow>
     (case memchr (cn_buffer conn) NL (cn_offset conn) of
        Some endl \<Rightarrow> do {
          let buf = (cn_buffer conn)[endl := NUL];
          text \<leftarrow> cstr buf;
          s \<leftarrow> strncpy (length text) text (me_string msg);
          msg \<leftarrow> parse_api_request (msg\<lparr>me_type := MSG_REQUEST, me_src_id := - 1, me_dst_id := - 1,
                   me_len := length text, me_string := s\<rparr>);
          Some (1, conn\<lparr>cn_buffer := buf\<rparr>, Some msg) }
      | None \<Rightarrow> None))"

subsection \<open>Callbacks\<close>

definition client_execute_callback :: "dial \<Rightarrow> message \<Rightarrow> client \<Rightarrow> client option" where
  "client_execute_callback d msg cli =
     (if me_cmd msg = MSG_CMD_QUIT then Some (cli\<lparr>cl_exit_flag := 1, cl_signalled := True\<rparr>)
      else if me_cmd msg = MSG_CMD_CONNECT then do {
        (rc, hp) \<leftarrow> msg_get_connect_information msg;
        _ \<leftarrow> cstr (me_string msg);
        case hp of None \<Rightarrow> Some cli
        | Some (host, port) \<Rightarrow> do { (fd, cli) \<leftarrow> client_add_connection d host port cli; Some cli } }
      else if me_cmd msg = MSG_CMD_STATUS then do { _ \<leftarrow> cstr (me_string msg); Some cli }
      else if me_cmd msg \<in> {MSG_CMD_CONFIG, MSG_CMD_INIT, MSG_CMD_STOP, MSG_CMD_START, MSG_CMD_SET, MSG_CMD_GET}
      then do {
        (rc, hp) \<leftarrow> msg_get_connect_information msg;
        _ \<leftarrow> cstr (me_string msg);
        case hp of None \<Rightarrow> Some cli
        | Some (host, port) \<Rightarrow> do {
            conn \<leftarrow> connection_get host port (cl_head cli) (cl_net cli);
            if conn = NULL then do {
              (fd, cli) \<leftarrow> client_add_connection d host port cli;
              if fd = - 1 then Some cli else None }
            else do {
              c \<leftarrow> nt_conns (cl_net cli) conn;
              if length (me_string msg) < me_len msg then None
              else Some (cli\<lparr>cl_net := write_fd (cn_fd c) (take (me_len msg) (me_string msg)) (cl_net cli)\<rparr>) } } }
      else do { _ \<leftarrow> cstr (me_string msg); Some cli })"

definition client_event_callback :: "message \<Rightarrow> string option" where
  "client_event_callback msg = cstr (me_string msg)"

definition server_execute_callback :: "message \<Rightarrow> server \<Rightarrow> server option" where
  "server_execute_callback msg srv =
     (if me_cmd msg = MSG_CMD_STOP then Some (srv\<lparr>sv_exit_flag := 1, sv_signalled := True\<rparr>)
      else do { _ \<leftarrow> cstr (me_string msg); Some srv })"

definition server_send_replies_callback :: "conn \<Rightarrow> net \<Rightarrow> net" where
  "server_send_replies_callback conn nt = write_fd (cn_fd conn) (''[server_send_replies_callback]: RE{ok}'' @ [NL]) nt"

subsection \<open>One event on a connection\<close>

text \<open>\<open>f\<close> is what the owner does with a complete message.\<close>

definition conn_event :: "addr \<Rightarrow> addr \<Rightarrow> string option \<Rightarrow> message option \<Rightarrow> net \<Rightarrow> (net \<times> message option) option" where
  "conn_event l a rd mem nt = do {
     c \<leftarrow> nt_conns nt a;
     (rc, p) \<leftarrow> read_connection_data rd (Some c);
     nt \<leftarrow> upd_conn a (\<lambda>_. p) nt;
     if rc = 1 then do { nt \<leftarrow> connection_delete a l nt; Some (nt, None) }
     else do {
       c \<leftarrow> p;
       (found, c, msg) \<leftarrow> connection_extract_message c mem;
       nt \<leftarrow> upd_conn a (\<lambda>_. Some c) nt;
       Some (nt, if found = 1 then msg else None) } }"

datatype event = Ev_listen int int string string addr bool | Ev_conn addr "string option" "message option"

datatype epoll_answer = Ep_retry | Ep_error | Ep_ready "event list"

type_synonym turn = "bool \<times> epoll_answer"

subsection \<open>The client\<close>

fun client_events :: "(message \<Rightarrow> client \<Rightarrow> client option) option \<Rightarrow> event list \<Rightarrow> client \<Rightarrow> client option" where
  "client_events cb [] cli = Some cli"
| "client_events cb (Ev_conn a rd mem # es) cli = do {
     (nt, msg) \<leftarrow> conn_event (cl_head cli) a rd mem (cl_net cli);
     cli \<leftarrow> (case msg of None \<Rightarrow> Some (cli\<lparr>cl_net := nt\<rparr>)
       | Some m \<Rightarrow> (case cb of
           None \<Rightarrow> Option.bind (client_event_callback m) (\<lambda>_. Some (cli\<lparr>cl_net := nt\<rparr>))
         | Some f \<Rightarrow> f m (cli\<lparr>cl_net := nt\<rparr>)));
     client_events cb es cli }"
| "client_events cb (Ev_listen _ _ _ _ _ _ # es) cli = client_events cb es cli"

text \<open>The first component of the result says whether the thread has returned.\<close>

fun event_thread :: "(message \<Rightarrow> client \<Rightarrow> client option) option \<Rightarrow> turn list \<Rightarrow> client \<Rightarrow> (bool \<times> client) option" where
  "event_thread cb [] cli = Some (cl_exit_flag cli \<noteq> 0, cli)"
| "event_thread cb ((flag, ans) # ts) cli =
     (if cl_exit_flag cli \<noteq> 0 then Some (True, cli)
      else let cli = (if flag then cli\<lparr>cl_exit_flag := 1\<rparr> else cli)
           in if cl_exit_flag cli \<noteq> 0 then Some (True, cli)
              else case ans of
                  Ep_retry \<Rightarrow> event_thread cb ts cli
                | Ep_error \<Rightarrow> Some (True, cli\<lparr>cl_net := close_fd (cl_epoll_fd cli) (cl_net cli)\<rparr>)
                | Ep_ready es \<Rightarrow> Option.bind (client_events cb es cli) (event_thread cb ts))"

text \<open>A turn of the reader: the memory of a new message, or the callback's answer, and the dialling answers.\<close>

type_synonym read_turn = "(message + message option) \<times> dial"

fun client_turns :: "read_turn list \<Rightarrow> string \<Rightarrow> client \<Rightarrow> (bool \<times> string \<times> client) option" where
  "client_turns [] stdin cli = Some (cl_exit_flag cli \<noteq> 0, stdin, cli)"
| "client_turns ((src, d) # ts) stdin cli =
     (if cl_exit_flag cli \<noteq> 0 then Some (True, stdin, cli)
      else do {
        (stdin, msg) \<leftarrow> (case src of
            Inl mem \<Rightarrow> Option.bind (default_read_action mem stdin) (\<lambda>(stdin, m). Some (stdin, m))
          | Inr p \<Rightarrow> Option.bind p (\<lambda>m. Some (stdin, m)));
        msg \<leftarrow> parse_api_request msg;
        cli \<leftarrow> client_execute_callback d msg cli;
        client_turns ts stdin cli })"

definition tcp_client_process :: "int \<Rightarrow> read_turn list \<Rightarrow> string \<Rightarrow> client \<Rightarrow> (bool \<times> string \<times> client) option" where
  "tcp_client_process epoll_fd ts stdin cli =
     (if epoll_fd < 0 then Some (True, stdin, cli)
      else do {
        (left, stdin, cli) \<leftarrow> client_turns ts stdin (cli\<lparr>cl_epoll_fd := epoll_fd\<rparr>);
        Some (left, stdin, if left then cli\<lparr>cl_net := close_fd epoll_fd (cl_net cli)\<rparr> else cli) })"

subsection \<open>The server\<close>

fun server_events :: "(message \<Rightarrow> server \<Rightarrow> server option) option \<Rightarrow> event list \<Rightarrow> server \<Rightarrow> server option" where
  "server_events cb [] srv = Some srv"
| "server_events cb (Ev_listen fd rc host service a ok # es) srv =
     (if fd < 0 then server_events cb es srv
      else do {
        (r, srv) \<leftarrow> server_add_connection a ok host service srv fd;
        server_events cb es srv })"
| "server_events cb (Ev_conn a rd mem # es) srv = do {
     (nt, msg) \<leftarrow> conn_event (sv_head srv) a rd mem (sv_net srv);
     srv \<leftarrow> (case msg of None \<Rightarrow> Some (srv\<lparr>sv_net := nt\<rparr>)
       | Some m \<Rightarrow> (case cb of None \<Rightarrow> server_execute_callback m (srv\<lparr>sv_net := nt\<rparr>)
                             | Some f \<Rightarrow> f m (srv\<lparr>sv_net := nt\<rparr>)));
     server_events cb es srv }"

fun server_turns :: "(message \<Rightarrow> server \<Rightarrow> server option) option \<Rightarrow> turn list \<Rightarrow> server \<Rightarrow> (bool \<times> server) option" where
  "server_turns cb [] srv = Some (sv_exit_flag srv \<noteq> 0, srv)"
| "server_turns cb ((flag, ans) # ts) srv =
     (if sv_exit_flag srv \<noteq> 0 then Some (True, srv)
      else let srv = (if flag then srv\<lparr>sv_exit_flag := 1\<rparr> else srv)
           in if sv_exit_flag srv \<noteq> 0 then Some (True, srv)
              else case ans of
                  Ep_retry \<Rightarrow> server_turns cb ts srv
                | Ep_error \<Rightarrow> Some (True, srv)
                | Ep_ready es \<Rightarrow> Option.bind (server_events cb es srv) (server_turns cb ts))"

text \<open>
  The addresses are tried in turn: a refused option closes the socket and ends the search, a refused
  address keeps its socket open.
\<close>

fun bind_loop :: "(int \<times> bool \<times> bool) list \<Rightarrow> int option \<Rightarrow> net \<Rightarrow> bool \<times> int option \<times> net" where
  "bind_loop [] fd0 nt = (False, fd0, nt)"
| "bind_loop ((fd, opt_ok, bound) # rest) fd0 nt =
     (if fd = - 1 then bind_loop rest (Some fd) nt
      else if \<not> opt_ok then (True, Some fd, close_fd fd nt)
      else if bound then (True, Some fd, nt)
      else bind_loop rest (Some fd) nt)"

record listen_answers =
  la_epoll_fd :: int
  la_gai :: int
  la_socks :: "(int \<times> bool \<times> bool) list"
  la_listen_ok :: bool
  la_epoll_ok :: bool

definition tcp_server_process :: "(message \<Rightarrow> server \<Rightarrow> server option) option \<Rightarrow> listen_answers \<Rightarrow> turn list \<Rightarrow>
    server \<Rightarrow> (bool \<times> server) option" where
  "tcp_server_process cb la ts srv =
     (let closes = (\<lambda>fds srv. srv\<lparr>sv_net := fold close_fd fds (sv_net srv)\<rparr>); ep = la_epoll_fd la
      in if ep < 0 then Some (True, srv)
         else if la_gai la \<noteq> 0 then Some (True, closes [ep] srv)
         else case bind_loop (la_socks la) None (sv_net srv) of
             (_, None, nt) \<Rightarrow> None
           | (False, Some fd, nt) \<Rightarrow> Some (True, closes [fd, ep] (srv\<lparr>sv_net := nt\<rparr>))
           | (True, Some fd, nt) \<Rightarrow>
              (let srv = srv\<lparr>sv_net := nt\<rparr>
               in if \<not> la_listen_ok la then Some (True, closes [fd, ep] srv)
                  else if \<not> la_epoll_ok la then Some (True, closes [fd, ep] srv)
                  else do {
                    (left, srv) \<leftarrow> server_turns cb ts (srv\<lparr>sv_epoll_fd := ep, sv_listen_fd := fd\<rparr>);
                    Some (left, if left then closes [fd, ep] srv else srv) }))"

subsection \<open>The last keyword decides\<close>

definition has_word :: "string \<Rightarrow> string \<Rightarrow> bool" where
  "has_word w buf \<longleftrightarrow> strcasestr buf w \<noteq> None"

definition api_table :: "((string \<Rightarrow> bool) \<times> msg_cmd \<times> int) list" where
  "api_table = [(has_word ''CONNECT'', MSG_CMD_CONNECT, 7), (has_word ''INIT'', MSG_CMD_START, 5),
     (has_word ''START'', MSG_CMD_START, 5), (has_word ''STOP'', MSG_CMD_STOP, 4),
     (has_word ''STATUS'', MSG_CMD_STATUS, 6), (has_word ''SET'', MSG_CMD_SET, 3),
     (has_word ''GET'', MSG_CMD_GET, 3), (has_word ''CONFIG'', MSG_CMD_CONFIG, 6),
     (\<lambda>b. has_word ''QUIT'' b \<or> str_case_eq b ''Q'' \<or> str_case_eq b (''Q'' @ [NL]), MSG_CMD_QUIT, 4)]"

definition api_matches :: "string \<Rightarrow> (msg_cmd \<times> int) list" where
  "api_matches buf = map snd (filter (\<lambda>(p, _). p buf) api_table)"

definition api_is_reply :: "string \<Rightarrow> bool" where
  "api_is_reply buf \<longleftrightarrow> has_word ''RE'' buf \<or> has_word ''ER'' buf"

definition api_request_spec :: "string \<Rightarrow> message \<Rightarrow> message" where
  "api_request_spec buf msg = (let ms = api_matches buf; reply = api_is_reply buf in
     msg\<lparr>me_type := (if reply then MSG_REPLY else MSG_REQUEST),
         me_cmd := (if ms = [] then me_cmd msg else fst (last ms)),
         me_cmd_len := (if ms \<noteq> [] then snd (last ms) else if reply then 2 else me_cmd_len msg)\<rparr>)"

lemma foldl_on_word:
  "foldl (\<lambda>m (p, c, k). on_word (p buf) c k m) m t = (let ms = map snd (filter (\<lambda>(p, _). p buf) t)
     in if ms = [] then m else m\<lparr>me_cmd := fst (last ms), me_cmd_len := snd (last ms)\<rparr>)"
  by (induction t arbitrary: m) (auto simp: on_word_def Let_def split: prod.splits)

lemma parse_api_request_fold:
  assumes "cstr (me_string m) = Some buf" "me_len m \<noteq> 0"
  shows "parse_api_request m = Some (foldl (\<lambda>m (p, c, k). on_word (p buf) c k m)
    (if api_is_reply buf then m\<lparr>me_type := MSG_REPLY, me_cmd_len := 2\<rparr> else m\<lparr>me_type := MSG_REQUEST\<rparr>) api_table)"
  using assms by (simp add: parse_api_request_def api_table_def api_is_reply_def has_word_def Let_def)

lemma parse_api_request_eq:
  assumes "cstr (me_string m) = Some buf" "me_len m \<noteq> 0"
  shows "parse_api_request m = Some (api_request_spec buf m)"
  unfolding parse_api_request_fold [OF assms] foldl_on_word api_request_spec_def api_matches_def [symmetric]
  by (cases "api_matches buf"; cases "api_is_reply buf") (simp_all add: Let_def)

lemma api_request_spec_frame [simp]:
  "me_string (api_request_spec buf m) = me_string m" "me_len (api_request_spec buf m) = me_len m"
  "me_src_id (api_request_spec buf m) = me_src_id m" "me_dst_id (api_request_spec buf m) = me_dst_id m"
  by (simp_all add: api_request_spec_def Let_def)

lemma parse_api_request_cases:
  assumes "parse_api_request m = Some m'"
  shows "m' = (if me_len m = 0 then m else api_request_spec (the (cstr (me_string m))) m)"
proof (cases "me_len m = 0")
  case False
  then obtain buf where "cstr (me_string m) = Some buf"
    using assms by (auto simp: parse_api_request_def)
  then show ?thesis
    using parse_api_request_eq [of m buf] assms False by simp
qed (use assms in \<open>simp add: parse_api_request_def\<close>)

subsection \<open>Extracting a message\<close>

definition blank_message :: "message \<Rightarrow> bool" where
  "blank_message m \<longleftrightarrow> me_string m = replicate MAX_MSG_LEN NUL"

definition request_of :: "string \<Rightarrow> message \<Rightarrow> message" where
  "request_of line m = m\<lparr>me_type := MSG_REQUEST, me_src_id := - 1, me_dst_id := - 1, me_len := length line,
     me_string := line @ replicate (MAX_MSG_LEN - length line) NUL\<rparr>"

definition parsed_request :: "string \<Rightarrow> message \<Rightarrow> message" where
  "parsed_request line m = (let m = request_of line m in if line = [] then m else api_request_spec line m)"

lemma cstr_line: "NUL \<notin> set s \<Longrightarrow> length s < n \<Longrightarrow> cstr (s @ replicate (n - length s) NUL) = Some s"
  by (cases "n - length s") auto

lemma connection_extract_line:
  assumes "memchr (cn_buffer c) NL (cn_offset c) = Some i"
    and "cstr ((cn_buffer c)[i := NUL]) = Some line" "length line < MAX_MSG_LEN" "blank_message m"
  shows "connection_extract_message c (Some m)
    = Some (1, c\<lparr>cn_buffer := (cn_buffer c)[i := NUL]\<rparr>, Some (parsed_request line m))"
proof -
  have nn: "NUL \<notin> set line"
    using assms(2) by (rule cstr_no_NUL)
  let ?s = "line @ replicate (MAX_MSG_LEN - length line) NUL"
  have s: "strncpy (length line) line (me_string m) = Some ?s"
    using assms(3,4) by (simp add: strncpy_def buf_put_def blank_message_def)
  have "parse_api_request (request_of line m) = Some (parsed_request line m)"
    using cstr_line [OF nn assms(3)] parse_api_request_eq [of "request_of line m" line]
    by (cases "line = []") (simp_all add: parsed_request_def request_of_def parse_api_request_def Let_def)
  with s show ?thesis
    using assms(1,2) by (simp add: connection_extract_message_def request_of_def)
qed

text \<open>The text of the buffer up to its first NUL, newline or the end of the data.\<close>

lemma cstr_take_NL:
  assumes "a = line @ NL # rest" "NUL \<notin> set line"
  shows "cstr (a[length line := NUL]) = Some line"
  using assms by simp

lemma memchr_first_NL: "NL \<notin> set line \<Longrightarrow> length line < n \<Longrightarrow> memchr (line @ NL # rest) NL n = Some (length line)"
  by (rule memchr_append)

lemma read_connection_data_some:
  assumes "bytes \<noteq> []" "cn_offset c + length bytes \<le> MAX_MSG_LEN + 1" "length (cn_buffer c) = MAX_MSG_LEN + 1"
  shows "read_connection_data (Some bytes) (Some c) = Some (0, Some (c\<lparr>cn_offset := cn_offset c + length bytes,
    cn_buffer := take (cn_offset c) (cn_buffer c) @ bytes @ drop (cn_offset c + length bytes) (cn_buffer c)\<rparr>))"
  using assms by (cases bytes) (auto simp: read_connection_data_def buf_put_def Let_def)

lemma upd_conn_at: "nt_conns nt a = Some c \<Longrightarrow> upd_conn a f nt =
    (case f c of None \<Rightarrow> None | Some c' \<Rightarrow> Some (nt\<lparr>nt_conns := (nt_conns nt)(a \<mapsto> c')\<rparr>))"
  by (simp add: upd_conn_def split: option.split)

lemma conn_event_data:
  assumes "nt_conns nt a = Some c" "bytes \<noteq> []" "cn_offset c + length bytes \<le> MAX_MSG_LEN + 1"
    and "length (cn_buffer c) = MAX_MSG_LEN + 1"
  defines "c' \<equiv> c\<lparr>cn_offset := cn_offset c + length bytes,
    cn_buffer := take (cn_offset c) (cn_buffer c) @ bytes @ drop (cn_offset c + length bytes) (cn_buffer c)\<rparr>"
  shows "conn_event l a (Some bytes) mem nt = (case connection_extract_message c' mem of None \<Rightarrow> None
    | Some (found, c'', msg) \<Rightarrow>
       Some (nt\<lparr>nt_conns := (nt_conns nt)(a \<mapsto> c'')\<rparr>, if found = 1 then msg else None))"
proof -
  have r: "read_connection_data (Some bytes) (Some c) = Some (0, Some c')"
    unfolding c'_def by (rule read_connection_data_some [OF assms(2-4)])
  show ?thesis
  proof (cases "connection_extract_message c' mem")
    case None
    then show ?thesis
      using assms(1) r by (simp add: conn_event_def upd_conn_def)
  next
    case (Some t)
    then show ?thesis
      using assms(1) r by (cases t) (simp add: conn_event_def upd_conn_def)
  qed
qed

subsection \<open>Properties\<close>


definition demo_message :: message where
  "demo_message = \<lparr>me_cmd = MSG_CMD_OTHER 77, me_cmd_len = 0, me_type = MSG_TYPE_OTHER 5, me_src_id = 0, me_dst_id = 0,
     me_len = 0, me_string = replicate MAX_MSG_LEN NUL\<rparr>"


text \<open>
  A line read into a fresh connection becomes a message with exactly its text. But the line is never
  taken out of the buffer: when the next line arrives, the message is the first line again.
\<close>

theorem first_line_repeats:
  assumes "nt_conns nt a = Some c" "cn_offset c = 0" "cn_buffer c = replicate (MAX_MSG_LEN + 1) NUL"
    and "NUL \<notin> set line" "NL \<notin> set line" "NL \<notin> set line2" "length line + length line2 + 2 \<le> MAX_MSG_LEN"
    and "blank_message m1" "blank_message m2"
  shows "\<exists>nt1 nt2. conn_event l a (Some (line @ [NL])) (Some m1) nt = Some (nt1, Some (parsed_request line m1))
    \<and> conn_event l a (Some (line2 @ [NL])) (Some m2) nt1 = Some (nt2, Some (parsed_request line m2))"
proof -
  let ?z = "replicate (MAX_MSG_LEN - length line) NUL"
  let ?c1 = "c\<lparr>cn_offset := Suc (length line), cn_buffer := line @ NL # ?z\<rparr>"
  let ?c1' = "c\<lparr>cn_offset := Suc (length line), cn_buffer := line @ NUL # ?z\<rparr>"
  let ?z2 = "replicate (MAX_MSG_LEN - length line - Suc (length line2)) NUL"
  let ?c2 = "c\<lparr>cn_offset := Suc (length line) + Suc (length line2), cn_buffer := line @ NUL # line2 @ NL # ?z2\<rparr>"
  let ?nt1 = "nt\<lparr>nt_conns := (nt_conns nt)(a \<mapsto> ?c1')\<rparr>"
  have len: "length line < MAX_MSG_LEN" "Suc (length line) + Suc (length line2) \<le> MAX_MSG_LEN + 1"
    using assms(7) by simp_all
  have "connection_extract_message ?c1 (Some m1)
      = Some (1, ?c1\<lparr>cn_buffer := (cn_buffer ?c1)[length line := NUL]\<rparr>, Some (parsed_request line m1))"
    by (rule connection_extract_line) (use assms(4,5,8) len memchr_first_NL in simp_all)
  then have e1: "conn_event l a (Some (line @ [NL])) (Some m1) nt = Some (?nt1, Some (parsed_request line m1))"
    using assms(2,3) len by (subst conn_event_data [OF assms(1)]) (simp_all add: Suc_diff_le)
  have at: "nt_conns ?nt1 a = Some ?c1'" by simp
  have mem: "memchr (cn_buffer ?c2) NL (cn_offset ?c2) = Some (Suc (length line) + length line2)"
    using memchr_first_NL [of "line @ NUL # line2" "cn_offset ?c2" ?z2] assms(5,6) by simp
  have upd: "(cn_buffer ?c2)[Suc (length line) + length line2 := NUL] = line @ NUL # line2 @ NUL # ?z2"
    by (simp add: list_update_append)
  have "connection_extract_message ?c2 (Some m2)
      = Some (1, ?c2\<lparr>cn_buffer := (cn_buffer ?c2)[Suc (length line) + length line2 := NUL]\<rparr>, Some (parsed_request line m2))"
    by (rule connection_extract_line [OF mem _ len(1) assms(9)]) (use assms(4) upd in simp)
  then have "conn_event l a (Some (line2 @ [NL])) (Some m2) ?nt1 = Some (?nt1\<lparr>nt_conns := (nt_conns ?nt1)(a \<mapsto>
      ?c2\<lparr>cn_buffer := (cn_buffer ?c2)[Suc (length line) + length line2 := NUL]\<rparr>)\<rparr>, Some (parsed_request line m2))"
    using len by (subst conn_event_data [OF at]) simp_all
  with e1 show ?thesis by blast
qed

definition demo_net :: net where
  "demo_net = \<lparr>nt_heap = \<lparr>next_of = [1 \<mapsto> 2, 2 \<mapsto> 1], prev_of = [1 \<mapsto> 2, 2 \<mapsto> 1]\<rparr>,
     nt_conns = [2 \<mapsto> zero_conn\<lparr>cn_fd := 7\<rparr>], nt_cnt = 1, nt_closed = [], nt_epoll = [(7, 2)], nt_sent = []\<rparr>"

lemma demo_net_conn: "nt_conns demo_net 2 = Some (zero_conn\<lparr>cn_fd := 7\<rparr>)"
  by (simp add: demo_net_def)

lemma demo_blank: "blank_message demo_message"
  by (simp add: blank_message_def demo_message_def)

theorem first_line_repeats_witness:
  "\<exists>nt1 nt2. conn_event 1 2 (Some (''STATUS'' @ [NL])) (Some demo_message) demo_net = Some (nt1, Some (parsed_request ''STATUS'' demo_message))
     \<and> conn_event 1 2 (Some (''STOP'' @ [NL])) (Some demo_message) nt1 = Some (nt2, Some (parsed_request ''STATUS'' demo_message))"
  using first_line_repeats [OF demo_net_conn, of "''STATUS''" "''STOP''" demo_message demo_message 1] demo_blank
  by (simp add: zero_conn_def NUL_def NL_def MAX_MSG_LEN_def)

text \<open>
  A read that ends in the middle of a line is fatal: when the buffer holds no newline yet and the new
  bytes bring none, the extraction increments a NULL pointer and moves memory from address 1.
\<close>

theorem partial_line_faults:
  assumes "nt_conns nt a = Some c" "length (cn_buffer c) = MAX_MSG_LEN + 1" "NL \<notin> set (take (cn_offset c) (cn_buffer c))"
    and "bytes \<noteq> []" "NL \<notin> set bytes" "cn_offset c + length bytes \<le> MAX_MSG_LEN + 1"
  shows "conn_event l a (Some bytes) (Some m) nt = None"
  using assms(2,3,5,6)
  by (subst conn_event_data [OF assms(1,4,6,2)]) (simp add: connection_extract_message_def memchr_None_iff [THEN iffD2])

theorem partial_line_faults_witness: "conn_event 1 2 (Some ''STA'') (Some demo_message) demo_net = None"
  using partial_line_faults [OF demo_net_conn, of "''STA''" 1 demo_message]
  by (simp add: zero_conn_def NL_def MAX_MSG_LEN_def)

text \<open>
  A request of the client for a connection it does not have is fatal even when the reconnection
  succeeds: the pointer that the search returned as NULL is used, not the new connection. Only a failed
  reconnection is survived.
\<close>

theorem client_unknown_connection_faults:
  assumes "me_cmd msg \<in> {MSG_CMD_CONFIG, MSG_CMD_INIT, MSG_CMD_STOP, MSG_CMD_START, MSG_CMD_SET, MSG_CMD_GET}"
    and "msg_get_connect_information msg = Some (0, Some (host, port))" "cstr (me_string msg) \<noteq> None"
    and "connection_get host port (cl_head cli) (cl_net cli) = Some NULL"
    and "client_add_connection d host port cli = Some (fd, cli')"
  shows "client_execute_callback d msg cli = (if fd = - 1 then Some cli' else None)"
  using assms by (auto simp: client_execute_callback_def)

text \<open>The text of a request with a host and a port.\<close>

lemma connect_information_text:
  assumes "NUL \<notin> set (w @ host @ port)" "CHR '' '' \<notin> set port"
    and "me_string msg = (w @ '' '' @ host @ '' '' @ port @ [NL]) @ NUL # r" "me_cmd_len msg = int (length w)"
  shows "msg_get_connect_information msg = Some (0, Some (host, port))"
proof -
  have d: "drop (Suc (length w)) (me_string msg) = (host @ '' '' @ port @ [NL]) @ NUL # r"
    using assms(3) by simp
  have n: "NUL \<notin> set (host @ '' '' @ port @ [NL])" "CHR '' '' \<notin> set (port @ [NL])"
    using assms(1,2) by (auto simp: NUL_def NL_def)
  have "strrchr (host @ CHR '' '' # port @ [NL]) CHR '' '' = Some (length host)"
    by (rule strrchr_append [OF n(2)])
  then show ?thesis
    using cstr_append_NUL [OF n(1), of r] d assms(3,4)
    by (simp add: msg_get_connect_information_def nat_add_distrib Let_def butlast_append)
qed

text \<open>
  A request in the form the client expects, a command, a host and a port divided by blanks, gives back
  the host and the port when the length stored for the command is that of the word typed. With INIT,
  for which the length of START is stored, the host loses its first character.
\<close>

theorem connect_information_roundtrip:
  assumes "NUL \<notin> set (w @ host @ port)" "CHR '' '' \<notin> set port" "host \<noteq> []"
    and "me_string msg = (w @ '' '' @ host @ '' '' @ port @ [NL]) @ NUL # r"
  shows "msg_get_connect_information (msg\<lparr>me_cmd_len := int (length w)\<rparr>) = Some (0, Some (host, port))
    \<and> msg_get_connect_information (msg\<lparr>me_cmd_len := int (length w) + 1\<rparr>) = Some (0, Some (tl host, port))"
proof -
  obtain c h where h: "host = c # h"
    using assms(3) by (cases host) auto
  have d: "drop (Suc (Suc (length w))) (me_string msg) = (h @ '' '' @ port @ [NL]) @ NUL # r"
    using assms(4) h by simp
  have n: "NUL \<notin> set (h @ '' '' @ port @ [NL])" "CHR '' '' \<notin> set (port @ [NL])"
    using assms(1,2) h by (auto simp: NUL_def NL_def)
  have "strrchr (h @ CHR '' '' # port @ [NL]) CHR '' '' = Some (length h)"
    by (rule strrchr_append [OF n(2)])
  then have "msg_get_connect_information (msg\<lparr>me_cmd_len := int (length w) + 1\<rparr>) = Some (0, Some (h, port))"
    using cstr_append_NUL [OF n(1), of r] d assms(4) h
    by (simp add: msg_get_connect_information_def nat_add_distrib Let_def butlast_append)
  with connect_information_text [of w host port "msg\<lparr>me_cmd_len := int (length w)\<rparr>" r] assms h show ?thesis
    by simp
qed

theorem connect_information_roundtrip_witness:
  "msg_get_connect_information (demo_message\<lparr>me_string := ''INIT cam1 80'' @ [NL, NUL], me_cmd_len := 5\<rparr>)
     = Some (0, Some (''am1'', ''80''))"
  using connect_information_roundtrip [of "''INIT''" "''cam1''" "''80''"
      "demo_message\<lparr>me_string := ''INIT cam1 80'' @ [NL, NUL]\<rparr>" "[]"]
  by (simp add: NUL_def)

definition demo_client :: client where
  "demo_client = \<lparr>cl_head = 1, cl_net = \<lparr>nt_heap = \<lparr>next_of = [1 \<mapsto> 1], prev_of = [1 \<mapsto> 1]\<rparr>, nt_conns = \<lambda>_. None,
     nt_cnt = 0, nt_closed = [], nt_epoll = [], nt_sent = []\<rparr>, cl_exit_flag = 0, cl_max_events = 10, cl_epoll_fd = 3,
     cl_signalled = False\<rparr>"

definition demo_dial :: dial where
  "demo_dial = \<lparr>di_gai = 0, di_socks = [(- 1, True), (5, True)], di_conn = 2, di_epoll_ok = True\<rparr>"

definition demo_get :: message where
  "demo_get = demo_message\<lparr>me_cmd := MSG_CMD_GET, me_cmd_len := 3, me_len := 12,
     me_string := ''GET cam1 80'' @ [NL, NUL]\<rparr>"

lemma demo_client_rep: "conn_rep 1 (cl_net demo_client) []"
  by (simp add: demo_client_def conn_rep_def is_list_def)

lemma client_add_connection_ok:
  assumes "conn_rep (cl_head cli) (cl_net cli) cs" "di_gai d = 0" "connect_loop (di_socks d) (cl_net cli) = (Some fd, nt)"
    and "conn_rep (cl_head cli) nt cs" "di_conn d \<noteq> NULL" "di_conn d \<noteq> cl_head cli" "nt_conns nt (di_conn d) = None"
    and "Suc (length cs) < 2 ^ 31" "di_epoll_ok d"
  shows "\<exists>cli'. client_add_connection d host port cli = Some (fd, cli')"
proof -
  let ?a = "di_conn d"
  obtain nt1 where nt1: "connection_add ?a (cl_head cli) fd nt = Some (?a, nt1)"
    "conn_rep (cl_head cli) nt1 (cs @ (?a, zero_conn\<lparr>cn_fd := fd\<rparr>) # [])"
    using connection_add_rep [OF assms(4-8)] by auto
  obtain c1 where c1: "name_conn host port (zero_conn\<lparr>cn_fd := fd\<rparr>) = Some c1"
    by (simp add: name_conn_def zero_conn_def strncpy_whole)
  obtain nt2 where nt2: "upd_conn ?a (name_conn host port) nt1 = Some nt2" "conn_rep (cl_head cli) nt2 (cs @ (?a, c1) # [])"
    using conn_rep_upd [where f = "name_conn host port", OF nt1(2) c1] by blast
  obtain nt3 where "upd_conn ?a (\<lambda>c. Some (c\<lparr>cn_fd := fd\<rparr>)) nt2 = Some nt3"
    using conn_rep_upd [where f = "\<lambda>c. Some (c\<lparr>cn_fd := fd\<rparr>)", OF nt2(2) refl] by blast
  with nt1 nt2 assms show ?thesis
    by (simp add: client_add_connection_def)
qed

theorem client_unknown_connection_faults_witness: "client_execute_callback demo_dial demo_get demo_client = None"
proof -
  have s: "me_string demo_get = (''GET'' @ '' '' @ ''cam1'' @ '' '' @ ''80'' @ [NL]) @ NUL # []"
    by (simp add: demo_get_def)
  then have i: "msg_get_connect_information demo_get = Some (0, Some (''cam1'', ''80''))"
    by (intro connect_information_text [of "''GET''" "''cam1''" "''80''" demo_get "[]"])
      (simp_all add: demo_get_def NUL_def)
  have c: "cstr (me_string demo_get) \<noteq> None"
    unfolding cstr_None_iff s by simp
  have g: "connection_get ''cam1'' ''80'' (cl_head demo_client) (cl_net demo_client) = Some NULL"
    using connection_get_rep [OF demo_client_rep] by (simp add: conn_lookup_def demo_client_def)
  have l: "connect_loop (di_socks demo_dial) (cl_net demo_client) = (Some 5, cl_net demo_client)"
    by (simp add: demo_dial_def)
  obtain cli' where "client_add_connection demo_dial ''cam1'' ''80'' demo_client = Some (5, cli')"
    using client_add_connection_ok [of demo_client "[]" demo_dial 5 "cl_net demo_client" "''cam1''" "''80''"]
      demo_client_rep l by (auto simp: demo_client_def demo_dial_def)
  from client_unknown_connection_faults [OF _ i c g this] show ?thesis
    by (simp add: demo_get_def)
qed

text \<open>
  The reader of the client: a line of one to 510 characters becomes the message text, with its newline,
  and is consumed; a longer one overruns the message; and an empty line is never consumed, so that the
  reader finds it again in every later turn.
\<close>

theorem default_read_action_cases:
  assumes "NL \<notin> set line" "NUL \<notin> set line" "blank_message mem"
  shows "default_read_action mem (line @ NL # rest) =
    (if line = [] then Some (NL # rest, mem\<lparr>me_type := MSG_UNKNOWN, me_string := NL # replicate (MAX_MSG_LEN - 1) NUL, me_len := 1\<rparr>)
     else if length line + 2 \<le> MAX_MSG_LEN
     then Some (rest, mem\<lparr>me_type := MSG_UNKNOWN, me_len := Suc (length line),
            me_string := line @ NL # replicate (MAX_MSG_LEN - length line - 1) NUL\<rparr>)
     else None)"
proof -
  have m: "me_string mem = replicate MAX_MSG_LEN NUL"
    using assms(3) by (simp add: blank_message_def)
  have t: "takeWhile (\<lambda>c. c \<noteq> NL) (line @ NL # rest) = line"
    using assms(1) by (induction line) auto
  have z: "replicate (Suc k) NUL = NUL # replicate k NUL" for k
    by simp
  consider "line = []" | "line \<noteq> []" "MAX_MSG_LEN < Suc (length line)"
    | "line \<noteq> []" "MAX_MSG_LEN = Suc (length line)" | k where "line \<noteq> []" "MAX_MSG_LEN = length line + 2 + k"
    by (metis Suc_lessI add_2_eq_Suc' le_add_diff_inverse not_less_eq not_le Suc_leI)
  then show ?thesis
  proof cases
    case 1
    then show ?thesis
      using m by (simp add: default_read_action_def scanf_line_def strcat_def cstr_def strcpy_to_def buf_put_def
          MAX_MSG_LEN_def numeral_eq_Suc NUL_def NL_def)
  next
    case 2
    then show ?thesis
      using m t by (simp add: default_read_action_def scanf_line_def buf_put_def)
  next
    case 3
    then have "buf_put 0 (line @ [NUL]) (me_string mem) = Some (line @ [NUL])"
      using m by (simp add: buf_put_def)
    with 3 m t assms(2) show ?thesis
      by (simp add: default_read_action_def scanf_line_def strcat_def strcpy_to_def buf_put_def)
  next
    case 4
    then have e: "MAX_MSG_LEN - Suc (length line) = Suc k"
      by simp
    from 4 have "buf_put 0 (line @ [NUL]) (me_string mem) = Some (line @ NUL # NUL # replicate k NUL)"
      using m e by (simp add: buf_put_def)
    moreover have "strcpy_to (length line) [NL] (line @ NUL # NUL # replicate k NUL) = Some (line @ NL # NUL # replicate k NUL)"
      by (simp add: strcpy_to_def buf_put_def)
    moreover have "cstr ((line @ [NL]) @ NUL # replicate k NUL) = Some (line @ [NL])"
      by (rule cstr_append_NUL) (use assms(2) in simp)
    ultimately show ?thesis
      using 4 e t assms(2) by (simp add: default_read_action_def scanf_line_def strcat_def)
  qed
qed

theorem default_read_action_cases_witness:
  "\<exists>m. default_read_action demo_message (NL # ''x'') = Some (NL # ''x'', m)"
  using default_read_action_cases [of "[]" demo_message "''x''"] demo_blank by simp

end
