(* ===== verification/Messenger_Server.thy ===== *)
theory Messenger_Server imports Messenger begin

section \<open>The server of the messenger: invariant and consequences\<close>

text \<open>
  What holds of a server between two events of \<open>tcp_server_process\<close>, whatever the events are: one
  preservation lemma per operation on connections, the machine of a server as an instance of
  \<open>safe_machine\<close>, and the properties of its list of connections.
\<close>

subsection \<open>The invariant of a server\<close>

text \<open>
  Between events the list, the counter and the records agree, every record is well formed, and what is
  registered with epoll are exactly the descriptors and addresses of the live connections, so that no
  event can name a connection that has been freed.
\<close>

definition conn_ok :: "conn \<Rightarrow> bool" where
  "conn_ok c \<longleftrightarrow> length (cn_host c) = NI_MAXHOST \<and> length (cn_service c) = NI_MAXSERV \<and> conn_texts c
     \<and> length (cn_buffer c) = MAX_MSG_LEN + 1 \<and> cn_offset c \<le> MAX_MSG_LEN + 1"

definition net_ok :: "addr \<Rightarrow> net \<Rightarrow> (addr \<times> conn) list \<Rightarrow> bool" where
  "net_ok l nt cs \<longleftrightarrow> conn_rep l nt cs \<and> (\<forall>(a, c) \<in> set cs. conn_ok c)
     \<and> nt_epoll nt = map (\<lambda>(a, c). (cn_fd c, a)) cs \<and> distinct (map (cn_fd \<circ> snd) cs)"

definition server_ok :: "server \<Rightarrow> bool" where
  "server_ok srv \<longleftrightarrow> (\<exists>cs. net_ok (sv_head srv) (sv_net srv) cs)"

text \<open>What the system delivers: fresh memory and descriptors, terminated names, registered pointers.\<close>

fun ev_ok :: "server \<Rightarrow> event \<Rightarrow> bool" where
  "ev_ok srv (Ev_listen fd rc host service a ok) \<longleftrightarrow> fd < 0 \<or> fd \<notin> fst ` set (nt_epoll (sv_net srv)) \<and>
     (a = NULL \<or> a \<noteq> sv_head srv \<and> nt_conns (sv_net srv) a = None
       \<and> length host < NI_MAXHOST \<and> NUL \<notin> set host \<and> length service < NI_MAXSERV \<and> NUL \<notin> set service)"
| "ev_ok srv (Ev_conn a rd mem) \<longleftrightarrow> a \<in> snd ` set (nt_epoll (sv_net srv))"

lemma filter_fd_fresh: "fd \<notin> fst ` set es \<Longrightarrow> filter (\<lambda>(f, _). f \<noteq> fd) es = es"
  by (induction es) auto

lemma name_conn_ok:
  assumes "conn_ok c" "length host < NI_MAXHOST" "NUL \<notin> set host" "length service < NI_MAXSERV" "NUL \<notin> set service"
  shows "\<exists>c'. name_conn host service c = Some c' \<and> conn_ok c' \<and> cn_fd c' = cn_fd c \<and> conn_named host service c'
    \<and> cn_offset c' = cn_offset c \<and> cn_buffer c' = cn_buffer c"
proof -
  obtain h where h: "strncpy NI_MAXHOST host (cn_host c) = Some h" "cstr h = Some host" "length h = NI_MAXHOST"
    using cstr_strncpy [of "cn_host c" NI_MAXHOST host] assms by (auto simp: conn_ok_def)
  obtain s where s: "strncpy NI_MAXSERV service (cn_service c) = Some s" "cstr s = Some service" "length s = NI_MAXSERV"
    using cstr_strncpy [of "cn_service c" NI_MAXSERV service] assms by (auto simp: conn_ok_def)
  have "NUL \<in> set h" "NUL \<in> set s"
    using h(2) s(2) by (auto simp: cstr_def split: if_splits)
  with h s assms(1) show ?thesis
    by (simp add: name_conn_def conn_ok_def conn_texts_def conn_named_def)
qed

lemma zero_conn_ok: "conn_ok (zero_conn\<lparr>cn_fd := fd\<rparr>)"
  by (simp add: conn_ok_def zero_conn_def conn_texts_def NI_MAXHOST_def NI_MAXSERV_def MAX_MSG_LEN_def)

lemma connection_add_bound:
  assumes "connection_add a l fd nt = Some r" "conn_rep l nt cs" "a \<noteq> NULL"
  shows "Suc (length cs) < 2 ^ 31"
  using assms conn_rep_distinct [OF assms(2)]
  by (auto simp: connection_add_def Let_def conn_rep_def c_int_def split: if_splits)

lemma server_add_connection_step:
  assumes "server_add_connection a ok host service srv fd = Some (rc, srv')" "net_ok (sv_head srv) (sv_net srv) cs"
    and "ev_ok srv (Ev_listen fd 0 host service a ok)" "0 \<le> fd"
  shows "sv_head srv' = sv_head srv \<and> (rc = 1 \<and> a = NULL \<and> net_ok (sv_head srv) (sv_net srv') cs
    \<or> rc = 0 \<and> ok \<and> a \<noteq> NULL \<and> (\<exists>c. net_ok (sv_head srv) (sv_net srv') (cs @ [(a, c)]) \<and> cn_fd c = fd \<and> conn_named host service c))"
proof (cases "a = NULL")
  case True
  have "fd \<notin> fst ` set (nt_epoll (sv_net srv))"
    using assms(3,4) by simp
  with True assms(1,2) show ?thesis
    by (auto simp: server_add_connection_def connection_add_def close_fd_def net_ok_def conn_rep_def
        filter_fd_fresh)
next
  case False
  note ok = assms(2)[unfolded net_ok_def]
  have ev: "a \<noteq> sv_head srv" "nt_conns (sv_net srv) a = None" "length host < NI_MAXHOST" "NUL \<notin> set host"
    "length service < NI_MAXSERV" "NUL \<notin> set service" "fd \<notin> fst ` set (nt_epoll (sv_net srv))"
    using assms(3,4) False by auto
  obtain r where "connection_add a (sv_head srv) fd (sv_net srv) = Some r"
    using assms(1) by (auto simp: server_add_connection_def)
  then have b: "Suc (length cs) < 2 ^ 31"
    using connection_add_bound ok False by blast
  obtain nt1 where nt1: "connection_add a (sv_head srv) fd (sv_net srv) = Some (a, nt1)"
    "conn_rep (sv_head srv) nt1 (cs @ (a, zero_conn\<lparr>cn_fd := fd\<rparr>) # [])" "nt_epoll nt1 = nt_epoll (sv_net srv)"
    using connection_add_rep [of "sv_head srv" "sv_net srv" cs a fd] ok ev(1,2) False b by auto
  obtain c where c: "name_conn host service (zero_conn\<lparr>cn_fd := fd\<rparr>) = Some c" "conn_ok c" "cn_fd c = fd"
    "conn_named host service c"
    using name_conn_ok [OF zero_conn_ok ev(3-6)] by auto
  obtain nt2 where nt2: "upd_conn a (name_conn host service) nt1 = Some nt2" "conn_rep (sv_head srv) nt2 (cs @ (a, c) # [])"
    "nt_epoll nt2 = nt_epoll nt1"
    using conn_rep_upd [where f = "name_conn host service", OF nt1(2) c(1)] by blast
  show ?thesis
  proof (cases ok)
    case True
    then have s: "srv' = srv\<lparr>sv_net := epoll_add fd a nt2\<rparr>" "rc = 0"
      using assms(1) nt1(1) nt2(1) False by (auto simp: server_add_connection_def)
    have "fd \<notin> set (map (cn_fd \<circ> snd) cs)"
      using ev(7) ok by (auto simp: image_iff)
    then have "net_ok (sv_head srv) (sv_net srv') (cs @ [(a, c)])"
      using s nt1(3) nt2 ok c(2,3) by (simp add: net_ok_def epoll_add_def conn_rep_def)
    with s True False c show ?thesis by auto
  next
    case False
    obtain nt3 where "connection_delete a (sv_head srv) nt2 = Some nt3" "nt_conns nt3 a = None"
      using connection_delete_rep [OF nt2(2)] by blast
    then show ?thesis
      using assms(1) nt1(1) nt2(1) False \<open>a \<noteq> NULL\<close> by (auto simp: server_add_connection_def free_conn_def)
  qed
qed

lemma read_connection_data_ok:
  assumes "read_connection_data rd (Some c) = Some (rc, p)" "conn_ok c"
  shows "\<exists>c'. p = Some c' \<and> conn_ok c' \<and> cn_fd c' = cn_fd c \<and> (rc = 1 \<or> rc = 0)"
  using assms
  by (auto simp: read_connection_data_def Let_def conn_ok_def conn_texts_def buf_put_def split: if_splits option.splits list.splits)

lemma connection_extract_ok:
  assumes "connection_extract_message c mem = Some (found, c', msg)" "conn_ok c"
  shows "conn_ok c' \<and> cn_fd c' = cn_fd c"
  using assms by (auto simp: connection_extract_message_def conn_ok_def conn_texts_def Let_def split: option.splits)

lemma net_ok_upd:
  assumes "net_ok l nt (xs @ (a, c) # ys)" "conn_ok c'" "cn_fd c' = cn_fd c"
  shows "\<exists>nt'. upd_conn a (\<lambda>_. Some c') nt = Some nt' \<and> net_ok l nt' (xs @ (a, c') # ys)"
proof -
  have r: "conn_rep l nt (xs @ (a, c) # ys)"
    using assms(1) by (simp add: net_ok_def)
  obtain nt' where "upd_conn a (\<lambda>_. Some c') nt = Some nt'" "conn_rep l nt' (xs @ (a, c') # ys)" "nt_epoll nt' = nt_epoll nt"
    using conn_rep_upd [where f = "\<lambda>_. Some c'", OF r refl] by blast
  with assms show ?thesis
    by (auto simp: net_ok_def)
qed

lemma net_ok_delete:
  assumes "net_ok l nt (xs @ (a, c) # ys)"
  shows "\<exists>nt'. connection_delete a l nt = Some nt' \<and> net_ok l nt' (xs @ ys)"
proof -
  have r: "conn_rep l nt (xs @ (a, c) # ys)"
    using assms by (simp add: net_ok_def)
  obtain nt' where n: "connection_delete a l nt = Some nt'" "conn_rep l nt' (xs @ ys)"
    "nt_epoll nt' = filter (\<lambda>(f, _). f \<noteq> cn_fd c) (nt_epoll nt)"
    using connection_delete_rep [OF r] by blast
  have f: "filter (\<lambda>(f, _). f \<noteq> cn_fd c) (map (\<lambda>(a, c). (cn_fd c, a)) zs) = map (\<lambda>(a, c). (cn_fd c, a)) zs"
    if "cn_fd c \<notin> (cn_fd \<circ> snd) ` set zs" for zs :: "(addr \<times> conn) list"
    using that by (intro filter_True) (auto simp: image_iff)
  have "cn_fd c \<notin> (cn_fd \<circ> snd) ` set xs" "cn_fd c \<notin> (cn_fd \<circ> snd) ` set ys"
    using assms by (auto simp: net_ok_def)
  then have "nt_epoll nt' = map (\<lambda>(a, c). (cn_fd c, a)) (xs @ ys)"
    using n(3) assms f [of xs] f [of ys] by (simp add: net_ok_def)
  with n assms show ?thesis
    by (auto simp: net_ok_def)
qed

lemma conn_event_ok:
  assumes "conn_event l a rd mem nt = Some (nt', msg)" "net_ok l nt cs" "a \<in> snd ` set (nt_epoll nt)"
  shows "\<exists>cs'. net_ok l nt' cs'"
proof -
  obtain c where "(a, c) \<in> set cs"
    using assms(2,3) by (auto simp: net_ok_def)
  then obtain xs ys where cs: "cs = xs @ (a, c) # ys"
    by (meson split_list)
  have ok: "net_ok l nt (xs @ (a, c) # ys)"
    using assms(2) cs by simp
  then have cc: "nt_conns nt a = Some c" "conn_ok c"
    using conn_rep_at [of l nt xs a c ys] by (auto simp: net_ok_def)
  obtain rc p where rd: "read_connection_data rd (Some c) = Some (rc, p)"
    using assms(1) cc(1) by (auto simp: conn_event_def)
  then obtain c1 where c1: "p = Some c1" "conn_ok c1" "cn_fd c1 = cn_fd c" "rc = 1 \<or> rc = 0"
    using read_connection_data_ok [OF rd cc(2)] by blast
  obtain nt1 where nt1: "upd_conn a (\<lambda>_. Some c1) nt = Some nt1" "net_ok l nt1 (xs @ (a, c1) # ys)"
    using net_ok_upd [OF ok c1(2,3)] by blast
  show ?thesis
  proof (cases "rc = 1")
    case True
    then show ?thesis
      using net_ok_delete [OF nt1(2)] assms(1) cc(1) rd c1(1) nt1(1) by (auto simp: conn_event_def)
  next
    case False
    then obtain found c2 m where e: "connection_extract_message c1 mem = Some (found, c2, m)"
      using assms(1) cc(1) rd c1(1) nt1(1) by (auto simp: conn_event_def)
    note k = connection_extract_ok [OF e c1(2)]
    obtain nt2 where "upd_conn a (\<lambda>_. Some c2) nt1 = Some nt2" "net_ok l nt2 (xs @ (a, c2) # ys)"
      using net_ok_upd [OF nt1(2), of c2] k c1(3) by auto
    then show ?thesis
      using False assms(1) cc(1) rd c1(1) nt1(1) e by (auto simp: conn_event_def)
  qed
qed

definition server_step :: "server \<Rightarrow> server \<Rightarrow> bool" where
  "server_step s t \<longleftrightarrow> (\<exists>e. ev_ok s e \<and> server_events None [e] s = Some t)"

definition server_start :: "server \<Rightarrow> bool" where
  "server_start s \<longleftrightarrow> conn_rep (sv_head s) (sv_net s) [] \<and> nt_epoll (sv_net s) = []"

lemma server_execute_net: "server_execute_callback m s = Some t \<Longrightarrow> sv_net t = sv_net s \<and> sv_head t = sv_head s"
  by (auto simp: server_execute_callback_def split: if_splits)

lemma server_ok_step:
  assumes "server_ok s" "ev_ok s e" "server_events None [e] s = Some t"
  shows "server_ok t"
proof -
  obtain cs where cs: "net_ok (sv_head s) (sv_net s) cs"
    using assms(1) by (auto simp: server_ok_def)
  show ?thesis
  proof (cases e)
    case (Ev_listen fd rc host service a ok)
    show ?thesis
    proof (cases "fd < 0")
      case False
      then obtain r where "server_add_connection a ok host service s fd = Some (r, t)"
        using assms(3) Ev_listen by auto
      then show ?thesis
        using server_add_connection_step [OF _ cs] assms(2) Ev_listen False by (fastforce simp: server_ok_def)
    qed (use assms Ev_listen in auto)
  next
    case (Ev_conn a rd mem)
    then obtain nt msg where c: "conn_event (sv_head s) a rd mem (sv_net s) = Some (nt, msg)"
      using assms(3) by auto
    obtain cs' where "net_ok (sv_head s) nt cs'"
      using conn_event_ok [OF c cs] assms(2) Ev_conn by auto
    then show ?thesis
      using c Ev_conn assms(3) by (cases msg) (auto simp: server_ok_def dest!: server_execute_net)
  qed
qed

interpretation svm: safe_machine server_start server_step server_ok
proof unfold_locales
  show "server_start s \<Longrightarrow> server_ok s" for s
    by (auto simp: server_start_def server_ok_def net_ok_def)
  show "server_ok s \<Longrightarrow> server_step s t \<Longrightarrow> server_ok t" for s t
    using server_ok_step by (auto simp: server_step_def)
qed


definition demo_server :: server where
  "demo_server = \<lparr>sv_head = 1, sv_net = cl_net demo_client, sv_port = ''80'', sv_exit_flag = 0, sv_max_events = 10,
     sv_listen_fd = 4, sv_epoll_fd = 3, sv_signalled = False\<rparr>"

lemma demo_server_reach: "reach server_start server_step demo_server"
  by (rule reach_init) (use demo_client_rep in \<open>simp add: server_start_def demo_server_def demo_client_def\<close>)


text \<open>
  A new connection is found again under the host and the service it was accepted from, when no earlier
  connection has the same names; and when epoll refuses the new descriptor, the connection is freed twice.
\<close>

theorem server_add_then_get:
  assumes "net_ok (sv_head srv) (sv_net srv) cs" "ev_ok srv (Ev_listen fd 0 host service a ok)" "0 \<le> fd" "a \<noteq> NULL"
    and "Suc (length cs) < 2 ^ 31" "conn_lookup host service cs = NULL"
  shows "(case server_add_connection a ok host service srv fd of
      None \<Rightarrow> \<not> ok
    | Some (rc, srv') \<Rightarrow> ok \<and> rc = 0 \<and> connection_get host service (sv_head srv') (sv_net srv') = Some a)"
proof (cases "server_add_connection a ok host service srv fd")
  case None
  have ev: "a \<noteq> sv_head srv" "nt_conns (sv_net srv) a = None" "length host < NI_MAXHOST" "NUL \<notin> set host"
    "length service < NI_MAXSERV" "NUL \<notin> set service"
    using assms(2-4) by auto
  obtain nt1 where nt1: "connection_add a (sv_head srv) fd (sv_net srv) = Some (a, nt1)"
    "conn_rep (sv_head srv) nt1 (cs @ (a, zero_conn\<lparr>cn_fd := fd\<rparr>) # [])"
    using connection_add_rep [of "sv_head srv" "sv_net srv" cs a fd] assms(1,4,5) ev(1,2) by (auto simp: net_ok_def)
  obtain c where "name_conn host service (zero_conn\<lparr>cn_fd := fd\<rparr>) = Some c"
    using name_conn_ok [OF zero_conn_ok ev(3-6)] by blast
  then obtain nt2 where "upd_conn a (name_conn host service) nt1 = Some nt2"
    using conn_rep_upd [where f = "name_conn host service", OF nt1(2)] by blast
  with None nt1(1) assms(4) show ?thesis
    by (auto simp: server_add_connection_def split: if_splits)
next
  case (Some r)
  then obtain rc srv' where r: "r = (rc, srv')" "server_add_connection a ok host service srv fd = Some (rc, srv')"
    by (cases r) auto
  obtain c where c: "sv_head srv' = sv_head srv" "rc = 0" ok "net_ok (sv_head srv) (sv_net srv') (cs @ [(a, c)])"
    "conn_named host service c"
    using server_add_connection_step [OF r(2) assms(1,2,3)] assms(4) by auto
  have "\<forall>(b, k) \<in> set (cs @ [(a, c)]). conn_texts k"
    using c(4) by (auto simp: net_ok_def conn_ok_def)
  then have g: "connection_get host service (sv_head srv) (sv_net srv') = Some (conn_lookup host service (cs @ [(a, c)]))"
    by (rule connection_get_rep [rotated]) (use c(4) in \<open>simp add: net_ok_def\<close>)
  have "find (\<lambda>(b, k). conn_named host service k) cs = None"
  proof (rule ccontr)
    assume "find (\<lambda>(b, k). conn_named host service k) cs \<noteq> None"
    then obtain b k where f: "find (\<lambda>(b, k). conn_named host service k) cs = Some (b, k)" by auto
    then have "(b, k) \<in> set cs"
      by (auto simp: find_Some_iff in_set_conv_nth)
    then have "b \<in> fst ` set cs"
      by (auto intro: image_eqI [where x = "(b, k)"])
    then have "b \<noteq> NULL"
      using assms(1) conn_rep_distinct [of "sv_head srv" "sv_net srv" cs] by (auto simp: net_ok_def)
    with f assms(6) show False
      by (simp add: conn_lookup_def)
  qed
  then have "find (\<lambda>(b, k). conn_named host service k) (cs @ [(a, c)]) = Some (a, c)"
    using c(5) by (induction cs) (auto split: if_splits)
  then have "conn_lookup host service (cs @ [(a, c)]) = a"
    by (simp add: conn_lookup_def)
  with c g r Some show ?thesis by simp
qed

theorem server_add_then_get_witness: "server_add_connection 2 False ''cam1'' ''80'' demo_server 5 = None"
proof -
  have "net_ok (sv_head demo_server) (sv_net demo_server) []"
    using demo_client_rep by (simp add: net_ok_def demo_server_def demo_client_def)
  from server_add_then_get [OF this, of 5 "''cam1''" "''80''" 2 False] show ?thesis
    by (auto simp: demo_server_def demo_client_def conn_lookup_def NI_MAXHOST_def NI_MAXSERV_def NUL_def split: option.splits)
qed

end
