(* ===== verification/Tcp_Ends.thy ===== *)
theory Tcp_Ends imports Messenger_Server begin

section \<open>Making and destroying servers, clients and proxies (server.c, client.c, proxy.c)\<close>

text \<open>
  A server or client is a block of memory whose first member is the head of its list of connections, so
  the address that \<open>malloc\<close> answers is the address of the head. \<open>thread_done\<close> says whether the
  listening thread has returned: the join waits for it.
\<close>

definition zero_net :: "addr \<Rightarrow> net" where
  "zero_net h = \<lparr>nt_heap = \<lparr>next_of = [h \<mapsto> NULL], prev_of = [h \<mapsto> NULL]\<rparr>, nt_conns = \<lambda>_. None, nt_cnt = 0,
     nt_closed = [], nt_epoll = [], nt_sent = []\<rparr>"

definition zero_server :: "addr \<Rightarrow> server" where
  "zero_server h = \<lparr>sv_head = h, sv_net = zero_net h, sv_port = replicate 8 NUL, sv_exit_flag = 0, sv_max_events = 0,
     sv_listen_fd = 0, sv_epoll_fd = 0, sv_signalled = False\<rparr>"

definition zero_client :: "addr \<Rightarrow> client" where
  "zero_client h = \<lparr>cl_head = h, cl_net = zero_net h, cl_exit_flag = 0, cl_max_events = 0, cl_epoll_fd = 0,
     cl_signalled = False\<rparr>"

definition init_list :: "addr \<Rightarrow> net \<Rightarrow> net option" where
  "init_list h nt = Option.bind (list_init h (nt_heap nt)) (\<lambda>hp. Some (nt\<lparr>nt_heap := hp\<rparr>))"

subsection \<open>Servers\<close>

text \<open>\<open>p\<close> is \<open>*p_srv\<close>: a server given by the caller is used, and cleared, where it is.\<close>

definition server_init :: "addr \<Rightarrow> server option \<Rightarrow> string \<Rightarrow> server option" where
  "server_init a p port = do {
     let h = (case p of None \<Rightarrow> a | Some srv \<Rightarrow> sv_head srv);
     let srv = zero_server h;
     if h = NULL then None
     else do {
       nt \<leftarrow> init_list h (sv_net srv);
       s \<leftarrow> strcpy_to 0 port (sv_port srv);
       Some (srv\<lparr>sv_net := nt, sv_port := s\<rparr>) } }"

definition server_create :: "addr \<Rightarrow> string \<Rightarrow> int \<Rightarrow> server option" where
  "server_create a port max_events = do {
     let srv = zero_server a;
     if a = NULL then None
     else do {
       s \<leftarrow> strcpy_to 0 port (sv_port srv);
       nt \<leftarrow> init_list a (sv_net srv);
       Some (srv\<lparr>sv_max_events := max_events, sv_exit_flag := 0, sv_port := s, sv_net := nt\<lparr>nt_cnt := 0\<rparr>\<rparr>) } }"

definition server_destroy :: "bool \<Rightarrow> server \<Rightarrow> net run" where
  "server_destroy thread_done srv = bind_run (run_of (connections_drain (sv_head srv) (sv_net srv))) (\<lambda>nt.
     if thread_done then Done nt else Blocked)"

subsection \<open>Clients\<close>

definition client_init :: "addr \<Rightarrow> client option" where
  "client_init a = (if a = NULL then None else do {
     nt \<leftarrow> init_list a (cl_net (zero_client a));
     Some ((zero_client a)\<lparr>cl_net := nt\<rparr>) })"

definition client_create :: "addr \<Rightarrow> client option" where
  "client_create a = (if a = NULL then None else do {
     nt \<leftarrow> init_list a (cl_net (zero_client a));
     Some ((zero_client a)\<lparr>cl_net := nt, cl_exit_flag := 0, cl_max_events := 10\<rparr>) })"

definition client_destroy :: "client \<Rightarrow> net option" where
  "client_destroy cli = connections_drain (cl_head cli) (cl_net cli)"

subsection \<open>Proxies\<close>

text \<open>
  The array of clients is allocated with room for \<open>max_clients\<close> times the size of a client in pointers
  (the two sizes are multiplied), and its entries are not cleared: the loop that should do it runs to
  the counter, which is 0.
\<close>

record proxy =
  px_max_clients :: int
  px_srv :: "server option"
  px_clients_cnt :: int
  px_clients :: "client option list"

definition proxy_create :: "nat \<Rightarrow> client option list \<Rightarrow> int \<Rightarrow> proxy option" where
  "proxy_create sizeof_client mem max_clients =
     (if length mem \<noteq> nat max_clients * sizeof_client then None
      else Some \<lparr>px_max_clients = max_clients, px_srv = None, px_clients_cnt = 0, px_clients = mem\<rparr>)"

definition proxy_add_server :: "proxy \<Rightarrow> server \<Rightarrow> proxy" where
  "proxy_add_server px srv = px\<lparr>px_srv := Some srv\<rparr>"

definition proxy_add_client :: "proxy \<Rightarrow> client \<Rightarrow> proxy option" where
  "proxy_add_client px cli = do {
     cs \<leftarrow> arr_set (px_clients px) (px_clients_cnt px) (Some cli);
     cnt \<leftarrow> c_int (px_clients_cnt px + 1);
     Some (px\<lparr>px_clients := cs, px_clients_cnt := cnt\<rparr>) }"

fun destroy_clients :: "client option list \<Rightarrow> net list option" where
  "destroy_clients [] = Some []"
| "destroy_clients (p # ps) = do { cli \<leftarrow> p; nt \<leftarrow> client_destroy cli; r \<leftarrow> destroy_clients ps; Some (nt # r) }"

definition proxy_destroy :: "proxy \<Rightarrow> net list option" where
  "proxy_destroy px = (if int (length (px_clients px)) < px_clients_cnt px then None
     else destroy_clients (take (nat (px_clients_cnt px)) (px_clients px)))"

subsection \<open>What they make\<close>

lemma init_list_zero: "h \<noteq> NULL \<Longrightarrow> \<exists>nt. init_list h (zero_net h) = Some nt \<and> conn_rep h nt [] \<and> nt_epoll nt = []"
  using list_init_is_list [of "nt_heap (zero_net h)" h]
  by (auto simp: init_list_def zero_net_def mapped_def conn_rep_def)

lemma server_create_start:
  assumes "a \<noteq> NULL" "length port < 8" "NUL \<notin> set port"
  shows "\<exists>srv. server_create a port max_events = Some srv \<and> server_start srv \<and> cstr (sv_port srv) = Some port
    \<and> sv_exit_flag srv = 0"
proof -
  obtain nt where nt: "init_list a (zero_net a) = Some nt" "conn_rep a nt []" "nt_epoll nt = []"
    using init_list_zero [OF assms(1)] by blast
  have "strcpy_to 0 port (replicate 8 NUL) = Some (port @ NUL # drop (Suc (length port)) (replicate 8 NUL))"
    using assms(2) by (simp add: strcpy_to_0)
  then show ?thesis
    using nt assms(1,3) by (simp add: server_create_def zero_server_def server_start_def conn_rep_def Let_def)
qed

lemma server_create_long_port: "8 \<le> length port \<Longrightarrow> server_create a port max_events = None"
  by (simp add: server_create_def zero_server_def strcpy_to_0_None Let_def)

fun proxy_add_all :: "client list \<Rightarrow> proxy \<Rightarrow> proxy option" where
  "proxy_add_all [] px = Some px"
| "proxy_add_all (c # cs) px = Option.bind (proxy_add_client px c) (proxy_add_all cs)"

lemma proxy_add_all_ok:
  assumes "px_clients_cnt px = int k" "k + length cs \<le> length (px_clients px)" "length (px_clients px) < 2 ^ 31"
  shows "\<exists>px'. proxy_add_all cs px = Some px' \<and> px_clients_cnt px' = int (k + length cs)
    \<and> length (px_clients px') = length (px_clients px)
    \<and> take (k + length cs) (px_clients px') = take k (px_clients px) @ map Some cs"
  using assms
proof (induction cs arbitrary: px k)
  case (Cons c cs)
  let ?px = "px\<lparr>px_clients := (px_clients px)[k := Some c], px_clients_cnt := int (Suc k)\<rparr>"
  have "proxy_add_client px c = Some ?px"
    using Cons.prems by (simp add: proxy_add_client_def c_int_def)
  moreover obtain px' where "proxy_add_all cs ?px = Some px'" "px_clients_cnt px' = int (Suc k + length cs)"
    "length (px_clients px') = length (px_clients ?px)"
    "take (Suc k + length cs) (px_clients px') = take (Suc k) (px_clients ?px) @ map Some cs"
    using Cons.IH [of ?px "Suc k"] Cons.prems by auto
  moreover have "take (Suc k) ((px_clients px)[k := Some c]) = take k (px_clients px) @ [Some c]"
    using Cons.prems(2) by (simp add: take_Suc_conv_app_nth)
  ultimately show ?case by simp
qed simp

lemma destroy_clients_ok:
  assumes "\<forall>c \<in> set cs. \<exists>ks. conn_rep (cl_head c) (cl_net c) ks"
  shows "\<exists>nts. destroy_clients (map Some cs) = Some nts \<and> length nts = length cs
    \<and> (\<forall>i < length cs. conn_rep (cl_head (cs ! i)) (nts ! i) [])"
  using assms
proof (induction cs)
  case (Cons c cs)
  then obtain ks where "conn_rep (cl_head c) (cl_net c) ks" by auto
  then obtain nt where "client_destroy c = Some nt" "conn_rep (cl_head c) nt []"
    using connections_drain_rep by (force simp: client_destroy_def)
  moreover obtain nts where "destroy_clients (map Some cs) = Some nts" "length nts = length cs"
    "\<forall>i < length cs. conn_rep (cl_head (cs ! i)) (nts ! i) []"
    using Cons by auto
  ultimately show ?case
    by (auto simp: less_Suc_eq_0_disj)
qed simp

subsection \<open>Properties\<close>

text \<open>
  A server made for a port of at most seven characters starts in the state whose reachable states are
  consistent; a longer port overruns the structure. When it is destroyed, all its connections are closed and
  the list is empty, and the call waits for the listening thread, which nobody wakes.
\<close>

theorem server_lifecycle:
  assumes "a \<noteq> NULL" "NUL \<notin> set port"
  shows "(case server_create a port max_events of
      None \<Rightarrow> 8 \<le> length port
    | Some srv \<Rightarrow> server_start srv \<and> cstr (sv_port srv) = Some port
        \<and> server_destroy False srv = Blocked
        \<and> (\<exists>nt. server_destroy True srv = Done nt \<and> conn_rep a nt []))"
proof (cases "length port < 8")
  case True
  obtain srv where s: "server_create a port max_events = Some srv" "server_start srv" "cstr (sv_port srv) = Some port"
    using server_create_start [OF assms(1) True assms(2), of max_events] by blast
  moreover have "sv_head srv = a"
    using s(1) by (auto simp: server_create_def zero_server_def Let_def split: if_splits)
  moreover obtain nt where "connections_drain (sv_head srv) (sv_net srv) = Some nt" "conn_rep (sv_head srv) nt []"
    using connections_drain_rep [of "sv_head srv" "sv_net srv" "[]"] s(2) by (auto simp: server_start_def)
  ultimately show ?thesis
    by (simp add: server_destroy_def)
qed (simp add: server_create_long_port)

theorem server_lifecycle_witness: "\<exists>srv. server_create 4 ''8080'' 10 = Some srv \<and> server_destroy False srv = Blocked"
proof -
  obtain srv where "server_create 4 ''8080'' 10 = Some srv"
    using server_create_start [of 4 "''8080''" 10] by (auto simp: NUL_def)
  with server_lifecycle [of 4 "''8080''" 10] show ?thesis
    by (simp add: NUL_def)
qed

text \<open>
  A proxy destroys exactly the clients that were added to it, each with all its connections; the
  entries that were never written are not touched.
\<close>

theorem proxy_destroys_its_clients:
  assumes "proxy_create sizeof_client mem max_clients = Some px" "length cs \<le> length mem" "length mem < 2 ^ 31"
    and "\<forall>c \<in> set cs. \<exists>ks. conn_rep (cl_head c) (cl_net c) ks"
  shows "\<exists>px' nts. proxy_add_all cs px = Some px' \<and> proxy_destroy px' = Some nts \<and> length nts = length cs
    \<and> (\<forall>i < length cs. conn_rep (cl_head (cs ! i)) (nts ! i) [])"
proof -
  have p: "px_clients_cnt px = int 0" "px_clients px = mem"
    using assms(1) by (auto simp: proxy_create_def split: if_splits)
  obtain px' where px': "proxy_add_all cs px = Some px'" "px_clients_cnt px' = int (0 + length cs)"
    "length (px_clients px') = length (px_clients px)"
    "take (0 + length cs) (px_clients px') = take 0 (px_clients px) @ map Some cs"
    using proxy_add_all_ok [OF p(1)] assms(2,3) p(2) by auto
  then have "proxy_destroy px' = destroy_clients (map Some cs)"
    using assms(2) p(2) by (simp add: proxy_destroy_def)
  with px'(1) destroy_clients_ok [OF assms(4)] show ?thesis by auto
qed

theorem proxy_destroys_its_clients_witness:
  "\<exists>px px'. proxy_create 2 [None, None] 1 = Some px \<and> proxy_add_all [demo_client] px = Some px' \<and> proxy_destroy px' \<noteq> None"
proof -
  obtain px where px: "proxy_create 2 [None, None] 1 = Some px"
    by (simp add: proxy_create_def)
  have "\<forall>c \<in> set [demo_client]. \<exists>ks. conn_rep (cl_head c) (cl_net c) ks"
    using demo_client_rep by (auto simp: demo_client_def)
  from proxy_destroys_its_clients [OF px _ _ this] px show ?thesis by auto
qed

end
