(* ===== verification/Tcp_Process.thy ===== *)
theory Tcp_Process imports Tcp_Ends begin

section \<open>The server and the client of the old protocol (tcp_process.c)\<close>

text \<open>
  One thread serves all connections with \<open>select\<close>, on the request and reply arrays of a connection. The reciever
  and the sender are parameters of the two loops, with defaults. A round of a loop gets the answers of
  the system as an argument. What the callbacks print is not modelled.
\<close>

text \<open>The conversion of a \<open>size_t\<close> difference to \<open>int\<close>, and the subtraction in \<open>size_t\<close>.\<close>

definition to_int32 :: "int \<Rightarrow> int" where
  "to_int32 i = (i + 2 ^ 31) mod 2 ^ 32 - 2 ^ 31"

definition size_minus :: "nat \<Rightarrow> nat \<Rightarrow> nat" where
  "size_minus a b = (if b \<le> a then a - b else 2 ^ 64 - (b - a))"

lemma to_int32_id [simp]: "- 2147483648 \<le> i \<Longrightarrow> i < 2147483648 \<Longrightarrow> to_int32 i = i"
  by (simp add: to_int32_def)

type_synonym callback = "conn option \<Rightarrow> int \<Rightarrow> (int \<times> conn option \<times> int) option"

subsection \<open>Texts of the server\<close>

definition sprintf_reply :: "string \<Rightarrow> conn \<Rightarrow> (int \<times> conn) option" where
  "sprintf_reply s c = do {
     r \<leftarrow> strcpy_to 0 s (cn_reply c);
     t \<leftarrow> cstr r;
     Some (int (length t), c\<lparr>cn_reply := r, cn_reply_used := length t\<rparr>) }"

definition reply_head :: "nat \<Rightarrow> int \<Rightarrow> string" where
  "reply_head n fd = ''RE'' @ show_base 16 n @ ''{0:'' @ show_int fd"

definition is_quit :: "string \<Rightarrow> bool" where
  "is_quit buf \<longleftrightarrow> str_case_eq buf ''STOP'' \<or> str_case_eq buf ''S'' \<or> str_case_eq buf ''QUIT'' \<or> str_case_eq buf ''Q''
     \<or> str_case_eq buf ''EXIT''"

definition default_server_reciever :: callback where
  "default_server_reciever p exit_flag = (case p of
     None \<Rightarrow> Some (0, None, exit_flag)
   | Some c \<Rightarrow> do {
       buf \<leftarrow> cstr (cn_request c);
       let (text, exit_flag) =
         (if is_quit buf then (reply_head 28 (cn_fd c) @ '', stop command recieved}'' @ [NL], 1)
          else (reply_head (length buf + 24 + 2) (cn_fd c) @ '','' @ buf @ '',recieved ok}'', exit_flag));
       (n, c) \<leftarrow> sprintf_reply text c;
       Some (n, Some c, exit_flag) })"

definition default_server_sender :: callback where
  "default_server_sender p exit_flag = do {
     c \<leftarrow> p;
     buf \<leftarrow> cstr (cn_request c);
     (n, c) \<leftarrow> sprintf_reply (reply_head (length buf + 32 + 2) (cn_fd c) @ '','' @ buf @ '',sent from sender ok}'') c;
     Some (n, Some c, exit_flag) }"

text \<open>What the loop does itself when it is given no sender.\<close>

definition null_sender :: callback where
  "null_sender p exit_flag = do {
     c \<leftarrow> p;
     buf \<leftarrow> cstr (cn_request c);
     (n, c) \<leftarrow> sprintf_reply (reply_head (length buf + 20 + 2) (cn_fd c) @ '','' @ buf @ '',sent ok}'' @ [NL]) c;
     Some (n, Some c, exit_flag) }"

subsection \<open>One connection of the server\<close>

text \<open>
  \<open>memmove\<close> moves what stands behind the line to the front. The result has the connection, or \<open>None\<close> when
  it is to be deleted, the exit flag and the text written to the descriptor.
\<close>

definition consume_request :: "nat \<Rightarrow> conn \<Rightarrow> conn" where
  "consume_request endl c = c\<lparr>cn_request := shift_down (Suc endl) (cn_request c),
     cn_request_used := size_minus (cn_request_used c) (Suc endl)\<rparr>"

definition answer_line :: "callback option \<Rightarrow> callback option \<Rightarrow> nat \<Rightarrow> conn \<Rightarrow> int \<Rightarrow> (conn \<times> int \<times> string) option" where
  "answer_line reciever sender endl c exit_flag = do {
     let c = c\<lparr>cn_request := (cn_request c)[endl := NUL]\<rparr>;
     (_, p, exit_flag) \<leftarrow> (case reciever of None \<Rightarrow> default_server_reciever | Some f \<Rightarrow> f) (Some c) exit_flag;
     (_, p, exit_flag) \<leftarrow> (case sender of None \<Rightarrow> null_sender | Some f \<Rightarrow> f) p exit_flag;
     c \<leftarrow> p;
     reply \<leftarrow> cstr (cn_reply c);
     Some (consume_request endl c, exit_flag, reply) }"

definition serve_connection :: "callback option \<Rightarrow> callback option \<Rightarrow> string option \<Rightarrow> conn \<Rightarrow> int \<Rightarrow>
    (conn option \<times> int \<times> string option) option" where
  "serve_connection reciever sender rd c exit_flag =
     (if to_int32 (int (MAX_MSG_LEN + 1) - int (cn_request_used c)) \<le> 0 then Some (Some c, exit_flag, None)
      else case rd of
          None \<Rightarrow> Some (None, exit_flag, None)
        | Some [] \<Rightarrow> Some (None, exit_flag, None)
        | Some bytes \<Rightarrow> do {
            req \<leftarrow> buf_put (cn_request_used c) bytes (cn_request c);
            let c = c\<lparr>cn_request := req, cn_request_used := cn_request_used c + length bytes\<rparr>;
            case memchr req NL (cn_request_used c) of
              None \<Rightarrow> Some (Some c, exit_flag, None)
            | Some endl \<Rightarrow> do {
                (c, exit_flag, reply) \<leftarrow> answer_line reciever sender endl c exit_flag;
                Some (Some c, exit_flag, Some reply) } })"

subsection \<open>The server\<close>

partial_function (option) fd_set_loop :: "addr \<Rightarrow> net \<Rightarrow> addr \<Rightarrow> unit option" where
  "fd_set_loop l nt item =
     (if \<not> list_is_valid_elem l item then Some ()
      else Option.bind (nt_conns nt item) (\<lambda>c.
        Option.bind (get_next (nt_heap nt) item) (\<lambda>next.
        if fd_in_set (cn_fd c) then fd_set_loop l nt next else None)))"

record select_answers =
  sr_ready :: "int list option"
  sr_accept :: int
  sr_alloc :: addr
  sr_reads :: "addr \<Rightarrow> string option"

definition accept_old :: "int \<Rightarrow> addr \<Rightarrow> addr \<Rightarrow> net \<Rightarrow> net option" where
  "accept_old fd1 a l nt =
     (if fd1 = - 1 then Some nt
      else do { (c, nt) \<leftarrow> connection_add a l fd1 nt;
                Some (if c = NULL then close_fd fd1 nt else nt) })"

definition serve_item :: "callback option \<Rightarrow> callback option \<Rightarrow> string option \<Rightarrow> addr \<Rightarrow> addr \<Rightarrow> net \<Rightarrow> int \<Rightarrow> (net \<times> int) option" where
  "serve_item reciever sender rd l item nt exit_flag = do {
     c \<leftarrow> nt_conns nt item;
     (p, exit_flag, reply) \<leftarrow> serve_connection reciever sender rd c exit_flag;
     case p of
       None \<Rightarrow> do { nt \<leftarrow> connection_delete item l nt; Some (nt, exit_flag) }
     | Some c \<Rightarrow> do {
         nt \<leftarrow> upd_conn item (\<lambda>_. Some c) nt;
         Some (case reply of None \<Rightarrow> nt | Some s \<Rightarrow> write_fd (cn_fd c) s nt, exit_flag) } }"

partial_function (option) serve_loop :: "callback option \<Rightarrow> callback option \<Rightarrow> int list \<Rightarrow> (addr \<Rightarrow> string option) \<Rightarrow> addr \<Rightarrow>
    net \<times> int \<Rightarrow> addr \<Rightarrow> (net \<times> int) option" where
  "serve_loop reciever sender ready reads l s item =
     (if snd s \<noteq> 0 \<or> \<not> list_is_valid_elem l item then Some s
      else Option.bind (nt_conns (fst s) item) (\<lambda>c.
        Option.bind (get_next (nt_heap (fst s)) item) (\<lambda>next.
        if \<not> fd_in_set (cn_fd c) then None
        else if cn_fd c \<notin> set ready then serve_loop reciever sender ready reads l s next
        else Option.bind (serve_item reciever sender (reads item) l item (fst s) (snd s)) (\<lambda>s.
          serve_loop reciever sender ready reads l s next))))"

text \<open>A round ends the program (\<open>None\<close> inside) when \<open>select\<close> fails.\<close>

definition select_round :: "callback option \<Rightarrow> callback option \<Rightarrow> int \<Rightarrow> addr \<Rightarrow> select_answers \<Rightarrow> net \<times> int \<Rightarrow>
    (net \<times> int) option option" where
  "select_round reciever sender fd l r s = do {
     item \<leftarrow> list_first_elem (nt_heap (fst s)) l;
     _ \<leftarrow> (if fd_in_set fd then fd_set_loop l (fst s) item else None);
     case sr_ready r of
       None \<Rightarrow> Some None
     | Some ready \<Rightarrow> do {
         nt \<leftarrow> (if fd \<in> set ready then accept_old (sr_accept r) (sr_alloc r) l (fst s) else Some (fst s));
         item \<leftarrow> list_first_elem (nt_heap nt) l;
         s \<leftarrow> serve_loop reciever sender ready (sr_reads r) l (nt, snd s) item;
         Some (Some s) } }"

datatype tcp_end = Exit_failure | Exit_success | Still_running net

fun bind_loop_old :: "(int \<times> bool \<times> bool) list \<Rightarrow> net \<Rightarrow> int option \<times> net" where
  "bind_loop_old [] nt = (None, nt)"
| "bind_loop_old ((fd, opt_ok, bound) # rest) nt =
     (if fd = - 1 then bind_loop_old rest nt
      else if \<not> opt_ok then bind_loop_old rest (close_fd fd nt)
      else if bound then (Some fd, nt)
      else bind_loop_old rest (close_fd fd nt))"

text \<open>
  \<open>server_destroy\<close> closes the connections and joins a thread that this kind of server never created: the
  identifier is zero from \<open>memset\<close>, and joining it is undefined.
\<close>

fun select_rounds :: "callback option \<Rightarrow> callback option \<Rightarrow> int \<Rightarrow> addr \<Rightarrow> select_answers list \<Rightarrow> net \<times> int \<Rightarrow> tcp_end run" where
  "select_rounds reciever sender fd l rs s =
     (if snd s \<noteq> 0 then bind_run (run_of (connections_drain l (close_fd fd (fst s)))) (\<lambda>_. Fault)
      else case rs of [] \<Rightarrow> Done (Still_running (fst s))
        | r # rs \<Rightarrow> bind_run (run_of (select_round reciever sender fd l r s)) (\<lambda>p. case p of
            None \<Rightarrow> Done Exit_failure
          | Some s \<Rightarrow> select_rounds reciever sender fd l rs s))"

declare select_rounds.simps [simp del]

definition tcp_server_process_old :: "callback option \<Rightarrow> callback option \<Rightarrow> addr \<Rightarrow> string \<Rightarrow> int \<Rightarrow> (int \<times> bool \<times> bool) list \<Rightarrow>
    bool \<Rightarrow> select_answers list \<Rightarrow> tcp_end run" where
  "tcp_server_process_old reciever sender a port gai socks listen_ok rs =
     (case server_init a None port of None \<Rightarrow> Fault | Some srv \<Rightarrow>
       if gai \<noteq> 0 then Done Exit_failure
       else case bind_loop_old socks (sv_net srv) of
           (None, nt) \<Rightarrow> Done Exit_failure
         | (Some fd, nt) \<Rightarrow> if \<not> listen_ok then Done Exit_failure
             else select_rounds reciever sender fd (sv_head srv) rs (nt, 0))"

subsection \<open>The client\<close>

text \<open>\<open>scanf\<close> leaves an empty line in the input and the request as it was; \<open>strcat\<close> then adds another newline.\<close>

definition default_client_sender :: "string \<Rightarrow> conn option \<Rightarrow> (string \<times> int \<times> conn option) option" where
  "default_client_sender stdin p = (case p of
     None \<Rightarrow> Some (stdin, 0, None)
   | Some c \<Rightarrow> do {
       (stdin, req) \<leftarrow> scanf_line stdin (cn_request c);
       req \<leftarrow> strcat req [NL];
       t \<leftarrow> cstr req;
       Some (stdin, int (length t), Some (c\<lparr>cn_request := req\<rparr>)) })"

definition default_client_reciever :: "conn option \<Rightarrow> int option" where
  "default_client_reciever p = (case p of None \<Rightarrow> Some 0
     | Some c \<Rightarrow> Option.bind (cstr (cn_reply c)) (\<lambda>s. Some (int (length s))))"

text \<open>
  A turn of the client, on what can still be typed, the connection and the exit flag: \<open>written\<close> is the result
  of \<open>write\<close>, \<open>rd\<close> what \<open>read\<close> delivers. The turn goes on (\<open>True\<close>) or leaves the loop. Without a newline in the
  reply, \<open>endl\<close> is NULL and is incremented, unless the given reciever answered -1.
\<close>

type_synonym client_sender = "string \<Rightarrow> conn option \<Rightarrow> int \<Rightarrow> (string \<times> conn option \<times> int) option"

definition send_request :: "client_sender option \<Rightarrow> client_sender" where
  "send_request sender stdin p exit_flag = (case sender of
     Some f \<Rightarrow> f stdin p exit_flag
   | None \<Rightarrow> do { (stdin, _, p) \<leftarrow> default_client_sender stdin p; Some (stdin, p, exit_flag) })"

definition client_turn_old :: "client_sender option \<Rightarrow> callback option \<Rightarrow> int \<Rightarrow> string option \<Rightarrow> string \<times> conn option \<times> int \<Rightarrow>
    (bool \<times> string \<times> conn option \<times> int) option" where
  "client_turn_old sender reciever written rd s = do {
     (stdin, p, ef) \<leftarrow> send_request sender (fst s) (fst (snd s)) (snd (snd s));
     c \<leftarrow> p;
     req \<leftarrow> cstr (cn_request c);
     if written \<noteq> int (length req) then Some (False, stdin, Some c, ef)
     else if to_int32 (int (MAX_MSG_LEN + 1) - int (cn_reply_used c)) \<le> 0 then Some (True, stdin, Some c, ef)
     else case rd of
         None \<Rightarrow> Some (False, stdin, Some c, 1)
       | Some [] \<Rightarrow> Some (False, stdin, Some c, 1)
       | Some bytes \<Rightarrow> do {
           reply \<leftarrow> buf_put (cn_reply_used c) bytes (cn_reply c);
           let used = cn_reply_used c + length bytes;
           let endl = memchr reply NL used;
           let reply = (case endl of None \<Rightarrow> reply | Some i \<Rightarrow> reply[i := NUL]);
           _ \<leftarrow> cstr reply;
           let c = c\<lparr>cn_reply := reply, cn_reply_used := used\<rparr>;
           (rc, p, ef) \<leftarrow> (case reciever of
               None \<Rightarrow> do { _ \<leftarrow> default_client_reciever (Some c); Some (0, Some c, ef) }
             | Some f \<Rightarrow> f (Some c) ef);
           if rc = - 1 then Some (True, stdin, p, ef)
           else do {
             i \<leftarrow> endl;
             c \<leftarrow> p;
             Some (True, stdin, Some (c\<lparr>cn_reply := shift_down (Suc i) (cn_reply c),
               cn_reply_used := size_minus (cn_reply_used c) (Suc i)\<rparr>), ef) } } }"

fun client_turns_old :: "client_sender option \<Rightarrow> callback option \<Rightarrow> (int \<times> string option) list \<Rightarrow> string \<times> conn option \<times> int \<Rightarrow>
    (bool \<times> string \<times> conn option \<times> int) option" where
  "client_turns_old sender reciever ts s =
     (if snd (snd s) \<noteq> 0 then Some (False, s)
      else case ts of [] \<Rightarrow> Some (True, s)
        | (written, rd) # ts \<Rightarrow> Option.bind (client_turn_old sender reciever written rd s) (\<lambda>(goes_on, s).
            if goes_on then client_turns_old sender reciever ts s else Some (False, s)))"

declare client_turns_old.simps [simp del]

text \<open>Without memory for a connection the default sender has nothing to do, and NULL is written from.\<close>

definition tcp_client_process_old :: "client_sender option \<Rightarrow> callback option \<Rightarrow> addr \<Rightarrow> string \<Rightarrow> int \<Rightarrow> (int \<times> bool) list \<Rightarrow>
    (int \<times> string option) list \<Rightarrow> tcp_end run" where
  "tcp_client_process_old sender reciever a stdin gai socks ts =
     (if gai \<noteq> 0 then Done Exit_failure
      else case connect_loop socks (zero_net a) of
          (None, nt) \<Rightarrow> Done Exit_failure
        | (Some fd, nt) \<Rightarrow> run_of (do {
              (c, nt) \<leftarrow> connection_add a NULL fd nt;
              let p = (if c = NULL then None else nt_conns nt c);
              (goes_on, s) \<leftarrow> client_turns_old sender reciever ts (stdin, p, 0);
              Some (if goes_on then Still_running nt else Exit_success) }))"

subsection \<open>A line is taken out of the request\<close>

definition recieved_text :: "conn \<Rightarrow> string \<Rightarrow> string" where
  "recieved_text c buf = (if is_quit buf then reply_head 28 (cn_fd c) @ '', stop command recieved}'' @ [NL]
     else reply_head (length buf + 24 + 2) (cn_fd c) @ '','' @ buf @ '',recieved ok}'')"

definition sent_text :: "conn \<Rightarrow> string \<Rightarrow> string" where
  "sent_text c buf = reply_head (length buf + 20 + 2) (cn_fd c) @ '','' @ buf @ '',sent ok}'' @ [NL]"

lemma reply_head_no_NUL: "NUL \<notin> set (reply_head n fd)"
  using show_base_no_NUL [of 16 n] show_base_no_NUL [of 10 "nat fd"] show_base_no_NUL [of 10 "nat (- fd)"]
  by (auto simp: reply_head_def show_int_def NUL_def)

lemma texts_no_NUL: "NUL \<notin> set buf \<Longrightarrow> NUL \<notin> set (recieved_text c buf) \<and> NUL \<notin> set (sent_text c buf)"
  using reply_head_no_NUL by (auto simp: recieved_text_def sent_text_def NUL_def NL_def)

lemma sprintf_reply_fits:
  assumes "NUL \<notin> set s" "length s < length (cn_reply c)"
  obtains r where "length r = length (cn_reply c)" "cstr r = Some s"
    "sprintf_reply s c = Some (int (length s), c\<lparr>cn_reply := r, cn_reply_used := length s\<rparr>)"
  using assms that [of "s @ NUL # drop (Suc (length s)) (cn_reply c)"] by (simp add: sprintf_reply_def strcpy_to_0)

lemma sprintf_reply_overflow: "length (cn_reply c) \<le> length s \<Longrightarrow> sprintf_reply s c = None"
  by (simp add: sprintf_reply_def strcpy_to_0_None)

lemma answer_line_default:
  assumes "cstr ((cn_request c)[endl := NUL]) = Some buf" "length (cn_reply c) = MAX_MSG_LEN + 1"
  shows "if length (recieved_text c buf) \<le> MAX_MSG_LEN \<and> length (sent_text c buf) \<le> MAX_MSG_LEN
    then \<exists>r. length r = MAX_MSG_LEN + 1 \<and> answer_line None None endl c ef = Some (consume_request endl (c\<lparr>cn_request := (cn_request c)[endl := NUL],
        cn_reply := r, cn_reply_used := length (sent_text c buf)\<rparr>), if is_quit buf then 1 else ef, sent_text c buf)
    else answer_line None None endl c ef = None"
proof -
  have n: "NUL \<notin> set (recieved_text c buf)" "NUL \<notin> set (sent_text c buf)"
    using texts_no_NUL [OF cstr_no_NUL [OF assms(1)], of c] by simp_all
  let ?c = "c\<lparr>cn_request := (cn_request c)[endl := NUL]\<rparr>"
  have r: "default_server_reciever (Some ?c) ef = Option.bind (sprintf_reply (recieved_text c buf) ?c)
      (\<lambda>(n, c). Some (n, Some c, if is_quit buf then 1 else ef))"
    using assms(1) by (simp add: default_server_reciever_def recieved_text_def)
  show ?thesis
  proof (cases "length (recieved_text c buf) \<le> MAX_MSG_LEN")
    case True
    obtain r1 where r1: "length r1 = MAX_MSG_LEN + 1" "sprintf_reply (recieved_text c buf) ?c =
        Some (int (length (recieved_text c buf)), ?c\<lparr>cn_reply := r1, cn_reply_used := length (recieved_text c buf)\<rparr>)"
      using sprintf_reply_fits [OF n(1), of ?c] True assms(2) by auto
    let ?c1 = "?c\<lparr>cn_reply := r1, cn_reply_used := length (recieved_text c buf)\<rparr>"
    have s: "null_sender (Some ?c1) ef' = Option.bind (sprintf_reply (sent_text c buf) ?c1) (\<lambda>(n, c). Some (n, Some c, ef'))" for ef'
      using assms(1) by (simp add: null_sender_def sent_text_def)
    show ?thesis
    proof (cases "length (sent_text c buf) \<le> MAX_MSG_LEN")
      case t: True
      obtain r2 where r2: "length r2 = MAX_MSG_LEN + 1" "cstr r2 = Some (sent_text c buf)" "sprintf_reply (sent_text c buf) ?c1 =
          Some (int (length (sent_text c buf)), ?c1\<lparr>cn_reply := r2, cn_reply_used := length (sent_text c buf)\<rparr>)"
        using sprintf_reply_fits [OF n(2), of ?c1] t r1(1) by auto
      have "answer_line None None endl c ef = Some (consume_request endl (?c\<lparr>cn_reply := r2, cn_reply_used := length (sent_text c buf)\<rparr>),
          if is_quit buf then 1 else ef, sent_text c buf)"
        by (simp add: answer_line_def r r1(2) s r2(2,3))
      with True t r2(1) show ?thesis by auto
    next
      case False
      then have "answer_line None None endl c ef = None"
        using r1(1) by (simp add: answer_line_def r r1(2) s sprintf_reply_overflow)
      with False show ?thesis by simp
    qed
  next
    case False
    then have "answer_line None None endl c ef = None"
      using assms(2) by (simp add: answer_line_def r sprintf_reply_overflow)
    with False show ?thesis by simp
  qed
qed

lemma memchr_new_line:
  assumes "NL \<notin> set pend" "NL \<notin> set line" "n = length (pend @ line @ NL # rest)"
  shows "memchr (pend @ line @ NL # rest @ z) NL n = Some (length (pend @ line))"
  using memchr_append [of NL "pend @ line" n "rest @ z"] assms by simp

text \<open>A line arrives behind what is pending: where it is in the request, and what its end leaves there.\<close>

lemma line_received:
  assumes "length (cn_request c) = MAX_MSG_LEN + 1" "take (cn_request_used c) (cn_request c) = pend" "NL \<notin> set pend"
    and "cn_request_used c + length (l @ NL # rest) \<le> MAX_MSG_LEN + 1" "NL \<notin> set l" "NUL \<notin> set (pend @ l)"
  obtains req z where "buf_put (cn_request_used c) (l @ NL # rest) (cn_request c) = Some req" "length req = MAX_MSG_LEN + 1"
    "memchr req NL (cn_request_used c + length (l @ NL # rest)) = Some (length (pend @ l))" "length pend = cn_request_used c"
    "req[length (pend @ l) := NUL] = (pend @ l) @ NUL # rest @ z" "cstr (req[length (pend @ l) := NUL]) = Some (pend @ l)"
    "shift_down (Suc (length (pend @ l))) ((pend @ l) @ NUL # rest @ z) = rest @ z @ drop (length (rest @ z)) ((pend @ l) @ NUL # rest @ z)"
    "\<not> to_int32 (int (MAX_MSG_LEN + 1) - int (cn_request_used c)) \<le> 0"
proof
  let ?u = "cn_request_used c"
  have u: "length pend = ?u" "?u \<le> MAX_MSG_LEN"
    using assms(1,2,4) by auto
  define z where "z = drop (?u + length (l @ NL # rest)) (cn_request c)"
  define req where "req = pend @ l @ NL # rest @ z"
  show put: "buf_put ?u (l @ NL # rest) (cn_request c) = Some req"
    using assms(1,2,4) by (simp add: buf_put_def req_def z_def)
  show "length req = MAX_MSG_LEN + 1"
    using buf_put_length [OF put] assms(1) by simp
  show "memchr req NL (?u + length (l @ NL # rest)) = Some (length (pend @ l))"
    unfolding req_def by (rule memchr_new_line) (use assms(3,5) u(1) in auto)
  show "length pend = ?u"
    by (rule u(1))
  show upd: "req[length (pend @ l) := NUL] = (pend @ l) @ NUL # rest @ z"
    by (simp add: req_def list_update_append)
  show "cstr (req[length (pend @ l) := NUL]) = Some (pend @ l)"
    unfolding upd by (rule cstr_append_NUL [OF assms(6)])
  show "shift_down (Suc (length (pend @ l))) ((pend @ l) @ NUL # rest @ z) = rest @ z @ drop (length (rest @ z)) ((pend @ l) @ NUL # rest @ z)"
    by (simp add: shift_down_def)
  have "MAX_MSG_LEN < 1000"
    by (simp add: MAX_MSG_LEN_def)
  then show "\<not> to_int32 (int (MAX_MSG_LEN + 1) - int ?u) \<le> 0"
    using u(2) by (subst to_int32_id) auto
qed

lemma serve_line:
  assumes "length (cn_request c) = MAX_MSG_LEN + 1" "length (cn_reply c) = MAX_MSG_LEN + 1"
    and "take (cn_request_used c) (cn_request c) = pend" "NL \<notin> set pend"
    and "cn_request_used c + length (l @ NL # rest) \<le> MAX_MSG_LEN + 1" "NL \<notin> set l" "NUL \<notin> set (pend @ l)"
  shows "if length (recieved_text c (pend @ l)) \<le> MAX_MSG_LEN \<and> length (sent_text c (pend @ l)) \<le> MAX_MSG_LEN
    then \<exists>c'. serve_connection None None (Some (l @ NL # rest)) c ef =
        Some (Some c', if is_quit (pend @ l) then 1 else ef, Some (sent_text c (pend @ l)))
      \<and> length (cn_request c') = MAX_MSG_LEN + 1 \<and> length (cn_reply c') = MAX_MSG_LEN + 1 \<and> cn_fd c' = cn_fd c
      \<and> cn_request_used c' = length rest \<and> take (length rest) (cn_request c') = rest
    else serve_connection None None (Some (l @ NL # rest)) c ef = None"
proof -
  let ?u = "cn_request_used c"
  obtain req z where put: "buf_put ?u (l @ NL # rest) (cn_request c) = Some req" and len: "length req = MAX_MSG_LEN + 1"
    and found: "memchr req NL (?u + length (l @ NL # rest)) = Some (length (pend @ l))" and u: "length pend = ?u"
    and upd': "req[length (pend @ l) := NUL] = (pend @ l) @ NUL # rest @ z" and ct: "cstr (req[length (pend @ l) := NUL]) = Some (pend @ l)"
    and sh: "shift_down (Suc (length (pend @ l))) ((pend @ l) @ NUL # rest @ z) = rest @ z @ drop (length (rest @ z)) ((pend @ l) @ NUL # rest @ z)"
    and pos: "\<not> to_int32 (int (MAX_MSG_LEN + 1) - int ?u) \<le> 0"
    using line_received [OF assms(1,3-7)] by blast
  define c1 where "c1 = c\<lparr>cn_request := req, cn_request_used := ?u + length (l @ NL # rest)\<rparr>"
  have mem: "memchr req NL (cn_request_used c1) = Some (length (pend @ l))"
    using found by (simp add: c1_def)
  have upd: "(cn_request c1)[length (pend @ l) := NUL] = (pend @ l) @ NUL # rest @ z"
    using upd' by (simp add: c1_def)
  have sc: "serve_connection None None (Some (l @ NL # rest)) c ef =
      Option.bind (answer_line None None (length (pend @ l)) c1 ef) (\<lambda>(c, ef, reply). Some (Some c, ef, Some reply))"
    using pos put mem c1_def by (cases l) (simp_all add: serve_connection_def)
  have cs: "cstr ((cn_request c1)[length (pend @ l) := NUL]) = Some (pend @ l)"
    using ct by (simp add: c1_def)
  have t: "recieved_text c1 = recieved_text c" "sent_text c1 = sent_text c"
    by (simp_all add: recieved_text_def sent_text_def c1_def fun_eq_iff)
  note ans = answer_line_default [OF cs, of ef, unfolded t]
  show ?thesis
  proof (cases "length (recieved_text c (pend @ l)) \<le> MAX_MSG_LEN \<and> length (sent_text c (pend @ l)) \<le> MAX_MSG_LEN")
    case True
    then obtain r where r: "length r = MAX_MSG_LEN + 1" "answer_line None None (length (pend @ l)) c1 ef =
        Some (consume_request (length (pend @ l)) (c1\<lparr>cn_request := (cn_request c1)[length (pend @ l) := NUL],
          cn_reply := r, cn_reply_used := length (sent_text c (pend @ l))\<rparr>), if is_quit (pend @ l) then 1 else ef, sent_text c (pend @ l))"
      (is "_ = Some (?c', _, _)")
      using ans assms(2) by (auto simp: c1_def)
    have "length (cn_request ?c') = MAX_MSG_LEN + 1"
      using len arg_cong [OF upd', of length] by (simp add: consume_request_def c1_def)
    moreover have "take (length rest) (cn_request ?c') = rest"
      using upd sh by (simp add: consume_request_def del: append_assoc)
    moreover have "cn_request_used ?c' = length rest"
      using u by (simp add: consume_request_def c1_def size_minus_def)
    ultimately show ?thesis
      using True sc r by (auto simp: consume_request_def c1_def)
  next
    case False
    then show ?thesis
      using ans sc assms(2) by (auto simp: c1_def)
  qed
qed

text \<open>
  A round that sets the exit flag is the last one, and is followed by the join of a thread that was never
  created: this server has no proper end.
\<close>

lemma old_server_end_faults:
  assumes "select_round reciever sender fd l r (nt, 0) = Some (Some (nt', ef))" "ef \<noteq> 0"
  shows "select_rounds reciever sender fd l (r # rs) (nt, 0) = Fault"
  using assms by (cases "connections_drain l (close_fd fd nt')")
    (simp_all add: select_rounds.simps [of _ _ _ _ "r # rs"] select_rounds.simps [of _ _ _ _ _ "(nt', ef)"])

subsection \<open>Properties\<close>

text \<open>
  The old server takes a line out of the request whole: with \<open>pend\<close> read before and the rest of the line
  now, the answer is the text for the whole line, what was read behind the newline stays as the new
  content of the request, and a command that ends the server sets the exit flag. A line whose answer is
  longer than 512 characters writes past the array of the reply.
\<close>

theorem old_server_takes_line:
  assumes "length (cn_request c) = MAX_MSG_LEN + 1" "length (cn_reply c) = MAX_MSG_LEN + 1"
    and "take (cn_request_used c) (cn_request c) = pend" "NL \<notin> set pend"
    and "cn_request_used c + length (l @ NL # rest) \<le> MAX_MSG_LEN + 1" "NL \<notin> set l" "NUL \<notin> set (pend @ l)"
  shows "if length (recieved_text c (pend @ l)) \<le> MAX_MSG_LEN \<and> length (sent_text c (pend @ l)) \<le> MAX_MSG_LEN
    then \<exists>c'. serve_connection None None (Some (l @ NL # rest)) c ef =
        Some (Some c', if is_quit (pend @ l) then 1 else ef, Some (sent_text c (pend @ l)))
      \<and> length (cn_request c') = MAX_MSG_LEN + 1 \<and> length (cn_reply c') = MAX_MSG_LEN + 1 \<and> cn_fd c' = cn_fd c
      \<and> cn_request_used c' = length rest \<and> take (length rest) (cn_request c') = rest
    else serve_connection None None (Some (l @ NL # rest)) c ef = None"
  by (rule serve_line [OF assms])

definition demo_old_conn :: conn where
  "demo_old_conn = zero_conn\<lparr>cn_fd := 7, cn_request := ''ST'' @ replicate 511 NUL, cn_request_used := 2\<rparr>"

theorem old_server_takes_line_witness:
  "\<exists>c'. serve_connection None None (Some (''OP'' @ NL # ''x'')) demo_old_conn 0 = Some (Some c', 1, Some (''RE1a{0:7,STOP,sent ok}'' @ [NL]))
     \<and> cn_request_used c' = 1 \<and> take 1 (cn_request c') = ''x''"
proof -
  have t: "recieved_text demo_old_conn ''STOP'' = ''RE1c{0:7, stop command recieved}'' @ [NL]"
    "sent_text demo_old_conn ''STOP'' = ''RE1a{0:7,STOP,sent ok}'' @ [NL]" "is_quit ''STOP''"
    by (simp_all add: recieved_text_def sent_text_def is_quit_def str_case_eq_def reply_head_def show_int_def demo_old_conn_def
        show_base.simps digit_char_def char_of_def bit_Suc_0_iff)
  have p: "length (cn_request demo_old_conn) = MAX_MSG_LEN + 1" "length (cn_reply demo_old_conn) = MAX_MSG_LEN + 1"
    "take (cn_request_used demo_old_conn) (cn_request demo_old_conn) = ''ST''" "NL \<notin> set ''ST''" "NL \<notin> set ''OP''" "NUL \<notin> set (''ST'' @ ''OP'')"
    "cn_request_used demo_old_conn + length (''OP'' @ NL # ''x'') \<le> MAX_MSG_LEN + 1"
    by (simp_all add: demo_old_conn_def zero_conn_def MAX_MSG_LEN_def NL_def NUL_def)
  from old_server_takes_line [OF p(1-4,7,5,6), of 0] show ?thesis
    by (simp add: t MAX_MSG_LEN_def) blast
qed

text \<open>
  With the default callbacks, a turn of the old client whose request was written takes one line out of the
  reply and keeps what follows. A reply that comes without its newline is fatal: NULL is incremented
  and memory is moved from there.
\<close>

theorem old_client_takes_reply:
  assumes "default_client_sender stdin (Some c) = Some (stdin', n, Some c1)" "cstr (cn_request c1) = Some req"
    and "length (cn_reply c1) = MAX_MSG_LEN + 1" "NL \<notin> set (take (cn_reply_used c1) (cn_reply c1))" "bytes \<noteq> []"
    and "cn_reply_used c1 + length bytes \<le> MAX_MSG_LEN + 1"
  shows "case client_turn_old None None (int (length req)) (Some bytes) (stdin, Some c, 0) of
      None \<Rightarrow> NL \<notin> set bytes
    | Some (goes_on, stdin2, p, ef) \<Rightarrow> goes_on \<and> stdin2 = stdin' \<and> ef = 0 \<and> (\<exists>l rest c'. bytes = l @ NL # rest \<and> NL \<notin> set l
        \<and> p = Some c' \<and> cn_reply_used c' = length rest \<and> take (length rest) (cn_reply c') = rest)"
proof -
  let ?u = "cn_reply_used c1" and ?a = "take (cn_reply_used c1) (cn_reply c1)"
  define z where "z = drop (?u + length bytes) (cn_reply c1)"
  define n' where "n' = ?u + length bytes"
  have u: "length ?a = ?u" "?u \<le> MAX_MSG_LEN"
    using assms(3,5,6) by (auto simp: Suc_le_eq [symmetric]) (cases bytes, auto)
  have "MAX_MSG_LEN < 1000"
    by (simp add: MAX_MSG_LEN_def)
  then have pos: "\<not> to_int32 (int (MAX_MSG_LEN + 1) - int ?u) \<le> 0"
    using u(2) by (subst to_int32_id) auto
  have put: "buf_put ?u bytes (cn_reply c1) = Some (?a @ bytes @ z)"
    using assms(3,6) by (simp add: buf_put_def z_def)
  obtain b bs where b: "bytes = b # bs"
    using assms(5) by (cases bytes) auto
  show ?thesis
  proof (cases "NL \<in> set bytes")
    case False
    then have "memchr (?a @ bytes @ z) NL n' = None"
      using assms(4) u(1) by (simp add: memchr_None_iff n'_def)
    then show ?thesis
      using False assms(1,2) pos put b n'_def
      by (cases "cstr (?a @ bytes @ z)") (auto simp: client_turn_old_def send_request_def default_client_reciever_def Let_def)
  next
    case True
    then obtain l rest where l: "bytes = l @ NL # rest" "NL \<notin> set l"
      by (metis split_list_first)
    have mem: "memchr (?a @ bytes @ z) NL n' = Some (length (?a @ l))"
      unfolding l(1) append_assoc append_Cons by (rule memchr_new_line) (use assms(4) l u(1) in \<open>auto simp: n'_def\<close>)
    have upd: "(?a @ bytes @ z)[length (?a @ l) := NUL] = (?a @ l) @ NUL # rest @ z"
      using l(1) list_update_length [of "?a @ l" NL "rest @ z" NUL] by simp
    obtain t where t: "cstr ((?a @ l) @ NUL # rest @ z) = Some t"
      by (simp add: cstr_def)
    have sh: "shift_down (Suc (length (?a @ l))) ((?a @ l) @ NUL # rest @ z) = rest @ z @ drop (length (rest @ z)) ((?a @ l) @ NUL # rest @ z)"
      by (simp add: shift_down_def)
    define c2 where "c2 = c1\<lparr>cn_reply := shift_down (Suc (length (?a @ l))) ((?a @ l) @ NUL # rest @ z),
      cn_reply_used := size_minus n' (Suc (length (?a @ l)))\<rparr>"
    have "client_turn_old None None (int (length req)) (Some bytes) (stdin, Some c, 0) = Some (True, stdin', Some c2, 0)"
      using assms(1,2) pos put b mem upd t n'_def [symmetric]
      by (simp add: client_turn_old_def send_request_def default_client_reciever_def Let_def c2_def)
    moreover have "cn_reply_used c2 = length rest" "take (length rest) (cn_reply c2) = rest"
      using sh u(1) l(1) by (simp_all add: c2_def size_minus_def n'_def)
    ultimately show ?thesis
      using l by auto
  qed
qed

theorem old_client_takes_reply_witness:
  "client_turn_old None None 3 (Some ''RE'') (''hi'' @ [NL], Some zero_conn, 0) = None"
proof -
  have s: "default_client_sender (''hi'' @ [NL]) (Some zero_conn) = Some ([], 3, Some (zero_conn\<lparr>cn_request := ''hi'' @ NL # NUL # replicate 509 NUL\<rparr>))"
    by (simp add: default_client_sender_def scanf_line_def strcat_def strcpy_to_def cstr_def zero_conn_def NUL_def NL_def MAX_MSG_LEN_def
        buf_put_def Let_def)
  have p: "cstr (cn_request (zero_conn\<lparr>cn_request := ''hi'' @ NL # NUL # replicate 509 NUL\<rparr>)) = Some (''hi'' @ [NL])"
    by (simp add: cstr_def NUL_def NL_def)
  have "NL \<notin> set ''RE''"
    by (simp add: NL_def)
  then have n: "''RE'' \<noteq> l @ NL # rest" for l rest
    by (metis in_set_conv_decomp)
  have l: "length (cn_reply (zero_conn\<lparr>cn_request := r\<rparr>)) = MAX_MSG_LEN + 1" "cn_reply_used (zero_conn\<lparr>cn_request := r\<rparr>) = 0" for r
    by (simp_all add: zero_conn_def)
  show ?thesis
    using old_client_takes_reply [OF s p l(1), of "''RE''"]
    by (simp add: l n MAX_MSG_LEN_def split: option.splits)
qed

end
