(* ===== verification/Tmk_Server.thy ===== *)
theory Tmk_Server imports Command_Server Tcp_Process begin

section \<open>The server program (dclcomponents/server.c)\<close>

text \<open>
  The program runs the command server and the select server of \<open>tcp_process.c\<close> in one process; \<open>putCommand\<close> is the reciever that
  puts the line of a connection into the queue of commands. It is given the exit flag of the select server, not
  the one of \<open>main\<close> that the command server has. No sender is given, so the select server answers by itself.
\<close>

definition quit_words :: "string list" where
  "quit_words = [''STOP'' @ [NL], ''S'' @ [NL], ''STOP'', ''S'', ''QUIT'' @ [NL], ''Q'' @ [NL], ''QUIT'', ''Q'', ''EXIT'' @ [NL], ''EXIT'']"

definition is_quit_request :: "string \<Rightarrow> bool" where
  "is_quit_request s \<longleftrightarrow> (\<exists>w \<in> set quit_words. str_case_eq s w)"

definition sent_message :: string where
  "sent_message = ''command succesfully sent''"

text \<open>\<open>a\<close> is the block of the new command.\<close>

definition putCommand :: "addr \<Rightarrow> conn \<Rightarrow> int \<Rightarrow> command_server \<Rightarrow> (int \<times> conn \<times> int \<times> command_server) run" where
  "putCommand a c exit_flag st = (case cstr (cn_request c) of None \<Rightarrow> Fault | Some request \<Rightarrow>
     (let exit_flag = (if is_quit_request request then 1 else exit_flag)
      in bind_run (push_new_command a (cn_fd c) request st) (\<lambda>st.
        bind_run (run_of (strcpy_to 0 sent_message (cn_reply c))) (\<lambda>reply.
          Done (int (length sent_message), c\<lparr>cn_reply := reply, cn_reply_used := length sent_message\<rparr>, exit_flag, st)))))"

text \<open>The connection of a line, as in \<open>answer_line\<close> and \<open>serve_connection\<close>, with \<open>putCommand\<close> as the reciever.\<close>

definition answer_command :: "addr \<Rightarrow> nat \<Rightarrow> conn \<Rightarrow> int \<Rightarrow> command_server \<Rightarrow> (conn \<times> int \<times> string \<times> command_server) run" where
  "answer_command a endl c exit_flag st =
     bind_run (putCommand a (c\<lparr>cn_request := (cn_request c)[endl := NUL]\<rparr>) exit_flag st) (\<lambda>(_, c, exit_flag, st).
       run_of (do {
         (_, p, exit_flag) \<leftarrow> null_sender (Some c) exit_flag;
         c \<leftarrow> p;
         reply \<leftarrow> cstr (cn_reply c);
         Some (consume_request endl c, exit_flag, reply, st) }))"

definition serve_command :: "addr \<Rightarrow> string option \<Rightarrow> conn \<Rightarrow> int \<Rightarrow> command_server \<Rightarrow>
    (conn option \<times> int \<times> string option \<times> command_server) run" where
  "serve_command a rd c exit_flag st =
     (if to_int32 (int (MAX_MSG_LEN + 1) - int (cn_request_used c)) \<le> 0 then Done (Some c, exit_flag, None, st)
      else case rd of
          None \<Rightarrow> Done (None, exit_flag, None, st)
        | Some [] \<Rightarrow> Done (None, exit_flag, None, st)
        | Some bytes \<Rightarrow> (case buf_put (cn_request_used c) bytes (cn_request c) of None \<Rightarrow> Fault | Some req \<Rightarrow>
            (let c = c\<lparr>cn_request := req, cn_request_used := cn_request_used c + length bytes\<rparr>
             in case memchr req NL (cn_request_used c) of
                None \<Rightarrow> Done (Some c, exit_flag, None, st)
              | Some endl \<Rightarrow> bind_run (answer_command a endl c exit_flag st) (\<lambda>(c, exit_flag, reply, st).
                  Done (Some c, exit_flag, Some reply, st)))))"

subsection \<open>The command line\<close>

text \<open>
  \<open>settings\<close> is what \<open>loadServerSettings\<close> reads from a file: the port, or \<open>None\<close>. The result is the port to listen on, or \<open>None\<close> when the
  program prints its usage and ends, and the files that got a default configuration.
\<close>

definition server_port :: "(string \<Rightarrow> int option) \<Rightarrow> string list \<Rightarrow> string option \<times> string list" where
  "server_port settings argv =
     (let (config, port) = (if 1 < length argv
        then if str_case_eq (argv ! 1) ''--config'' \<and> 2 < length argv then (Some (argv ! 2), None) else (None, Some (argv ! 1))
        else (None, None))
      in case config of
          None \<Rightarrow> (port, [])
        | Some path \<Rightarrow> (case settings path of
            None \<Rightarrow> (None, [path])
          | Some p \<Rightarrow> (Some (take 6 (show_int p)), [])))"

lemma no_file_no_server: "settings path = None \<Longrightarrow> str_case_eq c ''--config'' \<Longrightarrow> server_port settings [prog, c, path] = (None, [path])"
  by (simp add: server_port_def)

subsection \<open>A line becomes a command\<close>

lemma ends_in_newline: "str_case_eq s (w @ [NL]) \<Longrightarrow> NL \<in> set s"
proof -
  assume "str_case_eq s (w @ [NL])"
  then have m: "map to_lower s = map to_lower w @ [to_lower NL]"
    by (simp add: str_case_eq_def)
  then have "s \<noteq> []"
    by auto
  moreover from this have "to_lower (last s) = to_lower NL"
    using arg_cong [OF m, of last] by (simp add: last_map)
  moreover have "c = NL" if "to_lower c = to_lower NL" for c
  proof (cases "65 \<le> (of_char c :: nat) \<and> (of_char c :: nat) \<le> 90")
    case True
    then have "of_char (to_lower c) = (of_char c + 32 :: nat)"
      by (simp add: to_lower_def Let_def)
    moreover have "of_char (to_lower NL) = (10 :: nat)"
      by (simp add: to_lower_def NL_def)
    ultimately show ?thesis
      using True that by simp
  next
    case False
    then show ?thesis
      using that by (auto simp: to_lower_def NL_def Let_def split: if_splits)
  qed
  ultimately show ?thesis
    using last_in_set by force
qed

lemma quit_request_line: "NL \<notin> set s \<Longrightarrow> is_quit_request s \<longleftrightarrow> is_quit s"
  using ends_in_newline [of s "''STOP''"] ends_in_newline [of s "''S''"] ends_in_newline [of s "''QUIT''"] ends_in_newline [of s "''Q''"]
    ends_in_newline [of s "''EXIT''"]
  by (auto simp: is_quit_request_def quit_words_def is_quit_def)



text \<open>The words that end the select server are more than those that end the command server.\<close>

lemma quit_not_executed: "is_quit_request ''QUIT'' \<and> executeAPICommand e (cc_full (stored_command fd ''QUIT'')) ap = Done (- 1, ap)"
  by (simp add: is_quit_request_def quit_words_def executeAPICommand_def stored_command_def COMMAND_BUF_LEN_def cstr_def NUL_def NL_def is_stop_def is_init_def
      str_case_eq_def strcasestr_code takeWhile_append)

end
