(* ===== verification/Json_Library.thy ===== *)
theory Json_Library imports C_Buffer Name_Map begin

section \<open>The JSON library\<close>

text \<open>
  \<open>nlohmann::json\<close> is not part of the sources. Its values are the type variable \<open>'j\<close>, its real numbers \<open>'d\<close>, and its operations
  the fields of a record; \<open>json_laws\<close> is what the program relies on. An operation that throws is \<open>None\<close>, and so is reading a key that is missing from a
  constant value. An object is a map ordered by its keys.
\<close>

subsection \<open>What the library provides\<close>

record ('j, 'd) json_ops =
  js_null :: 'j
  js_array :: 'j
  js_is_object :: "'j \<Rightarrow> bool"
  js_is_array :: "'j \<Rightarrow> bool"
  js_put :: "'j \<Rightarrow> string \<Rightarrow> 'j \<Rightarrow> 'j option"
  js_contains :: "'j \<Rightarrow> string \<Rightarrow> bool"
  js_at :: "'j \<Rightarrow> string \<Rightarrow> 'j option"
  js_push :: "'j \<Rightarrow> 'j \<Rightarrow> 'j option"
  js_items :: "'j \<Rightarrow> 'j list"
  js_entries :: "'j \<Rightarrow> (string \<times> 'j) list option"
  js_bool :: "bool \<Rightarrow> 'j"
  js_u64 :: "u64 \<Rightarrow> 'j"
  js_int :: "int \<Rightarrow> 'j"
  js_long :: "int \<Rightarrow> 'j"
  js_num :: "'d \<Rightarrow> 'j"
  js_str :: "string \<Rightarrow> 'j"
  js_get_bool :: "'j \<Rightarrow> bool option"
  js_get_u64 :: "'j \<Rightarrow> u64 option"
  js_get_int :: "'j \<Rightarrow> int option"
  js_get_long :: "'j \<Rightarrow> int option"
  js_get_num :: "'j \<Rightarrow> 'd option"
  js_get_str :: "'j \<Rightarrow> string option"

text \<open>A value is structured when a field can be put into it: an object, or null, which becomes one.\<close>

definition structured :: "('j, 'd) json_ops \<Rightarrow> 'j \<Rightarrow> bool" where
  "structured J j \<longleftrightarrow> j = js_null J \<or> js_is_object J j"

text \<open>\<open>js_entries\<close> is what a loop over an object visits, with its keys; null has no entries.\<close>

definition fields_laws :: "('j, 'd) json_ops \<Rightarrow> 'j \<Rightarrow> bool" where
  "fields_laws J j \<longleftrightarrow> (\<exists>es. js_entries J j = Some es \<and> ordered es
     \<and> (\<forall>k. js_contains J j k \<longleftrightarrow> map_of es k \<noteq> None) \<and> (\<forall>k v. map_of es k = Some v \<longrightarrow> js_at J j k = Some v)
     \<and> (\<forall>k v. \<exists>j'. js_put J j k v = Some j' \<and> js_is_object J j' \<and> js_entries J j' = Some (map_set k v es)))"

definition json_laws :: "('j, 'd) json_ops \<Rightarrow> bool" where
  "json_laws J \<longleftrightarrow>
     js_entries J (js_null J) = Some [] \<and> (\<forall>j. structured J j \<longrightarrow> fields_laws J j)
   \<and> js_is_array J (js_array J) \<and> js_items J (js_array J) = []
   \<and> (\<forall>a v. js_is_array J a \<longrightarrow> (\<exists>a'. js_push J a v = Some a' \<and> js_is_array J a' \<and> js_items J a' = js_items J a @ [v]))
   \<and> (\<forall>b. js_get_bool J (js_bool J b) = Some b) \<and> (\<forall>i. js_get_u64 J (js_u64 J i) = Some i)
   \<and> (\<forall>i. c_int i = Some i \<longrightarrow> js_get_int J (js_int J i) = Some i)
   \<and> (\<forall>i. - (2 ^ 63) \<le> i \<and> i < 2 ^ 63 \<longrightarrow> js_get_long J (js_long J i) = Some i)
   \<and> (\<forall>x. js_get_num J (js_num J x) = Some x) \<and> (\<forall>s. js_get_str J (js_str J s) = Some s)
   \<and> (\<forall>j. js_get_num J j \<noteq> None \<longrightarrow> js_get_str J j = None)
   \<and> js_get_str J (js_null J) = None \<and> (\<forall>s. \<not> js_is_object J (js_str J s)) \<and> \<not> js_is_object J (js_null J)"

text \<open>\<open>ret[key].push_back(x)\<close>\<close>

definition push_field :: "('j, 'd) json_ops \<Rightarrow> 'j \<Rightarrow> string \<Rightarrow> 'j \<Rightarrow> 'j option" where
  "push_field J r key x = do { a \<leftarrow> js_at J r key; a \<leftarrow> js_push J a x; js_put J r key a }"

text \<open>What a C string shows of a text that may contain terminators.\<close>

definition until_NUL :: "string \<Rightarrow> string" where
  "until_NUL = takeWhile (\<lambda>c. c \<noteq> NUL)"

subsection \<open>Values with fields\<close>

definition js_obj :: "('j, 'd) json_ops \<Rightarrow> (string \<Rightarrow> 'j option) \<Rightarrow> 'j \<Rightarrow> bool" where
  "js_obj J fs j \<longleftrightarrow> structured J j \<and> (\<forall>k. js_contains J j k \<longleftrightarrow> fs k \<noteq> None) \<and> (\<forall>k v. fs k = Some v \<longrightarrow> js_at J j k = Some v)
     \<and> (\<exists>es. js_entries J j = Some es \<and> ordered es \<and> map_of es = fs)"

lemma js_objI:
  assumes "json_laws J" "structured J j" "js_entries J j = Some es"
  shows "js_obj J (map_of es) j"
proof -
  have "fields_laws J j"
    using assms(1,2) by (simp add: json_laws_def)
  then show ?thesis
    using assms(2,3) by (auto simp: js_obj_def fields_laws_def)
qed

lemma js_obj_null: "json_laws J \<Longrightarrow> js_obj J Map.empty (js_null J)"
  using js_objI [of J "js_null J" "[]"] by (simp add: structured_def json_laws_def)

lemma js_obj_put:
  assumes "json_laws J" "js_obj J fs j"
  obtains j' where "js_put J j k v = Some j'" "js_obj J (fs(k \<mapsto> v)) j'" "js_is_object J j'"
proof -
  obtain es where es: "js_entries J j = Some es" "ordered es" "map_of es = fs"
    using assms(2) by (auto simp: js_obj_def)
  have "fields_laws J j"
    using assms by (simp add: json_laws_def js_obj_def)
  then have "\<exists>j'. js_put J j k v = Some j' \<and> js_is_object J j' \<and> js_entries J j' = Some (map_set k v es)"
    using es(1) unfolding fields_laws_def by auto
  then obtain j' where j': "js_put J j k v = Some j'" "js_is_object J j'" "js_entries J j' = Some (map_set k v es)"
    by blast
  moreover have "js_obj J (map_of (map_set k v es)) j'"
    using js_objI [OF assms(1) _ j'(3)] j'(2) by (simp add: structured_def)
  ultimately show thesis
    using that set_lookup [OF es(2), of k v] es(3) by simp
qed

lemma js_obj_field: "js_obj J fs j \<Longrightarrow> fs k = Some v \<Longrightarrow> js_contains J j k \<and> js_at J j k = Some v"
  by (simp add: js_obj_def)

lemma js_obj_no_field: "js_obj J fs j \<Longrightarrow> fs k = None \<Longrightarrow> \<not> js_contains J j k"
  by (simp add: js_obj_def)

lemma js_read:
  assumes "json_laws J"
  shows "js_get_str J (js_str J s) = Some s" "js_get_u64 J (js_u64 J i) = Some i" "c_int n = Some n \<Longrightarrow> js_get_int J (js_int J n) = Some n"
    "js_get_bool J (js_bool J b) = Some b" "js_get_num J (js_num J x) = Some x" "js_get_num J j \<noteq> None \<Longrightarrow> js_get_str J j = None"
    "- (2 ^ 63) \<le> l \<Longrightarrow> l < 2 ^ 63 \<Longrightarrow> js_get_long J (js_long J l) = Some l"
  using assms by (simp_all add: json_laws_def)

lemma until_NUL_id: "NUL \<notin> set s \<Longrightarrow> until_NUL s = s"
  unfolding until_NUL_def by (induction s) auto

subsection \<open>A library\<close>

text \<open>Values as trees, numbers as integers: the laws can hold.\<close>

datatype jvalue = J_null | J_bool bool | J_u64 u64 | J_int int | J_long int | J_num int | J_str string | J_arr "jvalue list" | J_obj "(string \<times> jvalue) list"

fun jv_put :: "jvalue \<Rightarrow> string \<Rightarrow> jvalue \<Rightarrow> jvalue option" where
  "jv_put J_null k v = Some (J_obj [(k, v)])"
| "jv_put (J_obj m) k v = Some (J_obj (map_set k v m))"
| "jv_put _ _ _ = None"

fun jv_at :: "jvalue \<Rightarrow> string \<Rightarrow> jvalue option" where
  "jv_at (J_obj m) k = map_of m k"
| "jv_at _ _ = None"

fun jv_push :: "jvalue \<Rightarrow> jvalue \<Rightarrow> jvalue option" where
  "jv_push (J_arr a) v = Some (J_arr (a @ [v]))"
| "jv_push _ _ = None"

definition tree_json :: "(jvalue, int) json_ops" where
  "tree_json = \<lparr>js_null = J_null, js_array = J_arr [], js_is_object = (\<lambda>j. case j of J_obj m \<Rightarrow> ordered m | _ \<Rightarrow> False),
     js_is_array = (\<lambda>j. case j of J_arr _ \<Rightarrow> True | _ \<Rightarrow> False), js_put = jv_put, js_contains = (\<lambda>j k. jv_at j k \<noteq> None), js_at = jv_at, js_push = jv_push,
     js_items = (\<lambda>j. case j of J_arr a \<Rightarrow> a | _ \<Rightarrow> []),
     js_entries = (\<lambda>j. case j of J_obj m \<Rightarrow> Some m | J_null \<Rightarrow> Some [] | _ \<Rightarrow> None), js_bool = J_bool, js_u64 = J_u64, js_int = J_int, js_long = J_long, js_num = J_num, js_str = J_str,
     js_get_bool = (\<lambda>j. case j of J_bool b \<Rightarrow> Some b | _ \<Rightarrow> None), js_get_u64 = (\<lambda>j. case j of J_u64 i \<Rightarrow> Some i | _ \<Rightarrow> None),
     js_get_int = (\<lambda>j. case j of J_int i \<Rightarrow> Some i | _ \<Rightarrow> None),
     js_get_long = (\<lambda>j. case j of J_long i \<Rightarrow> Some i | _ \<Rightarrow> None), js_get_num = (\<lambda>j. case j of J_num x \<Rightarrow> Some x | J_int i \<Rightarrow> Some i | _ \<Rightarrow> None),
     js_get_str = (\<lambda>j. case j of J_str s \<Rightarrow> Some s | _ \<Rightarrow> None)\<rparr>"

lemma tree_fields:
  assumes "structured tree_json j"
  shows "fields_laws tree_json j"
proof -
  obtain m where m: "j = J_null \<and> m = [] \<or> j = J_obj m" "ordered m"
    using assms by (cases j) (auto simp: structured_def tree_json_def)
  have "jv_put j k v = Some (J_obj (map_set k v m))" for k v
    using m(1) by (auto simp: map_set_def)
  then show ?thesis
    using m ordered_set [OF m(2)] unfolding fields_laws_def
    by (intro exI [of _ m]) (auto simp: tree_json_def)
qed

lemma tree_json_laws: "json_laws tree_json"
proof -
  have "\<exists>a'. jv_push a v = Some a' \<and> (case a' of J_arr _ \<Rightarrow> True | _ \<Rightarrow> False)
      \<and> (case a' of J_arr a \<Rightarrow> a | _ \<Rightarrow> []) = (case a of J_arr a \<Rightarrow> a | _ \<Rightarrow> []) @ [v]"
    if "case a of J_arr _ \<Rightarrow> True | _ \<Rightarrow> False" for a v
    using that by (cases a) auto
  then show ?thesis
    unfolding json_laws_def using tree_fields by (simp add: tree_json_def split: jvalue.splits)
qed

end
