(* ===== verification/Config_Elements.thy ===== *)
theory Config_Elements imports Json_Library begin

section \<open>The elements of a configuration (libcommon: meta_info.cpp, ServerSettings.cpp, FakeCameraConfig.cpp, time_utils.h)\<close>

text \<open>
  A configuration file is a JSON object with an entry for each element. \<open>node[key]\<close> of a value that may change puts null under a missing key,
  which then cannot be converted. The readable form of a time (\<open>readable\<close>) is made by Boost. Conversions of numbers are those from and to an integer of
  the same width; \<open>unsigned\<close> goes through 64 bits. Copying and moving settings copies the fields and renews the view that C code has.
\<close>

subsection \<open>Fields\<close>

definition js_index :: "('j, 'd) json_ops \<Rightarrow> 'j \<Rightarrow> string \<Rightarrow> ('j \<times> 'j) option" where
  "js_index J j k =
     (if js_contains J j k then map_option (\<lambda>v. (j, v)) (js_at J j k) else map_option (\<lambda>j'. (j', js_null J)) (js_put J j k (js_null J)))"

definition js_read :: "('j, 'd) json_ops \<Rightarrow> ('j \<Rightarrow> 'a option) \<Rightarrow> 'j \<Rightarrow> string \<Rightarrow> 'a option" where
  "js_read J get j k = Option.bind (js_index J j k) (\<lambda>(_, v). get v)"

text \<open>Several assignments \<open>node[key] = value\<close> in a row.\<close>

fun put_fields :: "('j, 'd) json_ops \<Rightarrow> (string \<times> 'j) list \<Rightarrow> 'j \<Rightarrow> 'j option" where
  "put_fields J [] j = Some j"
| "put_fields J ((k, v) # kvs) j = Option.bind (js_put J j k v) (put_fields J kvs)"

lemma put_fields_obj:
  assumes "json_laws J" "js_obj J fs j"
  shows "\<exists>j'. put_fields J kvs j = Some j' \<and> js_obj J (fs ++ map_of (rev kvs)) j' \<and> (kvs \<noteq> [] \<longrightarrow> js_is_object J j')"
  using assms(2)
proof (induction kvs arbitrary: fs j)
  case (Cons kv kvs)
  obtain k v where kv: "kv = (k, v)"
    by (cases kv)
  obtain j1 where j1: "js_put J j k v = Some j1" "js_obj J (fs(k \<mapsto> v)) j1" "js_is_object J j1"
    using js_obj_put [OF assms(1) Cons.prems] .
  obtain j' where "put_fields J kvs j1 = Some j'" "js_obj J (fs(k \<mapsto> v) ++ map_of (rev kvs)) j'" "kvs \<noteq> [] \<longrightarrow> js_is_object J j'"
    using Cons.IH [OF j1(2)] by blast
  moreover have "fs ++ map_of (rev (kv # kvs)) = fs(k \<mapsto> v) ++ map_of (rev kvs)"
    using kv by (simp add: map_add_def fun_eq_iff split: option.splits)
  moreover have "put_fields J (kv # kvs) j = put_fields J kvs j1" "kvs = [] \<longrightarrow> j' = j1"
    using kv j1(1) calculation(1) by auto
  ultimately show ?case
    using j1(3) by metis
qed simp

lemma new_fields:
  assumes "json_laws J"
  obtains j where "put_fields J kvs (js_null J) = Some j" "js_obj J (map_of (rev kvs)) j" "kvs \<noteq> [] \<Longrightarrow> js_is_object J j"
  using put_fields_obj [OF assms js_obj_null [OF assms], of kvs] by auto

lemma read_field:
  assumes "js_obj J fs j" "fs k = Some v"
  shows "js_index J j k = Some (j, v)" "js_read J get j k = get v"
  using js_obj_field [OF assms] by (simp_all add: js_index_def js_read_def)

lemma read_missing:
  assumes "json_laws J" "js_obj J fs j" "fs k = None"
  shows "js_read J get j k = get (js_null J)"
proof -
  obtain j' where "js_put J j k (js_null J) = Some j'"
    using js_obj_put [OF assms(1,2)] by metis
  then show ?thesis
    using js_obj_no_field [OF assms(2,3)] by (simp add: js_index_def js_read_def)
qed

subsection \<open>Settings of the server (ServerSettings.cpp)\<close>

record server_settings =
  ss_address :: string
  ss_port :: u32
  ss_queue :: int
  ss_shmem_name :: string
  ss_shmem_size :: u64
  ss_segment :: string
  ss_boost_size :: u64

definition default_settings :: server_settings where
  "default_settings = \<lparr>ss_address = ''127.0.0.1'', ss_port = 4444, ss_queue = 20, ss_shmem_name = ''SHMEM_DATA_NAME'', ss_shmem_size = 2000000000,
     ss_segment = ''BOOST_SEGMENT_NAME'', ss_boost_size = 2000000000\<rparr>"

text \<open>The structure of the C interface: its strings end at the first terminator.\<close>

definition replicate_settings :: "server_settings \<Rightarrow> server_settings" where
  "replicate_settings s = s\<lparr>ss_address := until_NUL (ss_address s), ss_shmem_name := until_NUL (ss_shmem_name s), ss_segment := until_NUL (ss_segment s)\<rparr>"

definition settings_from_json :: "('j, 'd) json_ops \<Rightarrow> 'j \<Rightarrow> server_settings option" where
  "settings_from_json J node = do {
     address \<leftarrow> js_read J (js_get_str J) node ''address'';
     port \<leftarrow> js_read J (js_get_u64 J) node ''port'';
     queue \<leftarrow> js_read J (js_get_int J) node ''command_queue_size'';
     name \<leftarrow> js_read J (js_get_str J) node ''shmem_data_name'';
     _ \<leftarrow> js_read J (js_get_u64 J) node ''shmem_data_size'';
     segment \<leftarrow> js_read J (js_get_str J) node ''boost_segment_name'';
     boost \<leftarrow> js_read J (js_get_u64 J) node ''minimal_boost_size'';
     sz \<leftarrow> js_read J (js_get_u64 J) node ''shmem_data_size'';
     Some \<lparr>ss_address = address, ss_port = ucast port, ss_queue = queue, ss_shmem_name = name, ss_shmem_size = sz, ss_segment = segment, ss_boost_size = boost\<rparr> }"

definition settings_to_json :: "('j, 'd) json_ops \<Rightarrow> server_settings \<Rightarrow> 'j option" where
  "settings_to_json J s = put_fields J
     [(''address'', js_str J (ss_address s)), (''port'', js_u64 J (ucast (ss_port s))), (''command_queue_size'', js_int J (ss_queue s)),
      (''shmem_data_name'', js_str J (ss_shmem_name s)), (''shmem_data_size'', js_u64 J (ss_shmem_size s)),
      (''boost_segment_name'', js_str J (ss_segment s)), (''minimal_boost_size'', js_u64 J (ss_boost_size s)),
      (''shmem_data_size'', js_u64 J (ss_shmem_size s))] (js_null J)"

subsection \<open>Settings of a camera (FakeCameraConfig.cpp)\<close>

record fake_camera =
  fc_address :: string
  fc_port :: u32
  fc_images :: string

definition default_camera :: fake_camera where
  "default_camera = \<lparr>fc_address = ''127.0.0.1'', fc_port = 4444, fc_images = ''../test/Data''\<rparr>"

definition camera_from_json :: "('j, 'd) json_ops \<Rightarrow> 'j \<Rightarrow> fake_camera option" where
  "camera_from_json J node = do {
     address \<leftarrow> js_read J (js_get_str J) node ''address'';
     port \<leftarrow> js_read J (js_get_u64 J) node ''port'';
     images \<leftarrow> js_read J (js_get_str J) node ''images_path'';
     Some \<lparr>fc_address = address, fc_port = ucast port, fc_images = images\<rparr> }"

definition camera_to_json :: "('j, 'd) json_ops \<Rightarrow> fake_camera \<Rightarrow> 'j option" where
  "camera_to_json J c = put_fields J
     [(''address'', js_str J (fc_address c)), (''port'', js_u64 J (ucast (fc_port c))), (''images_path'', js_str J (fc_images c))] (js_null J)"

subsection \<open>Times (time_utils.h, meta_info.cpp)\<close>

text \<open>A time is a number of nanoseconds; seconds are cut towards zero.\<close>

definition time_spec :: "int \<Rightarrow> int \<times> int" where
  "time_spec t = (let secs = sgn t * (\<bar>t\<bar> div 1000000000) in (secs, t - secs * 1000000000))"

definition c_long :: "int \<Rightarrow> int option" where
  "c_long i = (if - (2 ^ 63) \<le> i \<and> i < 2 ^ 63 then Some i else None)"

record meta_info =
  mi_created :: int
  mi_modified :: int
  mi_comment :: string
  mi_readable_created :: string
  mi_readable_modified :: string

definition meta_new :: "(int \<Rightarrow> string) \<Rightarrow> int \<Rightarrow> meta_info" where
  "meta_new readable now = \<lparr>mi_created = now, mi_modified = now, mi_comment = [], mi_readable_created = readable now, mi_readable_modified = readable now\<rparr>"

definition meta_touch :: "(int \<Rightarrow> string) \<Rightarrow> int \<Rightarrow> meta_info \<Rightarrow> meta_info" where
  "meta_touch readable now m = m\<lparr>mi_modified := now, mi_readable_modified := readable now\<rparr>"

definition time_from_json :: "('j, 'd) json_ops \<Rightarrow> 'j \<Rightarrow> string \<Rightarrow> int option" where
  "time_from_json J node key = do {
     (_, v) \<leftarrow> js_index J node key;
     sec \<leftarrow> js_read J (js_get_long J) v ''sec'';
     nsec \<leftarrow> js_read J (js_get_long J) v ''nsec'';
     t \<leftarrow> c_long (sec * 1000000000);
     c_long (t + nsec) }"

definition meta_from_json :: "('j, 'd) json_ops \<Rightarrow> (int \<Rightarrow> string) \<Rightarrow> 'j \<Rightarrow> meta_info option" where
  "meta_from_json J readable node = do {
     created \<leftarrow> time_from_json J node ''creationTime'';
     modified \<leftarrow> time_from_json J node ''lastModificationTime'';
     comment \<leftarrow> js_read J (js_get_str J) node ''comment'';
     Some \<lparr>mi_created = created, mi_modified = modified, mi_comment = comment, mi_readable_created = readable created, mi_readable_modified = readable modified\<rparr> }"

definition time_to_json :: "('j, 'd) json_ops \<Rightarrow> int \<Rightarrow> string \<Rightarrow> 'j option" where
  "time_to_json J t text = (let (sec, nsec) = time_spec t in
     put_fields J [(''sec'', js_long J sec), (''nsec'', js_long J nsec), (''readable'', js_str J text)] (js_null J))"

definition meta_to_json :: "('j, 'd) json_ops \<Rightarrow> meta_info \<Rightarrow> 'j option" where
  "meta_to_json J m = do {
     created \<leftarrow> time_to_json J (mi_created m) (mi_readable_created m);
     modified \<leftarrow> time_to_json J (mi_modified m) (mi_readable_modified m);
     put_fields J [(''creationTime'', created), (''lastModificationTime'', modified), (''comment'', js_str J (mi_comment m))] (js_null J) }"

subsection \<open>What is saved is loaded\<close>

lemma time_spec_exact:
  assumes "c_long t = Some t"
  shows "case time_spec t of (sec, nsec) \<Rightarrow> c_long (sec * 1000000000) = Some (sec * 1000000000) \<and> sec * 1000000000 + nsec = t
    \<and> c_long sec = Some sec \<and> c_long nsec = Some nsec \<and> \<bar>nsec\<bar> < 1000000000"
proof -
  have r: "- (2 ^ 63) \<le> t" "t < 2 ^ 63"
    using assms by (auto simp: c_long_def split: if_splits)
  define q r where qr: "q = \<bar>t\<bar> div 1000000000" "r = \<bar>t\<bar> mod 1000000000"
  have q: "\<bar>t\<bar> div 1000000000 = q" "\<bar>t\<bar> = q * 1000000000 + r" "0 \<le> r" "r < 1000000000" "0 \<le> q"
    by (simp_all add: qr pos_imp_zdiv_nonneg_iff)
  consider "t < 0" "t = - (q * 1000000000 + r)" | "t = 0" | "0 < t" "t = q * 1000000000 + r"
    using q(2) by linarith
  then show ?thesis
  proof cases
    case 1
    then show ?thesis
      using q r by (simp add: time_spec_def c_long_def)
  next
    case 3
    then show ?thesis
      using q r by (simp add: time_spec_def c_long_def)
  qed (simp add: time_spec_def c_long_def)
qed

lemma time_saved:
  assumes "json_laws J" "c_long t = Some t"
  obtains j where "time_to_json J t text = Some j" "\<And>node fs key. js_obj J fs node \<Longrightarrow> fs key = Some j \<Longrightarrow> time_from_json J node key = Some t"
proof -
  obtain sec nsec where ts: "time_spec t = (sec, nsec)"
    by (cases "time_spec t")
  have exact: "c_long (sec * 1000000000) = Some (sec * 1000000000)" "sec * 1000000000 + nsec = t" "- (2 ^ 63) \<le> sec" "sec < 2 ^ 63" "- (2 ^ 63) \<le> nsec" "nsec < 2 ^ 63"
    using time_spec_exact [OF assms(2)] ts by (auto simp: c_long_def split: if_splits)
  let ?kvs = "[(''sec'', js_long J sec), (''nsec'', js_long J nsec), (''readable'', js_str J text)]"
  obtain j where j: "put_fields J ?kvs (js_null J) = Some j" "js_obj J (map_of (rev ?kvs)) j"
    using new_fields [OF assms(1)] by metis
  have "map_of (rev ?kvs) ''sec'' = Some (js_long J sec)" "map_of (rev ?kvs) ''nsec'' = Some (js_long J nsec)"
    by simp_all
  note f = read_field(2) [OF j(2) this(1), of "js_get_long J"] read_field(2) [OF j(2) this(2), of "js_get_long J"]
  have "time_from_json J node key = Some t" if "js_obj J fs node" "fs key = Some j" for node fs key
    using read_field(1) [OF that] f exact assms by (simp add: time_from_json_def js_read(7))
  then show thesis
    using that j(1) ts by (simp add: time_to_json_def)
qed

text \<open>An entry of a file has two fields more than its element: its type and its name (\<open>config_factory.h\<close>). An element is loaded from any value that has its fields.\<close>

definition type_attr :: string where "type_attr = ''serialized_as''"
definition name_attr :: string where "name_attr = ''object_name''"

definition agree :: "(string \<Rightarrow> 'j option) \<Rightarrow> (string \<Rightarrow> 'j option) \<Rightarrow> bool" where
  "agree fs fs' \<longleftrightarrow> (\<forall>k. k \<noteq> type_attr \<longrightarrow> k \<noteq> name_attr \<longrightarrow> fs' k = fs k)"

definition saved_as :: "('j, 'd) json_ops \<Rightarrow> ('j \<Rightarrow> 'a option) \<Rightarrow> 'a \<Rightarrow> 'j \<Rightarrow> bool" where
  "saved_as J load x j \<longleftrightarrow> (\<exists>fs. js_obj J fs j \<and> (\<forall>fs' j'. js_obj J fs' j' \<longrightarrow> agree fs fs' \<longrightarrow> load j' = Some x))"

lemma agree_field: "agree fs fs' \<Longrightarrow> fs k = Some v \<Longrightarrow> k \<noteq> type_attr \<Longrightarrow> k \<noteq> name_attr \<Longrightarrow> fs' k = Some v"
  by (simp add: agree_def)

lemma agree_refl: "agree fs fs"
  by (simp add: agree_def)

lemma saved_as_loads: "saved_as J load x j \<Longrightarrow> load j = Some x"
  using agree_refl by (auto simp: saved_as_def)

text \<open>How the fields of a value that agrees with the assigned ones are read.\<close>

lemma read_agreeing:
  assumes "js_obj J fs' j'" "agree (map_of (rev kvs)) fs'" "map_of (rev kvs) k = Some v" "k \<noteq> type_attr" "k \<noteq> name_attr"
  shows "js_read J get j' k = get v" "js_index J j' k = Some (j', v)"
  using read_field [OF assms(1) agree_field [OF assms(2-5)]] by simp_all

lemma port_kept: "(ucast (ucast (p :: u32) :: u64) :: u32) = p"
  by (rule bit_word_eqI) (auto simp: bit_simps)

lemma settings_saved:
  assumes "json_laws J" "c_int (ss_queue s) = Some (ss_queue s)"
  shows "\<exists>j. settings_to_json J s = Some j \<and> saved_as J (settings_from_json J) s j"
proof -
  let ?kvs = "[(''address'', js_str J (ss_address s)), (''port'', js_u64 J (ucast (ss_port s))), (''command_queue_size'', js_int J (ss_queue s)),
      (''shmem_data_name'', js_str J (ss_shmem_name s)), (''shmem_data_size'', js_u64 J (ss_shmem_size s)),
      (''boost_segment_name'', js_str J (ss_segment s)), (''minimal_boost_size'', js_u64 J (ss_boost_size s)),
      (''shmem_data_size'', js_u64 J (ss_shmem_size s))]"
  obtain j where j: "put_fields J ?kvs (js_null J) = Some j" "js_obj J (map_of (rev ?kvs)) j"
    using new_fields [OF assms(1)] by metis
  have "settings_from_json J j' = Some s" if "js_obj J fs' j'" "agree (map_of (rev ?kvs)) fs'" for fs' j'
  proof -
    have "map_of (rev ?kvs) ''address'' = Some (js_str J (ss_address s))" "map_of (rev ?kvs) ''port'' = Some (js_u64 J (ucast (ss_port s)))"
      "map_of (rev ?kvs) ''command_queue_size'' = Some (js_int J (ss_queue s))" "map_of (rev ?kvs) ''shmem_data_name'' = Some (js_str J (ss_shmem_name s))"
      "map_of (rev ?kvs) ''shmem_data_size'' = Some (js_u64 J (ss_shmem_size s))" "map_of (rev ?kvs) ''boost_segment_name'' = Some (js_str J (ss_segment s))"
      "map_of (rev ?kvs) ''minimal_boost_size'' = Some (js_u64 J (ss_boost_size s))"
      by simp_all
    note f = this [THEN read_agreeing(1) [OF that]]
    show ?thesis
      by (simp add: settings_from_json_def f type_attr_def name_attr_def js_read [OF assms(1)] assms(2) port_kept)
  qed
  then show ?thesis
    using j unfolding saved_as_def settings_to_json_def by blast
qed

lemma camera_saved:
  assumes "json_laws J"
  shows "\<exists>j. camera_to_json J c = Some j \<and> saved_as J (camera_from_json J) c j"
proof -
  let ?kvs = "[(''address'', js_str J (fc_address c)), (''port'', js_u64 J (ucast (fc_port c))), (''images_path'', js_str J (fc_images c))]"
  obtain j where j: "put_fields J ?kvs (js_null J) = Some j" "js_obj J (map_of (rev ?kvs)) j"
    using new_fields [OF assms(1)] by metis
  have "camera_from_json J j' = Some c" if "js_obj J fs' j'" "agree (map_of (rev ?kvs)) fs'" for fs' j'
  proof -
    have "map_of (rev ?kvs) ''address'' = Some (js_str J (fc_address c))" "map_of (rev ?kvs) ''port'' = Some (js_u64 J (ucast (fc_port c)))"
      "map_of (rev ?kvs) ''images_path'' = Some (js_str J (fc_images c))"
      by simp_all
    note f = this [THEN read_agreeing(1) [OF that]]
    show ?thesis
      by (simp add: camera_from_json_def f type_attr_def name_attr_def js_read [OF assms] port_kept)
  qed
  then show ?thesis
    using j unfolding saved_as_def camera_to_json_def by blast
qed

definition meta_ok :: "(int \<Rightarrow> string) \<Rightarrow> meta_info \<Rightarrow> bool" where
  "meta_ok readable m \<longleftrightarrow> c_long (mi_created m) = Some (mi_created m) \<and> c_long (mi_modified m) = Some (mi_modified m)
     \<and> mi_readable_created m = readable (mi_created m) \<and> mi_readable_modified m = readable (mi_modified m)"

lemma meta_ok_new: "c_long now = Some now \<Longrightarrow> meta_ok readable (meta_new readable now)"
  by (simp add: meta_ok_def meta_new_def)

lemma meta_ok_touch: "meta_ok readable m \<Longrightarrow> c_long now = Some now \<Longrightarrow> meta_ok readable (meta_touch readable now m)"
  by (simp add: meta_ok_def meta_touch_def)

lemma meta_saved:
  assumes "json_laws J" "meta_ok readable m"
  shows "\<exists>j. meta_to_json J m = Some j \<and> saved_as J (meta_from_json J readable) m j"
proof -
  have ok: "c_long (mi_created m) = Some (mi_created m)" "c_long (mi_modified m) = Some (mi_modified m)"
    "mi_readable_created m = readable (mi_created m)" "mi_readable_modified m = readable (mi_modified m)"
    using assms(2) by (simp_all add: meta_ok_def)
  obtain a where a: "time_to_json J (mi_created m) (mi_readable_created m) = Some a"
    "\<And>node fs key. js_obj J fs node \<Longrightarrow> fs key = Some a \<Longrightarrow> time_from_json J node key = Some (mi_created m)"
    using time_saved [OF assms(1) ok(1)] by metis
  obtain b where b: "time_to_json J (mi_modified m) (mi_readable_modified m) = Some b"
    "\<And>node fs key. js_obj J fs node \<Longrightarrow> fs key = Some b \<Longrightarrow> time_from_json J node key = Some (mi_modified m)"
    using time_saved [OF assms(1) ok(2)] by metis
  let ?kvs = "[(''creationTime'', a), (''lastModificationTime'', b), (''comment'', js_str J (mi_comment m))]"
  obtain j where j: "put_fields J ?kvs (js_null J) = Some j" "js_obj J (map_of (rev ?kvs)) j"
    using new_fields [OF assms(1)] by metis
  have "meta_from_json J readable j' = Some m" if "js_obj J fs' j'" "agree (map_of (rev ?kvs)) fs'" for fs' j'
  proof -
    have k: "map_of (rev ?kvs) ''creationTime'' = Some a" "map_of (rev ?kvs) ''lastModificationTime'' = Some b"
      "map_of (rev ?kvs) ''comment'' = Some (js_str J (mi_comment m))"
      by simp_all
    note f = read_agreeing(1) [OF that k(3)]
    have "fs' ''creationTime'' = Some a" "fs' ''lastModificationTime'' = Some b"
      using k(1,2) [THEN agree_field [OF that(2)]] by (simp_all add: type_attr_def name_attr_def)
    then show ?thesis
      using a(2) [OF that(1)] b(2) [OF that(1)] ok(3,4)
      by (cases m) (simp add: meta_from_json_def f type_attr_def name_attr_def js_read [OF assms(1)])
  qed
  then show ?thesis
    using j a(1) b(1) unfolding saved_as_def by (auto simp: meta_to_json_def)
qed

end
