(* ===== verification/Config_Nodes.thy ===== *)
theory Config_Nodes imports Config_Elements begin

section \<open>The pipeline of a configuration (libcommon: PipelineConfig.cpp)\<close>

text \<open>
  A pipeline is a list of nodes, each saved under its name. What is loaded comes in the order of the names and is sorted by the ids, which have to be
  the numbers from 0; the last node has no successor. An exception is \<open>None\<close>.
\<close>

subsection \<open>Nodes\<close>

datatype node_type = NO_BLOCK | FIRST | MIDDLE | LAST

fun type_name :: "node_type \<Rightarrow> string" where
  "type_name FIRST = ''FIRST''"
| "type_name LAST = ''LAST''"
| "type_name MIDDLE = ''MIDDLE''"
| "type_name NO_BLOCK = ''NO_BLOCK''"

definition type_of_name :: "string \<Rightarrow> node_type option" where
  "type_of_name = map_of (map (\<lambda>t. (type_name t, t)) [FIRST, LAST, MIDDLE, NO_BLOCK])"

record node_config =
  nc_id :: int
  nc_path :: string
  nc_params :: "string list"
  nc_type :: node_type
  nc_next :: int
  nc_name :: string

definition node_new :: "string \<Rightarrow> node_config" where
  "node_new name = \<lparr>nc_id = - 1, nc_path = [], nc_params = [], nc_type = NO_BLOCK, nc_next = - 1, nc_name = name\<rparr>"

definition node_from_json :: "('j, 'd) json_ops \<Rightarrow> 'j \<Rightarrow> node_config \<Rightarrow> node_config option" where
  "node_from_json J node n = do {
     id' \<leftarrow> js_read J (js_get_int J) node ''id'';
     path \<leftarrow> js_read J (js_get_str J) node ''name'';
     t \<leftarrow> js_read J (js_get_str J) node ''type'';
     ty \<leftarrow> type_of_name t;
     nxt \<leftarrow> js_read J (js_get_int J) node ''next_id'';
     parameters \<leftarrow> js_read J Some node ''parameters'';
     if \<not> js_is_array J parameters then None
     else do {
       pars \<leftarrow> those (map (js_get_str J) (js_items J parameters));
       Some \<lparr>nc_id = id', nc_path = path, nc_params = pars, nc_type = ty, nc_next = nxt, nc_name = nc_name n\<rparr> } }"

fun push_strings :: "('j, 'd) json_ops \<Rightarrow> string list \<Rightarrow> 'j \<Rightarrow> 'j option" where
  "push_strings J [] a = Some a"
| "push_strings J (s # ss) a = Option.bind (js_push J a (js_str J s)) (push_strings J ss)"

definition node_to_json :: "('j, 'd) json_ops \<Rightarrow> node_config \<Rightarrow> 'j option" where
  "node_to_json J n = do {
     pars \<leftarrow> push_strings J (nc_params n) (js_array J);
     put_fields J [(''id'', js_int J (nc_id n)), (''name'', js_str J (nc_path n)), (''next_id'', js_int J (nc_next n)),
       (''type'', js_str J (type_name (nc_type n))), (''parameters'', pars)] (js_null J) }"

text \<open>Two nodes are equal when each parameter of the first is one of the second, of which there are as many.\<close>

definition node_equal :: "node_config \<Rightarrow> node_config \<Rightarrow> bool" where
  "node_equal a b \<longleftrightarrow> nc_id a = nc_id b \<and> nc_next a = nc_next b \<and> nc_name a = nc_name b \<and> nc_type a = nc_type b \<and> nc_path a = nc_path b
     \<and> length (nc_params a) = length (nc_params b) \<and> (\<forall>s \<in> set (nc_params a). s \<in> set (nc_params b))"

subsection \<open>The pipeline\<close>

record pipe_config =
  pp_nodes :: "node_config list"
  pp_name :: string

definition add_node :: "node_config \<Rightarrow> pipe_config \<Rightarrow> pipe_config option" where
  "add_node n p = (if \<exists>m \<in> set (pp_nodes p). nc_id m = nc_id n then None else Some (p\<lparr>pp_nodes := pp_nodes p @ [n]\<rparr>))"

fun nodes_of_entries :: "('j, 'd) json_ops \<Rightarrow> (string \<times> 'j) list \<Rightarrow> node_config list option" where
  "nodes_of_entries J [] = Some []"
| "nodes_of_entries J ((key, val) # es) =
     (if val \<noteq> js_null J \<and> js_is_object J val
      then do { n \<leftarrow> node_from_json J val (node_new key); ns \<leftarrow> nodes_of_entries J es; Some (n # ns) }
      else nodes_of_entries J es)"

definition ids_checked :: "node_config list \<Rightarrow> bool" where
  "ids_checked ns \<longleftrightarrow> ns = [] \<or> (nc_id (hd ns) = 0 \<and> nc_id (last ns) - nc_id (hd ns) + 1 = int (length ns) \<and> nc_next (last ns) = - 1)"

definition pipe_from_json :: "('j, 'd) json_ops \<Rightarrow> 'j \<Rightarrow> pipe_config \<Rightarrow> pipe_config option" where
  "pipe_from_json J json p = do {
     es \<leftarrow> js_entries J json;
     ns \<leftarrow> nodes_of_entries J es;
     let ns = sort_key nc_id ns;
     if ids_checked ns then Some (p\<lparr>pp_nodes := ns\<rparr>) else None }"

fun put_nodes :: "('j, 'd) json_ops \<Rightarrow> node_config list \<Rightarrow> 'j \<Rightarrow> 'j option" where
  "put_nodes J [] json = Some json"
| "put_nodes J (n # ns) json = do { j \<leftarrow> node_to_json J n; json \<leftarrow> js_put J json (nc_name n) j; put_nodes J ns json }"

definition pipe_to_json :: "('j, 'd) json_ops \<Rightarrow> pipe_config \<Rightarrow> 'j option" where
  "pipe_to_json J p = put_nodes J (sort_key nc_id (pp_nodes p)) (js_null J)"

definition pipe_equal :: "pipe_config \<Rightarrow> pipe_config \<Rightarrow> bool" where
  "pipe_equal p q \<longleftrightarrow> pp_name p = pp_name q \<and> length (pp_nodes p) = length (pp_nodes q)
     \<and> (\<forall>n \<in> set (pp_nodes p). case find (\<lambda>m. nc_id m = nc_id n) (pp_nodes q) of None \<Rightarrow> False | Some m \<Rightarrow> node_equal m n)"

subsection \<open>Nodes are loaded\<close>

lemma type_name_of: "type_of_name (type_name t) = Some t"
  by (cases t) (simp_all add: type_of_name_def)

lemma strings_pushed:
  assumes "json_laws J" "js_is_array J a"
  shows "\<exists>a'. push_strings J ss a = Some a' \<and> js_is_array J a' \<and> js_items J a' = js_items J a @ map (js_str J) ss"
  using assms(2)
proof (induction ss arbitrary: a)
  case (Cons s ss)
  have "\<exists>a1. js_push J a (js_str J s) = Some a1 \<and> js_is_array J a1 \<and> js_items J a1 = js_items J a @ [js_str J s]"
    using assms(1) Cons.prems by (simp add: json_laws_def)
  then obtain a1 where "js_push J a (js_str J s) = Some a1" "js_is_array J a1" "js_items J a1 = js_items J a @ [js_str J s]"
    by blast
  then show ?case
    using Cons.IH [of a1] by auto
qed simp

lemma those_strings: "json_laws J \<Longrightarrow> those (map (js_get_str J) (map (js_str J) ss)) = Some ss"
  by (induction ss) (simp_all add: js_read)

definition node_ok :: "node_config \<Rightarrow> bool" where
  "node_ok n \<longleftrightarrow> c_int (nc_id n) = Some (nc_id n) \<and> c_int (nc_next n) = Some (nc_next n)"

definition node_saved_as :: "('j, 'd) json_ops \<Rightarrow> node_config \<Rightarrow> 'j \<Rightarrow> bool" where
  "node_saved_as J n j \<longleftrightarrow> js_is_object J j \<and> node_from_json J j (node_new (nc_name n)) = Some n"

lemma node_saved:
  assumes "json_laws J" "node_ok n"
  shows "\<exists>j. node_to_json J n = Some j \<and> node_saved_as J n j"
proof -
  have "js_is_array J (js_array J)" "js_items J (js_array J) = []"
    using assms(1) by (simp_all add: json_laws_def)
  then obtain a where a: "push_strings J (nc_params n) (js_array J) = Some a" "js_is_array J a" "js_items J a = map (js_str J) (nc_params n)"
    using strings_pushed [OF assms(1), of "js_array J" "nc_params n"] by auto
  let ?kvs = "[(''id'', js_int J (nc_id n)), (''name'', js_str J (nc_path n)), (''next_id'', js_int J (nc_next n)),
       (''type'', js_str J (type_name (nc_type n))), (''parameters'', a)]"
  obtain j where j: "put_fields J ?kvs (js_null J) = Some j" "js_obj J (map_of (rev ?kvs)) j" "js_is_object J j"
    using new_fields [OF assms(1), of ?kvs] by blast
  have "map_of (rev ?kvs) ''id'' = Some (js_int J (nc_id n))" "map_of (rev ?kvs) ''name'' = Some (js_str J (nc_path n))"
    "map_of (rev ?kvs) ''next_id'' = Some (js_int J (nc_next n))" "map_of (rev ?kvs) ''type'' = Some (js_str J (type_name (nc_type n)))"
    "map_of (rev ?kvs) ''parameters'' = Some a"
    by simp_all
  note f = this [THEN read_field(2) [OF j(2)]]
  have "node_from_json J j (node_new (nc_name n)) = Some n"
    using assms(2) a(2,3)
    by (cases n) (simp add: node_from_json_def f js_read [OF assms(1)] type_name_of those_strings [OF assms(1)] node_ok_def node_new_def del: map_map)
  then show ?thesis
    using a(1) j by (simp add: node_to_json_def node_saved_as_def del: put_fields.simps)
qed

lemma nodes_loaded:
  assumes "json_laws J" "\<forall>(k, v) \<in> set es. js_is_object J v \<longrightarrow> (\<exists>n. k = nc_name n \<and> node_saved_as J n v)"
  shows "\<exists>ns. nodes_of_entries J es = Some ns \<and> set ns = {n. \<exists>v. (nc_name n, v) \<in> set es \<and> node_saved_as J n v}
    \<and> map nc_name ns = map fst (filter (\<lambda>(k, v). js_is_object J v) es)"
  using assms(2)
proof (induction es)
  case (Cons e es)
  obtain k v where e: "e = (k, v)"
    by (cases e)
  obtain ns where ns: "nodes_of_entries J es = Some ns" "set ns = {n. \<exists>v. (nc_name n, v) \<in> set es \<and> node_saved_as J n v}"
    "map nc_name ns = map fst (filter (\<lambda>(k, v). js_is_object J v) es)"
    using Cons.IH Cons.prems by auto
  have null: "\<not> js_is_object J (js_null J)"
    using assms(1) by (simp add: json_laws_def)
  show ?case
  proof (cases "js_is_object J v")
    case True
    then obtain n where n: "k = nc_name n" "node_saved_as J n v"
      using Cons.prems e by auto
    have "nodes_of_entries J (e # es) = Some (n # ns)"
      using e n ns(1) True null by (auto simp: node_saved_as_def)
    moreover have uniq: "m = n" if "nc_name m = k" "node_saved_as J m v" for m
      using that n by (simp add: node_saved_as_def)
    have "{m. \<exists>w. (nc_name m, w) \<in> set (e # es) \<and> node_saved_as J m w} = insert n {m. \<exists>w. (nc_name m, w) \<in> set es \<and> node_saved_as J m w}"
      using uniq n unfolding e by fastforce
    then have "set (n # ns) = {m. \<exists>w. (nc_name m, w) \<in> set (e # es) \<and> node_saved_as J m w}"
      using ns(2) by simp
    moreover have "map nc_name (n # ns) = map fst (filter (\<lambda>(k, v). js_is_object J v) (e # es))"
      using ns(3) n(1) True e by simp
    ultimately show ?thesis
      by blast
  next
    case False
    then show ?thesis
      using e ns by (intro exI [of _ ns]) (auto simp: node_saved_as_def)
  qed
qed simp

definition node_json :: "('j, 'd) json_ops \<Rightarrow> node_config \<Rightarrow> 'j" where
  "node_json J n = the (node_to_json J n)"

lemma node_json_saved: "json_laws J \<Longrightarrow> node_ok n \<Longrightarrow> node_to_json J n = Some (node_json J n) \<and> node_saved_as J n (node_json J n)"
  using node_saved [of J n] by (auto simp: node_json_def)

lemma nodes_put:
  assumes "json_laws J" "js_obj J fs json" "\<forall>n \<in> set ns. node_ok n"
  shows "\<exists>json'. put_nodes J ns json = Some json' \<and> js_obj J (fs ++ map_of (rev (map (\<lambda>n. (nc_name n, node_json J n)) ns))) json'"
  using assms(2,3)
proof (induction ns arbitrary: fs json)
  case (Cons n ns)
  obtain json1 where j1: "js_put J json (nc_name n) (node_json J n) = Some json1" "js_obj J (fs(nc_name n \<mapsto> node_json J n)) json1"
    using js_obj_put [OF assms(1) Cons.prems(1)] by metis
  have "fs ++ map_of (rev (map (\<lambda>n. (nc_name n, node_json J n)) (n # ns))) = fs(nc_name n \<mapsto> node_json J n) ++ map_of (rev (map (\<lambda>n. (nc_name n, node_json J n)) ns))"
    by (simp add: map_add_def fun_eq_iff split: option.splits)
  moreover have "put_nodes J (n # ns) json = put_nodes J ns json1"
    using node_json_saved [OF assms(1), of n] Cons.prems(2) j1(1) by simp
  moreover obtain json' where "put_nodes J ns json1 = Some json'"
    "js_obj J (fs(nc_name n \<mapsto> node_json J n) ++ map_of (rev (map (\<lambda>n. (nc_name n, node_json J n)) ns))) json'"
    using Cons.IH [OF j1(2)] Cons.prems(2) by (auto simp del: fun_upd_apply)
  ultimately show ?case
    by metis
qed simp

text \<open>A pipeline is loaded from the nodes of a value in whatever order the names have.\<close>

definition pipe_ok :: "pipe_config \<Rightarrow> bool" where
  "pipe_ok p \<longleftrightarrow> (\<forall>n \<in> set (pp_nodes p). node_ok n) \<and> distinct (map nc_id (pp_nodes p)) \<and> distinct (map nc_name (pp_nodes p))"

lemma sorted_nodes_unique:
  assumes "set ns = set ms" "distinct (map nc_id ms)" "distinct ns"
  shows "sort_key nc_id ns = sort_key nc_id ms"
proof (rule map_sorted_distinct_set_unique [of nc_id])
  show "inj_on nc_id (set (sort_key nc_id ns) \<union> set (sort_key nc_id ms))"
    using assms(1,2) by (simp add: distinct_map)
  show "distinct (map nc_id (sort_key nc_id ns))" "distinct (map nc_id (sort_key nc_id ms))"
    using assms by (simp_all add: distinct_map)
qed (use assms in simp_all)

lemma pipe_loaded:
  assumes "json_laws J" "pipe_ok p" "js_obj J fs json"
    and "\<And>n. n \<in> set (pp_nodes p) \<Longrightarrow> \<exists>v. fs (nc_name n) = Some v \<and> node_saved_as J n v"
    and "\<And>k v. fs k = Some v \<Longrightarrow> k \<notin> nc_name ` set (pp_nodes p) \<Longrightarrow> \<not> js_is_object J v"
  shows "pipe_from_json J json q = (let ns = sort_key nc_id (pp_nodes p) in if ids_checked ns then Some (q\<lparr>pp_nodes := ns\<rparr>) else None)"
proof -
  obtain es where es: "js_entries J json = Some es" "ordered es" "map_of es = fs"
    using assms(3) by (auto simp: js_obj_def)
  have pairs: "(k, v) \<in> set es \<longleftrightarrow> fs k = Some v" for k v
    using ordered_pairs [OF es(2)] es(3) by simp
  have "\<forall>(k, v) \<in> set es. js_is_object J v \<longrightarrow> (\<exists>n. k = nc_name n \<and> node_saved_as J n v)"
    using assms(4,5) pairs by force
  then obtain ns where ns: "nodes_of_entries J es = Some ns" "set ns = {n. \<exists>v. (nc_name n, v) \<in> set es \<and> node_saved_as J n v}"
    "map nc_name ns = map fst (filter (\<lambda>(k, v). js_is_object J v) es)"
    using nodes_loaded [OF assms(1)] by blast
  have "n \<in> set (pp_nodes p)" if v: "fs (nc_name n) = Some v" "node_saved_as J n v" for n v
  proof -
    have "nc_name n \<in> nc_name ` set (pp_nodes p)"
      using assms(5) [OF v(1)] v(2) by (auto simp: node_saved_as_def)
    then obtain m where m: "m \<in> set (pp_nodes p)" "nc_name m = nc_name n"
      by auto
    then show ?thesis
      using assms(4) [OF m(1)] v by (auto simp: node_saved_as_def)
  qed
  then have "set ns = set (pp_nodes p)"
    using ns(2) assms(4) by (auto simp: pairs)
  moreover have "distinct (map fst (filter (\<lambda>(k, v). js_is_object J v) es))"
    using ordered_distinct [OF es(2)] by (simp add: distinct_map_filter)
  then have "distinct (map nc_name ns)"
    using ns(3) by simp
  then have "distinct ns"
    by (simp add: distinct_map)
  ultimately have "sort_key nc_id ns = sort_key nc_id (pp_nodes p)"
    using assms(2) by (intro sorted_nodes_unique) (simp_all add: pipe_ok_def)
  then show ?thesis
    using es(1) ns(1) by (simp add: pipe_from_json_def)
qed

lemma pipe_saved:
  assumes "json_laws J" "pipe_ok p"
  shows "\<exists>j fs. pipe_to_json J p = Some j \<and> js_obj J fs j \<and> (\<forall>n \<in> set (pp_nodes p). fs (nc_name n) = Some (node_json J n))
    \<and> (\<forall>k. k \<notin> nc_name ` set (pp_nodes p) \<longrightarrow> fs k = None)"
proof -
  let ?ns = "sort_key nc_id (pp_nodes p)"
  let ?kvs = "rev (map (\<lambda>n. (nc_name n, node_json J n)) ?ns)"
  have "\<forall>n \<in> set ?ns. node_ok n"
    using assms(2) by (simp add: pipe_ok_def)
  then obtain j where j: "put_nodes J ?ns (js_null J) = Some j" "js_obj J (map_of ?kvs) j"
    using nodes_put [OF assms(1) js_obj_null [OF assms(1)]] by fastforce
  have "inj_on nc_name (set (pp_nodes p))" "distinct ?ns"
    using assms(2) by (auto simp: pipe_ok_def distinct_map)
  then have "distinct (map fst ?kvs)"
    by (simp add: distinct_map rev_map [symmetric] comp_def)
  then have "map_of ?kvs (nc_name n) = Some (node_json J n)" if "n \<in> set (pp_nodes p)" for n
    using that by (intro map_of_is_SomeI) simp_all
  moreover have "map_of ?kvs k = None" if "k \<notin> nc_name ` set (pp_nodes p)" for k
    using that by (auto simp: map_of_eq_None_iff)
  ultimately show ?thesis
    using j unfolding pipe_to_json_def by blast
qed

subsection \<open>Which pipelines are accepted\<close>

text \<open>Without a repeated id, those whose ids are the numbers from 0.\<close>

lemma ascending_at_least: "sorted_wrt (<) (xs :: int list) \<Longrightarrow> i < length xs \<Longrightarrow> hd xs + int i \<le> xs ! i"
proof (induction i)
  case (Suc i)
  then have "xs ! i < xs ! Suc i"
    by (simp add: sorted_wrt_iff_nth_less)
  then show ?case
    using Suc by simp
qed (simp add: hd_conv_nth)

lemma ascending_steps: "sorted_wrt (<) (xs :: int list) \<Longrightarrow> i \<le> k \<Longrightarrow> k < length xs \<Longrightarrow> xs ! i + int (k - i) \<le> xs ! k"
proof (induction k)
  case (Suc k)
  show ?case
  proof (cases "i = Suc k")
    case False
    then have "xs ! i + int (k - i) \<le> xs ! k" "xs ! k < xs ! Suc k"
      using Suc by (simp_all add: sorted_wrt_iff_nth_less)
    then show ?thesis
      using False Suc.prems(2) by (simp add: Suc_diff_le)
  qed simp
qed simp

lemma ascending_from_0:
  assumes "sorted_wrt (<) xs" "xs \<noteq> []" "hd xs = 0" "last xs + 1 = int (length xs)" "i < length xs"
  shows "xs ! i = int i"
proof -
  have "i \<le> length xs - 1" "length xs - 1 < length xs"
    using assms(5) by simp_all
  then have "xs ! i + int (length xs - 1 - i) \<le> last xs"
    using ascending_steps [OF assms(1), of i "length xs - 1"] assms(2) by (simp add: last_conv_nth)
  then show ?thesis
    using ascending_at_least [OF assms(1,5)] assms(3-5) by simp
qed

lemma ids_checked_iff:
  assumes "distinct (map nc_id ns)"
  shows "ids_checked (sort_key nc_id ns) \<longleftrightarrow> ns = [] \<or> (map nc_id (sort_key nc_id ns) = map int [0..<length ns] \<and> nc_next (last (sort_key nc_id ns)) = - 1)"
proof (cases "ns = []")
  case False
  let ?ms = "sort_key nc_id ns"
  have ms: "?ms \<noteq> []" "length ?ms = length ns"
    using False by (metis length_0_conv length_sort, simp)
  have asc: "sorted_wrt (<) (map nc_id ?ms)"
    using assms by (simp add: strict_sorted_iff distinct_map)
  have eq: "xs = map int [0..<length xs]" if "sorted_wrt (<) xs" "xs \<noteq> []" "hd xs = 0" "last xs + 1 = int (length xs)" for xs
    using ascending_from_0 [OF that] by (intro nth_equalityI) simp_all
  have "map nc_id ?ms = map int [0..<length ns]" if "hd (map nc_id ?ms) = 0" "last (map nc_id ?ms) + 1 = int (length (map nc_id ?ms))"
    using eq [OF asc _ that] ms by simp
  moreover have "hd (map int [0..<length ns]) = 0 \<and> last (map int [0..<length ns]) = int (length ns) - 1"
    using False by (simp add: hd_map last_map of_nat_diff Suc_leI)
  moreover have "ids_checked ?ms \<longleftrightarrow> hd (map nc_id ?ms) = 0 \<and> last (map nc_id ?ms) + 1 = int (length (map nc_id ?ms)) \<and> nc_next (last ?ms) = - 1"
    using ms by (auto simp: ids_checked_def hd_map last_map)
  ultimately show ?thesis
    using False ms(2) by (metis add.commute diff_add_cancel length_map)
qed (simp add: ids_checked_def)

text \<open>But a number that occurs twice can stand for one that is missing.\<close>

lemma duplicate_ids_accepted:
  "ids_checked (sort_key nc_id [(node_new ''a'')\<lparr>nc_id := 0\<rparr>, (node_new ''b'')\<lparr>nc_id := 0\<rparr>, (node_new ''c'')\<lparr>nc_id := 2\<rparr>])"
  by (simp add: ids_checked_def node_new_def)

text \<open>Sorting does not make a pipeline another one, and \<open>add_node\<close> keeps the ids apart.\<close>

lemma sorted_pipe_equal:
  assumes "distinct (map nc_id (pp_nodes p))"
  shows "pipe_equal p (p\<lparr>pp_nodes := sort_key nc_id (pp_nodes p)\<rparr>)"
proof -
  have "find (\<lambda>m. nc_id m = nc_id n) (sort_key nc_id (pp_nodes p)) = Some n" if n: "n \<in> set (pp_nodes p)" for n
  proof (cases "find (\<lambda>m. nc_id m = nc_id n) (sort_key nc_id (pp_nodes p))")
    case None
    then show ?thesis
      using n by (auto simp: find_None_iff)
  next
    case (Some m)
    then have "m \<in> set (pp_nodes p)" "nc_id m = nc_id n"
      by (auto simp: find_Some_iff) (metis nth_mem set_sort length_sort)
    then show ?thesis
      using Some n assms by (auto simp: distinct_map dest: inj_onD)
  qed
  then show ?thesis
    by (simp add: pipe_equal_def node_equal_def)
qed

lemma added_ids_distinct: "distinct (map nc_id (pp_nodes p)) \<Longrightarrow> add_node n p = Some p' \<Longrightarrow> distinct (map nc_id (pp_nodes p'))"
  by (fastforce simp: add_node_def split: if_splits)

text \<open>
  Claim C31. A pipeline whose nodes have different ids and names is saved and loaded with the same nodes in the order of their ids, or refused: it is
  accepted exactly when the ids are the numbers from 0 and the last node has no successor. What is loaded is equal to what was saved.
\<close>

theorem pipeline_config_roundtrip:
  assumes "json_laws J" "pipe_ok p"
  shows "\<exists>j. pipe_to_json J p = Some j \<and> (let ns = sort_key nc_id (pp_nodes p) in
      pipe_from_json J j (p\<lparr>pp_nodes := []\<rparr>)
        = (if ns = [] \<or> map nc_id ns = map int [0..<length ns] \<and> nc_next (last ns) = - 1 then Some (p\<lparr>pp_nodes := ns\<rparr>) else None)
      \<and> pipe_equal p (p\<lparr>pp_nodes := ns\<rparr>))"
proof -
  obtain j fs where j: "pipe_to_json J p = Some j" "js_obj J fs j" "\<forall>n \<in> set (pp_nodes p). fs (nc_name n) = Some (node_json J n)"
    "\<forall>k. k \<notin> nc_name ` set (pp_nodes p) \<longrightarrow> fs k = None"
    using pipe_saved [OF assms] by blast
  have "\<exists>v. fs (nc_name n) = Some v \<and> node_saved_as J n v" if "n \<in> set (pp_nodes p)" for n
    using that j(3) node_json_saved [OF assms(1), of n] assms(2) by (auto simp: pipe_ok_def)
  then have "pipe_from_json J j (p\<lparr>pp_nodes := []\<rparr>) = (let ns = sort_key nc_id (pp_nodes p) in if ids_checked ns then Some (p\<lparr>pp_nodes := ns\<rparr>) else None)"
    using pipe_loaded [OF assms j(2)] j(4) by (simp add: Let_def)
  moreover have "ids_checked (sort_key nc_id (pp_nodes p)) \<longleftrightarrow> sort_key nc_id (pp_nodes p) = []
      \<or> map nc_id (sort_key nc_id (pp_nodes p)) = map int [0..<length (sort_key nc_id (pp_nodes p))] \<and> nc_next (last (sort_key nc_id (pp_nodes p))) = - 1"
    using ids_checked_iff [of "pp_nodes p"] assms(2) by (metis length_0_conv length_sort pipe_ok_def)
  ultimately show ?thesis
    using j(1) sorted_pipe_equal [of p] assms(2) by (intro exI [of _ j]) (simp add: pipe_ok_def Let_def)
qed

definition demo_pipe :: pipe_config where
  "demo_pipe = \<lparr>pp_nodes = [(node_new ''last'')\<lparr>nc_id := 1, nc_type := LAST, nc_params := [''a'', ''b'']\<rparr>,
     (node_new ''first'')\<lparr>nc_id := 0, nc_type := FIRST, nc_next := 1\<rparr>], pp_name = ''default''\<rparr>"

theorem pipeline_config_roundtrip_witness:
  "\<exists>j q. pipe_to_json tree_json demo_pipe = Some j \<and> pipe_from_json tree_json j (demo_pipe\<lparr>pp_nodes := []\<rparr>) = Some q
     \<and> map nc_name (pp_nodes q) = [''first'', ''last''] \<and> pipe_equal demo_pipe q"
proof -
  have "pipe_ok demo_pipe"
    by (simp add: pipe_ok_def demo_pipe_def node_ok_def node_new_def c_int_def)
  then obtain j where "pipe_to_json tree_json demo_pipe = Some j" "let ns = sort_key nc_id (pp_nodes demo_pipe) in
      pipe_from_json tree_json j (demo_pipe\<lparr>pp_nodes := []\<rparr>)
        = (if ns = [] \<or> map nc_id ns = map int [0..<length ns] \<and> nc_next (last ns) = - 1 then Some (demo_pipe\<lparr>pp_nodes := ns\<rparr>) else None)
      \<and> pipe_equal demo_pipe (demo_pipe\<lparr>pp_nodes := ns\<rparr>)"
    using pipeline_config_roundtrip [OF tree_json_laws, of demo_pipe] by blast
  moreover have "sort_key nc_id (pp_nodes demo_pipe) = rev (pp_nodes demo_pipe)"
    by (simp add: demo_pipe_def node_new_def)
  ultimately show ?thesis
    by (auto simp: demo_pipe_def node_new_def upt_rec Let_def)
qed

end
