(* ===== verification/Configuration.thy ===== *)
theory Configuration imports Config_Nodes begin

section \<open>Configurations (libcommon: config_factory.h, configurator.cpp, configuration_c.cpp)\<close>

text \<open>
  A configuration is the set of elements in a file, each found by its type and its name; one configuration is current in a process. The types that the
  factory knows are a list, the position of a type in it is part of the key. \<open>moved\<close> is the last string of the list of names from which the name of
  the meta information is taken out: \<open>std::remove_if\<close> moves the others forward and leaves one string in a state that is not specified. The order in
  which an unordered map is visited is \<open>order\<close>. A file is what the library reads from it: \<open>None\<close> for a text that is no JSON.
  \<open>readable\<close> is the text of a time, \<open>now\<close> what the clock says.
\<close>

subsection \<open>The factory (config_factory.h)\<close>

datatype element = E_meta meta_info | E_server server_settings | E_pipe pipe_config | E_camera fake_camera

definition config_types :: "string list" where
  "config_types = [''meta_info'', ''server_settings'', ''pipeline_settings'', ''fake_camera_settings'']"

fun type_tag :: "element \<Rightarrow> string" where
  "type_tag (E_meta _) = ''meta_info''"
| "type_tag (E_server _) = ''server_settings''"
| "type_tag (E_pipe _) = ''pipeline_settings''"
| "type_tag (E_camera _) = ''fake_camera_settings''"

fun get_type_idx :: "string list \<Rightarrow> nat \<Rightarrow> string \<Rightarrow> nat option" where
  "get_type_idx [] idx tag = None"
| "get_type_idx (t # ts) idx tag = (if t = tag then Some idx else get_type_idx ts (Suc idx) tag)"

definition registered_strings :: "string \<Rightarrow> string list" where
  "registered_strings moved = [''fake_camera_settings'', ''pipeline_settings'', ''server_settings'', moved]"

text \<open>The name under which an element saves itself; only a pipeline has one.\<close>

fun element_name :: "element \<Rightarrow> string" where
  "element_name (E_pipe p) = pp_name p"
| "element_name _ = []"

fun element_to_json :: "('j, 'd) json_ops \<Rightarrow> element \<Rightarrow> 'j option" where
  "element_to_json J (E_meta m) = meta_to_json J m"
| "element_to_json J (E_server s) = settings_to_json J s"
| "element_to_json J (E_pipe p) = pipe_to_json J p"
| "element_to_json J (E_camera c) = camera_to_json J c"

definition fabrics_to_json :: "('j, 'd) json_ops \<Rightarrow> 'j \<Rightarrow> element \<Rightarrow> 'j option" where
  "fabrics_to_json J json e = (let name = element_name e in do {
     obj \<leftarrow> element_to_json J e;
     obj \<leftarrow> js_put J obj type_attr (js_str J (type_tag e));
     obj \<leftarrow> js_put J obj name_attr (js_str J (if name = [] then ''default'' else name));
     js_put J json (if name = [] then type_tag e else name) obj })"

definition empty_pipe :: pipe_config where
  "empty_pipe = \<lparr>pp_nodes = [], pp_name = []\<rparr>"

definition element_from_json :: "('j, 'd) json_ops \<Rightarrow> (int \<Rightarrow> string) \<Rightarrow> string \<Rightarrow> 'j \<Rightarrow> element option" where
  "element_from_json J readable tag json =
     (if tag = ''meta_info'' then map_option E_meta (meta_from_json J readable json)
      else if tag = ''server_settings'' then map_option E_server (settings_from_json J json)
      else if tag = ''pipeline_settings'' then map_option E_pipe (pipe_from_json J json empty_pipe)
      else if tag = ''fake_camera_settings'' then map_option E_camera (camera_from_json J json)
      else None)"

text \<open>
  The creator is chosen by the type that the value names, the element is taken from the variable of the type that was asked for: \<open>blank\<close> is what the
  variables hold from earlier calls.
\<close>

definition fabrics_create :: "('j, 'd) json_ops \<Rightarrow> (int \<Rightarrow> string) \<Rightarrow> (string \<Rightarrow> element) \<Rightarrow> string \<Rightarrow> 'j \<Rightarrow> element option" where
  "fabrics_create J readable blank tag json = do {
     type_name \<leftarrow> js_read J (js_get_str J) json type_attr;
     e \<leftarrow> element_from_json J readable type_name json;
     Some (if type_name = tag then e else blank tag) }"

fun set_name :: "string \<Rightarrow> element \<Rightarrow> element" where
  "set_name key (E_pipe p) = E_pipe (p\<lparr>pp_name := key\<rparr>)"
| "set_name key e = e"

definition create_from_element :: "('j, 'd) json_ops \<Rightarrow> (int \<Rightarrow> string) \<Rightarrow> (string \<Rightarrow> element) \<Rightarrow> string \<Rightarrow> string \<Rightarrow> 'j \<Rightarrow> element option" where
  "create_from_element J readable blank tag key json =
     (if tag \<in> set config_types then map_option (set_name key) (fabrics_create J readable blank tag json) else None)"

subsection \<open>The configuration (configurator.cpp)\<close>

type_synonym config_key = "nat \<times> string"

definition config_holder_key :: "string \<Rightarrow> string \<Rightarrow> config_key option" where
  "config_holder_key tag name = map_option (\<lambda>i. (i, name)) (get_type_idx config_types 0 tag)"

definition key_hash :: "(string \<Rightarrow> u64) \<Rightarrow> config_key \<Rightarrow> u64" where
  "key_hash hash = (\<lambda>(idx, name). or (push_bit 3 (if name \<noteq> [] then hash name else 0)) (of_nat idx))"

record configuration =
  cf_path :: string
  cf_meta :: meta_info
  cf_storage :: "(config_key \<times> element) list"

definition storage_insert :: "config_key \<Rightarrow> element \<Rightarrow> (config_key \<times> element) list \<Rightarrow> (config_key \<times> element) list" where
  "storage_insert k e st = (if k \<in> fst ` set st then st else st @ [(k, e)])"

text \<open>The entry of the meta information: \<open>Some None\<close> when there is none.\<close>

fun find_meta :: "('j, 'd) json_ops \<Rightarrow> (string \<times> 'j) list \<Rightarrow> 'j option option" where
  "find_meta J [] = Some None"
| "find_meta J ((key, e) # es) = do {
     (e, tag) \<leftarrow> js_index J e type_attr;
     is_meta \<leftarrow> (if tag = js_null J then Some False else map_option (\<lambda>t. t = ''meta_info'' \<and> key = ''meta_info'') (js_get_str J tag));
     if is_meta then Some (Some e) else find_meta J es }"

fun parse_config :: "('j, 'd) json_ops \<Rightarrow> (int \<Rightarrow> string) \<Rightarrow> (string \<Rightarrow> element) \<Rightarrow> string \<Rightarrow> (string \<times> 'j) list \<Rightarrow>
    (config_key \<times> element) list \<Rightarrow> (config_key \<times> element) list option" where
  "parse_config J readable blank moved [] st = Some st"
| "parse_config J readable blank moved ((key, e) # es) st = do {
     (e, tag) \<leftarrow> js_index J e type_attr;
     (e, name_tag) \<leftarrow> js_index J e name_attr;
     if tag = js_null J then parse_config J readable blank moved es st
     else do {
       t \<leftarrow> js_get_str J tag;
       if t \<notin> set (registered_strings moved) then parse_config J readable blank moved es st
       else let key = (if key = t \<or> name_tag \<noteq> js_null J \<and> js_get_str J name_tag = Some ''default'' then [] else key) in do {
         k \<leftarrow> config_holder_key t key;
         x \<leftarrow> create_from_element J readable blank t key e;
         parse_config J readable blank moved es (storage_insert k x st) } } }"

definition configuration_read :: "('j, 'd) json_ops \<Rightarrow> (int \<Rightarrow> string) \<Rightarrow> (string \<Rightarrow> element) \<Rightarrow> string \<Rightarrow> 'j \<Rightarrow> configuration option" where
  "configuration_read J readable blank moved json = do {
     es \<leftarrow> js_entries J json;
     found \<leftarrow> find_meta J es;
     meta_json \<leftarrow> found;
     m \<leftarrow> meta_from_json J readable meta_json;
     st \<leftarrow> parse_config J readable blank moved es [];
     Some \<lparr>cf_path = [], cf_meta = m, cf_storage = st\<rparr> }"

datatype config_error = Config_not_found | Bad_config

type_synonym 'j files = "string \<Rightarrow> 'j option option"

definition config_load :: "('j, 'd) json_ops \<Rightarrow> (int \<Rightarrow> string) \<Rightarrow> (string \<Rightarrow> element) \<Rightarrow> string \<Rightarrow> 'j files \<Rightarrow> string \<Rightarrow>
    configuration option \<Rightarrow> (config_error + configuration) \<times> configuration option" where
  "config_load J readable blank moved files path current =
     (if current \<noteq> None then (Inl Config_not_found, current)
      else case files path of
          None \<Rightarrow> (Inl Config_not_found, None)
        | Some None \<Rightarrow> (Inl Bad_config, None)
        | Some (Some json) \<Rightarrow> (case configuration_read J readable blank moved json of
            None \<Rightarrow> (Inl Bad_config, None)
          | Some c \<Rightarrow> (Inr c, Some c)))"

definition get_by_tag :: "string \<Rightarrow> string \<Rightarrow> configuration \<Rightarrow> element option" where
  "get_by_tag tag name c = Option.bind (config_holder_key tag name) (map_of (cf_storage c))"

definition configuration_of :: "(int \<Rightarrow> string) \<Rightarrow> int \<Rightarrow> element list \<Rightarrow> configuration option" where
  "configuration_of readable now es = do {
     ks \<leftarrow> those (map (\<lambda>e. config_holder_key (type_tag e) []) es);
     Some \<lparr>cf_path = [], cf_meta = meta_new readable now, cf_storage = fold (\<lambda>(k, e). storage_insert k e) (zip ks es) []\<rparr> }"

fun save_elements :: "('j, 'd) json_ops \<Rightarrow> element list \<Rightarrow> 'j \<Rightarrow> 'j option" where
  "save_elements J [] json = Some json"
| "save_elements J (e # es) json = Option.bind (fabrics_to_json J json e) (save_elements J es)"

text \<open>\<open>writable\<close> tells whether the file can be opened; when it cannot, nothing is written and nothing reported.\<close>

definition config_save :: "('j, 'd) json_ops \<Rightarrow> (int \<Rightarrow> string) \<Rightarrow> int \<Rightarrow> ((config_key \<times> element) list \<Rightarrow> (config_key \<times> element) list) \<Rightarrow> bool \<Rightarrow>
    string \<Rightarrow> configuration \<Rightarrow> 'j files \<Rightarrow> (configuration \<times> 'j files) option" where
  "config_save J readable now order writable path_to_save c files = (let path = (if path_to_save \<noteq> [] then path_to_save else cf_path c) in
     if path = [] then None
     else (let c = c\<lparr>cf_meta := meta_touch readable now (cf_meta c)\<rparr> in do {
       json \<leftarrow> fabrics_to_json J (js_null J) (E_meta (cf_meta c));
       json \<leftarrow> save_elements J (map snd (order (cf_storage c))) json;
       Some (c, if writable then files(path \<mapsto> Some json) else files) }))"

subsection \<open>The C interface (configuration_c.cpp)\<close>

text \<open>A pointer that is NULL makes the string throw. The cast of the element that was found is undefined for one of another type.\<close>

definition get_server_settings :: "configuration option \<Rightarrow> server_settings option" where
  "get_server_settings current = (case current of
     None \<Rightarrow> None
   | Some c \<Rightarrow> (case get_by_tag ''server_settings'' [] c of Some (E_server s) \<Rightarrow> Some (replicate_settings s) | _ \<Rightarrow> None))"

definition load_server_settings :: "('j, 'd) json_ops \<Rightarrow> (int \<Rightarrow> string) \<Rightarrow> (string \<Rightarrow> element) \<Rightarrow> string \<Rightarrow> 'j files \<Rightarrow> string option \<Rightarrow>
    configuration option \<Rightarrow> server_settings option \<times> configuration option" where
  "load_server_settings J readable blank moved files path current = (case path of
     None \<Rightarrow> (None, current)
   | Some path \<Rightarrow> (case config_load J readable blank moved files path current of
       (Inl _, current) \<Rightarrow> (None, current)
     | (Inr c, current) \<Rightarrow> (get_server_settings (Some c), current)))"

definition default_pipe :: "pipe_config option" where
  "default_pipe = do {
     p \<leftarrow> add_node \<lparr>nc_id = 0, nc_path = [], nc_params = [], nc_type = FIRST, nc_next = 1, nc_name = ''first''\<rparr> (empty_pipe\<lparr>pp_name := ''default''\<rparr>);
     add_node \<lparr>nc_id = 1, nc_path = [], nc_params = [], nc_type = LAST, nc_next = - 1, nc_name = ''last''\<rparr> p }"

text \<open>An exception ends the program, because the function is declared not to throw.\<close>

definition save_default_config :: "('j, 'd) json_ops \<Rightarrow> (int \<Rightarrow> string) \<Rightarrow> int \<Rightarrow> int \<Rightarrow> ((config_key \<times> element) list \<Rightarrow> (config_key \<times> element) list) \<Rightarrow> bool \<Rightarrow>
    string option \<Rightarrow> 'j files \<Rightarrow> 'j files option" where
  "save_default_config J readable created now order writable path files = do {
     p \<leftarrow> default_pipe;
     c \<leftarrow> configuration_of readable created [E_server default_settings, E_pipe p];
     path \<leftarrow> path;
     (_, files) \<leftarrow> config_save J readable now order writable path c files;
     Some files }"

subsection \<open>Keys\<close>

lemma type_idx: "get_type_idx config_types 0 (type_tag e) = Some (case e of E_meta _ \<Rightarrow> 0 | E_server _ \<Rightarrow> 1 | E_pipe _ \<Rightarrow> 2 | E_camera _ \<Rightarrow> 3)"
  by (cases e) (simp_all add: config_types_def)

lemma type_tag_known: "type_tag e \<in> set config_types"
  by (cases e) (simp_all add: config_types_def)

text \<open>Keys of different types never share a bucket, whatever the hash of the name: the lowest three bits are the type.\<close>

lemma hash_shows_type: "i < 8 \<Longrightarrow> take_bit 3 (key_hash hash (i, name)) = of_nat i"
proof -
  assume "i < 8"
  then have "take_bit 3 (of_nat i :: u64) = of_nat i"
    by (simp add: take_bit_of_nat take_bit_nat_eq_self)
  then show ?thesis
    by (simp add: key_hash_def take_bit_or take_bit_push_bit)
qed

subsection \<open>What is saved is loaded\<close>

definition entry_key :: "element \<Rightarrow> string" where
  "entry_key e = (if element_name e = [] then type_tag e else element_name e)"

definition loaded_name :: "element \<Rightarrow> string" where
  "loaded_name e = (if element_name e \<in> {[], ''default'', type_tag e} then [] else element_name e)"

fun base_element :: "element \<Rightarrow> element" where
  "base_element (E_pipe p) = E_pipe (empty_pipe\<lparr>pp_nodes := sort_key nc_id (pp_nodes p)\<rparr>)"
| "base_element e = e"

definition loaded_element :: "element \<Rightarrow> element" where
  "loaded_element e = set_name (loaded_name e) (base_element e)"

definition loaded_key :: "element \<Rightarrow> config_key" where
  "loaded_key e = (the (get_type_idx config_types 0 (type_tag e)), loaded_name e)"

fun element_ok :: "(int \<Rightarrow> string) \<Rightarrow> element \<Rightarrow> bool" where
  "element_ok readable (E_meta m) \<longleftrightarrow> meta_ok readable m"
| "element_ok readable (E_server s) \<longleftrightarrow> c_int (ss_queue s) = Some (ss_queue s)"
| "element_ok readable (E_pipe p) \<longleftrightarrow> pipe_ok p \<and> ids_checked (sort_key nc_id (pp_nodes p)) \<and> type_attr \<notin> nc_name ` set (pp_nodes p) \<and> name_attr \<notin> nc_name ` set (pp_nodes p)"
| "element_ok readable (E_camera c) \<longleftrightarrow> True"

lemma element_saved:
  assumes "json_laws J" "element_ok readable e"
  shows "\<exists>j fs. element_to_json J e = Some j \<and> js_obj J fs j
    \<and> (\<forall>fs' j' t n. js_obj J fs' j' \<longrightarrow> agree fs fs' \<longrightarrow> fs' type_attr = Some (js_str J t) \<longrightarrow> fs' name_attr = Some (js_str J n)
         \<longrightarrow> element_from_json J readable (type_tag e) j' = Some (base_element e))"
proof (cases e)
  case (E_meta m)
  obtain j where "meta_to_json J m = Some j" "saved_as J (meta_from_json J readable) m j"
    using meta_saved [OF assms(1), of readable m] assms(2) E_meta by auto
  then show ?thesis
    using E_meta unfolding saved_as_def by (fastforce simp: element_from_json_def)
next
  case (E_server s)
  obtain j where "settings_to_json J s = Some j" "saved_as J (settings_from_json J) s j"
    using settings_saved [OF assms(1), of s] assms(2) E_server by auto
  then show ?thesis
    using E_server unfolding saved_as_def by (fastforce simp: element_from_json_def)
next
  case (E_camera c)
  obtain j where "camera_to_json J c = Some j" "saved_as J (camera_from_json J) c j"
    using camera_saved [OF assms(1), of c] by auto
  then show ?thesis
    using E_camera unfolding saved_as_def by (fastforce simp: element_from_json_def)
next
  case (E_pipe p)
  have p: "pipe_ok p" "ids_checked (sort_key nc_id (pp_nodes p))" "type_attr \<notin> nc_name ` set (pp_nodes p)" "name_attr \<notin> nc_name ` set (pp_nodes p)"
    using assms(2) E_pipe by simp_all
  obtain j fs where j: "pipe_to_json J p = Some j" "js_obj J fs j" "\<forall>n \<in> set (pp_nodes p). fs (nc_name n) = Some (node_json J n)"
    "\<forall>k. k \<notin> nc_name ` set (pp_nodes p) \<longrightarrow> fs k = None"
    using pipe_saved [OF assms(1) p(1)] by blast
  have "pipe_from_json J j' empty_pipe = Some (empty_pipe\<lparr>pp_nodes := sort_key nc_id (pp_nodes p)\<rparr>)"
    if a: "js_obj J fs' j'" "agree fs fs'" "fs' type_attr = Some (js_str J t)" "fs' name_attr = Some (js_str J n)" for fs' j' t n
  proof -
    have "\<exists>v. fs' (nc_name n) = Some v \<and> node_saved_as J n v" if n: "n \<in> set (pp_nodes p)" for n
    proof -
      have "nc_name n \<noteq> type_attr" "nc_name n \<noteq> name_attr"
        using n p(3,4) by (metis imageI)+
      then have "fs' (nc_name n) = Some (node_json J n)"
        using agree_field [OF a(2)] j(3) n by blast
      then show ?thesis
        using node_json_saved [OF assms(1), of n] p(1) n by (auto simp: pipe_ok_def)
    qed
    moreover have "\<not> js_is_object J v" if v: "fs' k = Some v" "k \<notin> nc_name ` set (pp_nodes p)" for k v
    proof -
      have "k = type_attr \<or> k = name_attr"
        using v j(4) a(2) by (auto simp: agree_def)
      then have "v = js_str J t \<or> v = js_str J n"
        using v(1) a(3,4) by auto
      then show ?thesis
        using assms(1) by (auto simp: json_laws_def)
    qed
    ultimately show ?thesis
      using pipe_loaded [OF assms(1) p(1) a(1), of empty_pipe] p(2) by (simp add: Let_def)
  qed
  then show ?thesis
    using j(1,2) E_pipe by (fastforce simp: element_from_json_def)
qed

definition entry_saved :: "('j, 'd) json_ops \<Rightarrow> (int \<Rightarrow> string) \<Rightarrow> element \<Rightarrow> 'j \<Rightarrow> bool" where
  "entry_saved J readable e v \<longleftrightarrow> (\<exists>fs. js_obj J fs v \<and> fs type_attr = Some (js_str J (type_tag e))
       \<and> fs name_attr = Some (js_str J (if element_name e = [] then ''default'' else element_name e)))
     \<and> element_from_json J readable (type_tag e) v = Some (base_element e)"

text \<open>The value of an entry.\<close>

definition entry_value :: "('j, 'd) json_ops \<Rightarrow> element \<Rightarrow> 'j option" where
  "entry_value J e = do {
     obj \<leftarrow> element_to_json J e;
     obj \<leftarrow> js_put J obj type_attr (js_str J (type_tag e));
     js_put J obj name_attr (js_str J (if element_name e = [] then ''default'' else element_name e)) }"

definition entry_json :: "('j, 'd) json_ops \<Rightarrow> element \<Rightarrow> 'j" where
  "entry_json J e = the (entry_value J e)"

lemma fabrics_put_entry: "fabrics_to_json J json e = Option.bind (entry_value J e) (js_put J json (entry_key e))"
  by (simp add: fabrics_to_json_def entry_value_def entry_key_def Let_def)

lemma entry_json_saved:
  assumes "json_laws J" "element_ok readable e"
  shows "entry_value J e = Some (entry_json J e)" "entry_saved J readable e (entry_json J e)"
proof -
  let ?name = "if element_name e = [] then ''default'' else element_name e"
  obtain j fs where j: "element_to_json J e = Some j" "js_obj J fs j"
    "\<And>fs' j' t n. js_obj J fs' j' \<Longrightarrow> agree fs fs' \<Longrightarrow> fs' type_attr = Some (js_str J t) \<Longrightarrow> fs' name_attr = Some (js_str J n)
         \<Longrightarrow> element_from_json J readable (type_tag e) j' = Some (base_element e)"
    using element_saved [OF assms] by metis
  obtain j1 where j1: "js_put J j type_attr (js_str J (type_tag e)) = Some j1" "js_obj J (fs(type_attr \<mapsto> js_str J (type_tag e))) j1"
    using js_obj_put [OF assms(1) j(2)] by metis
  obtain v where v: "js_put J j1 name_attr (js_str J ?name) = Some v" "js_obj J (fs(type_attr \<mapsto> js_str J (type_tag e), name_attr \<mapsto> js_str J ?name)) v"
    (is "js_obj J ?fs v")
    using js_obj_put [OF assms(1) j1(2)] by metis
  have f: "?fs type_attr = Some (js_str J (type_tag e))" "?fs name_attr = Some (js_str J ?name)" "agree fs ?fs"
    by (auto simp: type_attr_def name_attr_def agree_def)
  have "entry_value J e = Some v"
    using j(1) j1(1) v(1) by (simp add: entry_value_def)
  moreover have "entry_saved J readable e v"
    unfolding entry_saved_def using v(2) f j(3) [OF v(2) f(3,1,2)] by blast
  ultimately show "entry_value J e = Some (entry_json J e)" "entry_saved J readable e (entry_json J e)"
    by (simp_all add: entry_json_def)
qed

lemma entry_put:
  assumes "json_laws J" "element_ok readable e" "js_obj J fs json"
  shows "\<exists>json'. fabrics_to_json J json e = Some json' \<and> js_obj J (fs(entry_key e \<mapsto> entry_json J e)) json'"
  using js_obj_put [OF assms(1,3), of "entry_key e" "entry_json J e"] entry_json_saved(1) [OF assms(1,2)] by (metis bind.bind_lunit fabrics_put_entry)

lemma elements_saved:
  assumes "json_laws J" "js_obj J fs json" "\<forall>e \<in> set es. element_ok readable e"
  shows "\<exists>json'. save_elements J es json = Some json' \<and> js_obj J (fs ++ map_of (rev (map (\<lambda>e. (entry_key e, entry_json J e)) es))) json'"
  using assms(2,3)
proof (induction es arbitrary: fs json)
  case (Cons e es)
  obtain json1 where j1: "fabrics_to_json J json e = Some json1" "js_obj J (fs(entry_key e \<mapsto> entry_json J e)) json1"
    using entry_put [OF assms(1) _ Cons.prems(1)] Cons.prems(2) by fastforce
  have "fs ++ map_of (rev (map (\<lambda>e. (entry_key e, entry_json J e)) (e # es)))
      = fs(entry_key e \<mapsto> entry_json J e) ++ map_of (rev (map (\<lambda>e. (entry_key e, entry_json J e)) es))"
    by (simp add: map_add_def fun_eq_iff split: option.splits)
  moreover obtain json' where "save_elements J es json1 = Some json'"
    "js_obj J (fs(entry_key e \<mapsto> entry_json J e) ++ map_of (rev (map (\<lambda>e. (entry_key e, entry_json J e)) es))) json'"
    using Cons.IH [OF j1(2)] Cons.prems(2) by (auto simp del: fun_upd_apply)
  moreover have "save_elements J (e # es) json = save_elements J es json1"
    using j1(1) by simp
  ultimately show ?case
    by metis
qed simp

text \<open>Loading goes through the entries; those of the meta information are no elements.\<close>

lemma entry_tags:
  assumes "json_laws J" "entry_saved J readable e v"
  shows "js_index J v type_attr = Some (v, js_str J (type_tag e))" "js_str J (type_tag e) \<noteq> js_null J"
    and "js_index J v name_attr = Some (v, js_str J (if element_name e = [] then ''default'' else element_name e))" "js_str J s \<noteq> js_null J"
proof -
  show "js_str J (type_tag e) \<noteq> js_null J" "js_str J s \<noteq> js_null J"
    using assms(1) unfolding json_laws_def by (metis option.distinct(1))+
  obtain fs where "js_obj J fs v" "fs type_attr = Some (js_str J (type_tag e))"
       "fs name_attr = Some (js_str J (if element_name e = [] then ''default'' else element_name e))"
    using assms(2) by (auto simp: entry_saved_def)
  then show "js_index J v type_attr = Some (v, js_str J (type_tag e))"
    "js_index J v name_attr = Some (v, js_str J (if element_name e = [] then ''default'' else element_name e))"
    using read_field(1) by metis+
qed

lemma entry_parsed:
  assumes "json_laws J" "entry_saved J readable e v" "type_tag e \<noteq> ''meta_info''"
  shows "parse_config J readable blank moved ((entry_key e, v) # es) st
    = parse_config J readable blank moved es (storage_insert (loaded_key e) (loaded_element e) st)"
proof -
  let ?n = "if element_name e = [] then ''default'' else element_name e"
  note t = entry_tags [OF assms(1,2)]
  have "type_tag e \<in> set (registered_strings moved)"
    using assms(3) by (cases e) (simp_all add: registered_strings_def)
  moreover have "js_read J (js_get_str J) v type_attr = Some (type_tag e)"
    using t(1) js_read(1) [OF assms(1)] by (simp add: js_read_def)
  then have "create_from_element J readable blank (type_tag e) key v = Some (set_name key (base_element e))" for key
    using assms(2) type_tag_known [of e] by (simp add: create_from_element_def fabrics_create_def entry_saved_def)
  moreover have "(if entry_key e = type_tag e \<or> js_str J ?n \<noteq> js_null J \<and> js_get_str J (js_str J ?n) = Some ''default'' then [] else entry_key e) = loaded_name e"
    using t(4) [of ?n] js_read(1) [OF assms(1)] by (simp add: entry_key_def loaded_name_def)
  ultimately show ?thesis
    using t(1-3) js_read(1) [OF assms(1)] type_idx [of e]
    by (simp add: Let_def config_holder_key_def loaded_key_def loaded_element_def del: type_tag.simps)
qed

lemma meta_skipped:
  assumes "json_laws J" "entry_saved J readable (E_meta m) v" "moved \<noteq> ''meta_info''"
  shows "parse_config J readable blank moved ((''meta_info'', v) # es) st = parse_config J readable blank moved es st"
  using entry_tags [OF assms(1,2)] js_read(1) [OF assms(1)] assms(3) by (simp add: registered_strings_def)

definition is_meta :: "element \<Rightarrow> bool" where
  "is_meta e \<longleftrightarrow> type_tag e = ''meta_info''"

lemma is_meta_iff: "is_meta e \<longleftrightarrow> (\<exists>m. e = E_meta m)"
  by (cases e) (simp_all add: is_meta_def)

lemma entries_parsed:
  assumes "json_laws J" "moved \<noteq> ''meta_info''" "\<forall>e \<in> set es. element_ok readable e"
  shows "parse_config J readable blank moved (map (\<lambda>e. (entry_key e, entry_json J e)) es) st
    = Some (fold (\<lambda>e. storage_insert (loaded_key e) (loaded_element e)) (filter (\<lambda>e. \<not> is_meta e) es) st)"
  using assms(3)
proof (induction es arbitrary: st)
  case (Cons e es)
  have ok: "entry_saved J readable e (entry_json J e)"
    using entry_json_saved(2) [OF assms(1)] Cons.prems by simp
  show ?case
  proof (cases "is_meta e")
    case True
    then obtain m where "e = E_meta m"
      by (auto simp: is_meta_iff)
    then show ?thesis
      using meta_skipped [OF assms(1) _ assms(2)] ok Cons True by (simp add: entry_key_def del: parse_config.simps)
  next
    case False
    then show ?thesis
      using entry_parsed [OF assms(1) ok] Cons by (simp add: is_meta_def del: parse_config.simps)
  qed
qed simp

lemma meta_found:
  assumes "json_laws J" "\<forall>e \<in> set es. element_ok readable e" "E_meta m \<in> set es" "distinct (map entry_key es)"
  shows "find_meta J (map (\<lambda>e. (entry_key e, entry_json J e)) es) = Some (Some (entry_json J (E_meta m)))"
  using assms(2-4)
proof (induction es)
  case (Cons e es)
  have "entry_saved J readable e (entry_json J e)"
    using entry_json_saved(2) [OF assms(1)] Cons.prems by simp
  note t = entry_tags [OF assms(1) this] js_read(1) [OF assms(1)]
  show ?case
  proof (cases "is_meta e")
    case True
    have "entry_key e = entry_key (E_meta m)"
      using True by (auto simp: is_meta_iff entry_key_def)
    then have "e = E_meta m"
      using Cons.prems(2,3) by (metis (no_types, lifting) distinct.simps(2) image_eqI list.map(2) list.set_map set_ConsD)
    then show ?thesis
      using t by (simp add: entry_key_def)
  next
    case False
    then show ?thesis
      using t Cons by (auto simp: is_meta_def)
  qed
qed simp

lemma inserted_all:
  assumes "distinct (map key es)" "key ` set es \<inter> fst ` set st = {}"
  shows "fold (\<lambda>e. storage_insert (key e) (val e)) es st = st @ map (\<lambda>e. (key e, val e)) es"
  using assms by (induction es arbitrary: st) (auto simp: storage_insert_def)

text \<open>A configuration can be saved so that nothing is lost: no two elements have the same entry or are loaded under the same key.\<close>

definition saveable :: "(int \<Rightarrow> string) \<Rightarrow> configuration \<Rightarrow> bool" where
  "saveable readable c \<longleftrightarrow> (let es = map snd (cf_storage c) in
     (\<forall>e \<in> set es. element_ok readable e \<and> \<not> is_meta e \<and> entry_key e \<noteq> ''meta_info'') \<and> distinct (map entry_key es) \<and> distinct (map loaded_key es)
     \<and> meta_ok readable (cf_meta c))"

lemma entries_elements:
  assumes "json_laws J" "js_obj J (map_of kvs) json" "kvs = map (\<lambda>e. (entry_key e, entry_json J e)) els" "distinct (map entry_key els)"
  obtains es where "js_entries J json = Some (map (\<lambda>e. (entry_key e, entry_json J e)) es)" "set es = set els" "distinct (map entry_key es)"
proof -
  let ?f = "\<lambda>e. (entry_key e, entry_json J e)"
  obtain xs where xs: "js_entries J json = Some xs" "ordered xs" "map_of xs = map_of kvs"
    using assms(2) by (auto simp: js_obj_def)
  have d: "distinct (map fst kvs)"
    using assms(3,4) by (simp add: comp_def)
  have "set xs = set kvs"
    using xs(3) ordered_distinct [OF xs(2)] d by (metis map_of_eqI map_of_inject_set)
  then have sub: "\<forall>x \<in> set xs. \<exists>e \<in> set els. x = ?f e" "\<forall>e \<in> set els. ?f e \<in> set xs"
    using assms(3) by auto
  define es where "es = map (\<lambda>x. SOME e. e \<in> set els \<and> x = ?f e) xs"
  have g: "(SOME e. e \<in> set els \<and> x = ?f e) \<in> set els \<and> x = ?f (SOME e. e \<in> set els \<and> x = ?f e)" if "x \<in> set xs" for x
    using someI_ex [of "\<lambda>e. e \<in> set els \<and> x = ?f e"] sub(1) that by blast
  have xs_es: "xs = map ?f es"
    unfolding es_def using g by (simp add: comp_def map_idI)
  moreover have "distinct (map entry_key es)"
    using ordered_distinct [OF xs(2)] xs_es by (simp add: comp_def)
  moreover have "e \<in> set es" if "e \<in> set els" for e
  proof -
    have "?f e \<in> ?f ` set es"
      using sub(2) that xs_es by simp
    then obtain e' where "e' \<in> set es" "entry_key e' = entry_key e"
      by auto
    moreover have "set es \<subseteq> set els"
      using g by (auto simp: es_def)
    ultimately show ?thesis
      using that assms(4) by (metis distinct_map inj_onD subsetD)
  qed
  moreover have "set es \<subseteq> set els"
    using g by (auto simp: es_def)
  ultimately show thesis
    using that xs(1) by blast
qed

lemma saved_reads:
  assumes "json_laws J" "saveable readable c" "c_long now = Some now" "moved \<noteq> ''meta_info''" "mset (order (cf_storage c)) = mset (cf_storage c)"
  shows "\<exists>json1 json st. fabrics_to_json J (js_null J) (E_meta (meta_touch readable now (cf_meta c))) = Some json1
    \<and> save_elements J (map snd (order (cf_storage c))) json1 = Some json
    \<and> configuration_read J readable blank moved json = Some \<lparr>cf_path = [], cf_meta = meta_touch readable now (cf_meta c), cf_storage = st\<rparr>
    \<and> fst ` set st = loaded_key ` snd ` set (cf_storage c)
    \<and> (\<forall>e \<in> snd ` set (cf_storage c). map_of st (loaded_key e) = Some (loaded_element e))"
proof -
  let ?m = "meta_touch readable now (cf_meta c)" and ?es = "map snd (order (cf_storage c))"
  let ?els = "E_meta ?m # ?es"
  have s: "\<forall>e \<in> snd ` set (cf_storage c). element_ok readable e \<and> \<not> is_meta e \<and> entry_key e \<noteq> ''meta_info''"
    "distinct (map entry_key (map snd (cf_storage c)))" "distinct (map loaded_key (map snd (cf_storage c)))" "meta_ok readable (cf_meta c)"
    using assms(2) by (simp_all add: saveable_def Let_def)
  have "mset (map entry_key ?es) = mset (map entry_key (map snd (cf_storage c)))"
    using assms(5) by simp
  then have perm: "set ?es = snd ` set (cf_storage c)" "distinct (map entry_key ?es)"
    using mset_eq_setD [OF assms(5)] s(2) mset_eq_imp_distinct_iff by (simp, blast)
  have ok: "\<forall>e \<in> set ?els. element_ok readable e"
    using s(1,4) perm(1) meta_ok_touch [OF s(4) assms(3)] by auto
  have "''meta_info'' \<notin> entry_key ` snd ` set (cf_storage c)"
  proof
    assume "''meta_info'' \<in> entry_key ` snd ` set (cf_storage c)"
    then obtain e where "''meta_info'' = entry_key e" "e \<in> snd ` set (cf_storage c)"
      by (rule imageE)
    then show False
      using s(1) [THEN bspec, of e] by simp
  qed
  then have "''meta_info'' \<notin> set (map entry_key ?es)"
    by (simp only: set_map [of entry_key] perm(1)) simp
  moreover have "entry_key (E_meta ?m) = ''meta_info''"
    by (simp add: entry_key_def)
  ultimately have dist: "distinct (map entry_key ?els)"
    using perm(2) by (simp only: list.map distinct.simps simp_thms)
  obtain json1 where j1: "fabrics_to_json J (js_null J) (E_meta ?m) = Some json1" "js_obj J [entry_key (E_meta ?m) \<mapsto> entry_json J (E_meta ?m)] json1"
    using entry_put [OF assms(1) _ js_obj_null [OF assms(1)], of readable "E_meta ?m"] ok by auto
  obtain json where j: "save_elements J ?es json1 = Some json"
    "js_obj J ([entry_key (E_meta ?m) \<mapsto> entry_json J (E_meta ?m)] ++ map_of (rev (map (\<lambda>e. (entry_key e, entry_json J e)) ?es))) json"
    using elements_saved [OF assms(1) j1(2), of ?es readable] ok by auto
  have "[entry_key (E_meta ?m) \<mapsto> entry_json J (E_meta ?m)] ++ map_of (rev (map (\<lambda>e. (entry_key e, entry_json J e)) ?es))
      = map_of (map (\<lambda>e. (entry_key e, entry_json J e)) (rev ?els))"
    by (simp add: rev_map)
  with j(2) have obj: "js_obj J (map_of (map (\<lambda>e. (entry_key e, entry_json J e)) (rev ?els))) json"
    by simp
  have "distinct (map entry_key (rev ?els))"
    using dist by (metis distinct_rev rev_map)
  then obtain es where es: "js_entries J json = Some (map (\<lambda>e. (entry_key e, entry_json J e)) es)" "set es = set ?els" "distinct (map entry_key es)"
    using entries_elements [OF assms(1) obj refl] by (metis set_rev)
  have okes: "\<forall>e \<in> set es. element_ok readable e"
    using ok es(2) by simp
  have meta: "meta_from_json J readable (entry_json J (E_meta ?m)) = Some ?m"
    using entry_json_saved(2) [OF assms(1), of readable "E_meta ?m"] ok by (simp add: entry_saved_def element_from_json_def)
  let ?rest = "filter (\<lambda>e. \<not> is_meta e) es"
  have rest: "set ?rest = snd ` set (cf_storage c)"
    using es(2) perm(1) s(1) by (auto simp: is_meta_def)
  have "inj_on loaded_key (snd ` set (cf_storage c))"
    using s(3) by (metis distinct_map list.set_map)
  moreover have "distinct ?rest"
    using es(3) by (simp add: distinct_map)
  ultimately have keys: "distinct (map loaded_key ?rest)"
    using rest by (simp add: distinct_map)
  then have st: "parse_config J readable blank moved (map (\<lambda>e. (entry_key e, entry_json J e)) es) [] = Some (map (\<lambda>e. (loaded_key e, loaded_element e)) ?rest)"
    using entries_parsed [OF assms(1,4) okes, of blank "[]"] inserted_all [of loaded_key ?rest "[]" loaded_element] by simp
  let ?d = "\<lparr>cf_path = [], cf_meta = ?m, cf_storage = map (\<lambda>e. (loaded_key e, loaded_element e)) ?rest\<rparr>"
  have "configuration_read J readable blank moved json = Some ?d"
    using es(1) meta_found [OF assms(1) okes _ es(3), of ?m] es(2) meta st by (simp add: configuration_read_def)
  moreover have "fst ` set (cf_storage ?d) = loaded_key ` snd ` set (cf_storage c)"
    using rest by (simp add: image_image)
  moreover have "map_of (cf_storage ?d) (loaded_key e) = Some (loaded_element e)" if "e \<in> snd ` set (cf_storage c)" for e
    using that rest keys by (intro map_of_is_SomeI) (auto simp: comp_def)
  ultimately show ?thesis
    using j1(1) j(1) by (intro exI [of _ json1] exI [of _ json] exI [of _ "cf_storage ?d"]) simp
qed


definition demo_configuration :: configuration where
  "demo_configuration = \<lparr>cf_path = [], cf_meta = meta_new (\<lambda>_. ''t'') 5, cf_storage =
     [((3, []), E_camera default_camera), ((1, []), E_server (default_settings\<lparr>ss_port := 123\<rparr>)), ((2, ''line''), E_pipe (demo_pipe\<lparr>pp_name := ''line''\<rparr>))]\<rparr>"

lemma demo_nodes: "pipe_ok (demo_pipe\<lparr>pp_name := n\<rparr>)" "sort_key nc_id (pp_nodes demo_pipe) = rev (pp_nodes demo_pipe)"
  by (simp_all add: pipe_ok_def demo_pipe_def node_ok_def node_new_def c_int_def)

lemma demo_saveable: "saveable (\<lambda>_. ''t'') demo_configuration"
proof -
  have "ids_checked (rev (pp_nodes demo_pipe))" "type_attr \<notin> nc_name ` set (pp_nodes demo_pipe)" "name_attr \<notin> nc_name ` set (pp_nodes demo_pipe)"
    by (simp_all add: demo_pipe_def node_new_def ids_checked_def type_attr_def name_attr_def)
  then have "element_ok (\<lambda>_. ''t'') (E_pipe (demo_pipe\<lparr>pp_name := ''line''\<rparr>))"
    using demo_nodes by simp
  then show ?thesis
    by (simp add: saveable_def demo_configuration_def is_meta_def entry_key_def loaded_key_def loaded_name_def config_types_def meta_ok_new c_long_def default_settings_def
        del: element_ok.simps(3))
qed


subsection \<open>The default configuration\<close>

definition default_nodes :: "node_config list" where
  "default_nodes = [\<lparr>nc_id = 0, nc_path = [], nc_params = [], nc_type = FIRST, nc_next = 1, nc_name = ''first''\<rparr>,
     \<lparr>nc_id = 1, nc_path = [], nc_params = [], nc_type = LAST, nc_next = - 1, nc_name = ''last''\<rparr>]"

lemma default_pipe_is: "default_pipe = Some \<lparr>pp_nodes = default_nodes, pp_name = ''default''\<rparr>"
  by (simp add: default_pipe_def add_node_def empty_pipe_def default_nodes_def)

text \<open>What is saved by default is loaded: the C interface gives the default settings. A second call gives NULL, because a configuration is current.\<close>

lemma default_config_loaded:
  assumes "json_laws J" "c_long created = Some created" "c_long now = Some now" "path \<noteq> []" "moved \<noteq> ''meta_info''" "\<And>st. mset (order st) = mset st"
  shows "\<exists>files' d. save_default_config J readable created now order True (Some path) files = Some files'
    \<and> load_server_settings J readable blank moved files' (Some path) None = (Some default_settings, Some d)"
proof -
  let ?c = "\<lparr>cf_path = [], cf_meta = meta_new readable created,
      cf_storage = [((1, []), E_server default_settings), ((2, []), E_pipe \<lparr>pp_nodes = default_nodes, pp_name = ''default''\<rparr>)]\<rparr>"
  have c: "configuration_of readable created [E_server default_settings, E_pipe \<lparr>pp_nodes = default_nodes, pp_name = ''default''\<rparr>] = Some ?c"
    by (simp add: configuration_of_def config_holder_key_def config_types_def storage_insert_def)
  have "element_ok readable (E_pipe \<lparr>pp_nodes = default_nodes, pp_name = ''default''\<rparr>)"
    by (simp add: pipe_ok_def default_nodes_def node_ok_def c_int_def ids_checked_def type_attr_def name_attr_def)
  then have "saveable readable ?c"
    using meta_ok_new [OF assms(2)]
    by (simp add: saveable_def is_meta_def entry_key_def loaded_key_def loaded_name_def config_types_def default_settings_def del: element_ok.simps(3))
  from saved_reads [where order = order and blank = blank, OF assms(1) this assms(3,5,6)] obtain json1 json st where
    r: "fabrics_to_json J (js_null J) (E_meta (meta_touch readable now (cf_meta ?c))) = Some json1" "save_elements J (map snd (order (cf_storage ?c))) json1 = Some json"
      "configuration_read J readable blank moved json = Some \<lparr>cf_path = [], cf_meta = meta_touch readable now (cf_meta ?c), cf_storage = st\<rparr>"
      "\<forall>e \<in> snd ` set (cf_storage ?c). map_of st (loaded_key e) = Some (loaded_element e)"
    by (elim exE conjE)
  have "map_of st (loaded_key (E_server default_settings)) = Some (loaded_element (E_server default_settings))"
    using r(4) by simp
  then have "map_of st (1, []) = Some (E_server default_settings)"
    by (simp add: config_types_def loaded_key_def loaded_name_def loaded_element_def)
  then have "get_server_settings (Some \<lparr>cf_path = [], cf_meta = meta_touch readable now (cf_meta ?c), cf_storage = st\<rparr>) = Some (replicate_settings default_settings)"
    by (simp add: get_server_settings_def get_by_tag_def config_holder_key_def config_types_def)
  moreover have "replicate_settings default_settings = default_settings"
    by (simp add: replicate_settings_def default_settings_def until_NUL_def NUL_def)
  moreover have "config_save J readable now order True path ?c files = Some (?c\<lparr>cf_meta := meta_touch readable now (cf_meta ?c)\<rparr>, files(path \<mapsto> Some json))"
    using assms(4) r(1,2) by (simp add: config_save_def Let_def)
  then have "save_default_config J readable created now order True (Some path) files = Some (files(path \<mapsto> Some json))"
    unfolding save_default_config_def default_pipe_is bind.bind_lunit c by simp
  ultimately show ?thesis
    using r(3) by (auto simp: load_server_settings_def config_load_def)
qed

lemma save_default_other:
  "save_default_config J readable created now order w (Some path) files = Some files' \<Longrightarrow> \<forall>p. p \<noteq> path \<longrightarrow> files' p = files p"
  by (auto simp: save_default_config_def config_save_def configuration_of_def Let_def split: Option.bind_splits if_splits)

lemma second_load_fails: "load_server_settings J readable blank moved files (Some path) (Some c) = (None, Some c)"
  by (simp add: load_server_settings_def config_load_def)

text \<open>The path of the file is never stored, so saving needs one.\<close>

lemma loaded_without_path: "config_load J readable blank moved files path None = (Inr c, cur) \<Longrightarrow> config_save J readable' now order w [] c files' = None"
  by (auto simp: config_load_def config_save_def configuration_read_def Let_def split: option.splits Option.bind_splits)

end
