(* ===== verification/Server_Start.thy ===== *)
theory Server_Start imports Tmk_Server Configuration begin

section \<open>The program started with a configuration file (dclcomponents: server.c; libcommon: configuration_c.cpp)\<close>

text \<open>
  Here the command line of \<open>Tmk_Server\<close> meets the configuration library. A start of \<open>main\<close> is the port its server listens on, or \<open>None\<close>
  when it ends with its usage, together with the files it leaves. \<open>pSettings->port\<close> is unsigned and printed with \<open>%d\<close>.
\<close>

definition file_port :: "('j, 'd) json_ops \<Rightarrow> (int \<Rightarrow> string) \<Rightarrow> (string \<Rightarrow> element) \<Rightarrow> string \<Rightarrow> 'j files \<Rightarrow> string \<Rightarrow> int option" where
  "file_port J readable blank moved files path = map_option (\<lambda>s. sint (ss_port s)) (fst (load_server_settings J readable blank moved files (Some path) None))"

text \<open>An exception of \<open>saveDefaultConfig\<close> ends the program: the outer \<open>None\<close>.\<close>

fun save_defaults :: "('j, 'd) json_ops \<Rightarrow> (int \<Rightarrow> string) \<Rightarrow> int \<Rightarrow> int \<Rightarrow> ((config_key \<times> element) list \<Rightarrow> (config_key \<times> element) list) \<Rightarrow> bool \<Rightarrow>
    string list \<Rightarrow> 'j files \<Rightarrow> 'j files option" where
  "save_defaults J readable created now order writable [] files = Some files"
| "save_defaults J readable created now order writable (path # paths) files =
     Option.bind (save_default_config J readable created now order writable (Some path) files) (save_defaults J readable created now order writable paths)"

definition server_start :: "('j, 'd) json_ops \<Rightarrow> (int \<Rightarrow> string) \<Rightarrow> (string \<Rightarrow> element) \<Rightarrow> string \<Rightarrow> int \<Rightarrow> int \<Rightarrow>
    ((config_key \<times> element) list \<Rightarrow> (config_key \<times> element) list) \<Rightarrow> bool \<Rightarrow> string list \<Rightarrow> 'j files \<Rightarrow> (string option \<times> 'j files) option" where
  "server_start J readable blank moved created now order writable argv files =
     (let (port, missing) = server_port (file_port J readable blank moved files) argv
      in map_option (Pair port) (save_defaults J readable created now order writable missing files))"

lemma started_from_file:
  "str_case_eq c ''--config'' \<Longrightarrow> server_port settings [prog, c, path] = (case settings path of None \<Rightarrow> (None, [path]) | Some p \<Rightarrow> (Some (take 6 (show_int p)), []))"
  by (simp add: server_port_def)

lemma default_port: "take 6 (show_int (sint (4444 :: u32))) = ''4444''"
  by code_simp

lemma no_file_no_port: "files path = None \<Longrightarrow> file_port J readable blank moved files path = None"
  by (simp add: file_port_def load_server_settings_def config_load_def)

text \<open>Claim C38. A program that is started with the path of a missing configuration file does not listen: it writes a default
  configuration and ends. Started again with the same path it reads what it wrote, whatever the order in which the elements were saved, and
  listens on the default port, and it leaves the files as they are.\<close>

theorem second_start_listens:
  assumes "json_laws J" "c_long created = Some created" "c_long now = Some now" "path \<noteq> []" "moved \<noteq> ''meta_info''" "\<And>st. mset (order st) = mset st"
    and "str_case_eq c ''--config''" "files path = None"
  shows "\<exists>files'. server_start J readable blank moved created now order True [prog, c, path] files = Some (None, files')
    \<and> (\<forall>p. p \<noteq> path \<longrightarrow> files' p = files p)
    \<and> server_start J readable blank moved created' now' order' w [prog, c, path] files' = Some (Some ''4444'', files')"
proof -
  obtain files' d where s: "save_default_config J readable created now order True (Some path) files = Some files'"
    "load_server_settings J readable blank moved files' (Some path) None = (Some default_settings, Some d)"
    using default_config_loaded [where order = order and files = files and blank = blank and readable = readable, OF assms(1-6)] by (elim exE conjE)
  have "file_port J readable blank moved files' path = Some (sint (4444 :: u32))"
    using s(2) by (simp add: file_port_def default_settings_def)
  then have "server_start J readable blank moved created' now' order' w [prog, c, path] files' = Some (Some ''4444'', files')"
    using default_port by (simp add: server_start_def started_from_file [OF assms(7)] del: sint_numeral)
  moreover have "server_start J readable blank moved created now order True [prog, c, path] files = Some (None, files')"
    using s(1) by (simp add: server_start_def started_from_file [OF assms(7)] assms(8) no_file_no_port)
  ultimately show ?thesis
    using save_default_other [OF s(1)] by blast
qed

theorem second_start_listens_witness:
  "\<exists>files'. server_start tree_json (\<lambda>_. ''t'') (\<lambda>_. E_camera default_camera) [] 5 9 rev True [''server'', ''--Config'', ''f''] (\<lambda>_. None) = Some (None, files')
    \<and> server_start tree_json (\<lambda>_. ''t'') (\<lambda>_. E_camera default_camera) [] 6 6 id False [''server'', ''--Config'', ''f''] files' = Some (Some ''4444'', files')"
proof -
  have h: "c_long 5 = Some 5" "c_long 9 = Some 9" "''f'' \<noteq> []" "[] \<noteq> ''meta_info''" "\<And>st. mset (rev st) = mset (st :: (config_key \<times> element) list)"
    by (simp_all add: c_long_def)
  have "str_case_eq ''--Config'' ''--config''"
    by code_simp
  from second_start_listens [where order = rev and files = "\<lambda>_. None", OF tree_json_laws h this refl] show ?thesis
    by blast
qed

end
