(* ===== verification/Storage_Json.thy ===== *)
theory Storage_Json imports Storage Json_Library begin

section \<open>Objects as JSON (IObject.h, Frame.cpp, Frameset.cpp, ObjectDescriptor.cpp)\<close>

text \<open>
  An object is saved as a JSON value with its framesets and their frames, except those that are not to be saved, and loaded from it. Time is written as text by \<open>text_of\<close>, the conversion of the C library. What \<open>mktime\<close> makes of the structure that is never filled is \<open>ld_time\<close>.
\<close>

text \<open>The loops that save and that load the elements of a container: each value to load has a name, under which \<open>step\<close> loads it.\<close>

fun push_all :: "('j, 'd) json_ops \<Rightarrow> string \<Rightarrow> ('a \<Rightarrow> 'j option) \<Rightarrow> 'a list \<Rightarrow> 'j \<Rightarrow> 'j option" where
  "push_all J key to_json [] r = Some r"
| "push_all J key to_json (x # xs) r = do { y \<leftarrow> to_json x; r \<leftarrow> push_field J r key y; push_all J key to_json xs r }"

fun load_all :: "('j, 'd) json_ops \<Rightarrow> (string \<Rightarrow> 'j \<Rightarrow> 's \<Rightarrow> 's option) \<Rightarrow> 'j list \<Rightarrow> 's \<Rightarrow> 's option" where
  "load_all J step [] s = Some s"
| "load_all J step (j # js) s = do {
     n \<leftarrow> js_at J j ''name'';
     name \<leftarrow> js_get_str J n;
     s \<leftarrow> step (until_NUL name) j s;
     load_all J step js s }"

subsection \<open>The common part (IObject.h)\<close>

fun storage_int :: "storage_type \<Rightarrow> int" where
  "storage_int NO_SAVE = 0"
| "storage_int SHORT_TERM = 1"
| "storage_int LONG_TERM = 2"
| "storage_int (Unnamed_Storage i) = i"

definition storage_of_int :: "int \<Rightarrow> storage_type" where
  "storage_of_int i = (if i = 0 then NO_SAVE else if i = 1 then SHORT_TERM else if i = 2 then LONG_TERM else Unnamed_Storage i)"

type_synonym header = "string \<times> u64 \<times> storage_type"

definition iobject_to_json :: "('j, 'd) json_ops \<Rightarrow> header \<Rightarrow> 'j option" where
  "iobject_to_json J = (\<lambda>(name, id, st). do {
     ret \<leftarrow> js_put J (js_null J) ''id'' (js_u64 J id);
     ret \<leftarrow> js_put J ret ''name'' (js_str J name);
     js_put J ret ''storage_type'' (js_int J (storage_int st)) })"

definition iobject_from_json :: "('j, 'd) json_ops \<Rightarrow> 'j \<Rightarrow> header \<Rightarrow> header option" where
  "iobject_from_json J obj h =
     (if \<not> js_contains J obj ''id'' \<or> \<not> js_contains J obj ''name'' \<or> \<not> js_contains J obj ''storage_type'' then Some h
      else do {
        n \<leftarrow> js_at J obj ''name'';
        name \<leftarrow> js_get_str J n;
        i \<leftarrow> js_at J obj ''id'';
        id \<leftarrow> js_get_u64 J i;
        s \<leftarrow> js_at J obj ''storage_type'';
        st \<leftarrow> js_get_int J s;
        Some (object_id (until_NUL name), id, storage_of_int st) })"

subsection \<open>Frames (Frame.cpp)\<close>

definition frame_header :: "frame \<Rightarrow> header" where
  "frame_header f = (fr_name f, fr_id f, fr_storage f)"

definition set_frame_header :: "header \<Rightarrow> frame \<Rightarrow> frame" where
  "set_frame_header = (\<lambda>(n, i, s) f. f\<lparr>fr_name := n, fr_id := i, fr_storage := s\<rparr>)"

definition frame_to_json_db :: "('j, 'd) json_ops \<Rightarrow> (int \<Rightarrow> string) \<Rightarrow> u64 \<Rightarrow> frame \<Rightarrow> 'j option" where
  "frame_to_json_db J text_of parent_id f = do {
     ret \<leftarrow> iobject_to_json J (frame_header f);
     ret \<leftarrow> js_put J ret ''datetime'' (js_str J (text_of (fr_time f)));
     ret \<leftarrow> js_put J ret ''sequence'' (js_int J (fr_sequence f));
     ret \<leftarrow> js_put J ret ''source'' (js_int J (fr_source f));
     if parent_id \<noteq> IMPOSSIBLE_ID then js_put J ret ''frameset_id'' (js_u64 J parent_id) else Some ret }"

text \<open>The text of the time is read and not used.\<close>

definition frame_from_json_db :: "('j, 'd) json_ops \<Rightarrow> int \<Rightarrow> 'j \<Rightarrow> frame \<Rightarrow> frame option" where
  "frame_from_json_db J time j f = do {
     h \<leftarrow> iobject_from_json J j (frame_header f);
     let f = set_frame_header h f;
     if \<not> js_contains J j ''datetime'' \<or> \<not> js_contains J j ''sequence'' \<or> \<not> js_contains J j ''source'' then Some f
     else do {
       d \<leftarrow> js_at J j ''datetime'';
       _ \<leftarrow> js_get_str J d;
       q \<leftarrow> js_at J j ''sequence'';
       sequence \<leftarrow> js_get_int J q;
       src \<leftarrow> js_at J j ''source'';
       source \<leftarrow> js_get_int J src;
       Some (f\<lparr>fr_time := time, fr_sequence := sequence, fr_source := source\<rparr>) } }"

definition frame_to_json :: "('j, 'd) json_ops \<Rightarrow> (int \<Rightarrow> string) \<Rightarrow> frame \<Rightarrow> 'j option" where
  "frame_to_json J text_of = frame_to_json_db J text_of IMPOSSIBLE_ID"

subsection \<open>Framesets (Frameset.cpp)\<close>

text \<open>What the system does while frames are loaded: for a new frame of this name, whether there is memory, what it holds before, and the time.\<close>

record loading =
  ld_ok :: "string \<Rightarrow> bool"
  ld_junk :: "string \<Rightarrow> frame"
  ld_time :: "string \<Rightarrow> int"

definition frameset_header :: "frameset \<Rightarrow> header" where
  "frameset_header fs = (fs_name fs, fs_id fs, fs_storage fs)"

definition set_frameset_header :: "header \<Rightarrow> frameset \<Rightarrow> frameset" where
  "set_frameset_header = (\<lambda>(n, i, s) fs. fs\<lparr>fs_name := n, fs_id := i, fs_storage := s\<rparr>)"

definition frameset_to_json_db :: "('j, 'd) json_ops \<Rightarrow> u64 \<Rightarrow> frameset \<Rightarrow> 'j option" where
  "frameset_to_json_db J parent_id fs = do {
     ret \<leftarrow> iobject_to_json J (frameset_header fs);
     js_put J ret ''object_id'' (js_u64 J parent_id) }"

definition frameset_from_json_db :: "('j, 'd) json_ops \<Rightarrow> 'j \<Rightarrow> frameset \<Rightarrow> frameset option" where
  "frameset_from_json_db J j fs = Option.bind (iobject_from_json J j (frameset_header fs)) (\<lambda>h. Some (set_frameset_header h fs))"

definition saved_frames :: "frameset \<Rightarrow> (string \<times> frame) list" where
  "saved_frames fs = filter (\<lambda>(_, f). fr_storage f \<noteq> NO_SAVE) (fs_frames fs)"

definition frameset_to_json :: "('j, 'd) json_ops \<Rightarrow> (int \<Rightarrow> string) \<Rightarrow> frameset \<Rightarrow> 'j option" where
  "frameset_to_json J text_of fs = do {
     ret \<leftarrow> iobject_to_json J (frameset_header fs);
     ret \<leftarrow> js_put J ret ''frames'' (js_array J);
     push_all J ''frames'' (\<lambda>(_, f). frame_to_json J text_of f) (saved_frames fs) ret }"

definition load_frame :: "('j, 'd) json_ops \<Rightarrow> loading \<Rightarrow> string \<Rightarrow> 'j \<Rightarrow> frameset \<Rightarrow> frameset option" where
  "load_frame J ld name j fs = (let (r, fs) = add_frame_to (ld_ok ld name) name (frame_short (ld_junk ld name) name NO_SAVE) fs in do {
     key \<leftarrow> r;
     f \<leftarrow> frame_of key fs;
     f \<leftarrow> frame_from_json_db J (ld_time ld name) j f;
     Some (fs\<lparr>fs_frames := map_update key (\<lambda>_. f) (fs_frames fs)\<rparr>) })"

definition frameset_from_json :: "('j, 'd) json_ops \<Rightarrow> loading \<Rightarrow> 'j \<Rightarrow> frameset \<Rightarrow> frameset option" where
  "frameset_from_json J ld j fs = do {
     h \<leftarrow> iobject_from_json J j (frameset_header fs);
     let fs = set_frameset_header h fs;
     if \<not> js_contains J j ''frames'' then Some fs
     else do {
       a \<leftarrow> js_at J j ''frames'';
       load_all J (load_frame J ld) (js_items J a) fs } }"

subsection \<open>Objects (ObjectDescriptor.cpp)\<close>

definition object_header :: "object_descriptor \<Rightarrow> header" where
  "object_header d = (od_name d, od_id d, od_storage d)"

definition set_object_header :: "header \<Rightarrow> object_descriptor \<Rightarrow> object_descriptor" where
  "set_object_header = (\<lambda>(n, i, s) d. d\<lparr>od_name := n, od_id := i, od_storage := s\<rparr>)"

definition saved_framesets :: "object_descriptor \<Rightarrow> (string \<times> frameset) list" where
  "saved_framesets d = filter (\<lambda>(_, fs). fs_storage fs \<noteq> NO_SAVE) (od_framesets d)"

definition object_to_json :: "('j, 'd) json_ops \<Rightarrow> (int \<Rightarrow> string) \<Rightarrow> object_descriptor \<Rightarrow> 'j option" where
  "object_to_json J text_of d = do {
     ret \<leftarrow> iobject_to_json J (object_header d);
     ret \<leftarrow> js_put J ret ''framesets'' (js_array J);
     push_all J ''framesets'' (\<lambda>(_, fs). frameset_to_json J text_of fs) (saved_framesets d) ret }"

text \<open>For a new frameset: whether there is memory, the storage type that happens to be there, and the loading of its frames.\<close>

definition load_frameset :: "('j, 'd) json_ops \<Rightarrow> (string \<Rightarrow> bool \<times> storage_type \<times> loading) \<Rightarrow> string \<Rightarrow> 'j \<Rightarrow> object_descriptor \<Rightarrow>
    object_descriptor option" where
  "load_frameset J sys name j d = (let (ok, junk, ld) = sys name; (r, d) = add_frameset ok junk name NO_SAVE d in do {
     key \<leftarrow> r;
     fs \<leftarrow> frameset_of key d;
     fs \<leftarrow> frameset_from_json J ld j fs;
     Some (d\<lparr>od_framesets := map_update key (\<lambda>_. fs) (od_framesets d)\<rparr>) })"

definition object_from_json :: "('j, 'd) json_ops \<Rightarrow> (string \<Rightarrow> bool \<times> storage_type \<times> loading) \<Rightarrow> 'j \<Rightarrow> object_descriptor \<Rightarrow>
    object_descriptor option" where
  "object_from_json J sys j d = do {
     h \<leftarrow> iobject_from_json J j (object_header d);
     let d = set_object_header h d;
     if \<not> js_contains J j ''framesets'' then Some d
     else do {
       a \<leftarrow> js_at J j ''framesets'';
       load_all J (load_frameset J sys) (js_items J a) d } }"

subsection \<open>The loops\<close>

definition named :: "('j, 'd) json_ops \<Rightarrow> string \<Rightarrow> 'j \<Rightarrow> bool" where
  "named J n j \<longleftrightarrow> (\<exists>v. js_at J j ''name'' = Some v \<and> js_get_str J v = Some n)"

lemma push_all_saved:
  assumes "json_laws J" "\<forall>x \<in> set xs. \<exists>y. to_json x = Some y \<and> P x y" "js_obj J fs r" "fs key = Some a" "js_is_array J a"
  shows "\<exists>r' a' ys. push_all J key to_json xs r = Some r' \<and> js_obj J (fs(key \<mapsto> a')) r' \<and> js_items J a' = js_items J a @ ys \<and> list_all2 P xs ys"
  using assms(2-5)
proof (induction xs arbitrary: r fs a)
  case Nil
  then show ?case
    by (intro exI [of _ r] exI [of _ a] exI [of _ "[]"]) (simp add: fun_upd_idem)
next
  case (Cons x xs)
  obtain y where y: "to_json x = Some y" "P x y"
    using Cons.prems(1) by auto
  have "\<exists>a1. js_push J a y = Some a1 \<and> js_is_array J a1 \<and> js_items J a1 = js_items J a @ [y]"
    using assms(1) Cons.prems(4) by (simp add: json_laws_def)
  then obtain a1 where a1: "js_push J a y = Some a1" "js_is_array J a1" "js_items J a1 = js_items J a @ [y]"
    by blast
  obtain r1 where r1: "js_put J r key a1 = Some r1" "js_obj J (fs(key \<mapsto> a1)) r1"
    using js_obj_put [OF assms(1) Cons.prems(2)] by blast
  obtain r' a' ys where rest: "push_all J key to_json xs r1 = Some r'" "js_obj J (fs(key \<mapsto> a')) r'"
    "js_items J a' = js_items J a1 @ ys" "list_all2 P xs ys"
    using Cons.IH [OF _ r1(2) fun_upd_same a1(2)] Cons.prems(1) unfolding fun_upd_upd by (auto simp del: fun_upd_apply)
  have "push_all J key to_json (x # xs) r = Some r'"
    using y(1) js_obj_field [OF Cons.prems(2,3)] a1(1) r1(1) rest(1) by (simp add: push_field_def)
  then show ?case
    using rest(2-4) y(2) a1(3)
    by - (rule exI [of _ r'], rule exI [of _ a'], rule exI [of _ "y # ys"], simp del: fun_upd_apply push_all.simps)
qed

text \<open>\<open>st\<close> is the state after the elements loaded so far.\<close>

lemma load_all_runs:
  assumes "list_all2 P zs ys" "\<And>x y. P x y \<Longrightarrow> named J (name_of x) y" "\<forall>z \<in> set zs. NUL \<notin> set (name_of z)"
    and "\<And>pre z post y. zs = pre @ z # post \<Longrightarrow> P z y \<Longrightarrow> step (name_of z) y (st pre) = Some (st (pre @ [z]))"
  shows "load_all J step ys (st []) = Some (st zs)"
proof -
  have "zs = pre @ post \<Longrightarrow> list_all2 P post ys' \<Longrightarrow> load_all J step ys' (st pre) = Some (st zs)" for pre post ys'
  proof (induction post arbitrary: pre ys')
    case (Cons z post)
    then obtain y ys1 where y: "ys' = y # ys1" "P z y" "list_all2 P post ys1"
      by (auto simp: list_all2_Cons1)
    obtain v where "js_at J y ''name'' = Some v" "js_get_str J v = Some (name_of z)"
      using assms(2) [OF y(2)] by (auto simp: named_def)
    moreover have "until_NUL (name_of z) = name_of z"
      using assms(3) Cons.prems(1) by (intro until_NUL_id) simp
    ultimately show ?case
      using Cons.IH [of "pre @ [z]" ys1] Cons.prems(1) y assms(4) [OF Cons.prems(1) y(2)] by simp
  qed simp
  from this [of "[]" zs ys] show ?thesis
    using assms(1) by simp
qed

subsection \<open>What is saved is loaded\<close>

fun valid_header :: "header \<Rightarrow> bool" where
  "valid_header (n, i, s) \<longleftrightarrow> length n \<le> MAX_NAME_LENGTH \<and> NUL \<notin> set n \<and> c_int (storage_int s) = Some (storage_int s) \<and> storage_of_int (storage_int s) = s"

fun header_fields :: "('j, 'd) json_ops \<Rightarrow> header \<Rightarrow> string \<Rightarrow> 'j option" where
  "header_fields J (n, i, s) = [''id'' \<mapsto> js_u64 J i, ''name'' \<mapsto> js_str J n, ''storage_type'' \<mapsto> js_int J (storage_int s)]"

lemma iobject_saved:
  assumes "json_laws J"
  obtains j where "iobject_to_json J h = Some j" "js_obj J (header_fields J h) j"
proof -
  obtain n i s where h: "h = (n, i, s)"
    by (cases h)
  obtain j1 where j1: "js_put J (js_null J) ''id'' (js_u64 J i) = Some j1" "js_obj J [''id'' \<mapsto> js_u64 J i] j1"
    using js_obj_put [OF assms js_obj_null [OF assms]] by blast
  obtain j2 where j2: "js_put J j1 ''name'' (js_str J n) = Some j2" "js_obj J [''id'' \<mapsto> js_u64 J i, ''name'' \<mapsto> js_str J n] j2"
    using js_obj_put [OF assms j1(2)] by blast
  obtain j3 where "js_put J j2 ''storage_type'' (js_int J (storage_int s)) = Some j3" "js_obj J (header_fields J h) j3"
    using js_obj_put [OF assms j2(2)] h by (metis header_fields.simps)
  then show thesis
    using that j1(1) j2(1) h by (simp add: iobject_to_json_def)
qed

text \<open>Further fields do not disturb the header.\<close>

lemma iobject_loaded:
  assumes "json_laws J" "js_obj J fs j" "\<forall>k \<in> {''id'', ''name'', ''storage_type''}. fs k = header_fields J h k" "valid_header h"
  shows "iobject_from_json J j h' = Some h" "named J (fst h) j"
proof -
  obtain n i s where h: "h = (n, i, s)"
    by (cases h)
  have "fs ''id'' = Some (js_u64 J i)" "fs ''name'' = Some (js_str J n)" "fs ''storage_type'' = Some (js_int J (storage_int s))"
    using assms(3) h by simp_all
  note f = this [THEN js_obj_field [OF assms(2)]]
  show "iobject_from_json J j h' = Some h"
    using f assms(1,4) h by (simp add: iobject_from_json_def js_read until_NUL_id object_id_def)
  show "named J (fst h) j"
    using f assms(1) h by (simp add: named_def js_read)
qed

definition frame_ok :: "frame \<Rightarrow> bool" where
  "frame_ok f \<longleftrightarrow> valid_header (frame_header f) \<and> c_int (fr_sequence f) = Some (fr_sequence f) \<and> c_int (fr_source f) = Some (fr_source f)"

definition loaded_frame :: "int \<Rightarrow> frame \<Rightarrow> frame \<Rightarrow> frame" where
  "loaded_frame time f f0 = (set_frame_header (frame_header f) f0)\<lparr>fr_time := time, fr_sequence := fr_sequence f, fr_source := fr_source f\<rparr>"

definition frame_saved_as :: "('j, 'd) json_ops \<Rightarrow> frame \<Rightarrow> 'j \<Rightarrow> bool" where
  "frame_saved_as J f j \<longleftrightarrow> named J (fr_name f) j \<and> (\<forall>time f0. frame_from_json_db J time j f0 = Some (loaded_frame time f f0))"

lemma frame_saved:
  assumes "json_laws J" "frame_ok f"
  shows "\<exists>j. frame_to_json J text_of f = Some j \<and> frame_saved_as J f j"
proof -
  let ?f = "header_fields J (frame_header f)"
  obtain j where j: "iobject_to_json J (frame_header f) = Some j" "js_obj J ?f j"
    using iobject_saved [OF assms(1)] .
  obtain j1 where j1: "js_put J j ''datetime'' (js_str J (text_of (fr_time f))) = Some j1" "js_obj J (?f(''datetime'' \<mapsto> js_str J (text_of (fr_time f)))) j1"
    using js_obj_put [OF assms(1) j(2)] .
  obtain j2 where j2: "js_put J j1 ''sequence'' (js_int J (fr_sequence f)) = Some j2"
    "js_obj J (?f(''datetime'' \<mapsto> js_str J (text_of (fr_time f)), ''sequence'' \<mapsto> js_int J (fr_sequence f))) j2"
    using js_obj_put [OF assms(1) j1(2)] .
  obtain j3 where j3: "js_put J j2 ''source'' (js_int J (fr_source f)) = Some j3"
    "js_obj J (?f(''datetime'' \<mapsto> js_str J (text_of (fr_time f)), ''sequence'' \<mapsto> js_int J (fr_sequence f), ''source'' \<mapsto> js_int J (fr_source f))) j3"
    (is "js_obj J ?g j3")
    using js_obj_put [OF assms(1) j2(2)] .
  have "\<forall>k \<in> {''id'', ''name'', ''storage_type''}. ?g k = ?f k" "valid_header (frame_header f)"
    using assms(2) by (simp_all add: frame_ok_def)
  note load = iobject_loaded [OF assms(1) j3(2) this]
  have "?g ''datetime'' = Some (js_str J (text_of (fr_time f)))" "?g ''sequence'' = Some (js_int J (fr_sequence f))" "?g ''source'' = Some (js_int J (fr_source f))"
    by simp_all
  note fields = this [THEN js_obj_field [OF j3(2)]]
  have "frame_saved_as J f j3"
    using load fields assms by (simp add: frame_saved_as_def frame_from_json_db_def js_read loaded_frame_def frame_ok_def frame_header_def)
  moreover have "frame_to_json J text_of f = Some j3"
    using j(1) j1(1) j2(1) j3(1) by (simp add: frame_to_json_def frame_to_json_db_def)
  ultimately show ?thesis
    by blast
qed

text \<open>A frameset keeps its frames under their names, in order.\<close>

definition frameset_ok :: "frameset \<Rightarrow> bool" where
  "frameset_ok fs \<longleftrightarrow> valid_header (frameset_header fs) \<and> ordered (fs_frames fs) \<and> (\<forall>(k, f) \<in> set (fs_frames fs). k = fr_name f \<and> frame_ok f)"

definition loaded_in :: "loading \<Rightarrow> string \<times> frame \<Rightarrow> string \<times> frame" where
  "loaded_in ld = (\<lambda>(k, f). (k, loaded_frame (ld_time ld k) f (frame_short (ld_junk ld k) k NO_SAVE)))"

definition loaded_frameset :: "loading \<Rightarrow> frameset \<Rightarrow> frameset" where
  "loaded_frameset ld fs = fs\<lparr>fs_frames := map (loaded_in ld) (saved_frames fs)\<rparr>"

definition frameset_saved_as :: "('j, 'd) json_ops \<Rightarrow> frameset \<Rightarrow> 'j \<Rightarrow> bool" where
  "frameset_saved_as J fs j \<longleftrightarrow> named J (fs_name fs) j
     \<and> (\<forall>ld fs0. (\<forall>k \<in> fst ` set (saved_frames fs). ld_ok ld k) \<longrightarrow> fs_frames fs0 = [] \<longrightarrow> frameset_from_json J ld j fs0 = Some (loaded_frameset ld fs))"

lemma load_frame_appends:
  assumes "\<forall>l \<in> fst ` set m. l < k" "frame_saved_as J f j" "k = fr_name f" "length k \<le> MAX_NAME_LENGTH" "ld_ok ld k"
  shows "load_frame J ld k j (fs\<lparr>fs_frames := m\<rparr>) = Some (fs\<lparr>fs_frames := m @ [loaded_in ld (k, f)]\<rparr>)"
proof -
  have k: "object_id k = k" "k \<notin> fst ` set m" "map_of m k = None"
    using assms(1,4) by (auto simp: object_id_def map_of_eq_None_iff)
  moreover have "map_emplace k (frame_short (ld_junk ld k) k NO_SAVE) m = m @ [(k, frame_short (ld_junk ld k) k NO_SAVE)]"
    using assms(1) by (intro emplace_last) blast
  ultimately show ?thesis
    using assms(2,5) by (simp add: load_frame_def add_frame_to_def frame_of_def map_add_def frame_saved_as_def update_last loaded_in_def)
qed

lemma frameset_saved:
  assumes "json_laws J" "frameset_ok fs"
  shows "\<exists>j. frameset_to_json J text_of fs = Some j \<and> frameset_saved_as J fs j"
proof -
  let ?f = "header_fields J (frameset_header fs)" and ?to = "\<lambda>(_ :: string, f). frame_to_json J text_of f" and ?P = "\<lambda>(k, f) y. k = fr_name f \<and> frame_saved_as J f y"
  have ok: "\<forall>(k, f) \<in> set (saved_frames fs). k = fr_name f \<and> frame_ok f" "ordered (saved_frames fs)" "valid_header (frameset_header fs)"
    using assms(2) by (auto simp: frameset_ok_def saved_frames_def ordered_filter)
  obtain j where j: "iobject_to_json J (frameset_header fs) = Some j" "js_obj J ?f j"
    using iobject_saved [OF assms(1)] .
  obtain j1 where j1: "js_put J j ''frames'' (js_array J) = Some j1" "js_obj J (?f(''frames'' \<mapsto> js_array J)) j1"
    using js_obj_put [OF assms(1) j(2)] .
  have "\<forall>x \<in> set (saved_frames fs). \<exists>y. ?to x = Some y \<and> ?P x y"
    using frame_saved [OF assms(1)] ok(1) by fastforce
  moreover have arr: "js_is_array J (js_array J)" "js_items J (js_array J) = []"
    using assms(1) by (simp_all add: json_laws_def)
  ultimately obtain r a ys where r: "push_all J ''frames'' ?to (saved_frames fs) j1 = Some r" "js_obj J (?f(''frames'' \<mapsto> a)) r"
    "js_items J a = ys" "list_all2 ?P (saved_frames fs) ys"
    using push_all_saved [OF assms(1) _ j1(2) fun_upd_same arr(1), of "saved_frames fs" ?to ?P] unfolding fun_upd_upd by (auto simp del: fun_upd_apply)
  have "\<forall>k \<in> {''id'', ''name'', ''storage_type''}. (?f(''frames'' \<mapsto> a)) k = ?f k"
    by simp
  note load = iobject_loaded [OF assms(1) r(2) this ok(3)]
  have frames: "js_contains J r ''frames'' \<and> js_at J r ''frames'' = Some a"
    using js_obj_field [OF r(2)] by simp
  have "frameset_from_json J ld r fs0 = Some (loaded_frameset ld fs)" if mem: "\<forall>k \<in> fst ` set (saved_frames fs). ld_ok ld k" and "fs_frames fs0 = []" for ld fs0
  proof -
    have h: "set_frameset_header (frameset_header fs) fs0 = fs\<lparr>fs_frames := map (loaded_in ld) []\<rparr>"
      using that(2) by (simp add: set_frameset_header_def frameset_header_def)
    have "load_all J (load_frame J ld) ys (fs\<lparr>fs_frames := map (loaded_in ld) []\<rparr>) = Some (fs\<lparr>fs_frames := map (loaded_in ld) (saved_frames fs)\<rparr>)"
    proof (rule load_all_runs [OF r(4), of J fst, where st = "\<lambda>pre. fs\<lparr>fs_frames := map (loaded_in ld) pre\<rparr>"])
      fix pre z post y
      assume z: "saved_frames fs = pre @ z # post" "?P z y"
      obtain k f where kf: "z = (k, f)"
        by (cases z)
      have "fst ` set (map (loaded_in ld) pre) = fst ` set pre"
        by (force simp: loaded_in_def)
      then show "load_frame J ld (fst z) y (fs\<lparr>fs_frames := map (loaded_in ld) pre\<rparr>) = Some (fs\<lparr>fs_frames := map (loaded_in ld) (pre @ [z])\<rparr>)"
        using load_frame_appends [of "map (loaded_in ld) pre" k J f y ld fs] z kf ok mem ordered_snoc [of pre k f post]
        by (simp add: frame_ok_def frame_header_def)
    qed (use ok(1) in \<open>auto simp: frame_saved_as_def frame_ok_def frame_header_def\<close>)
    then show ?thesis
      using load(1) frames r(3) h by (simp add: frameset_from_json_def loaded_frameset_def)
  qed
  moreover have "frameset_to_json J text_of fs = Some r"
    using j(1) j1(1) r(1) by (simp add: frameset_to_json_def)
  ultimately show ?thesis
    using load(2) by (auto simp: frameset_saved_as_def frameset_header_def)
qed

definition object_ok :: "object_descriptor \<Rightarrow> bool" where
  "object_ok d \<longleftrightarrow> valid_header (object_header d) \<and> ordered (od_framesets d) \<and> (\<forall>(k, fs) \<in> set (od_framesets d). k = fs_name fs \<and> frameset_ok fs)"

text \<open>\<open>sys\<close> has the memory for every frameset and every frame.\<close>

definition memory_enough :: "(string \<Rightarrow> bool \<times> storage_type \<times> loading) \<Rightarrow> object_descriptor \<Rightarrow> bool" where
  "memory_enough sys d \<longleftrightarrow> (\<forall>(k, fs) \<in> set (saved_framesets d). fst (sys k) \<and> (\<forall>l \<in> fst ` set (saved_frames fs). ld_ok (snd (snd (sys k))) l))"

definition loaded_frameset_in :: "(string \<Rightarrow> bool \<times> storage_type \<times> loading) \<Rightarrow> string \<times> frameset \<Rightarrow> string \<times> frameset" where
  "loaded_frameset_in sys = (\<lambda>(k, fs). (k, loaded_frameset (snd (snd (sys k))) fs))"

lemma load_frameset_appends:
  assumes "\<forall>l \<in> fst ` set m. l < k" "frameset_saved_as J fs j" "k = fs_name fs" "length k \<le> MAX_NAME_LENGTH" "fst (sys k)"
    and "\<forall>l \<in> fst ` set (saved_frames fs). ld_ok (snd (snd (sys k))) l"
  shows "load_frameset J sys k j (d\<lparr>od_framesets := m\<rparr>) = Some (d\<lparr>od_framesets := m @ [loaded_frameset_in sys (k, fs)]\<rparr>)"
proof -
  obtain junk ld where sys: "sys k = (True, junk, ld)"
    using assms(5) by (cases "sys k") auto
  have k: "object_id k = k" "k \<notin> fst ` set m" "map_of m k = None"
    using assms(1,4) by (auto simp: object_id_def map_of_eq_None_iff)
  moreover have "map_emplace k (frameset_new junk k NO_SAVE) m = m @ [(k, frameset_new junk k NO_SAVE)]"
    using assms(1) by (intro emplace_last) blast
  moreover have "frameset_from_json J ld j (frameset_new junk k NO_SAVE) = Some (loaded_frameset ld fs)"
    using assms(2,6) sys by (simp add: frameset_saved_as_def frameset_new_def)
  ultimately show ?thesis
    using sys by (simp add: load_frameset_def add_frameset_def frameset_of_def map_add_def update_last loaded_frameset_in_def)
qed

text \<open>
  Claim C19. An object that is saved and loaded into an empty one has its framesets and frames again, except those that are not to be saved, in order and with
  their names, numbers and storage types. The images, the times and the kind of the object are not saved.
\<close>

theorem object_json_roundtrip:
  assumes "json_laws J" "object_ok d" "memory_enough sys d" "od_framesets d0 = []"
  shows "\<exists>j. object_to_json J text_of d = Some j
    \<and> object_from_json J sys j d0 = Some (d\<lparr>od_type := od_type d0, od_framesets := map (loaded_frameset_in sys) (saved_framesets d)\<rparr>)"
proof -
  let ?f = "header_fields J (object_header d)" and ?to = "\<lambda>(_ :: string, fs). frameset_to_json J text_of fs"
    and ?P = "\<lambda>(k, fs) y. k = fs_name fs \<and> frameset_saved_as J fs y"
  have ok: "\<forall>(k, fs) \<in> set (saved_framesets d). k = fs_name fs \<and> frameset_ok fs" "ordered (saved_framesets d)" "valid_header (object_header d)"
    using assms(2) by (auto simp: object_ok_def saved_framesets_def ordered_filter)
  obtain j where j: "iobject_to_json J (object_header d) = Some j" "js_obj J ?f j"
    using iobject_saved [OF assms(1)] .
  obtain j1 where j1: "js_put J j ''framesets'' (js_array J) = Some j1" "js_obj J (?f(''framesets'' \<mapsto> js_array J)) j1"
    using js_obj_put [OF assms(1) j(2)] .
  have "\<forall>x \<in> set (saved_framesets d). \<exists>y. ?to x = Some y \<and> ?P x y"
    using frameset_saved [OF assms(1)] ok(1) by fastforce
  moreover have arr: "js_is_array J (js_array J)" "js_items J (js_array J) = []"
    using assms(1) by (simp_all add: json_laws_def)
  ultimately obtain r a ys where r: "push_all J ''framesets'' ?to (saved_framesets d) j1 = Some r" "js_obj J (?f(''framesets'' \<mapsto> a)) r"
    "js_items J a = ys" "list_all2 ?P (saved_framesets d) ys"
    using push_all_saved [OF assms(1) _ j1(2) fun_upd_same arr(1), of "saved_framesets d" ?to ?P] unfolding fun_upd_upd by (auto simp del: fun_upd_apply)
  have "\<forall>k \<in> {''id'', ''name'', ''storage_type''}. (?f(''framesets'' \<mapsto> a)) k = ?f k"
    by simp
  note load = iobject_loaded [OF assms(1) r(2) this ok(3)]
  have a: "js_contains J r ''framesets'' \<and> js_at J r ''framesets'' = Some a"
    using js_obj_field [OF r(2)] by simp
  let ?d = "d\<lparr>od_type := od_type d0\<rparr>"
  have h: "set_object_header (object_header d) d0 = ?d\<lparr>od_framesets := map (loaded_frameset_in sys) []\<rparr>"
    using assms(4) by (simp add: set_object_header_def object_header_def)
  have "load_all J (load_frameset J sys) ys (?d\<lparr>od_framesets := map (loaded_frameset_in sys) []\<rparr>)
      = Some (?d\<lparr>od_framesets := map (loaded_frameset_in sys) (saved_framesets d)\<rparr>)"
  proof (rule load_all_runs [OF r(4), of J fst, where st = "\<lambda>pre. ?d\<lparr>od_framesets := map (loaded_frameset_in sys) pre\<rparr>"])
    fix pre z post y
    assume z: "saved_framesets d = pre @ z # post" "?P z y"
    obtain k fs where kf: "z = (k, fs)"
      by (cases z)
    have "fst ` set (map (loaded_frameset_in sys) pre) = fst ` set pre"
      by (force simp: loaded_frameset_in_def)
    moreover have "fst (sys k)" "\<forall>l \<in> fst ` set (saved_frames fs). ld_ok (snd (snd (sys k))) l"
      using assms(3) z(1) kf by (simp_all add: memory_enough_def)
    ultimately show "load_frameset J sys (fst z) y (?d\<lparr>od_framesets := map (loaded_frameset_in sys) pre\<rparr>)
        = Some (?d\<lparr>od_framesets := map (loaded_frameset_in sys) (pre @ [z])\<rparr>)"
      using load_frameset_appends [of "map (loaded_frameset_in sys) pre" k J fs y sys ?d] z kf ok ordered_snoc [of pre k fs post]
      by (simp add: frameset_ok_def frameset_header_def)
  qed (use ok(1) in \<open>auto simp: frameset_saved_as_def frameset_ok_def frameset_header_def\<close>)
  then have "object_from_json J sys r d0 = Some (d\<lparr>od_type := od_type d0, od_framesets := map (loaded_frameset_in sys) (saved_framesets d)\<rparr>)"
    using load(1) a r(3) h by (simp add: object_from_json_def)
  moreover have "object_to_json J text_of d = Some r"
    using j(1) j1(1) r(1) by (simp add: object_to_json_def)
  ultimately show ?thesis
    by blast
qed

subsection \<open>An example\<close>

text \<open>A frameset with a frame to save and one that is not to be saved.\<close>

definition demo_kept :: frame where
  "demo_kept = blank_frame\<lparr>fr_name := ''a'', fr_id := 5, fr_storage := LONG_TERM, fr_time := 9, fr_sequence := 7, fr_source := 1, fr_image := [1, 2]\<rparr>"

definition demo_saved_object :: object_descriptor where
  "demo_saved_object = \<lparr>od_name = ''o'', od_id = 3, od_storage = LONG_TERM, od_type = PIPE,
     od_framesets = [(''s'', \<lparr>fs_name = ''s'', fs_id = 0, fs_storage = SHORT_TERM,
       fs_frames = [(''a'', demo_kept), (''b'', blank_frame\<lparr>fr_name := ''b'', fr_storage := NO_SAVE\<rparr>)]\<rparr>)]\<rparr>"

definition demo_loading :: "string \<Rightarrow> bool \<times> storage_type \<times> loading" where
  "demo_loading = (\<lambda>_. (True, NO_SAVE, \<lparr>ld_ok = \<lambda>_. True, ld_junk = \<lambda>_. blank_frame, ld_time = \<lambda>_. 4\<rparr>))"

theorem object_json_roundtrip_witness:
  "\<exists>j d. object_to_json tree_json (\<lambda>_. ''t'') demo_saved_object = Some j \<and> object_from_json tree_json demo_loading j (object_new ''x'' NO_SAVE BILLET) = Some d
     \<and> od_name d = ''o'' \<and> od_type d = BILLET \<and> map (\<lambda>(k, fs). (k, fs_storage fs, map fst (fs_frames fs))) (od_framesets d) = [(''s'', SHORT_TERM, [''a''])]"
proof -
  have ids: "valid_header (''a'', 5, LONG_TERM)" "valid_header (''b'', 0, NO_SAVE)" "valid_header (''s'', 0, SHORT_TERM)" "valid_header (''o'', 3, LONG_TERM)"
    by (simp_all add: MAX_NAME_LENGTH_def NUL_def storage_of_int_def)
  have "ordered [(''a'', demo_kept), (''b'', blank_frame\<lparr>fr_name := ''b'', fr_storage := NO_SAVE\<rparr>)]"
    by (simp add: list_less_def less_char_def)
  then have ok: "object_ok demo_saved_object"
    using ids by (simp add: object_ok_def demo_saved_object_def object_header_def frameset_ok_def frameset_header_def frame_ok_def frame_header_def demo_kept_def
        blank_frame_def del: valid_header.simps)
  have mem: "memory_enough demo_loading demo_saved_object"
    by (simp add: memory_enough_def demo_loading_def)
  show ?thesis
    using object_json_roundtrip [OF tree_json_laws ok mem, of "object_new ''x'' NO_SAVE BILLET" "\<lambda>_. ''t''"]
    by (auto simp: object_new_def demo_saved_object_def saved_framesets_def loaded_frameset_in_def loaded_frameset_def saved_frames_def loaded_in_def demo_kept_def)
qed

subsection \<open>Objects stay fit to be saved\<close>

lemma frame_new_ok:
  assumes "frame_new junk name st img time sequence source = Some f" "NUL \<notin> set name" "c_int (storage_int st) = Some (storage_int st)"
    and "storage_of_int (storage_int st) = st" "c_int sequence = Some sequence" "c_int source = Some source"
  shows "frame_ok f \<and> fr_name f = object_id name"
proof -
  have "set (object_id name) \<subseteq> set name"
    by (simp add: object_id_def set_take_subset)
  then show ?thesis
    using frame_new_fields [OF assms(1)] assms(2-6) by (auto simp: frame_ok_def frame_header_def object_id_def)
qed

lemma frameset_ok_add:
  assumes "frameset_ok fs" "frame_ok f" "fr_name f = object_id name"
  shows "frameset_ok (snd (add_frame_to ok name f fs))"
  using assms emplace_subset [of "object_id name" f "fs_frames fs"]
  by (auto simp: frameset_ok_def add_frame_to_def frameset_header_def ordered_emplace)

lemma frameset_ok_remove: "frameset_ok fs \<Longrightarrow> frameset_ok (remove_frame name fs)"
  using erase_subset [of "object_id name" "fs_frames fs"] by (auto simp: frameset_ok_def remove_frame_def frameset_header_def ordered_erase)

lemma object_ok_new: "valid_header (object_id name, IMPOSSIBLE_ID, st) \<Longrightarrow> object_ok (object_new name st ty)"
  by (simp add: object_ok_def object_new_def object_header_def)

lemma object_ok_add_frameset:
  assumes "object_ok d" "valid_header (object_id name, IMPOSSIBLE_ID, junk)"
  shows "object_ok (snd (add_frameset ok junk name st d))"
proof -
  have new: "frameset_ok (frameset_new junk name st)" "fs_name (frameset_new junk name st) = object_id name"
    using assms(2) by (simp_all add: frameset_ok_def frameset_new_def frameset_header_def)
  have "\<forall>(k, fs) \<in> set (map_emplace (object_id name) (frameset_new junk name st) (od_framesets d)). k = fs_name fs \<and> frameset_ok fs"
    using assms(1) new emplace_subset [of "object_id name" "frameset_new junk name st" "od_framesets d"] unfolding object_ok_def by fastforce
  then show ?thesis
    using assms(1) by (simp add: object_ok_def add_frameset_def object_header_def ordered_emplace)
qed

lemma object_ok_remove: "object_ok d \<Longrightarrow> object_ok (remove_frameset name d)"
  using erase_subset [of "object_id name" "od_framesets d"] by (auto simp: object_ok_def remove_frameset_def object_header_def ordered_erase)

text \<open>The frames that \<open>storage_interface.cpp\<close> adds are not to be saved, so an object of the collector is saved without any frame.\<close>

lemma unsaved_frame_added:
  assumes "fr_storage f = NO_SAVE"
  shows "saved_frames (snd (add_frame_to ok name f fs)) = saved_frames fs"
proof -
  have "filter (\<lambda>(_, f). fr_storage f \<noteq> NO_SAVE) (map_emplace k f m) = filter (\<lambda>(_, f). fr_storage f \<noteq> NO_SAVE) m" for k m
    using assms by (induction k f m rule: map_emplace.induct) auto
  then show ?thesis
    by (simp add: saved_frames_def add_frame_to_def)
qed

end
