(* ===== verification/Storage_Data.thy ===== *)
theory Storage_Data imports Storage_Json begin

section \<open>Measured data of frames and objects (Defect.cpp, FrameData.cpp, FrameDataSet.cpp, ObjectData.cpp, ObjectDescriptor.cpp)\<close>

text \<open>
  Beside its framesets an object has sets of data: what was measured on its frames, with the defects found. A real number is a value of the type
  \<open>'d\<close>, on which nothing is computed here; a time is an \<open>int\<close>. Getters and setters are the fields of the records and their updates. Strings of the shared memory
  are copied as they are (\<open>IpcTypes.cpp\<close>). \<open>junk\<close> is what memory holds before: each constructor sets only its own fields.
\<close>

subsection \<open>Data\<close>

record 'd defect =
  df_id :: int
  df_position :: 'd
  df_size :: 'd
  df_depth :: 'd
  df_precision :: 'd
  df_last_detection :: int
  df_image_url :: string

definition defect_short :: "'d defect \<Rightarrow> 'd defect" where
  "defect_short junk = junk\<lparr>df_image_url := []\<rparr>"

definition defect_new :: "int \<Rightarrow> 'd \<Rightarrow> 'd \<Rightarrow> 'd \<Rightarrow> 'd \<Rightarrow> int \<Rightarrow> string \<Rightarrow> 'd defect" where
  "defect_new defect_id position sz depth precision last_detection url =
     \<lparr>df_id = defect_id, df_position = position, df_size = sz, df_depth = depth, df_precision = precision, df_last_detection = last_detection, df_image_url = url\<rparr>"

record 'd frame_data =
  fd_name :: string
  fd_id :: u64
  fd_storage :: storage_type
  fd_condition :: bool
  fd_last_detection :: int
  fd_diameter :: 'd
  fd_length :: 'd
  fd_diameter1 :: 'd
  fd_diameter2 :: 'd
  fd_diameter3 :: 'd
  fd_number :: string
  fd_defects :: "'d defect list"

definition frame_data_short :: "'d frame_data \<Rightarrow> string \<Rightarrow> storage_type \<Rightarrow> 'd frame_data" where
  "frame_data_short junk name st = junk\<lparr>fd_name := object_id name, fd_id := IMPOSSIBLE_ID, fd_storage := st, fd_number := [], fd_defects := []\<rparr>"

definition frame_data_new :: "string \<Rightarrow> storage_type \<Rightarrow> bool \<Rightarrow> int \<Rightarrow> 'd \<Rightarrow> 'd \<Rightarrow> 'd \<Rightarrow> 'd \<Rightarrow> 'd \<Rightarrow> string \<Rightarrow> 'd defect list \<Rightarrow> 'd frame_data" where
  "frame_data_new name st condition last_detection diameter len diameter1 diameter2 diameter3 number defects =
     \<lparr>fd_name = object_id name, fd_id = IMPOSSIBLE_ID, fd_storage = st, fd_condition = condition, fd_last_detection = last_detection, fd_diameter = diameter,
      fd_length = len, fd_diameter1 = diameter1, fd_diameter2 = diameter2, fd_diameter3 = diameter3, fd_number = number, fd_defects = defects\<rparr>"

definition frame_data_billet :: "'d frame_data \<Rightarrow> string \<Rightarrow> storage_type \<Rightarrow> bool \<Rightarrow> int \<Rightarrow> 'd \<Rightarrow> 'd \<Rightarrow> 'd \<Rightarrow> 'd \<Rightarrow> 'd frame_data" where
  "frame_data_billet junk name st condition last_detection len diameter1 diameter2 diameter3 =
     (frame_data_short junk name st)\<lparr>fd_condition := condition, fd_last_detection := last_detection, fd_length := len, fd_diameter1 := diameter1,
        fd_diameter2 := diameter2, fd_diameter3 := diameter3\<rparr>"

definition frame_data_mandrel :: "'d frame_data \<Rightarrow> string \<Rightarrow> storage_type \<Rightarrow> bool \<Rightarrow> int \<Rightarrow> 'd \<Rightarrow> string \<Rightarrow> 'd defect list \<Rightarrow> 'd frame_data" where
  "frame_data_mandrel junk name st condition last_detection diameter number defects =
     (frame_data_short junk name st)\<lparr>fd_condition := condition, fd_last_detection := last_detection, fd_diameter := diameter, fd_number := number, fd_defects := defects\<rparr>"

definition frame_data_pipe :: "'d frame_data \<Rightarrow> string \<Rightarrow> storage_type \<Rightarrow> bool \<Rightarrow> int \<Rightarrow> 'd \<Rightarrow> 'd defect list \<Rightarrow> 'd frame_data" where
  "frame_data_pipe junk name st condition last_detection diameter defects =
     (frame_data_short junk name st)\<lparr>fd_condition := condition, fd_last_detection := last_detection, fd_diameter := diameter, fd_defects := defects\<rparr>"

text \<open>\<open>ObjectData\<close> has the same members and constructors; an object makes one with the constructor that leaves most of them unset.\<close>

type_synonym 'd object_data = "'d frame_data"

definition object_data_short :: "'d object_data \<Rightarrow> string \<Rightarrow> storage_type \<Rightarrow> 'd object_data" where
  "object_data_short = frame_data_short"

definition object_data_new :: "string \<Rightarrow> storage_type \<Rightarrow> bool \<Rightarrow> int \<Rightarrow> 'd \<Rightarrow> 'd \<Rightarrow> 'd \<Rightarrow> 'd \<Rightarrow> 'd \<Rightarrow> string \<Rightarrow> 'd defect list \<Rightarrow> 'd object_data" where
  "object_data_new = frame_data_new"

definition object_data_billet :: "'d object_data \<Rightarrow> string \<Rightarrow> storage_type \<Rightarrow> bool \<Rightarrow> int \<Rightarrow> 'd \<Rightarrow> 'd \<Rightarrow> 'd \<Rightarrow> 'd \<Rightarrow> 'd object_data" where
  "object_data_billet = frame_data_billet"

definition object_data_mandrel :: "'d object_data \<Rightarrow> string \<Rightarrow> storage_type \<Rightarrow> bool \<Rightarrow> int \<Rightarrow> 'd \<Rightarrow> string \<Rightarrow> 'd defect list \<Rightarrow> 'd object_data" where
  "object_data_mandrel = frame_data_mandrel"

definition object_data_pipe :: "'d object_data \<Rightarrow> string \<Rightarrow> storage_type \<Rightarrow> bool \<Rightarrow> int \<Rightarrow> 'd \<Rightarrow> 'd defect list \<Rightarrow> 'd object_data" where
  "object_data_pipe = frame_data_pipe"

subsection \<open>Data as JSON\<close>

definition frame_data_header :: "'d frame_data \<Rightarrow> header" where
  "frame_data_header x = (fd_name x, fd_id x, fd_storage x)"

definition set_frame_data_header :: "header \<Rightarrow> 'd frame_data \<Rightarrow> 'd frame_data" where
  "set_frame_data_header = (\<lambda>(n, i, s) x. x\<lparr>fd_name := n, fd_id := i, fd_storage := s\<rparr>)"

text \<open>The defects are not written.\<close>

definition frame_data_to_json_db :: "('j, 'd) json_ops \<Rightarrow> (int \<Rightarrow> string) \<Rightarrow> u64 \<Rightarrow> 'd frame_data \<Rightarrow> 'j option" where
  "frame_data_to_json_db J text_of parent_id x = do {
     ret \<leftarrow> iobject_to_json J (frame_data_header x);
     ret \<leftarrow> js_put J ret ''condition'' (js_bool J (fd_condition x));
     ret \<leftarrow> js_put J ret ''last_detection'' (js_str J (text_of (fd_last_detection x)));
     ret \<leftarrow> js_put J ret ''diameter'' (js_num J (fd_diameter x));
     ret \<leftarrow> js_put J ret ''length'' (js_num J (fd_length x));
     ret \<leftarrow> js_put J ret ''diameter1'' (js_num J (fd_diameter1 x));
     ret \<leftarrow> js_put J ret ''diameter2'' (js_num J (fd_diameter2 x));
     ret \<leftarrow> js_put J ret ''diameter3'' (js_num J (fd_diameter3 x));
     ret \<leftarrow> js_put J ret ''number'' (js_str J (fd_number x));
     if parent_id \<noteq> IMPOSSIBLE_ID then js_put J ret ''frameset_id'' (js_u64 J parent_id) else Some ret }"

definition frame_data_to_json :: "('j, 'd) json_ops \<Rightarrow> (int \<Rightarrow> string) \<Rightarrow> 'd frame_data \<Rightarrow> 'j option" where
  "frame_data_to_json J text_of = frame_data_to_json_db J text_of IMPOSSIBLE_ID"

definition json_field :: "('j, 'd) json_ops \<Rightarrow> ('j \<Rightarrow> 'a option) \<Rightarrow> 'j \<Rightarrow> string \<Rightarrow> 'a option" where
  "json_field J get j k = Option.bind (js_at J j k) get"

definition frame_data_from_json_db :: "('j, 'd) json_ops \<Rightarrow> int \<Rightarrow> 'j \<Rightarrow> 'd frame_data \<Rightarrow> 'd frame_data option" where
  "frame_data_from_json_db J time j x = do {
     h \<leftarrow> iobject_from_json J j (frame_data_header x);
     let x = set_frame_data_header h x;
     if \<not> js_contains J j ''condition'' \<or> \<not> js_contains J j ''last_detection'' \<or> \<not> js_contains J j ''diameter'' \<or> \<not> js_contains J j ''length''
        \<or> \<not> js_contains J j ''diameter1'' \<or> \<not> js_contains J j ''diameter2'' \<or> \<not> js_contains J j ''diameter3'' then Some x
     else do {
       _ \<leftarrow> json_field J (js_get_str J) j ''datetime'';
       condition \<leftarrow> json_field J (js_get_bool J) j ''condition'';
       diameter \<leftarrow> json_field J (js_get_num J) j ''diameter'';
       len \<leftarrow> json_field J (js_get_num J) j ''length'';
       diameter1 \<leftarrow> json_field J (js_get_num J) j ''diameter1'';
       diameter2 \<leftarrow> json_field J (js_get_num J) j ''diameter2'';
       diameter3 \<leftarrow> json_field J (js_get_num J) j ''diameter3'';
       number \<leftarrow> json_field J (js_get_str J) j ''diameter3'';
       Some (x\<lparr>fd_last_detection := time, fd_condition := condition, fd_diameter := diameter, fd_length := len, fd_diameter1 := diameter1,
               fd_diameter2 := diameter2, fd_diameter3 := diameter3, fd_number := number\<rparr>) } }"

subsection \<open>Sets of data\<close>

record 'd framedataset =
  ds_name :: string
  ds_id :: u64
  ds_storage :: storage_type
  ds_data :: "(string \<times> 'd frame_data) list"

definition framedataset_new :: "string \<Rightarrow> storage_type \<Rightarrow> 'd framedataset" where
  "framedataset_new name st = \<lparr>ds_name = object_id name, ds_id = IMPOSSIBLE_ID, ds_storage = st, ds_data = []\<rparr>"

definition add_frame_data :: "bool \<Rightarrow> string \<Rightarrow> 'd frame_data \<Rightarrow> 'd framedataset \<Rightarrow> string option \<times> 'd framedataset" where
  "add_frame_data ok name x ds = (if ok then (Some (object_id name), ds\<lparr>ds_data := map_emplace (object_id name) x (ds_data ds)\<rparr>) else (None, ds))"

definition frames_data_ids :: "'d framedataset \<Rightarrow> string list" where
  "frames_data_ids ds = map fst (ds_data ds)"

definition frames_data_count :: "'d framedataset \<Rightarrow> nat" where
  "frames_data_count ds = length (ds_data ds)"

definition frame_data_of :: "string \<Rightarrow> 'd framedataset \<Rightarrow> 'd frame_data option" where
  "frame_data_of name ds = map_of (ds_data ds) (object_id name)"

definition remove_frame_data :: "string \<Rightarrow> 'd framedataset \<Rightarrow> 'd framedataset" where
  "remove_frame_data name ds = ds\<lparr>ds_data := map_erase (object_id name) (ds_data ds)\<rparr>"

definition is_valid_frame_data :: "string \<Rightarrow> 'd framedataset \<Rightarrow> bool" where
  "is_valid_frame_data name ds \<longleftrightarrow> map_of (ds_data ds) (object_id name) \<noteq> None"

text \<open>An object with its sets of data and its own.\<close>

record 'd full_object = object_descriptor +
  od_datasets :: "(string \<times> 'd framedataset) list"
  od_data :: "'d object_data"

definition full_object_new :: "'d object_data \<Rightarrow> string \<Rightarrow> storage_type \<Rightarrow> observable_type \<Rightarrow> 'd full_object" where
  "full_object_new junk name st ty = object_descriptor.extend (object_new name st ty) (full_object.fields [] (object_data_short junk name st))"

definition add_dataset :: "bool \<Rightarrow> string \<Rightarrow> storage_type \<Rightarrow> 'd full_object \<Rightarrow> string option \<times> 'd full_object" where
  "add_dataset ok name st d =
     (if ok then (Some (object_id name), d\<lparr>od_datasets := map_emplace (object_id name) (framedataset_new name st) (od_datasets d)\<rparr>) else (None, d))"

text \<open>As \<open>move_frameset\<close>.\<close>

definition move_dataset :: "bool \<Rightarrow> bool \<Rightarrow> 'd framedataset \<Rightarrow> 'd full_object \<Rightarrow> string option \<times> 'd full_object \<times> 'd framedataset" where
  "move_dataset ok built ds d =
     (if \<not> ok then (None, d, ds)
      else (Some (ds_name ds), d\<lparr>od_datasets := map_emplace (ds_name ds) ds (od_datasets d)\<rparr>,
            if built \<or> map_of (od_datasets d) (ds_name ds) = None then ds\<lparr>ds_data := []\<rparr> else ds))"

definition datasets_ids :: "'d full_object \<Rightarrow> string list" where
  "datasets_ids d = map fst (od_datasets d)"

definition datasets_count :: "'d full_object \<Rightarrow> nat" where
  "datasets_count d = length (od_datasets d)"

definition dataset_of :: "string \<Rightarrow> 'd full_object \<Rightarrow> 'd framedataset option" where
  "dataset_of name d = map_of (od_datasets d) (object_id name)"

definition remove_dataset :: "string \<Rightarrow> 'd full_object \<Rightarrow> 'd full_object" where
  "remove_dataset name d = d\<lparr>od_datasets := map_erase (object_id name) (od_datasets d)\<rparr>"

subsection \<open>Containers of named elements\<close>

text \<open>
  What a user of these containers relies on: elements are found by the first 71 characters of a name, a name that is taken keeps its element, and the names
  come in ascending order. \<open>fit\<close> is the invariant of a container, \<open>made\<close> the element that is made when one is added.
\<close>

locale named_container =
  fixes fit :: "'c \<Rightarrow> bool" and made :: "string \<Rightarrow> 'a \<Rightarrow> 'v" and add :: "string \<Rightarrow> 'a \<Rightarrow> 'c \<Rightarrow> 'c" and remove :: "string \<Rightarrow> 'c \<Rightarrow> 'c" and look :: "string \<Rightarrow> 'c \<Rightarrow> 'v option"
    and ids :: "'c \<Rightarrow> string list"
  assumes add_fit: "fit c \<Longrightarrow> fit (add n a c)"
    and remove_fit: "fit c \<Longrightarrow> fit (remove n c)"
    and look_add: "fit c \<Longrightarrow> look l (add n a c) = (if object_id l = object_id n \<and> look n c = None then Some (made n a) else look l c)"
    and look_remove: "fit c \<Longrightarrow> look l (remove n c) = (if object_id l = object_id n then None else look l c)"
    and look_same: "object_id l = object_id n \<Longrightarrow> look l c = look n c"
    and look_ids: "fit c \<Longrightarrow> look l c \<noteq> None \<longleftrightarrow> object_id l \<in> set (ids c)"
    and ids_sorted: "fit c \<Longrightarrow> sorted_wrt (<) (ids c)"
begin

definition add_all :: "(string \<times> 'a) list \<Rightarrow> 'c \<Rightarrow> 'c" where
  "add_all = fold (\<lambda>(n, a). add n a)"

lemma add_all_fit: "fit c \<Longrightarrow> fit (add_all xs c)"
  by (induction xs arbitrary: c) (auto simp: add_all_def add_fit)

text \<open>Of several elements with a name, the first one added stays.\<close>

lemma look_add_all:
  assumes "fit c"
  shows "look l (add_all xs c) = (case look l c of Some v \<Rightarrow> Some v | None \<Rightarrow> map_of (map (\<lambda>(n, a). (object_id n, made n a)) xs) (object_id l))"
  using assms
proof (induction xs arbitrary: c)
  case (Cons x xs)
  obtain n a where x: "x = (n, a)"
    by (cases x)
  show ?case
    using Cons.IH [OF add_fit [OF Cons.prems], of n a] look_add [OF Cons.prems, of l n a] look_same [of l n c] x
    by (auto simp: add_all_def split: option.splits)
qed (simp add: add_all_def split: option.splits)

lemma ids_of_add_all:
  assumes "fit c" "ids c = []"
  shows "object_id n \<in> set (ids (add_all xs c)) \<longleftrightarrow> object_id n \<in> object_id ` fst ` set xs" "sorted_wrt (<) (ids (add_all xs c))"
proof -
  have "look l c = None" for l
    using look_ids [OF assms(1), of l] assms(2) by simp
  then show "object_id n \<in> set (ids (add_all xs c)) \<longleftrightarrow> object_id n \<in> object_id ` fst ` set xs"
    using look_ids [OF add_all_fit [OF assms(1)], of n xs] look_add_all [OF assms(1), of n xs]
    by (auto simp: map_of_eq_None_iff image_iff case_prod_beta split: option.splits)
  show "sorted_wrt (<) (ids (add_all xs c))"
    using ids_sorted [OF add_all_fit [OF assms(1)]] .
qed

end

text \<open>The four containers are maps with ordered names.\<close>

lemma ordered_names: "ordered m \<Longrightarrow> sorted_wrt (<) (map fst m)"
  by (simp add: ordered_def)

lemma in_names: "map_of m k \<noteq> None \<longleftrightarrow> k \<in> set (map fst m)"
  by (simp add: map_of_eq_None_iff)

lemmas container_laws = ordered_emplace ordered_erase emplace_lookup erase_lookup ordered_names in_names [symmetric]

interpretation fr: named_container "\<lambda>fs. ordered (fs_frames fs)" "\<lambda>n f. f" "\<lambda>n f fs. snd (add_frame_to True n f fs)" remove_frame frame_of frames_ids
  by unfold_locales (simp_all add: add_frame_to_def remove_frame_def frame_of_def frames_ids_def container_laws del: set_map split: option.splits)

interpretation fs: named_container "\<lambda>d. ordered (od_framesets d)" "\<lambda>n (junk, st). frameset_new junk n st"
    "\<lambda>n (junk, st) d. snd (add_frameset True junk n st d)" remove_frameset frameset_of framesets_ids
  by unfold_locales (simp_all add: add_frameset_def remove_frameset_def frameset_of_def framesets_ids_def container_laws case_prod_beta del: set_map split: option.splits)

interpretation fd: named_container "\<lambda>ds. ordered (ds_data ds)" "\<lambda>n x. x" "\<lambda>n x ds. snd (add_frame_data True n x ds)" remove_frame_data frame_data_of frames_data_ids
  by unfold_locales (simp_all add: add_frame_data_def remove_frame_data_def frame_data_of_def frames_data_ids_def container_laws del: set_map split: option.splits)

interpretation ds: named_container "\<lambda>d. ordered (od_datasets d)" framedataset_new "\<lambda>n st d. snd (add_dataset True n st d)" remove_dataset dataset_of datasets_ids
  by unfold_locales (simp_all add: add_dataset_def remove_dataset_def dataset_of_def datasets_ids_def container_laws del: set_map split: option.splits)

subsection \<open>Loading data\<close>

lemma frame_data_saved:
  assumes "json_laws J"
  obtains j where "frame_data_to_json J text_of x = Some j" "js_contains J j ''condition''" "js_contains J j ''last_detection''" "js_contains J j ''diameter''"
    "js_contains J j ''length''" "js_contains J j ''diameter1''" "js_contains J j ''diameter2''" "js_contains J j ''diameter3''"
    "js_at J j ''diameter3'' = Some (js_num J (fd_diameter3 x))"
proof -
  let ?h = "header_fields J (frame_data_header x)"
  obtain j0 where j0: "iobject_to_json J (frame_data_header x) = Some j0" "js_obj J ?h j0"
    using iobject_saved [OF assms] .
  obtain j1 where j1: "js_put J j0 ''condition'' (js_bool J (fd_condition x)) = Some j1" "js_obj J (?h(''condition'' \<mapsto> js_bool J (fd_condition x))) j1" (is "js_obj J ?f1 j1")
    using js_obj_put [OF assms j0(2)] .
  obtain j2 where j2: "js_put J j1 ''last_detection'' (js_str J (text_of (fd_last_detection x))) = Some j2"
    "js_obj J (?f1(''last_detection'' \<mapsto> js_str J (text_of (fd_last_detection x)))) j2" (is "js_obj J ?f2 j2")
    using js_obj_put [OF assms j1(2)] .
  obtain j3 where j3: "js_put J j2 ''diameter'' (js_num J (fd_diameter x)) = Some j3" "js_obj J (?f2(''diameter'' \<mapsto> js_num J (fd_diameter x))) j3" (is "js_obj J ?f3 j3")
    using js_obj_put [OF assms j2(2)] .
  obtain j4 where j4: "js_put J j3 ''length'' (js_num J (fd_length x)) = Some j4" "js_obj J (?f3(''length'' \<mapsto> js_num J (fd_length x))) j4" (is "js_obj J ?f4 j4")
    using js_obj_put [OF assms j3(2)] .
  obtain j5 where j5: "js_put J j4 ''diameter1'' (js_num J (fd_diameter1 x)) = Some j5" "js_obj J (?f4(''diameter1'' \<mapsto> js_num J (fd_diameter1 x))) j5" (is "js_obj J ?f5 j5")
    using js_obj_put [OF assms j4(2)] .
  obtain j6 where j6: "js_put J j5 ''diameter2'' (js_num J (fd_diameter2 x)) = Some j6" "js_obj J (?f5(''diameter2'' \<mapsto> js_num J (fd_diameter2 x))) j6" (is "js_obj J ?f6 j6")
    using js_obj_put [OF assms j5(2)] .
  obtain j7 where j7: "js_put J j6 ''diameter3'' (js_num J (fd_diameter3 x)) = Some j7" "js_obj J (?f6(''diameter3'' \<mapsto> js_num J (fd_diameter3 x))) j7" (is "js_obj J ?f7 j7")
    using js_obj_put [OF assms j6(2)] .
  obtain j8 where j8: "js_put J j7 ''number'' (js_str J (fd_number x)) = Some j8" "js_obj J (?f7(''number'' \<mapsto> js_str J (fd_number x))) j8" (is "js_obj J ?f8 j8")
    using js_obj_put [OF assms j7(2)] .
  have "?f8 ''condition'' = Some (js_bool J (fd_condition x))" "?f8 ''last_detection'' = Some (js_str J (text_of (fd_last_detection x)))"
    "?f8 ''diameter'' = Some (js_num J (fd_diameter x))" "?f8 ''length'' = Some (js_num J (fd_length x))" "?f8 ''diameter1'' = Some (js_num J (fd_diameter1 x))"
    "?f8 ''diameter2'' = Some (js_num J (fd_diameter2 x))" "?f8 ''diameter3'' = Some (js_num J (fd_diameter3 x))"
    by simp_all
  note fields = this [THEN js_obj_field [OF j8(2)]]
  have "frame_data_to_json J text_of x = Some j8"
    using j0(1) j1(1) j2(1) j3(1) j4(1) j5(1) j6(1) j7(1) j8(1) by (simp add: frame_data_to_json_def frame_data_to_json_db_def)
  then show thesis
    using that fields by blast
qed

text \<open>The diameter is read as a number and then as a string, so no value is loaded.\<close>

lemma frame_data_never_loads:
  assumes "json_laws J"
  shows "frame_data_from_json_db J time j x = None
    \<or> (\<exists>h. iobject_from_json J j (frame_data_header x) = Some h \<and> frame_data_from_json_db J time j x = Some (set_frame_data_header h x)
        \<and> (\<exists>k \<in> {''condition'', ''last_detection'', ''diameter'', ''length'', ''diameter1'', ''diameter2'', ''diameter3''}. \<not> js_contains J j k))"
proof -
  have "json_field J (js_get_num J) j ''diameter3'' = None \<or> json_field J (js_get_str J) j ''diameter3'' = None"
    using js_read(6) [OF assms, of "the (js_at J j ''diameter3'')"] by (cases "js_at J j ''diameter3''"; cases "js_get_num J (the (js_at J j ''diameter3''))") (auto simp: json_field_def)
  then show ?thesis
    by (auto simp: frame_data_from_json_db_def Let_def split: Option.bind_splits)
qed


definition demo_frame_data :: "int frame_data" where
  "demo_frame_data = frame_data_new ''d'' LONG_TERM True 5 10 20 30 40 50 ''17'' [defect_new 1 2 3 4 5 6 ''url'']"


subsection \<open>The containers of an object\<close>

text \<open>An object that got framesets and sets of data has each name once, in ascending order, with what was added first under it.\<close>

lemma framesets_added:
  "frameset_of l (fs.add_all xs (object_new name st ty)) = map_of (map (\<lambda>(n, a). (object_id n, frameset_new (fst a) n (snd a))) xs) (object_id l)"
  "sorted_wrt (<) (framesets_ids (fs.add_all xs (object_new name st ty)))"
  using fs.look_add_all [of "object_new name st ty" l xs] fs.ids_of_add_all(2) [of "object_new name st ty" xs]
  by (simp_all add: object_new_def frameset_of_def framesets_ids_def case_prod_beta)

lemma datasets_added:
  "dataset_of l (ds.add_all xs (full_object_new junk name st ty)) = map_of (map (\<lambda>(n, st). (object_id n, framedataset_new n st)) xs) (object_id l)"
  "sorted_wrt (<) (datasets_ids (ds.add_all xs (full_object_new junk name st ty)))"
  using ds.look_add_all [of "full_object_new junk name st ty" l xs] ds.ids_of_add_all(2) [of "full_object_new junk name st ty" xs]
  by (simp_all add: full_object_new_def object_descriptor.defs full_object.defs object_new_def dataset_of_def datasets_ids_def)

end
