(* ===== verification/Dcl_Processor.thy ===== *)
theory Dcl_Processor imports Pipeline_Server Collector begin

section \<open>The structure of a processor and its signals (processor: dclprocessor.c, dclprocessor_description.c; pipeline: signal_reaction.c)\<close>

text \<open>
  A description and a processor own the parts of a process: the pipeline and the collector. A pointer to a pointer is an option of an option: the
  outer \<open>None\<close> is NULL, the inner one a NULL it points to. Fields of
  \<open>struct dclprocessor\<close> that the code only sets to zero are left out. \<open>ended\<close> is what \<open>collector_destroy\<close> comes to, whose steps are in \<open>Collector\<close>.
\<close>

record dcl_desc =
  dd_addr :: addr
  dd_pipeline :: "pipeline_desc option"
  dd_collector :: "collector_desc option"

record dclprocessor =
  dp_addr :: addr
  dp_pipeline :: "pipeline option"
  dp_collector :: "run_state option"
  dp_user_data :: addr
  dp_action :: addr

subsection \<open>Descriptions\<close>

definition create_default_dclprocessor_description :: "dcl_desc option option \<Rightarrow> dcl_desc option option" where
  "create_default_dclprocessor_description p = (case p of
     None \<Rightarrow> None
   | Some None \<Rightarrow> Some None
   | Some (Some d) \<Rightarrow> Some (Some (d\<lparr>dd_pipeline := None, dd_collector := None\<rparr>)))"

definition create_dclprocessor_description :: "string \<Rightarrow> dcl_desc option option \<Rightarrow> dcl_desc option option" where
  "create_dclprocessor_description init_string p = p"

text \<open>The text that is printed. The pipeline may be NULL, the collector may not.\<close>

definition out_dclprocessor_description :: "dcl_desc option \<Rightarrow> string option" where
  "out_dclprocessor_description p = do {
     d \<leftarrow> p;
     t1 \<leftarrow> out_pipeline_description (dd_pipeline d);
     c \<leftarrow> dd_collector d;
     t2 \<leftarrow> out_collector_description c;
     Some (''Dclprocessor description:'' @ [CHR 0x0A] @ t1 @ t2) }"

text \<open>The sources of the collector whose blocks are freed are the second result.\<close>

definition destroy_dclprocessor_description :: "dcl_desc option option \<Rightarrow> mem \<Rightarrow> (dcl_desc option option \<times> source_desc list \<times> mem) option" where
  "destroy_dclprocessor_description p m = (case p of
     None \<Rightarrow> Some (None, [], m)
   | Some None \<Rightarrow> Some (Some None, [], m)
   | Some (Some d) \<Rightarrow> do {
       m \<leftarrow> pipeline_description_destroy (dd_pipeline d) m;
       let freed = snd (collector_description_destroy (Some (dd_collector d)));
       m \<leftarrow> mem_free (dd_addr d) m;
       Some (Some None, freed, m) })"

lemma default_description_creates_nothing: "create_default_dclprocessor_description (Some None) = Some None"
  by (simp add: create_default_dclprocessor_description_def)

lemma description_without_collector_faults: "dd_collector d = None \<Longrightarrow> out_dclprocessor_description (Some d) = None"
  by (simp add: out_dclprocessor_description_def Option.bind_eq_None_conv)

lemma destroyed_description_null:
  "destroy_dclprocessor_description (Some d) m = Some (p, freed, m') \<Longrightarrow> p = Some None"
  by (cases d) (auto simp: destroy_dclprocessor_description_def Let_def split: Option.bind_splits)

subsection \<open>The processor\<close>

text \<open>\<open>a\<close> is the block \<open>malloc\<close> returns. The default description is made for a variable of its own, so \<open>desc\<close> stays NULL.\<close>

definition dclprocessor_init :: "addr \<Rightarrow> sys_answers \<Rightarrow> dclprocessor option \<Rightarrow> dcl_desc option \<Rightarrow> os \<Rightarrow> (dclprocessor option \<times> os) run" where
  "dclprocessor_init a sy p desc os =
     (if a = NULL then Done (p, os)
      else let _ = (if desc = None then create_default_dclprocessor_description (Some None) else None)
      in case out_dclprocessor_description desc of None \<Rightarrow> Fault | Some _ \<Rightarrow>
        (case desc of None \<Rightarrow> Fault | Some d \<Rightarrow>
          bind_run (pipeline_init sy None (dd_pipeline d) os) (\<lambda>(rc, pl, os).
            Done (Some \<lparr>dp_addr = a, dp_pipeline = pl, dp_collector = None, dp_user_data = NULL, dp_action = NULL\<rparr>, os))))"

definition dclprocessor_destroy :: "(run_state \<Rightarrow> run_state run) \<Rightarrow> bool \<Rightarrow> dclprocessor option option \<Rightarrow> os \<Rightarrow> (dclprocessor option option \<times> os) run" where
  "dclprocessor_destroy ended main_done p os = (case p of
     None \<Rightarrow> Done (None, os)
   | Some None \<Rightarrow> Done (Some None, os)
   | Some (Some dp) \<Rightarrow>
       bind_run (case dp_pipeline dp of None \<Rightarrow> Done os
           | Some pl \<Rightarrow> bind_run (pipeline_destroy main_done pl os) (\<lambda>(_, os). Done os)) (\<lambda>os.
         bind_run (case dp_collector dp of None \<Rightarrow> Done () | Some s \<Rightarrow> bind_run (ended s) (\<lambda>_. Done ())) (\<lambda>_.
           Done (Some None, os))))"

definition get_dclprocessor :: "dclprocessor option" where
  "get_dclprocessor = None"

definition attach_to_pipeline :: "dclprocessor option \<Rightarrow> addr \<Rightarrow> addr \<Rightarrow> dclprocessor option" where
  "attach_to_pipeline p user_data work = Option.bind p (\<lambda>dp. Some (dp\<lparr>dp_user_data := user_data, dp_action := work\<rparr>))"

lemma no_description_faults: "a \<noteq> NULL \<Longrightarrow> dclprocessor_init a sy p None os = Fault"
  by (simp add: dclprocessor_init_def out_dclprocessor_description_def)

text \<open>A pipeline that could not be built is not reported: there is a processor, without a pipeline, and it can be destroyed.\<close>

lemma failed_pipeline_kept:
  assumes "a \<noteq> NULL" "out_dclprocessor_description (Some d) \<noteq> None" "pipeline_init sy None (dd_pipeline d) os = Done (- 1, None, os')"
  shows "\<exists>dp. dclprocessor_init a sy p (Some d) os = Done (Some dp, os') \<and> dclprocessor_destroy ended main_done (Some (Some dp)) os' = Done (Some None, os')"
  using assms by (auto simp: dclprocessor_init_def dclprocessor_destroy_def Let_def)

lemma attached_processor_attaches_null: "attach_to_pipeline get_dclprocessor u w = None"
  by (simp add: attach_to_pipeline_def get_dclprocessor_def)

subsection \<open>Signals\<close>

text \<open>The numbers of Linux.\<close>

definition SIGINT :: int where "SIGINT = 2"
definition SIGILL :: int where "SIGILL = 4"
definition SIGABRT :: int where "SIGABRT = 6"
definition SIGFPE :: int where "SIGFPE = 8"
definition SIGSEGV :: int where "SIGSEGV = 11"
definition SIGUSR2 :: int where "SIGUSR2 = 12"
definition SIGTERM :: int where "SIGTERM = 15"
definition SIGCHLD :: int where "SIGCHLD = 17"

lemmas signal_numbers = SIGINT_def SIGILL_def SIGABRT_def SIGFPE_def SIGSEGV_def SIGUSR2_def SIGTERM_def SIGCHLD_def

text \<open>The children that \<open>waitpid\<close> reports, up to an answer that is no process.\<close>

definition reaped :: "(int \<times> int) list \<Rightarrow> (int \<times> int) list" where
  "reaped = takeWhile (\<lambda>(pid, status). 0 < pid)"

text \<open>The handler returns, with the children it has reported, or ends the program with the number of the signal.\<close>

definition signal_handler :: "int \<Rightarrow> (int \<times> int) list \<Rightarrow> int + (int \<times> int) list" where
  "signal_handler signum waits =
     (if signum = SIGCHLD then Inr (reaped waits) else if signum = SIGUSR2 then Inr [] else Inl signum)"

definition watched_signals :: "int list" where
  "watched_signals = [SIGCHLD, SIGINT, SIGTERM]"

text \<open>The thread: each answer of \<open>sigwaitinfo\<close>, the signal, and what \<open>waitpid\<close> then says. The result is the exit flag and the answers left.\<close>

fun signal_thread :: "(int \<times> int \<times> int list) list \<Rightarrow> int \<Rightarrow> int list list \<Rightarrow> int \<times> int list list" where
  "signal_thread [] exit_flag left = (exit_flag, left)"
| "signal_thread ((rc, signo, waits) # es) exit_flag left =
     (if rc = - 1 then signal_thread es exit_flag left
      else if signo = SIGCHLD then signal_thread es exit_flag (left @ [process_cleanup waits])
      else signal_thread es 1 left)"

text \<open>\<open>ok\<close> tells whether \<open>sigaction\<close> succeeds, \<open>mask_ok\<close> whether the mask is set; \<open>None\<close> is an exit. The result has the signals with a handler and those blocked.\<close>

fun set_handlers :: "(int \<Rightarrow> bool) \<Rightarrow> int list \<Rightarrow> int list option" where
  "set_handlers ok [] = Some []"
| "set_handlers ok (s # ss) = (if ok s then map_option (Cons s) (set_handlers ok ss) else None)"

definition set_signal_reactions :: "(int \<Rightarrow> bool) \<Rightarrow> bool \<Rightarrow> (int list \<times> int list) option" where
  "set_signal_reactions ok mask_ok = do {
     handled \<leftarrow> set_handlers ok [SIGILL, SIGSEGV, SIGABRT, SIGFPE, SIGUSR2];
     if mask_ok then Some (handled, [SIGCHLD, SIGINT, SIGTERM]) else None }"

text \<open>The signals that are blocked are those the thread waits for, and none of them has a handler; the case of SIGCHLD in the handler is never taken.\<close>

lemma blocked_are_watched:
  "set_signal_reactions ok mask_ok = Some (handled, blocked) \<Longrightarrow> set blocked = set watched_signals \<and> set handled \<inter> set blocked = {}"
  by (auto simp: set_signal_reactions_def watched_signals_def signal_numbers split: if_splits)

lemma handled_signal_ends:
  assumes "set_signal_reactions ok mask_ok = Some (handled, blocked)" "s \<in> set handled"
  shows "signal_handler s waits = (if s = SIGUSR2 then Inr [] else Inl s)"
  using assms by (auto simp: set_signal_reactions_def signal_handler_def signal_numbers split: if_splits)

lemma thread_sets_flag:
  "fst (signal_thread es exit_flag left) = (if \<exists>(rc, signo, waits) \<in> set es. rc \<noteq> - 1 \<and> signo \<noteq> SIGCHLD then 1 else exit_flag)"
  by (induction es exit_flag left rule: signal_thread.induct) auto

end
