(* ===== verification/Object_List.thy ===== *)
theory Object_List imports Intrusive_List begin

section \<open>Lists of structures with an embedded node\<close>

text \<open>
  The lists of interfaces and of devices: a counter, a head, and structures that hold a node. A structure is
  stored at the address of its node, which stands for the address of the structure as well (\<open>list_entry\<close> adds a constant).
\<close>

record 'a objects =
  ob_head :: addr
  ob_heap :: list_heap
  ob_items :: "addr \<Rightarrow> 'a option"
  ob_cnt :: int

definition object_new :: "addr \<Rightarrow> 'a \<Rightarrow> 'a objects \<Rightarrow> 'a objects" where
  "object_new a x st = st\<lparr>ob_heap := (ob_heap st)\<lparr>next_of := (next_of (ob_heap st))(a \<mapsto> NULL), prev_of := (prev_of (ob_heap st))(a \<mapsto> NULL)\<rparr>,
     ob_items := (ob_items st)(a \<mapsto> x)\<rparr>"

definition object_link :: "addr \<Rightarrow> 'a objects \<Rightarrow> 'a objects option" where
  "object_link a st = do {
     h \<leftarrow> list_add_back (ob_head st) a (ob_heap st);
     cnt \<leftarrow> c_int (ob_cnt st + 1);
     Some (st\<lparr>ob_heap := h, ob_cnt := cnt\<rparr>) }"

definition object_free :: "addr \<Rightarrow> 'a objects \<Rightarrow> 'a objects option" where
  "object_free a st = (case ob_items st a of None \<Rightarrow> None
     | Some _ \<Rightarrow> Some (st\<lparr>ob_heap := (ob_heap st)\<lparr>next_of := (next_of (ob_heap st))(a := None), prev_of := (prev_of (ob_heap st))(a := None)\<rparr>,
                        ob_items := (ob_items st)(a := None)\<rparr>))"

definition object_unlink :: "addr \<Rightarrow> 'a objects \<Rightarrow> 'a objects option" where
  "object_unlink a st = do {
     h \<leftarrow> list_remove_elem (ob_head st) a (ob_heap st);
     cnt \<leftarrow> c_int (ob_cnt st - 1);
     Some (st\<lparr>ob_heap := h, ob_cnt := cnt\<rparr>) }"

text \<open>The sequence of structures a list stands for.\<close>

definition objects_rep :: "'a objects \<Rightarrow> (addr \<times> 'a) list \<Rightarrow> bool" where
  "objects_rep st xs \<longleftrightarrow> is_list (ob_heap st) (ob_head st) (map fst xs) \<and> ob_cnt st = int (length xs) \<and> length xs < 2 ^ 31
     \<and> (\<forall>a x. (a, x) \<in> set xs \<longrightarrow> ob_items st a = Some x)"

lemma objects_rep_distinct: "objects_rep st xs \<Longrightarrow> distinct (map fst xs) \<and> ob_head st \<notin> fst ` set xs \<and> 0 \<notin> fst ` set xs"
  by (auto simp: objects_rep_def is_list_def)

lemma objects_rep_first: "objects_rep st xs \<Longrightarrow> list_first_elem (ob_heap st) (ob_head st) = Some (hd (map fst xs @ [ob_head st]))"
  by (simp add: objects_rep_def list_first_elem_is_list)

lemma objects_rep_next:
  "objects_rep st (xs @ (a, x) # ys) \<Longrightarrow> get_next (ob_heap st) a = Some (hd (map fst ys @ [ob_head st]))"
  using is_list_gap(1) [of "ob_heap st" "ob_head st" "map fst xs @ [a]" "map fst ys"]
  by (cases ys) (auto simp: objects_rep_def get_next_def)

lemma objects_rep_at: "objects_rep st (xs @ (a, x) # ys) \<Longrightarrow> ob_items st a = Some x \<and> a \<noteq> ob_head st \<and> a \<noteq> NULL"
  using objects_rep_distinct [of st "xs @ (a, x) # ys"] by (force simp: objects_rep_def)

lemma objects_add_rep:
  assumes "objects_rep st xs" "a \<noteq> NULL" "a \<noteq> ob_head st" "ob_items st a = None" "Suc (length xs) < 2 ^ 31"
  shows "\<exists>st'. object_link a (object_new a x st) = Some st' \<and> objects_rep st' (xs @ [(a, x)]) \<and> ob_head st' = ob_head st
    \<and> (\<forall>b. b \<noteq> a \<longrightarrow> ob_items st' b = ob_items st b)"
proof -
  let ?h = "ob_heap (object_new a x st)"
  have a: "a \<notin> fst ` set xs"
    using assms(1,4) by (force simp: objects_rep_def)
  then have b: "(b, y) \<in> set xs \<Longrightarrow> ob_items st b = Some y \<and> b \<noteq> a" for b y
    using assms(1) by (force simp: objects_rep_def)
  have "is_list ?h (ob_head st) (map fst xs)"
    by (rule is_list_frame [of "ob_heap st"]) (use assms(1,3) a in \<open>auto simp: objects_rep_def object_new_def\<close>)
  moreover have "unlinked ?h a"
    using assms(2) by (simp add: unlinked_def object_new_def)
  ultimately obtain h where h: "list_add_back (ob_head st) a ?h = Some h" "is_list h (ob_head st) (map fst xs @ [a])"
    using list_add_back_is_list by blast
  let ?st = "(object_new a x st)\<lparr>ob_heap := h, ob_cnt := ob_cnt st + 1\<rparr>"
  have "objects_rep ?st (xs @ [(a, x)])"
    using assms(1,5) h(2) unfolding objects_rep_def by (auto simp: b object_new_def)
  moreover have "c_int (ob_cnt st + 1) = Some (ob_cnt st + 1)"
    using assms(1,5) by (auto simp: objects_rep_def)
  then have "object_link a (object_new a x st) = Some ?st"
    using h(1) by (simp add: object_link_def) (simp add: object_new_def)
  ultimately show ?thesis
    by (intro exI [of _ ?st]) (simp add: object_new_def)
qed

lemma objects_remove_rep:
  assumes "objects_rep st (xs @ (a, x) # ys)"
  shows "\<exists>st1 st2. object_unlink a st = Some st1 \<and> object_free a st1 = Some st2 \<and> objects_rep st2 (xs @ ys)
    \<and> ob_items st1 = ob_items st \<and> ob_head st2 = ob_head st \<and> ob_items st2 = (ob_items st)(a := None)"
proof -
  have il: "is_list (ob_heap st) (ob_head st) (map fst xs @ a # map fst ys)"
    using assms(1) by (simp add: objects_rep_def)
  obtain h where h: "list_remove_elem (ob_head st) a (ob_heap st) = Some h" "is_list h (ob_head st) (map fst xs @ map fst ys)"
    using il.del_law [OF il] by blast
  let ?h = "h\<lparr>next_of := (next_of h)(a := None), prev_of := (prev_of h)(a := None)\<rparr>"
  have a: "a \<notin> fst ` set xs" "a \<notin> fst ` set ys" "a \<noteq> ob_head st"
    using objects_rep_distinct [OF assms(1)] by auto
  have i: "is_list ?h (ob_head st) (map fst xs @ map fst ys)"
    by (rule is_list_frame [OF h(2)]) (use a in auto)
  have b: "(b, y) \<in> set xs \<or> (b, y) \<in> set ys \<Longrightarrow> ob_items st b = Some y \<and> b \<noteq> a" for b y
    using assms(1) image_eqI [of b fst "(b, y)" "set xs"] image_eqI [of b fst "(b, y)" "set ys"] a(1,2)
    by (auto simp: objects_rep_def)
  have c: "ob_cnt st = 1 + int (length (xs @ ys))" "length (xs @ ys) < 2 ^ 31"
    using assms(1) by (auto simp: objects_rep_def)
  let ?st1 = "st\<lparr>ob_heap := h, ob_cnt := ob_cnt st - 1\<rparr>"
  let ?st2 = "?st1\<lparr>ob_heap := ?h, ob_items := (ob_items st)(a := None)\<rparr>"
  have "objects_rep ?st2 (xs @ ys)"
    unfolding objects_rep_def using i c by (auto simp: b)
  moreover have "c_int (ob_cnt st - 1) = Some (ob_cnt st - 1)"
    using c by auto
  then have "object_unlink a st = Some ?st1" "object_free a ?st1 = Some ?st2"
    using h(1) objects_rep_at [OF assms(1)] by (simp_all add: object_unlink_def object_free_def)
  ultimately show ?thesis
    by (intro exI [of _ ?st1] exI [of _ ?st2]) simp
qed

end
