(* ===== verification/Discovery.thy ===== *)
theory Discovery imports Object_List Gvcp begin

section \<open>Network interfaces and the cameras behind them (libcapture: interface.c, device.c)\<close>

text \<open>
  A request is broadcast on every usable interface, and the answers are collected as devices. The answers of the
  system, the addresses of \<open>malloc\<close> included, are arguments; memory that is not cleared keeps what it held.
  What is printed is not modelled, but a text that is printed has to end.
\<close>

record sockaddr =
  sa_family :: int
  sa_addr :: u32
  sa_port :: u16

definition AF_INET :: int where "AF_INET = 2"
definition GVCP_DEVICE_PORT :: u16 where "GVCP_DEVICE_PORT = 3956"
definition GV_DEVICE_BUFFER_SIZE :: nat where "GV_DEVICE_BUFFER_SIZE = 16 * 1024"

subsection \<open>Interfaces\<close>

record interface =
  if_fd :: int
  if_name :: string
  if_addr :: "sockaddr option"
  if_netmask :: "sockaddr option"

definition zero_interface :: interface where
  "zero_interface = \<lparr>if_fd = 0, if_name = replicate 80 NUL, if_addr = None, if_netmask = None\<rparr>"

definition empty_objects :: "addr \<Rightarrow> 'a objects" where
  "empty_objects h = \<lparr>ob_head = h, ob_heap = \<lparr>next_of = [h \<mapsto> NULL], prev_of = [h \<mapsto> NULL]\<rparr>, ob_items = \<lambda>_. None, ob_cnt = 0\<rparr>"

definition init_objects :: "addr \<Rightarrow> 'a objects option" where
  "init_objects h = (let st = empty_objects h in Option.bind (list_init h (ob_heap st)) (\<lambda>hp. Some (st\<lparr>ob_heap := hp\<rparr>)))"

definition ifaces_init :: "addr \<Rightarrow> interface objects option" where
  "ifaces_init h = init_objects h"

definition interface_add :: "addr \<Rightarrow> string option \<Rightarrow> sockaddr option \<Rightarrow> sockaddr option \<Rightarrow> interface objects \<Rightarrow>
    (addr \<times> interface objects) option" where
  "interface_add a name addr netmask ifaces =
     (if a = NULL then Some (NULL, ifaces)
      else do {
        nm \<leftarrow> (case name of None \<Rightarrow> Some (if_name zero_interface) | Some s \<Rightarrow> strcpy_to 0 s (if_name zero_interface));
        let iface = zero_interface\<lparr>if_fd := - 1, if_addr := addr, if_netmask := netmask, if_name := nm\<rparr>;
        ifaces \<leftarrow> object_link a (object_new a iface ifaces);
        Some (a, ifaces) })"

text \<open>The network mask is not freed; \<open>close\<close> is called also for a descriptor -1.\<close>

definition interface_delete :: "addr \<Rightarrow> interface objects \<times> int list \<Rightarrow> (interface objects \<times> int list) option" where
  "interface_delete a s = do {
     ifaces \<leftarrow> object_unlink a (fst s);
     iface \<leftarrow> ob_items ifaces a;
     ifaces \<leftarrow> object_free a ifaces;
     Some (ifaces, snd s @ [if_fd iface]) }"

partial_function (option) ifaces_destroy :: "interface objects \<times> int list \<Rightarrow> (interface objects \<times> int list) option" where
  "ifaces_destroy s =
     Option.bind (list_is_empty (ob_heap (fst s)) (ob_head (fst s))) (\<lambda>e. if e then Some s
       else Option.bind (list_first_elem (ob_heap (fst s)) (ob_head (fst s))) (\<lambda>item.
         Option.bind (interface_delete item s) ifaces_destroy))"

definition set_item :: "addr \<Rightarrow> ('a \<Rightarrow> 'a) \<Rightarrow> 'a objects \<Rightarrow> 'a objects option" where
  "set_item a f st = Option.bind (ob_items st a) (\<lambda>x. Some (st\<lparr>ob_items := (ob_items st)(a \<mapsto> f x)\<rparr>))"

record broadcast_answers =
  ba_socket :: int
  ba_bind :: bool

text \<open>A socket that could not be bound stays open. The packet is sent, and \<open>sendto\<close> is not checked.\<close>

definition send_broadcast_discovery :: "broadcast_answers \<Rightarrow> interface \<Rightarrow> (int \<times> interface \<times> (sockaddr \<times> u8 list) list) option" where
  "send_broadcast_discovery b iface =
     (if ba_socket b = - 1 then Some (- 1, iface, [])
      else do {
        addr \<leftarrow> if_addr iface;
        let iface = iface\<lparr>if_addr := Some (addr\<lparr>sa_port := htons 0\<rparr>)\<rparr>;
        if \<not> ba_bind b then Some (- 1, iface, [])
        else Some (ba_socket b, iface, [(\<lparr>sa_family = AF_INET, sa_addr = htonl 0xffffffff, sa_port = htons GVCP_DEVICE_PORT\<rparr>,
            take 8 (packet_bytes (fst gvcp_discovery_packet)))]) })"

record ifaddr =
  ia_up :: bool
  ia_pointopoint :: bool
  ia_addr :: "sockaddr option"
  ia_netmask :: "sockaddr option"
  ia_name :: string
  ia_alloc :: addr
  ia_broadcast :: broadcast_answers

definition usable :: "ifaddr \<Rightarrow> bool" where
  "usable i \<longleftrightarrow> ia_up i \<and> \<not> ia_pointopoint i \<and> (case ia_addr i of None \<Rightarrow> False | Some addr \<Rightarrow> sa_family addr = AF_INET)"

fun add_interfaces :: "ifaddr list \<Rightarrow> interface objects \<Rightarrow> interface objects option" where
  "add_interfaces [] ifaces = Some ifaces"
| "add_interfaces (i # is) ifaces =
     (if usable i then do {
        (a, ifaces) \<leftarrow> interface_add (ia_alloc i) (Some (ia_name i)) (ia_addr i) (ia_netmask i) ifaces;
        if a = NULL then None
        else do {
          iface \<leftarrow> ob_items ifaces a;
          (fd, iface, _) \<leftarrow> send_broadcast_discovery (ia_broadcast i) iface;
          ifaces \<leftarrow> set_item a (\<lambda>_. iface\<lparr>if_fd := fd\<rparr>) ifaces;
          add_interfaces is ifaces } }
      else add_interfaces is ifaces)"

text \<open>\<open>addrs\<close> is the list of \<open>getifaddrs\<close>, \<open>None\<close> when it fails: then the result is NULL.\<close>

definition prepare_interfaces_list :: "addr \<Rightarrow> ifaddr list option \<Rightarrow> interface objects option option" where
  "prepare_interfaces_list h addrs = do {
     ifaces \<leftarrow> (if h = NULL then None else ifaces_init h);
     case addrs of None \<Rightarrow> Some None
     | Some is \<Rightarrow> do { ifaces \<leftarrow> add_interfaces is ifaces; Some (Some ifaces) } }"

subsection \<open>Answers\<close>

text \<open>
  What \<open>select\<close> and \<open>recvfrom\<close> answer; there is nothing more to receive after the last one. A packet is the memory
  it was received into, with what was there before behind the bytes received.
\<close>

datatype answer = An_again | An_error | An_none | An_recv_again | An_recv_error | An_recv "u8 list" u32 "u8 list"

definition accepts :: "u32 \<Rightarrow> u32 \<Rightarrow> u32 \<Rightarrow> bool" where
  "accepts ip_local ip_netmask ip_remote \<longleftrightarrow>
     \<not> (ip_local = ip_remote \<and> ip_local AND ip_netmask \<noteq> 0x7f000000)
     \<and> ip_local AND ip_netmask = ip_remote AND ip_netmask"

fun discovery_loop :: "interface \<Rightarrow> answer list \<Rightarrow> ((gvcp_packet \<times> u32) option \<times> answer list) option" where
  "discovery_loop iface [] = Some (None, [])"
| "discovery_loop iface (An_again # as) = discovery_loop iface as"
| "discovery_loop iface (An_error # as) = Some (None, as)"
| "discovery_loop iface (An_none # as) = Some (None, as)"
| "discovery_loop iface (An_recv_again # as) = discovery_loop iface as"
| "discovery_loop iface (An_recv_error # as) = Some (None, as)"
| "discovery_loop iface (An_recv bytes from mem # as) =
     (if length bytes \<le> 8 then discovery_loop iface as
      else do {
        addr \<leftarrow> if_addr iface;
        netmask \<leftarrow> if_netmask iface;
        if accepts (ntohl (sa_addr addr)) (ntohl (sa_addr netmask)) (ntohl from)
        then Some (Some (packet_of_bytes (take (length mem) bytes @ drop (length bytes) mem), from), as)
        else discovery_loop iface as })"

text \<open>Without an answer the descriptor is closed; it stays in the structure.\<close>

definition listen_discovery_answer :: "interface \<Rightarrow> answer list \<times> int list \<Rightarrow>
    ((gvcp_packet \<times> u32) option \<times> answer list \<times> int list) option" where
  "listen_discovery_answer iface s =
     (if \<not> fd_in_set (if_fd iface) then None
      else do {
        (p, as) \<leftarrow> discovery_loop iface (fst s);
        Some (p, as, if p = None then snd s @ [if_fd iface] else snd s) })"

subsection \<open>Devices\<close>

record device_data =
  dd_fd :: int
  dd_ip :: string
  dd_port :: string
  dd_texts :: device_texts
  dd_iface_addr :: "sockaddr option"

definition zero_device :: device_data where
  "zero_device = \<lparr>dd_fd = 0, dd_ip = replicate 20 NUL, dd_port = replicate 8 NUL,
     dd_texts = \<lparr>dt_vendor = replicate 33 NUL, dt_model = replicate 33 NUL, dt_serial = replicate 17 NUL,
       dt_user_id = replicate 17 NUL, dt_mac = replicate 18 NUL\<rparr>, dd_iface_addr = None\<rparr>"

text \<open>\<open>names\<close> maps an address to the two texts of \<open>getnameinfo\<close>, \<open>None\<close> when it fails.\<close>

definition device_create :: "addr \<Rightarrow> (u32 \<Rightarrow> (string \<times> string) option) \<Rightarrow> sockaddr option \<Rightarrow> u32 \<Rightarrow> device_data option" where
  "device_create a names iface_addr device_addr =
     (if a = NULL then None
      else do {
        addr \<leftarrow> iface_addr;
        let (host, port) = (case names device_addr of None \<Rightarrow> (''0.0.0.0'', ''0'') | Some n \<Rightarrow> n);
        ip \<leftarrow> strcpy_to 0 host (dd_ip zero_device);
        po \<leftarrow> strcpy_to 0 port (dd_port zero_device);
        Some (zero_device\<lparr>dd_fd := - 1, dd_iface_addr := Some addr, dd_ip := ip, dd_port := po\<rparr>) })"

definition device_print :: "device_data \<Rightarrow> unit option" where
  "device_print d = do {
     _ \<leftarrow> cstr (dd_ip d); _ \<leftarrow> cstr (dd_port d);
     _ \<leftarrow> cstr (dt_vendor (dd_texts d)); _ \<leftarrow> cstr (dt_model (dd_texts d)); _ \<leftarrow> cstr (dt_serial (dd_texts d));
     _ \<leftarrow> cstr (dt_user_id (dd_texts d)); _ \<leftarrow> cstr (dt_mac (dd_texts d)); Some () }"

definition device_add :: "addr \<Rightarrow> (u32 \<Rightarrow> (string \<times> string) option) \<Rightarrow> sockaddr option \<Rightarrow> u32 \<Rightarrow> device_data objects \<Rightarrow>
    device_data objects option" where
  "device_add a names iface_addr device_addr devs = do {
     dev \<leftarrow> device_create a names iface_addr device_addr;
     object_link a (object_new a dev devs) }"

definition device_delete :: "addr \<Rightarrow> device_data objects \<Rightarrow> device_data objects option" where
  "device_delete a devs = do { devs \<leftarrow> object_unlink a devs; object_free a devs }"

definition devices_init :: "addr \<Rightarrow> device_data objects option" where
  "devices_init h = (if h = NULL then None else init_objects h)"

partial_function (option) devices_destroy :: "device_data objects \<Rightarrow> device_data objects option" where
  "devices_destroy devs =
     Option.bind (list_is_empty (ob_heap devs) (ob_head devs)) (\<lambda>e. if e then Some devs
       else Option.bind (list_first_elem (ob_heap devs) (ob_head devs)) (\<lambda>item.
         Option.bind (device_delete item devs) devices_destroy))"

subsection \<open>Collecting devices\<close>

text \<open>
  \<open>alloc\<close> gives the address of the next device. The packets of an interface are taken until there is none; the
  answers of an interface are those of its own socket.
\<close>

record find_answers =
  fa_ifaces :: addr
  fa_addrs :: "ifaddr list option"
  fa_devices :: addr
  fa_alloc :: "nat \<Rightarrow> addr"
  fa_names :: "u32 \<Rightarrow> (string \<times> string) option"
  fa_answers :: "addr \<Rightarrow> answer list"

partial_function (option) collect_devices :: "find_answers \<Rightarrow> interface \<Rightarrow> answer list \<times> int list \<times> device_data objects \<Rightarrow>
    (int list \<times> device_data objects) option" where
  "collect_devices fa iface s =
     Option.bind (listen_discovery_answer iface (fst s, fst (snd s))) (\<lambda>(p, as, closed). case p of
       None \<Rightarrow> Some (closed, snd (snd s))
     | Some (packet, from) \<Rightarrow>
         Option.bind (Some (fa_alloc fa (nat (ob_cnt (snd (snd s)))))) (\<lambda>a.
         Option.bind (device_add a (fa_names fa) (if_addr iface) from (snd (snd s))) (\<lambda>devs.
         Option.bind (ob_items devs a) (\<lambda>dev.
         Option.bind (gvcp_discovery_ack (dd_texts dev) (Some packet)) (\<lambda>(_, texts).
         Option.bind (set_item a (\<lambda>d. d\<lparr>dd_texts := texts\<rparr>) devs) (\<lambda>devs.
         Option.bind (device_print (dev\<lparr>dd_texts := texts\<rparr>)) (\<lambda>_.
         collect_devices fa iface (as, closed, devs))))))))"

partial_function (option) collect_all :: "find_answers \<Rightarrow> interface objects \<Rightarrow> int list \<times> device_data objects \<Rightarrow> addr \<Rightarrow>
    (int list \<times> device_data objects) option" where
  "collect_all fa ifaces s elem =
     (if \<not> list_is_valid_elem (ob_head ifaces) elem then Some s
      else Option.bind (ob_items ifaces elem) (\<lambda>iface.
        Option.bind (get_next (ob_heap ifaces) elem) (\<lambda>next.
        Option.bind (if_addr iface) (\<lambda>_.
        Option.bind (collect_devices fa iface (fa_answers fa elem, s)) (\<lambda>s. collect_all fa ifaces s next)))))"

definition prepare_devices_list :: "find_answers \<Rightarrow> (int list \<times> device_data objects) option" where
  "prepare_devices_list fa = do {
     p \<leftarrow> prepare_interfaces_list (fa_ifaces fa) (fa_addrs fa);
     devs \<leftarrow> devices_init (fa_devices fa);
     ifaces \<leftarrow> p;
     elem \<leftarrow> list_first_elem (ob_heap ifaces) (ob_head ifaces);
     (closed, devs) \<leftarrow> collect_all fa ifaces ([], devs) elem;
     (_, closed) \<leftarrow> ifaces_destroy (ifaces, closed);
     Some (closed, devs) }"

text \<open>The discovery that only prints and counts frees every device again, without its copy of the address.\<close>

partial_function (option) discover_devices :: "find_answers \<Rightarrow> interface \<Rightarrow> answer list \<times> int list \<times> int \<Rightarrow> (int list \<times> int) option" where
  "discover_devices fa iface s =
     Option.bind (listen_discovery_answer iface (fst s, fst (snd s))) (\<lambda>(p, as, closed). case p of
       None \<Rightarrow> Some (closed, snd (snd s))
     | Some (packet, from) \<Rightarrow>
         Option.bind (device_create (fa_alloc fa (nat (snd (snd s)))) (fa_names fa) (if_addr iface) from) (\<lambda>dev.
         Option.bind (gvcp_discovery_ack (dd_texts dev) (Some packet)) (\<lambda>(_, texts).
         Option.bind (device_print (dev\<lparr>dd_texts := texts\<rparr>)) (\<lambda>_.
         Option.bind (c_int (snd (snd s) + 1)) (\<lambda>cnt. discover_devices fa iface (as, closed, cnt))))))"

partial_function (option) discover_all :: "find_answers \<Rightarrow> interface objects \<Rightarrow> int list \<times> int \<Rightarrow> addr \<Rightarrow> (int list \<times> int) option" where
  "discover_all fa ifaces s elem =
     (if \<not> list_is_valid_elem (ob_head ifaces) elem then Some s
      else Option.bind (ob_items ifaces elem) (\<lambda>iface.
        Option.bind (get_next (ob_heap ifaces) elem) (\<lambda>next.
        Option.bind (if_addr iface) (\<lambda>_.
        Option.bind (discover_devices fa iface (fa_answers fa elem, s)) (\<lambda>s. discover_all fa ifaces s next)))))"

definition devices_discovery :: "find_answers \<Rightarrow> (int list \<times> int) option" where
  "devices_discovery fa = do {
     p \<leftarrow> prepare_interfaces_list (fa_ifaces fa) (fa_addrs fa);
     ifaces \<leftarrow> p;
     elem \<leftarrow> list_first_elem (ob_heap ifaces) (ob_head ifaces);
     (closed, cnt) \<leftarrow> discover_all fa ifaces ([], 0) elem;
     (_, closed) \<leftarrow> ifaces_destroy (ifaces, closed);
     Some (closed, cnt) }"

text \<open>The list stays allocated when a device is found, and is destroyed when none is.\<close>

partial_function (option) find_loop :: "string \<Rightarrow> device_data objects \<Rightarrow> addr \<Rightarrow> addr option" where
  "find_loop ident devs elem =
     (if \<not> list_is_valid_elem (ob_head devs) elem then Some NULL
      else Option.bind (ob_items devs elem) (\<lambda>dev.
        Option.bind (get_next (ob_heap devs) elem) (\<lambda>next.
        Option.bind (cstr (dd_ip dev)) (\<lambda>ip. if ip \<noteq> ident then find_loop ident devs next else Some elem))))"

definition device_find :: "string option \<Rightarrow> find_answers \<Rightarrow> (addr \<times> device_data objects option) option" where
  "device_find id_string fa = (case id_string of
     None \<Rightarrow> Some (NULL, None)
   | Some ident \<Rightarrow> if ident = [] then Some (NULL, None)
     else do {
       (_, devs) \<leftarrow> prepare_devices_list fa;
       elem \<leftarrow> list_first_elem (ob_heap devs) (ob_head devs);
       dev \<leftarrow> find_loop ident devs elem;
       if dev = NULL then do { _ \<leftarrow> devices_destroy devs; Some (NULL, None) }
       else Some (dev, Some devs) })"

subsection \<open>What is found\<close>

text \<open>The packets an interface accepts, up to the first answer that ends the receiving.\<close>

fun accepted :: "interface \<Rightarrow> answer list \<Rightarrow> (gvcp_packet \<times> u32) list" where
  "accepted iface [] = []"
| "accepted iface (An_recv bytes from mem # as) =
     (if 8 < length bytes \<and> accepts (ntohl (sa_addr (the (if_addr iface)))) (ntohl (sa_addr (the (if_netmask iface)))) (ntohl from)
      then [(packet_of_bytes (take (length mem) bytes @ drop (length bytes) mem), from)] else []) @ accepted iface as"
| "accepted iface (An_again # as) = accepted iface as"
| "accepted iface (An_recv_again # as) = accepted iface as"
| "accepted iface (_ # as) = []"

lemma discovery_loop_accepted:
  assumes "if_addr iface \<noteq> None" "if_netmask iface \<noteq> None"
  shows "case discovery_loop iface as of
      None \<Rightarrow> False
    | Some (None, _) \<Rightarrow> accepted iface as = []
    | Some (Some x, as') \<Rightarrow> accepted iface as = x # accepted iface as' \<and> length as' < length as"
proof -
  obtain addr mask where i: "if_addr iface = Some addr" "if_netmask iface = Some mask"
    using assms by auto
  show ?thesis
  proof (induction "as")
    case (Cons x "as")
    then show ?case
      by (cases x; cases "discovery_loop iface as") (auto simp: i split: option.splits)
  qed simp
qed

lemma find_loop_rep:
  assumes "objects_rep devs (xs @ ys)" "\<forall>(a, d) \<in> set ys. cstr (dd_ip d) \<noteq> None"
  shows "find_loop ident devs (hd (map fst ys @ [ob_head devs]))
    = Some (case find (\<lambda>(a, d). cstr (dd_ip d) = Some ident) ys of None \<Rightarrow> NULL | Some (a, d) \<Rightarrow> a)"
  using assms
proof (induction ys arbitrary: xs)
  case Nil
  then show ?case
    by (subst find_loop.simps) (simp add: list_is_valid_elem_def)
next
  case (Cons y ys)
  obtain a d where y: "y = (a, d)"
    by (cases y)
  have r: "objects_rep devs (xs @ (a, d) # ys)"
    using Cons.prems(1) y by simp
  obtain ip where ip: "cstr (dd_ip d) = Some ip"
    using Cons.prems(2) y by auto
  have "find_loop ident devs (hd (map fst ys @ [ob_head devs]))
      = Some (case find (\<lambda>(a, d). cstr (dd_ip d) = Some ident) ys of None \<Rightarrow> NULL | Some (a, d) \<Rightarrow> a)"
    using Cons.IH [of "xs @ [y]"] Cons.prems by simp
  then show ?case
    using y ip objects_rep_at [OF r] objects_rep_next [OF r]
    by (subst find_loop.simps) (auto simp: list_is_valid_elem_def)
qed

text \<open>Destroying a list closes the descriptor of every interface, once more for those whose answers were taken.\<close>

lemma ifaces_destroy_rep:
  assumes "objects_rep ifaces xs"
  shows "\<exists>ifaces'. ifaces_destroy (ifaces, closed) = Some (ifaces', closed @ map (if_fd \<circ> snd) xs) \<and> objects_rep ifaces' []"
  using assms
proof (induction xs arbitrary: ifaces closed)
  case Nil
  then have "list_is_empty (ob_heap ifaces) (ob_head ifaces) = Some True"
    using list_is_empty_is_list [of "ob_heap ifaces" "ob_head ifaces" "[]"] by (simp add: objects_rep_def)
  with Nil show ?case
    by (subst ifaces_destroy.simps) simp
next
  case (Cons x xs)
  obtain a i where x: "x = (a, i)"
    by (cases x)
  have r: "objects_rep ifaces ([] @ (a, i) # xs)"
    using Cons.prems x by simp
  have e: "list_is_empty (ob_heap ifaces) (ob_head ifaces) = Some False"
    using list_is_empty_is_list [of "ob_heap ifaces" "ob_head ifaces" "a # map fst xs"] r by (simp add: objects_rep_def)
  obtain st1 st2 where st: "object_unlink a ifaces = Some st1" "object_free a st1 = Some st2" "objects_rep st2 xs"
    "ob_items st1 = ob_items ifaces" "ob_head st2 = ob_head ifaces"
    using objects_remove_rep [OF r] by auto
  have "interface_delete a (ifaces, closed) = Some (st2, closed @ [if_fd i])"
    using st objects_rep_at [OF r] by (simp add: interface_delete_def)
  then show ?case
    using Cons.IH [OF st(3), of "closed @ [if_fd i]"] e objects_rep_first [OF r] x
    by (subst ifaces_destroy.simps) (simp add: comp_def)
qed

subsection \<open>Properties\<close>


definition demo_interface :: interface where
  "demo_interface = zero_interface\<lparr>if_fd := 5, if_addr := Some \<lparr>sa_family = AF_INET, sa_addr = htonl 0x0a000001, sa_port = 0\<rparr>,
     if_netmask := Some \<lparr>sa_family = AF_INET, sa_addr = htonl 0xff000000, sa_port = 0\<rparr>\<rparr>"


text \<open>
  The device found for an address is the first of the collected ones with that address, and NULL when none
  has it.
\<close>

theorem device_find_first:
  assumes "objects_rep devs xs" "\<forall>(a, d) \<in> set xs. cstr (dd_ip d) \<noteq> None"
  shows "Option.bind (list_first_elem (ob_heap devs) (ob_head devs)) (find_loop ident devs)
    = Some (case find (\<lambda>(a, d). cstr (dd_ip d) = Some ident) xs of None \<Rightarrow> NULL | Some (a, d) \<Rightarrow> a)"
  using find_loop_rep [of devs "[]" xs ident] objects_rep_first [OF assms(1)] assms by simp

definition demo_device :: "string \<Rightarrow> device_data" where
  "demo_device ip = zero_device\<lparr>dd_ip := ip @ [NUL]\<rparr>"

definition demo_devices :: "device_data objects" where
  "demo_devices = \<lparr>ob_head = 1, ob_heap = \<lparr>next_of = [1 \<mapsto> 2, 2 \<mapsto> 3, 3 \<mapsto> 4, 4 \<mapsto> 1], prev_of = [1 \<mapsto> 4, 2 \<mapsto> 1, 3 \<mapsto> 2, 4 \<mapsto> 3]\<rparr>,
     ob_items = [2 \<mapsto> demo_device ''cam1'', 3 \<mapsto> demo_device ''cam2'', 4 \<mapsto> demo_device ''cam2''], ob_cnt = 3\<rparr>"

theorem device_find_first_witness:
  "Option.bind (list_first_elem (ob_heap demo_devices) (ob_head demo_devices)) (find_loop ''cam2'' demo_devices) = Some 3"
proof -
  have "objects_rep demo_devices [(2, demo_device ''cam1''), (3, demo_device ''cam2''), (4, demo_device ''cam2'')]"
    by (simp add: demo_devices_def objects_rep_def is_list_def)
  from device_find_first [OF this, of "''cam2''"] show ?thesis
    by (simp add: demo_device_def cstr_def NUL_def)
qed

end
