(* ===== verification/Debug_Output.thy ===== *)
theory Debug_Output imports Pipeline_Module Ring_Buffer Discovery begin

section \<open>What is printed for debugging, and two functions nothing calls (pipeline_module.c, interface.c, gvcp.c, ring_buffer.c)\<close>

text \<open>
  Printing changes nothing, but it reads: through the pointers of a module, behind the bytes of a packet, up to the end of a name. The models give what
  is read for the text, and \<open>None\<close> where the reading is undefined. Addresses and thread identifiers are left out of
  the texts.
\<close>

subsection \<open>Modules\<close>

text \<open>\<open>flags\<close> is the memory the exit flags are in.\<close>

record module_report =
  mr_id :: int
  mr_idx :: int
  mr_state :: string
  mr_exit_flag :: "int option"
  mr_next :: "(int \<times> int) option"

definition pipeline_module_debug_out :: "(addr \<Rightarrow> int option) \<Rightarrow> addr \<Rightarrow> module_store \<Rightarrow> module_report option option" where
  "pipeline_module_debug_out flags a st =
     (if a = NULL then Some None
      else do {
        m \<leftarrow> ms_mods st a;
        flag \<leftarrow> (if mo_exit_flag m = NULL then Some None else map_option Some (flags (mo_exit_flag m)));
        nxt \<leftarrow> (if mo_next m = NULL then Some None else map_option (\<lambda>n. Some (mo_id n, mo_idx n)) (ms_mods st (mo_next m)));
        Some (Some \<lparr>mr_id = mo_id m, mr_idx = mo_idx m, mr_state = state_string (mo_state m), mr_exit_flag = flag, mr_next = nxt\<rparr>) })"

partial_function (option) debug_out_loop :: "(addr \<Rightarrow> int option) \<Rightarrow> addr \<Rightarrow> module_store \<Rightarrow> addr \<Rightarrow> module_report option list option" where
  "debug_out_loop flags l st item =
     (if \<not> list_is_valid_elem l item then Some []
      else Option.bind (pipeline_module_debug_out flags item st) (\<lambda>r.
        Option.bind (get_next (ms_heap st) item) (\<lambda>item'.
        Option.bind (debug_out_loop flags l st item') (\<lambda>rs. Some (r # rs)))))"

definition pipeline_modules_list_debug_out :: "(addr \<Rightarrow> int option) \<Rightarrow> addr \<Rightarrow> module_store \<Rightarrow> module_report option list option" where
  "pipeline_modules_list_debug_out flags l st = Option.bind (list_first_elem (ms_heap st) l) (debug_out_loop flags l st)"

text \<open>A list of modules whose pointers lead somewhere is printed whole, module by module.\<close>

definition pointers_ok :: "(addr \<Rightarrow> int option) \<Rightarrow> module_store \<Rightarrow> pmodule \<Rightarrow> bool" where
  "pointers_ok flags st m \<longleftrightarrow> (mo_exit_flag m = NULL \<or> flags (mo_exit_flag m) \<noteq> None) \<and> (mo_next m = NULL \<or> ms_mods st (mo_next m) \<noteq> None)"

lemma module_debug_out_iff:
  assumes "a \<noteq> NULL" "ms_mods st a = Some m"
  shows "(\<exists>r. pipeline_module_debug_out flags a st = Some (Some r) \<and> mr_id r = mo_id m) \<longleftrightarrow> pointers_ok flags st m"
  using assms by (auto simp: pipeline_module_debug_out_def pointers_ok_def)

lemma debug_out_loop_rep:
  assumes "store_rep l st (ps @ ms)" "\<forall>(a, m) \<in> set ms. pointers_ok flags st m"
  shows "\<exists>rs. debug_out_loop flags l st (hd (map fst ms @ [l])) = Some (map Some rs) \<and> map mr_id rs = map (mo_id \<circ> snd) ms"
  using assms
proof (induction ms arbitrary: ps)
  case Nil
  then show ?case
    by (simp add: debug_out_loop.simps [of _ l _ l] list_is_valid_elem_def)
next
  case (Cons p ms)
  obtain a m where p: "p = (a, m)"
    by (cases p)
  with Cons.prems have r: "store_rep l st (ps @ (a, m) # ms)" by simp
  have "a \<noteq> NULL"
    using store_rep_distinct [OF r] by auto
  then obtain x where x: "pipeline_module_debug_out flags a st = Some (Some x)" "mr_id x = mo_id m"
    using module_debug_out_iff [of a st m flags] store_rep_valid [OF r] Cons.prems(2) p by auto
  obtain rs where rs: "debug_out_loop flags l st (hd (map fst ms @ [l])) = Some (map Some rs)" "map mr_id rs = map (mo_id \<circ> snd) ms"
    using Cons.IH [of "ps @ [p]"] Cons.prems by auto
  have "debug_out_loop flags l st a = Some (map Some (x # rs))"
    using store_rep_valid [OF r] store_rep_next [OF r] x(1) rs(1) by (subst debug_out_loop.simps) simp
  then show ?case
    using p x(2) rs(2) by (intro exI [of _ "x # rs"]) simp
qed

lemma modules_list_debug_out_rep:
  assumes "store_rep l st ms" "\<forall>(a, m) \<in> set ms. pointers_ok flags st m"
  shows "\<exists>rs. pipeline_modules_list_debug_out flags l st = Some (map Some rs) \<and> map mr_id rs = map (mo_id \<circ> snd) ms"
  using debug_out_loop_rep [of l st "[]" ms flags] assms store_rep_first [OF assms(1)]
  by (simp add: pipeline_modules_list_debug_out_def)

subsection \<open>Interfaces\<close>

text \<open>
  \<open>interface_print\<close> turns an address into text with \<open>inet_ntop\<close>. The block of the address has 16 bytes, so the address of version 6 would be read
  behind it; another family is an error of \<open>inet_ntop\<close>.
\<close>

definition AF_INET6 :: int where "AF_INET6 = 10"

definition ip_text :: "u32 \<Rightarrow> string" where
  "ip_text a = (case map (\<lambda>b. show_int (int (unat b))) (mem32 a) of t # ts \<Rightarrow> t @ concat (map (\<lambda>t. CHR ''.'' # t) ts))"

definition interface_print :: "interface \<Rightarrow> string option" where
  "interface_print iface = do {
     addr \<leftarrow> if_addr iface;
     if sa_family addr = AF_INET then do {
       name \<leftarrow> cstr (if_name iface);
       Some (''Found inteface with name '' @ name @ '' ip '' @ ip_text (sa_addr addr) @ '' fd = '' @ show_int (if_fd iface) @ [CHR 0x0A]) }
     else if sa_family addr = AF_INET6 then None
     else Some (''[interface_print]: inet_ntop error'' @ [CHR 0x0A]) }"

text \<open>What \<open>prepare_interfaces_list\<close> prints is defined: a usable interface has an address of version 4, and its name ends.\<close>

lemma usable_interface_prints:
  assumes "usable i" "ia_addr i = Some addr" "NUL \<notin> set (ia_name i)" "length (ia_name i) < 80"
    and "strcpy_to 0 (ia_name i) (if_name zero_interface) = Some nm" "sa_family addr' = sa_family addr"
  shows "interface_print \<lparr>if_fd = fd, if_name = nm, if_addr = Some addr', if_netmask = netmask\<rparr> = Some (''Found inteface with name '' @ ia_name i
    @ '' ip '' @ ip_text (sa_addr addr') @ '' fd = '' @ show_int fd @ [CHR 0x0A])"
proof -
  have "cstr nm = Some (ia_name i)"
    using assms(3-5) by (auto simp: strcpy_to_0 zero_interface_def split: if_splits)
  then show ?thesis
    using assms(1,2,6) by (simp add: interface_print_def usable_def)
qed

subsection \<open>Packets\<close>

text \<open>The bytes from \<open>i\<close> on, as far as the packet has them: reading more is reading behind the block.\<close>

definition hex_dump :: "nat \<Rightarrow> nat \<Rightarrow> u8 list \<Rightarrow> string option" where
  "hex_dump i n bs = (if i + n \<le> length bs then Some (concat (map (\<lambda>b. show_hh b @ '' '') (take n (drop i bs)))) else None)"

definition print_packet_full :: "gvcp_packet \<Rightarrow> string option" where
  "print_packet_full p = Option.bind (hex_dump 0 (8 + unat (ntohs (gh_size p))) (packet_bytes p)) (\<lambda>t. Some (''packet: '' @ t @ [CHR 0x0A]))"

definition print_packet_header :: "gvcp_packet \<Rightarrow> string option" where
  "print_packet_header p = Option.bind (hex_dump 0 8 (packet_bytes p)) (\<lambda>t. Some (''header: '' @ t @ [CHR 0x0A]))"

definition print_packet_data :: "gvcp_packet \<Rightarrow> string option" where
  "print_packet_data p = Option.bind (hex_dump 8 (unat (ntohs (gh_size p))) (packet_bytes p)) (\<lambda>t. Some (''data: '' @ t @ [CHR 0x0A]))"

lemma packet_bytes_length: "length (packet_bytes p) = 8 + length (gp_data p)"
  by (simp add: packet_bytes_def)

lemma print_packet_faults:
  "print_packet_header p \<noteq> None"
  "print_packet_full p = None \<longleftrightarrow> length (gp_data p) < unat (ntohs (gh_size p))"
  "print_packet_data p = None \<longleftrightarrow> length (gp_data p) < unat (ntohs (gh_size p))"
  by (auto simp: print_packet_header_def print_packet_full_def print_packet_data_def hex_dump_def packet_bytes_length)

text \<open>The packets the program makes are printed whole; an answer that was cut to twelve bytes need not be.\<close>

lemma own_packets_print:
  "print_packet_full (fst (gvcp_read_register_packet addr i)) \<noteq> None" "print_packet_full (fst (gvcp_write_register_packet addr v i)) \<noteq> None"
  "print_packet_full (fst gvcp_discovery_packet) \<noteq> None"
proof -
  have "unat (ntohs (gh_size (fst (gvcp_read_register_packet addr i)))) = 4" "unat (ntohs (gh_size (fst (gvcp_write_register_packet addr v i)))) = 8"
    "unat (ntohs (gh_size (fst gvcp_discovery_packet))) = 0"
    by (simp_all add: gvcp_read_register_packet_def gvcp_write_register_packet_def gvcp_discovery_packet_def)
  then show "print_packet_full (fst (gvcp_read_register_packet addr i)) \<noteq> None" "print_packet_full (fst (gvcp_write_register_packet addr v i)) \<noteq> None"
    "print_packet_full (fst gvcp_discovery_packet) \<noteq> None"
    unfolding print_packet_faults by (simp_all add: gvcp_read_register_packet_def gvcp_write_register_packet_def)
qed

lemma cut_answer_print_faults:
  "12 \<le> length bs \<Longrightarrow> 4 < unat (ntohs (load16 (drop 4 bs))) \<Longrightarrow> print_packet_full (packet_of_bytes (take 12 bs)) = None"
  unfolding print_packet_faults by (simp add: packet_of_bytes_def load16_def drop_take)

subsection \<open>The earlier wait for an acknowledgement\<close>

text \<open>\<open>listen_packet_ack\<close> waits with \<open>select\<close>: the descriptor is ready, something else is, or there is nothing in time.\<close>

datatype select_event = Sel_none | Sel_other | Sel_recv "u8 list option"

fun listen_packet_ack :: "int \<Rightarrow> select_event list \<Rightarrow> gvcp_packet option" where
  "listen_packet_ack fd es = (if fd = - 1 then None else case es of
       [] \<Rightarrow> None
     | Sel_none # es \<Rightarrow> None
     | Sel_other # es \<Rightarrow> listen_packet_ack fd es
     | Sel_recv None # es \<Rightarrow> None
     | Sel_recv (Some bs) # es \<Rightarrow> (if length bs < 12 then listen_packet_ack fd es else Some (packet_of_bytes (take 12 bs))))"

declare listen_packet_ack.simps [simp del]

text \<open>It takes the same packets as the newer one.\<close>

fun select_of :: "gv_event \<Rightarrow> select_event" where
  "select_of Gv_error = Sel_none"
| "select_of Gv_timeout = Sel_none"
| "select_of (Gv_recv r) = Sel_recv r"

lemma ack_waits_agree:
  "aa_epoll a \<Longrightarrow> aa_ctl a \<Longrightarrow> listen_packet_ack fd (map select_of (aa_events a)) = listen_packet_ack_new fd a"
proof (cases "fd = - 1")
  case False
  have "listen_packet_ack fd (map select_of es) = ack_loop es" for es
    using False by (induction es rule: ack_loop.induct) (simp_all add: listen_packet_ack.simps)
  then show "aa_epoll a \<Longrightarrow> aa_ctl a \<Longrightarrow> ?thesis"
    using False by (simp add: listen_packet_ack_new_def)
qed (simp add: listen_packet_ack.simps listen_packet_ack_new_def)

subsection \<open>The end of a ring\<close>

definition ring_buffer_destroy :: "addr \<Rightarrow> (addr \<Rightarrow> ring option) \<Rightarrow> (addr \<Rightarrow> ring option) option" where
  "ring_buffer_destroy a rings = Option.bind (rings a) (\<lambda>_. Some (rings(a := None)))"

lemma ring_destroyed_once: "ring_buffer_destroy a rings = Some rings' \<Longrightarrow> rings' a = None \<and> ring_buffer_destroy a rings' = None \<and> (\<forall>b. b \<noteq> a \<longrightarrow> rings' b = rings b)"
  by (auto simp: ring_buffer_destroy_def split: Option.bind_splits)

end
