(* ===== verification/Spec2Isabelle.thy ===== *)
theory Spec2Isabelle
  imports Collector_Safety Object_Flow Object_Detection Polar_Debayer Pipeline_Liveness Pipeline_Client Command_Server Tcp_Process Gige_Camera
    Server_Start Storage_Data Dcl_Processor Debug_Output
begin

text \<open>
  The program processes the frames of industrial cameras. \<open>libcapture\<close> finds GigE cameras on the network,
  controls them with GVCP packets and receives their frames as GVSP packets. \<open>dclprocessor/pipeline\<close> runs a line of
  modules over chunks of shared memory: a thread of the parent per module and a child process per external
  module. \<open>dclprocessor/collector\<close> gathers the frames of several sources into named objects. \<open>dclprocessor/tcp\<close> takes requests over the network and hands commands to the pipeline. All of them keep
  their objects in the intrusive list of \<open>misc/include/misc/list.h\<close>, and the pipeline and the command server share the ring
  buffer of \<open>misc/src/ring_buffer.c\<close>. This development models these parts in the order of their calls and proves
  what they promise, or where the code does not keep the promise, what it does.

  \<^bold>\<open>Conventions\<close> (\<open>Prelude\<close>, \<open>C_String\<close>, \<open>C_Buffer\<close>).
  Unsigned integers of C are words of their width and wrap; an \<open>int\<close> is a HOL integer whose operations go through
  \<open>c_int\<close>, which faults on overflow. An operation with undefined behaviour (NULL, freed memory, a read or write
  outside of an allocation, signed overflow) is \<open>None\<close>; where a call can wait as well, the type is
  \<open>run\<close> with \<open>Done\<close>, \<open>Blocked\<close> and \<open>Fault\<close>. What the system or \<open>malloc\<close> answers is an argument. A \<open>char\<close> array is
  a list of the length of the array, and \<open>cstr\<close> reads the text up to its terminator. Printing to the console
  has no effect on the models, but reads that the printing does are kept where they can fault.
  What the sources take from the JSON library is the record \<open>json_ops\<close>, an argument of the definitions, with its documented behaviour as the hypothesis \<open>json_laws\<close>; \<open>tree_json\<close> is
  a library that satisfies it (\<open>Json_Library\<close>).
  The locale \<open>safe_machine\<close> of the prelude holds the induction over the reachable states of a step relation; the
  pipeline (\<open>pls\<close>, \<open>pll\<close>), the collector (\<open>chs\<close>, \<open>chf\<close>, \<open>chu\<close>) and the event server (\<open>svm\<close>) interpret it. \<open>node_list\<close> states what an owner of an
  intrusive list relies on, \<open>bounded_queue\<close> what a user of the ring does; both are interpreted on the code's models.
  \<open>forward_simulation\<close> is the contract of a refinement (\<open>objects\<close> interprets it), and \<open>named_container\<close> that of the four containers of the storage.

  \<^bold>\<open>Lists and rings.\<close>
  \<^item> \<open>Intrusive_List\<close>: \<open>list.h\<close>, statement by statement over two maps for \<open>next\<close> and \<open>prev\<close>; \<open>is_list\<close> relates a heap
    to the sequence it holds. Insertions splice, removals unlink, loops over a list end.
  \<^item> \<open>Object_List\<close>: a counted list of structures that embed a node, as interfaces and devices are kept.
  \<^item> \<open>Ring_Buffer\<close>: \<open>ring_buffer.c\<close>; within its capacity the ring refines a FIFO queue, and a push into a full
    ring, which the source does not refuse, overwrites or faults.

  \<^bold>\<open>The pipeline\<close> (\<open>dclprocessor/pipeline\<close>).
  \<^item> \<open>Shared_Memory\<close>: \<open>shared_memory_map.h\<close> and \<open>shared_memory.c\<close>; layout in 64-bit arithmetic, the region, the environment.
  \<^item> \<open>Process_Mngr\<close>: \<open>process_mngr.c\<close>, the table of 10 children with their semaphores.
  \<^item> \<open>Pipeline_Description\<close>: descriptions with the blocks they own, and the examples of \<open>pipeline_examples.c\<close>.
  \<^item> \<open>Pipeline_Config\<close>: \<open>config.cpp\<close>. The JSON library is not part of the sources; a file is what it reads from it.
    The recursive check is a total function (its measure is the number of modules not visited) and accepts exactly
    the modules in a line.
  \<^item> \<open>Pipeline_Module\<close>: \<open>pipeline_module.c\<close>, modules at the addresses of their list nodes.
  \<^item> \<open>Pipeline_Client\<close>: what a child finds in its environment.
  \<^item> \<open>Pipeline_Threads\<close>: \<open>pipeline.c\<close>, \<open>pipeline_client.c\<close> and the joins of the main thread as a step relation. A program
    counter names the next statement that touches shared data, so every interleaving of those is a run.
    \<open>Pipeline_Moves\<close> describes the steps, \<open>Pipeline_Invariants\<close> states the tokens between neighbours and
    the conservation of chunks, \<open>Pipeline_Safety\<close> proves them of all reachable states and derives the safety
    properties, \<open>Pipeline_Liveness\<close> shows that nothing is stuck, that a pipeline with the exit flag drains (a
    measure decreases with every step) and which faulty orders block it for ever.
  \<^item> \<open>Pipeline_Server\<close>: \<open>pipeline_server.c\<close>: building, starting and destroying a pipeline, with each failing start.

  \<^bold>\<open>The collector\<close> (\<open>dclprocessor/collector\<close>).
  \<^item> \<open>Collector_Description\<close>: \<open>source_description.c\<close> and \<open>collector_description.c\<close>, as blocks whose bytes are set in part.
  \<^item> \<open>Tcp_Source\<close>: the reader of frames in \<open>source_data_thread_tcp\<close>, turn by turn; whole frames arrive however they are
    cut behind their header, and a header in two pieces overruns.
  \<^item> \<open>Data_Source\<close>: the rest of \<open>source.c\<close>: creation, the thread of a camera, destruction.
  \<^item> \<open>Collector\<close>: \<open>collector.c\<close> and the loop of \<open>examples/simple_collector.c\<close>, with the threads of the sources and the destroying
    thread as a step relation like that of the pipeline. \<open>Collector_Handshake\<close> states the tokens that go round and proves
    them kept, \<open>Collector_Safety\<close> the names, the frames of an object and the ring of the client, and what a lost source does.
    The invariants hold while no exit flag is set; the flags are never reset.

  \<^bold>\<open>The storage of objects\<close> (\<open>libstorage\<close>, \<open>misc/include/misc/name_generator.h\<close>).
  \<^item> \<open>Object_Names\<close>: names made from the clock; different times give different names, and a name gives its time back.
  \<^item> \<open>Name_Map\<close>: the maps of the library, ordered by name.
  \<^item> \<open>Storage\<close>: frames with their images, framesets and object descriptors over maps that are ordered by name.
  \<^item> \<open>Storage_Interface\<close>: the functions of \<open>storage_interface.cpp\<close> on segments of named objects; up to ten sources find
    their own frames, and from eleven on the order of the names is not that of the sources.
  \<^item> \<open>Storage_Json\<close>: objects, framesets and frames as JSON values. Saving and loading gives back what is to be saved; frames of the C
    interface never are.
  \<^item> \<open>Storage_Data\<close>: the measured data of frames and objects (\<open>FrameData.cpp\<close>, \<open>ObjectData.cpp\<close>, \<open>Defect.cpp\<close>, \<open>FrameDataSet.cpp\<close>), which can be saved and not
    loaded. \<open>named_container\<close> states what frames, framesets, data and sets of data have in common (\<open>fr\<close>, \<open>fs\<close>, \<open>fd\<close>, \<open>ds\<close>).

  \<^bold>\<open>The processor\<close> (\<open>dclprocessor/processor\<close>, \<open>dclcomponents\<close>).
  \<^item> \<open>Processor_Actions\<close>: \<open>dclprocessor_old.cpp\<close>, what the first, middle and last module of a pipeline do with an object, and the
    callbacks the sources call; \<open>exec_object\<close>, the function of a module, is a parameter.
  \<^item> \<open>Object_Flow\<close>: these actions, the collector and the storage together. A run is any order of their calls; the
    abstract state is a log of frames for each object. \<open>forward_simulation\<close> is the contract of such a refinement, and \<open>objects\<close> its
    interpretation.
  \<^item> \<open>Object_Detection\<close>: the detection of the end of an object by three counters, against a definition over the frames seen.
  \<^item> \<open>Dcl_Processor\<close>: \<open>dclprocessor.c\<close> and \<open>dclprocessor_description.c\<close>, the structure that owns a pipeline and a collector, and
    the signals of a process (\<open>signal_reaction.c\<close> of the pipeline).

  \<^bold>\<open>Polarization images\<close> (\<open>libdclalgo/include/PolarExpand.h\<close>).
  \<^item> \<open>Polar_Expand\<close>: taking the mosaic of a polarization camera apart: the simple, the easy and the lite expansion. \<open>writes\<close> says which
    pixels a piece of a loop writes and what it may write; its rules follow the statements of the loops.
  \<^item> \<open>Polar_Debayer\<close>: the interpolating expansion, its fast version and the one without boundaries.

  \<^bold>\<open>The network\<close> (\<open>dclprocessor/tcp\<close>).
  \<^item> \<open>Connection\<close>: \<open>connection.c\<close>. A \<open>net\<close> holds the list, the records of the connections, the counter, the
    closed descriptors and the registrations of epoll.
  \<^item> \<open>Messenger\<close>: \<open>messenger.c\<close>, the server and the client with epoll, the requests and their parser, which is
    compared with a table of keywords. Turns of the event loops are lists of what the system answers.
  \<^item> \<open>Messenger_Server\<close>: the invariant of the event server over all events, stale events excluded by it.
  \<^item> \<open>Tcp_Ends\<close>: \<open>server.c\<close>, \<open>client.c\<close> and \<open>proxy.c\<close>, which create and destroy what the threads above run on.
  \<^item> \<open>Tcp_Process\<close>: \<open>tcp_process.c\<close>, the older server and client on \<open>select\<close>.
  \<^item> \<open>Command_Server\<close>: \<open>command_server.c\<close>, the queue of commands on the ring buffer and the thread that executes them
    on the pipeline.
  \<^item> \<open>Tmk_Server\<close>: \<open>dclcomponents/server.c\<close>, the program that runs the select server and the command server together: a line of
    a connection becomes a command of the queue.

  \<^bold>\<open>The configuration\<close> (\<open>libcommon\<close>).
  \<^item> \<open>Config_Elements\<close>: \<open>ServerSettings.cpp\<close>, \<open>FakeCameraConfig.cpp\<close> and \<open>meta_info.cpp\<close>, each with its fields and its JSON value.
  \<^item> \<open>Config_Nodes\<close>: \<open>PipelineConfig.cpp\<close>, the nodes of a pipeline, their checks and their comparison.
  \<^item> \<open>Configuration\<close>: \<open>config_factory.h\<close>, \<open>configurator.cpp\<close> and \<open>configuration_c.cpp\<close>: elements under keys of type and name, loading and
    saving, and the interface of the C programs. Exceptions are \<open>None\<close> or a value of \<open>config_error\<close>.
  \<^item> \<open>Server_Start\<close>: the command line of \<open>server.c\<close> together with these files.

  \<^bold>\<open>The cameras\<close> (\<open>libcapture\<close>).
  \<^item> \<open>Gvcp\<close>: \<open>gvcp.c\<close> and \<open>gige_camera_ops.c\<close>: packets in network order, the exchange with a device that is a parameter,
    and the operations of the six camera types, each of which refines a sequence of abstract steps on registers.
  \<^item> \<open>Gvsp\<close>: \<open>gvsp.h\<close>, the accessors over the bytes of a stream packet.
  \<^item> \<open>Camera_Stream\<close>: the thread of \<open>gige_camera.c\<close> that puts frames together.
  \<^item> \<open>Gige_Camera\<close>: opening, testing and closing a camera.
  \<^item> \<open>Discovery\<close>: \<open>interface.c\<close> and \<open>device.c\<close>, the broadcast on all interfaces and the list of devices.
  \<^item> \<open>Debug_Output\<close>: what modules, interfaces and packets print for debugging, with the reads this needs, and two functions of \<open>gvcp.c\<close>
    and \<open>ring_buffer.c\<close> beside the main paths.

  \<^bold>\<open>Loops and bounds.\<close>
  There is no fuel in the models. A loop over a list or over the answers of the system recurs on them; a loop whose end
  depends on the heap is a \<open>partial_function\<close>, and that it ends is proved where a list is represented. A
  loop of the source that waits for the network for ever ends in the model where the answers end, with a value that says so.
  The bounds are those of the source: 10 children, 50 frames of a source in an object, 512 names of 256 bytes, 20 commands of 512 bytes, messages of 512 bytes, 120000000 bytes of a frame.

  \<^bold>\<open>Not modelled.\<close>
  \<^item> The callbacks of \<open>simple_collector.c\<close> are what they record: the frame, with the name of the object.
  \<^item> \<open>pipeline_ok.c\<close> and \<open>src/pipeline_examples.c\<close> of the pipeline, \<open>dclprocessor.cpp\<close> and \<open>processor/src/pipeline.c\<close>: old copies that no
    build file names. Logging in \<open>misc\<close>, and \<open>print_backtrace\<close>.
  \<^item> The modules of \<open>dclcomponents\<close> that process images, the other image algorithms and filters (\<open>libdclalgo\<close>, \<open>libdclfilters\<close>),
    database and devices (\<open>dbpg\<close>, \<open>devhelper\<close>), the TCP capture classes and tools: C++ over
    OpenCV, PostgreSQL, Modbus and camera libraries whose code is not in the repository. No build file names \<open>devhelper\<close>, and headers it
    includes are missing.
  \<^item> In \<open>libstorage\<close> what is printed for debugging, and the getters and setters of single fields; in \<open>libcommon\<close> the texts of exceptions.
  \<^item> Real time: sleeps and time-outs are steps without a duration; weak memory: a step sees all earlier ones.
\<close>

end
